(* ===== verification/Prelude.thy ===== *)
theory Prelude
  imports Complex_Main "HOL-Library.Char_ord" "HOL-Library.List_Lexorder" "HOL-Library.Sublist"
begin

text \<open>
  Shared vocabulary of the development. Go strings are byte lists (\<open>string\<close>, a list of
  \<open>char\<close>), compared lexicographically by byte as Go compares them. A Go function that returns
  a value or an error is a function into \<open>'e + 'a\<close>: \<open>Inl\<close> carries the error and
  \<open>Inr\<close> the value. The theory holds the loops that stop at the first error, the parts of
  the packages \<open>strings\<close>, \<open>strconv\<close> and \<open>slices\<close> the program uses, and
  the generic lemmas on them.
\<close>

section \<open>Collections of facts\<close>

named_theorems exact_simps "what an operation on figures does to their exact value"

named_theorems keeps_wf "which operations keep which invariant"

section \<open>Results and loops that stop at the first error\<close>

definition rbind :: "'e + 'a \<Rightarrow> ('a \<Rightarrow> 'e + 'b) \<Rightarrow> 'e + 'b" where
  "rbind r f = (case r of Inl e \<Rightarrow> Inl e | Inr x \<Rightarrow> f x)"

definition rmap :: "('a \<Rightarrow> 'b) \<Rightarrow> 'e + 'a \<Rightarrow> 'e + 'b" where
  "rmap f r = (case r of Inl e \<Rightarrow> Inl e | Inr x \<Rightarrow> Inr (f x))"

definition is_ok :: "'e + 'a \<Rightarrow> bool" where
  "is_ok r = (case r of Inl _ \<Rightarrow> False | Inr _ \<Rightarrow> True)"

lemma rbind_simps [simp]:
  "rbind (Inl e) f = Inl e"
  "rbind (Inr x) f = f x"
  by (simp_all add: rbind_def)

lemma rmap_simps [simp]:
  "rmap f (Inl e) = Inl e"
  "rmap f (Inr x) = Inr (f x)"
  by (simp_all add: rmap_def)

lemma is_ok_simps [simp]:
  "\<not> is_ok (Inl e)"
  "is_ok (Inr x)"
  by (simp_all add: is_ok_def)

lemma rbind_eq_Inr: "rbind r f = Inr y \<longleftrightarrow> (\<exists>x. r = Inr x \<and> f x = Inr y)"
  by (cases r) auto

lemma rbind_eq_Inl: "rbind r f = Inl e \<longleftrightarrow> r = Inl e \<or> (\<exists>x. r = Inr x \<and> f x = Inl e)"
  by (cases r) auto

lemma rmap_eq_Inr: "rmap f r = Inr y \<longleftrightarrow> (\<exists>x. r = Inr x \<and> y = f x)"
  by (cases r) auto

lemma rmap_eq_Inl: "rmap f r = Inl e \<longleftrightarrow> r = Inl e"
  by (cases r) auto

lemmas result_eqs = rbind_eq_Inr rbind_eq_Inl rmap_eq_Inr rmap_eq_Inl

text \<open>\<open>for\<close> loops that append one result per element and return at the first error.\<close>

fun rtraverse :: "('a \<Rightarrow> 'e + 'b) \<Rightarrow> 'a list \<Rightarrow> 'e + 'b list" where
  "rtraverse f [] = Inr []"
| "rtraverse f (x # xs) = rbind (f x) (\<lambda>y. rmap (\<lambda>ys. y # ys) (rtraverse f xs))"

text \<open>\<open>for\<close> loops that thread a state and return at the first error.\<close>

fun rfold :: "('s \<Rightarrow> 'a \<Rightarrow> 'e + 's) \<Rightarrow> 's \<Rightarrow> 'a list \<Rightarrow> 'e + 's" where
  "rfold f s [] = Inr s"
| "rfold f s (x # xs) = rbind (f s x) (\<lambda>t. rfold f t xs)"

lemma rtraverse_eq_Inr: "rtraverse f xs = Inr ys \<longleftrightarrow> list_all2 (\<lambda>x y. f x = Inr y) xs ys"
  by (induction xs arbitrary: ys) (auto simp: result_eqs list_all2_Cons1)

lemma rtraverse_length: "rtraverse f xs = Inr ys \<Longrightarrow> length ys = length xs"
  by (auto simp: rtraverse_eq_Inr dest: list_all2_lengthD)

lemma rtraverse_in:
  "rtraverse f xs = Inr ys \<Longrightarrow> y \<in> set ys \<Longrightarrow> \<exists>x\<in>set xs. f x = Inr y"
  by (induction xs arbitrary: ys) (fastforce simp: result_eqs)+

lemma rtraverse_append:
  "rtraverse f (xs @ ys) = rbind (rtraverse f xs) (\<lambda>us. rmap (\<lambda>vs. us @ vs) (rtraverse f ys))"
proof (induction xs)
  case Nil
  show ?case by (cases "rtraverse f ys") auto
next
  case (Cons x xs)
  show ?case
    by (cases "f x"; cases "rtraverse f xs"; cases "rtraverse f ys") (auto simp: Cons)
qed

lemma rtraverse_Inl:
  "rtraverse f xs = Inl e \<longleftrightarrow>
     (\<exists>us x vs. xs = us @ x # vs \<and> f x = Inl e \<and> (\<forall>u\<in>set us. is_ok (f u)))"
proof (induction xs)
  case Nil
  show ?case by simp
next
  case (Cons x xs)
  show ?case
  proof (cases "f x")
    case (Inl d)
    have "(x # xs = us @ y # vs \<and> f y = Inl e \<and> (\<forall>u\<in>set us. is_ok (f u))) \<longleftrightarrow>
        (us = [] \<and> y = x \<and> vs = xs \<and> d = e)" for us y vs
      using Inl by (cases us) auto
    then show ?thesis using Inl by simp
  next
    case (Inr y)
    have "(\<exists>us z vs. x # xs = us @ z # vs \<and> f z = Inl e \<and> (\<forall>u\<in>set us. is_ok (f u))) \<longleftrightarrow>
        (\<exists>us z vs. xs = us @ z # vs \<and> f z = Inl e \<and> (\<forall>u\<in>set us. is_ok (f u)))"
      (is "?l \<longleftrightarrow> ?r")
    proof
      assume ?l
      then obtain us z vs where *: "x # xs = us @ z # vs" "f z = Inl e" "\<forall>u\<in>set us. is_ok (f u)"
        by blast
      then show ?r using Inr by (cases us) auto
    next
      assume ?r
      then obtain us z vs where "xs = us @ z # vs" "f z = Inl e" "\<forall>u\<in>set us. is_ok (f u)"
        by blast
      then show ?l using Inr by (intro exI [of _ "x # us"] exI [of _ z] exI [of _ vs]) auto
    qed
    then show ?thesis using Inr Cons by (auto simp: result_eqs)
  qed
qed

text \<open>\<open>for\<close> loops that return the first element that qualifies.\<close>

lemma find_first:
  "find P xs = Some x \<longleftrightarrow> (\<exists>us vs. xs = us @ x # vs \<and> P x \<and> (\<forall>u\<in>set us. \<not> P u))" (is "_ \<longleftrightarrow> ?r xs")
proof (induction xs)
  case Nil
  show ?case by simp
next
  case (Cons y ys)
  show ?case
  proof (cases "P y")
    case True
    have "?r (y # ys) \<longleftrightarrow> y = x"
    proof
      assume "?r (y # ys)"
      then obtain us vs where "y # ys = us @ x # vs" "\<forall>u\<in>set us. \<not> P u" by blast
      then show "y = x" using True by (cases us) auto
    next
      assume "y = x"
      then show "?r (y # ys)" using True by (intro exI [of _ "[]"] exI [of _ ys]) simp
    qed
    then show ?thesis using True by simp
  next
    case False
    have "?r (y # ys) \<longleftrightarrow> ?r ys"
    proof
      assume "?r (y # ys)"
      then obtain us vs where *: "y # ys = us @ x # vs" "P x" "\<forall>u\<in>set us. \<not> P u" by blast
      then show "?r ys" using False by (cases us) auto
    next
      assume "?r ys"
      then obtain us vs where "ys = us @ x # vs" "P x" "\<forall>u\<in>set us. \<not> P u" by blast
      then show "?r (y # ys)" using False by (intro exI [of _ "y # us"] exI [of _ vs]) simp
    qed
    then show ?thesis using False Cons by simp
  qed
qed

lemma rfold_append: "rfold f s (xs @ ys) = rbind (rfold f s xs) (\<lambda>t. rfold f t ys)"
proof (induction xs arbitrary: s)
  case Nil
  show ?case by simp
next
  case (Cons x xs)
  then show ?case by (cases "f s x") auto
qed

lemma rfold_invariant:
  assumes "rfold f s xs = Inr t" and "I s"
    and "\<And>u x v. x \<in> set xs \<Longrightarrow> I u \<Longrightarrow> f u x = Inr v \<Longrightarrow> I v"
  shows "I t"
  using assms by (induction xs arbitrary: s) (auto simp: result_eqs)

section \<open>Keyed tables\<close>

text \<open>
  A Go map whose entries the program later orders by key. The table keeps its keys in the order
  they were first met and holds each key once; \<open>upsert\<close> is the idiom
  \<open>entry, found := m[k]; if !found { entry = fresh; m[k] = entry }; update entry\<close>.
\<close>

fun upsert :: "'k \<Rightarrow> 'v \<Rightarrow> ('v \<Rightarrow> 'v) \<Rightarrow> ('k \<times> 'v) list \<Rightarrow> ('k \<times> 'v) list" where
  "upsert k fresh f [] = [(k, f fresh)]"
| "upsert k fresh f ((k', v) # kvs) =
     (if k = k' then (k', f v) # kvs else (k', v) # upsert k fresh f kvs)"

lemma map_of_upsert:
  "map_of (upsert k fresh f kvs) =
     (map_of kvs)(k \<mapsto> f (case map_of kvs k of None \<Rightarrow> fresh | Some v \<Rightarrow> v))"
  by (induction kvs) (auto split: option.splits)

lemma keys_upsert: "fst ` set (upsert k fresh f kvs) = insert k (fst ` set kvs)"
  by (induction k fresh f kvs rule: upsert.induct) (simp, simp, blast)

lemma distinct_upsert [keeps_wf]:
  "distinct (map fst kvs) \<Longrightarrow> distinct (map fst (upsert k fresh f kvs))"
proof (induction kvs)
  case Nil
  show ?case by simp
next
  case (Cons kv kvs)
  then show ?case using keys_upsert [of k fresh f kvs] by (cases kv) auto
qed

lemma upsert_values:
  "(k', v') \<in> set (upsert k fresh f kvs) \<Longrightarrow>
     (k', v') \<in> set kvs \<or> k' = k \<and> (v' = f fresh \<or> (\<exists>v. (k, v) \<in> set kvs \<and> v' = f v))"
  by (induction kvs) (auto split: if_splits)

text \<open>
  A loop that upserts one entry per item leaves under each key the fold of the items that name it,
  in their order: the table is a grouping.
\<close>

lemma map_of_keyed_fold:
  "map_of (foldl (\<lambda>m x. upsert (key x) (fresh (key x)) (upd x) m) m xs) k =
     (if filter (\<lambda>x. key x = k) xs = [] then map_of m k
      else Some (foldl (\<lambda>v x. upd x v) (case map_of m k of None \<Rightarrow> fresh k | Some v \<Rightarrow> v)
                   (filter (\<lambda>x. key x = k) xs)))"
proof (induction xs arbitrary: m)
  case Nil
  show ?case by simp
next
  case (Cons x xs)
  show ?case by (auto simp: Cons.IH map_of_upsert split: option.split)
qed

lemma keys_keyed_fold:
  "fst ` set (foldl (\<lambda>m x. upsert (key x) (fresh (key x)) (upd x) m) m xs) = fst ` set m \<union> key ` set xs"
proof (induction xs arbitrary: m)
  case Nil
  show ?case by simp
next
  case (Cons x xs)
  then show ?case by (simp add: keys_upsert)
qed

lemma distinct_keyed_fold [keeps_wf]:
  "distinct (map fst m) \<Longrightarrow>
     distinct (map fst (foldl (\<lambda>m x. upsert (key x) (fresh (key x)) (upd x) m) m xs))"
proof (induction xs arbitrary: m)
  case Nil
  then show ?case by simp
next
  case (Cons x xs)
  then show ?case by (simp add: distinct_upsert)
qed

lemma sorted_table:
  assumes "distinct (map fst m)"
  shows "(k, v) \<in> set m \<longleftrightarrow> map_of m k = Some v"
  using assms by (simp add: map_of_eq_Some_iff)

section \<open>Strings\<close>

text \<open>\<open>strings.HasPrefix\<close>, \<open>CutPrefix\<close>, \<open>CutSuffix\<close>, \<open>Cut\<close> and \<open>Contains\<close>.\<close>

definition cut_prefix :: "string \<Rightarrow> string \<Rightarrow> string \<times> bool" where
  "cut_prefix s p = (if prefix p s then (drop (length p) s, True) else (s, False))"

definition cut_suffix :: "string \<Rightarrow> string \<Rightarrow> string \<times> bool" where
  "cut_suffix s p = (if suffix p s then (take (length s - length p) s, True) else (s, False))"

fun cut_str :: "string \<Rightarrow> string \<Rightarrow> string \<times> string \<times> bool" where
  "cut_str [] sep = (if sep = [] then ([], [], True) else ([], [], False))"
| "cut_str (c # cs) sep =
     (if prefix sep (c # cs) then ([], drop (length sep) (c # cs), True)
      else (let (before, after, found) = cut_str cs sep in (c # before, after, found)))"

fun contains_str :: "string \<Rightarrow> string \<Rightarrow> bool" where
  "contains_str [] sub = (sub = [])"
| "contains_str (c # cs) sub = (prefix sub (c # cs) \<or> contains_str cs sub)"

text \<open>\<open>strings.Join\<close>.\<close>

fun join :: "string list \<Rightarrow> string \<Rightarrow> string" where
  "join [] sep = []"
| "join [x] sep = x"
| "join (x # xs) sep = x @ sep @ join xs sep"

text \<open>\<open>strings.Split\<close> at one separator byte.\<close>

fun split_at :: "string \<Rightarrow> char \<Rightarrow> string list" where
  "split_at [] sep = [[]]"
| "split_at (c # cs) sep =
     (if c = sep then [] # split_at cs sep
      else (case split_at cs sep of [] \<Rightarrow> [[c]] | f # fs \<Rightarrow> (c # f) # fs))"

lemma split_at_nonempty: "split_at s sep \<noteq> []"
  by (cases s) (auto split: list.splits)

lemma cut_str_single_not_found:
  "c \<notin> set s \<Longrightarrow> cut_str s [c] = (s, [], False)"
  by (induction s) auto

lemma cut_str_single_found:
  "c \<notin> set s \<Longrightarrow> cut_str (s @ c # t) [c] = (s, t, True)"
  by (induction s) auto

lemma cut_str_eq: "cut_str s sep = (b, a, f) \<Longrightarrow> s = (if f then b @ sep @ a else b)"
proof (induction s arbitrary: b a f)
  case Nil
  then show ?case by (auto split: if_splits)
next
  case (Cons c cs)
  show ?case
  proof (cases "prefix sep (c # cs)")
    case True
    then obtain r where r: "c # cs = sep @ r" by (auto simp: prefix_def)
    from Cons.prems True have "b = []" "f" "a = drop (length sep) (c # cs)" by auto
    with r show ?thesis by simp
  next
    case False
    obtain b' a' f' where r: "cut_str cs sep = (b', a', f')" by (metis prod_cases3)
    with False Cons.prems have "b = c # b'" "a = a'" "f = f'" by auto
    with Cons.IH [OF r] show ?thesis by auto
  qed
qed

lemma split_at_join:
  assumes "xs \<noteq> []" "\<forall>x\<in>set xs. sep \<notin> set x"
  shows "split_at (join xs [sep]) sep = xs"
proof -
  have single: "split_at x sep = [x]" if "sep \<notin> set x" for x using that by (induction x) auto
  have head: "split_at (x @ sep # ys) sep = x # split_at ys sep" if "sep \<notin> set x" for x ys
    using that by (induction x) auto
  show ?thesis using assms
  proof (induction xs)
    case (Cons x xs)
    then show ?case using single head by (cases xs) auto
  qed simp
qed

lemma split_at_pieces: "x \<in> set (split_at s sep) \<Longrightarrow> sep \<notin> set x"
proof (induction s arbitrary: x)
  case Nil
  then show ?case by simp
next
  case (Cons c s)
  then show ?case by (auto split: if_splits list.splits)
qed

section \<open>Characters and decimal digits\<close>

definition is_digit :: "char \<Rightarrow> bool" where
  "is_digit c \<longleftrightarrow> CHR ''0'' \<le> c \<and> c \<le> CHR ''9''"

definition is_lower :: "char \<Rightarrow> bool" where
  "is_lower c \<longleftrightarrow> CHR ''a'' \<le> c \<and> c \<le> CHR ''z''"

definition is_upper :: "char \<Rightarrow> bool" where
  "is_upper c \<longleftrightarrow> CHR ''A'' \<le> c \<and> c \<le> CHR ''Z''"

definition is_alnum :: "char \<Rightarrow> bool" where
  "is_alnum c \<longleftrightarrow> is_digit c \<or> is_lower c \<or> is_upper c"

definition is_hex :: "char \<Rightarrow> bool" where
  "is_hex c \<longleftrightarrow> is_digit c \<or> CHR ''a'' \<le> c \<and> c \<le> CHR ''f''"

definition digit_val :: "char \<Rightarrow> nat" where
  "digit_val c = of_char c - 48"

definition digit_char :: "nat \<Rightarrow> char" where
  "digit_char n = char_of (48 + n)"

definition lower_char :: "char \<Rightarrow> char" where
  "lower_char c = (if is_upper c then char_of (of_char c + 32 :: nat) else c)"

text \<open>\<open>strings.ToLower\<close> on the ASCII range, which is all a caller here looks at.\<close>

definition to_lower :: "string \<Rightarrow> string" where
  "to_lower s = map lower_char s"

lemma is_digit_code: "is_digit c \<longleftrightarrow> 48 \<le> (of_char c :: nat) \<and> (of_char c :: nat) \<le> 57"
  by (simp add: is_digit_def less_eq_char_def)

lemma of_char_digit_char [simp]: "n < 10 \<Longrightarrow> (of_char (digit_char n) :: nat) = 48 + n"
  by (simp add: digit_char_def)

lemma digit_val_digit_char [simp]: "n < 10 \<Longrightarrow> digit_val (digit_char n) = n"
  by (simp add: digit_val_def)

lemma is_digit_digit_char [simp]: "n < 10 \<Longrightarrow> is_digit (digit_char n)"
  by (simp add: is_digit_code)

lemma digit_char_digit_val [simp]: "is_digit c \<Longrightarrow> digit_char (digit_val c) = c"
  by (simp add: is_digit_code digit_char_def digit_val_def)

lemma digit_val_less: "is_digit c \<Longrightarrow> digit_val c < 10"
  unfolding is_digit_code digit_val_def by linarith

lemma digit_char_eq_iff: "m < 10 \<Longrightarrow> n < 10 \<Longrightarrow> digit_char m = digit_char n \<longleftrightarrow> m = n"
  by (metis digit_val_digit_char)

lemma digit_val_0_iff: "is_digit c \<Longrightarrow> digit_val c = 0 \<longleftrightarrow> c = CHR ''0''"
proof -
  assume "is_digit c"
  moreover have "digit_val (CHR ''0'') = 0" by (simp add: digit_val_def)
  moreover have "is_digit (CHR ''0'')" by (simp add: is_digit_code)
  ultimately show ?thesis by (metis digit_char_digit_val)
qed

text \<open>The value of a digit string, as \<open>big.Int.SetString\<close> reads it in base 10.\<close>

definition digits_val :: "string \<Rightarrow> nat" where
  "digits_val s = foldl (\<lambda>a c. 10 * a + digit_val c) 0 s"

lemma digits_val_acc: "foldl (\<lambda>a c. 10 * a + digit_val c) b s = b * 10 ^ length s + digits_val s"
proof (induction s arbitrary: b)
  case Nil
  then show ?case by (simp add: digits_val_def)
next
  case (Cons c s)
  have "digits_val (c # s) = digit_val c * 10 ^ length s + digits_val s"
    using Cons [of "digit_val c"] by (simp add: digits_val_def)
  then show ?case using Cons [of "digit_val c + b * 10"] by (simp add: algebra_simps)
qed

lemma digits_val_Nil [simp]: "digits_val [] = 0"
  by (simp add: digits_val_def)

lemma digits_val_Cons [simp]: "digits_val (c # s) = digit_val c * 10 ^ length s + digits_val s"
  using digits_val_acc [of "digit_val c" s] by (simp add: digits_val_def)

lemma digits_val_append: "digits_val (s @ t) = digits_val s * 10 ^ length t + digits_val t"
  by (induction s) (simp_all add: algebra_simps power_add)

lemma digits_val_less: "list_all is_digit s \<Longrightarrow> digits_val s < 10 ^ length s"
proof (induction s)
  case Nil
  show ?case by simp
next
  case (Cons c s)
  let ?p = "10 ^ length s :: nat"
  have "digit_val c \<le> 9" using Cons digit_val_less [of c] by simp
  then have "digit_val c * ?p \<le> 9 * ?p" by (rule mult_le_mono1)
  moreover have "digits_val s < ?p" using Cons by simp
  ultimately have "digit_val c * ?p + digits_val s < 9 * ?p + ?p" by (rule add_le_less_mono)
  then show ?case by simp
qed

lemma digits_val_replicate_0 [simp]: "digits_val (replicate n (CHR ''0'') @ s) = digits_val s"
  by (induction n) (simp_all add: digit_val_def)

text \<open>Two digit strings of one length with one value are equal.\<close>

lemma digits_val_inj:
  assumes "length s = length t" "list_all is_digit s" "list_all is_digit t"
    and "digits_val s = digits_val t"
  shows "s = t"
  using assms
proof (induction s t rule: list_induct2)
  case Nil
  show ?case by simp
next
  case (Cons c s d t)
  let ?p = "10 ^ length s :: nat"
  have b: "digits_val s < ?p" "digits_val t < ?p"
    using Cons digits_val_less [of s] digits_val_less [of t] by simp_all
  have eq: "digit_val c * ?p + digits_val s = digit_val d * ?p + digits_val t"
    using Cons by simp
  have "(digit_val c * ?p + digits_val s) div ?p = digit_val c"
    and "(digit_val d * ?p + digits_val t) div ?p = digit_val d"
    using b by simp_all
  with eq have c: "digit_val c = digit_val d" by metis
  with eq have "digits_val s = digits_val t" by simp
  with Cons have "s = t" by simp
  moreover have "is_digit c" "is_digit d" using Cons.prems by simp_all
  with c have "c = d" by (metis digit_char_digit_val)
  ultimately show ?case by simp
qed

text \<open>The digits of a number with no padding, as \<open>big.Int.String\<close> and \<open>strconv\<close> write it.\<close>

fun nat_string :: "nat \<Rightarrow> string" where
  "nat_string n = (if n < 10 then [digit_char n] else nat_string (n div 10) @ [digit_char (n mod 10)])"

declare nat_string.simps [simp del]

lemma nat_string_digits: "list_all is_digit (nat_string n)"
proof (induction n rule: nat_string.induct)
  case (1 n)
  then show ?case by (subst nat_string.simps) simp
qed

lemma nat_string_val [simp]: "digits_val (nat_string n) = n"
proof (induction n rule: nat_string.induct)
  case (1 n)
  show ?case
  proof (cases "n < 10")
    case True
    then show ?thesis by (subst nat_string.simps) simp
  next
    case False
    with 1 have "digits_val (nat_string (n div 10)) = n div 10" by simp
    with False show ?thesis by (subst nat_string.simps) (simp add: digits_val_append)
  qed
qed

lemma nat_string_nonempty [simp]: "nat_string n \<noteq> []"
  by (subst nat_string.simps) simp

lemma nat_string_head:
  "0 < n \<Longrightarrow> \<exists>c cs. nat_string n = c # cs \<and> is_digit c \<and> c \<noteq> CHR ''0''"
proof (induction n rule: nat_string.induct)
  case (1 n)
  show ?case
  proof (cases "n < 10")
    case True
    have "digit_val (CHR ''0'') = 0" by (simp add: digit_val_def)
    with True 1(2) have "digit_char n \<noteq> CHR ''0''" by (metis digit_val_digit_char less_irrefl)
    with True show ?thesis by (subst nat_string.simps) simp
  next
    case False
    then have "0 < n div 10" by simp
    with 1 False obtain c cs where "nat_string (n div 10) = c # cs" "is_digit c" "c \<noteq> CHR ''0''"
      by blast
    with False show ?thesis by (subst nat_string.simps) simp
  qed
qed

lemma digit_char_0: "digit_char 0 = CHR ''0''"
  using digit_char_digit_val [of "CHR ''0''"] by (simp add: digit_val_def is_digit_code)

lemma nat_string_0 [simp]: "nat_string 0 = ''0''"
  by (subst nat_string.simps) (simp add: digit_char_0)

text \<open>A canonical digit string is what \<open>nat_string\<close> writes of its value.\<close>

definition canonical_digits :: "string \<Rightarrow> bool" where
  "canonical_digits s \<longleftrightarrow>
     s = ''0'' \<or> (case s of [] \<Rightarrow> False | c # cs \<Rightarrow> is_digit c \<and> c \<noteq> CHR ''0'' \<and> list_all is_digit cs)"

lemma canonical_nat_string: "canonical_digits (nat_string n)"
proof (cases "n = 0")
  case True
  then show ?thesis by (simp add: canonical_digits_def)
next
  case False
  then obtain c cs where "nat_string n = c # cs" "is_digit c" "c \<noteq> CHR ''0''"
    using nat_string_head by blast
  then show ?thesis using nat_string_digits [of n] by (auto simp: canonical_digits_def)
qed

lemma canonical_digits_all: "canonical_digits s \<Longrightarrow> list_all is_digit s \<and> s \<noteq> []"
  by (auto simp: canonical_digits_def is_digit_code split: list.splits)

lemma canonical_digits_bounds:
  assumes "canonical_digits s" "s \<noteq> ''0''"
  shows "10 ^ (length s - 1) \<le> digits_val s \<and> digits_val s < 10 ^ length s"
proof -
  from assms obtain c cs where s: "s = c # cs" "is_digit c" "c \<noteq> CHR ''0''" "list_all is_digit cs"
    by (auto simp: canonical_digits_def split: list.splits)
  then have "1 \<le> digit_val c" using digit_val_0_iff [of c] by simp
  then have "10 ^ length cs \<le> digit_val c * 10 ^ length cs" by simp
  moreover have "digits_val s < 10 ^ length s" using s by (intro digits_val_less) simp
  ultimately show ?thesis using s by (simp add: trans_le_add1)
qed

lemma canonical_digits_inj:
  assumes "canonical_digits s" "canonical_digits t" "digits_val s = digits_val t"
  shows "s = t"
proof -
  have zero: "u = ''0''" if "canonical_digits u" "digits_val u = 0" for u
    using canonical_digits_bounds [OF that(1)] that(2) by fastforce
  have z: "digits_val ''0'' = 0" by (simp add: digit_val_def)
  show ?thesis
  proof (cases "s = ''0'' \<or> t = ''0''")
    case True
    then show ?thesis using zero assms z by metis
  next
    case False
    then have b: "10 ^ (length s - 1) \<le> digits_val s" "digits_val s < 10 ^ length s"
      "10 ^ (length t - 1) \<le> digits_val s" "digits_val s < 10 ^ length t"
      using canonical_digits_bounds assms by metis+
    have pow: "m < n" if "(10::nat) ^ m < 10 ^ n" for m n
      using that by (simp add: power_strict_increasing_iff)
    have "length s - 1 < length t" "length t - 1 < length s"
      using b by (auto intro: pow elim: le_less_trans)
    moreover have "length s \<noteq> 0" "length t \<noteq> 0"
      using canonical_digits_all assms by auto
    ultimately have "length s = length t" by linarith
    then show ?thesis using assms canonical_digits_all by (intro digits_val_inj) auto
  qed
qed

lemma nat_string_canonical: "canonical_digits s \<Longrightarrow> nat_string (digits_val s) = s"
  by (intro canonical_digits_inj canonical_nat_string) simp_all

lemma nat_string_inj: "nat_string m = nat_string n \<Longrightarrow> m = n"
  by (metis nat_string_val)

section \<open>Integers\<close>

text \<open>\<open>big.Int.QuoRem\<close>: division that truncates towards zero.\<close>

definition go_quo :: "int \<Rightarrow> int \<Rightarrow> int" where
  "go_quo a b = sgn a * sgn b * (\<bar>a\<bar> div \<bar>b\<bar>)"

definition go_rem :: "int \<Rightarrow> int \<Rightarrow> int" where
  "go_rem a b = a - go_quo a b * b"

text \<open>\<open>big.Int.Cmp\<close>.\<close>

definition go_cmp :: "int \<Rightarrow> int \<Rightarrow> int" where
  "go_cmp a b = (if a < b then - 1 else if a = b then 0 else 1)"

lemma go_quo_exact:
  assumes "(b::int) \<noteq> 0" "b dvd a"
  shows "go_quo a b = a div b"
proof -
  from assms(2) obtain k where a: "a = b * k" ..
  have "\<bar>b * k\<bar> div \<bar>b\<bar> = \<bar>k\<bar>" using assms(1) by (simp add: abs_mult)
  moreover have "sgn b * sgn b = 1" using assms(1) by (simp add: sgn_if)
  ultimately have "go_quo a b = sgn k * \<bar>k\<bar>"
    by (simp add: go_quo_def a sgn_mult mult.commute mult.left_commute)
  then show ?thesis using assms(1) by (simp add: a sgn_mult_abs)
qed

lemma go_rem_0_iff: "0 < (b::int) \<Longrightarrow> go_rem a b = 0 \<longleftrightarrow> b dvd a"
proof
  assume b: "0 < b" and "go_rem a b = 0"
  then have "a = go_quo a b * b" by (simp add: go_rem_def)
  then show "b dvd a" by (metis dvd_triv_right)
next
  assume "0 < b" "b dvd a"
  then show "go_rem a b = 0" by (simp add: go_rem_def go_quo_exact)
qed

text \<open>\<open>strconv.ParseInt(s, 10, 64)\<close>, and \<open>strconv.Atoi\<close> where an \<open>int\<close> has 64 bits.\<close>

definition parse_int64 :: "string \<Rightarrow> int option" where
  "parse_int64 s =
     (let (minus, ds) =
        (case s of [] \<Rightarrow> (False, [])
         | c # cs \<Rightarrow> if c = CHR ''-'' then (True, cs) else if c = CHR ''+'' then (False, cs) else (False, s))
      in if ds = [] \<or> \<not> list_all is_digit ds then None
         else let n = (if minus then - int (digits_val ds) else int (digits_val ds))
              in if - (2 ^ 63) \<le> n \<and> n < 2 ^ 63 then Some n else None)"

text \<open>\<open>strconv.FormatInt(n, 10)\<close>.\<close>

definition int_string :: "int \<Rightarrow> string" where
  "int_string n = (if n < 0 then CHR ''-'' # nat_string (nat (- n)) else nat_string (nat n))"

lemma parse_int64_int_string:
  assumes "- (2 ^ 63) \<le> n" "n < 2 ^ 63"
  shows "parse_int64 (int_string n) = Some n"
proof (cases "n < 0")
  case True
  then show ?thesis
    using assms nat_string_digits [of "nat (- n)"] by (simp add: parse_int64_def int_string_def)
next
  case False
  obtain c cs where s: "nat_string (nat n) = c # cs" by (cases "nat_string (nat n)") auto
  have d: "list_all is_digit (c # cs)" using nat_string_digits [of "nat n"] s by simp
  then have "c \<noteq> CHR ''-''" "c \<noteq> CHR ''+''" by (auto simp: is_digit_code)
  moreover have "digits_val (c # cs) = nat n" using nat_string_val [of "nat n"] s by simp
  ultimately show ?thesis
    using assms False s d by (simp add: parse_int64_def int_string_def del: digits_val_Cons)
qed

section \<open>Comparing digit strings\<close>

lemma append_less_append:
  "length s = length t \<Longrightarrow> s @ u < t @ v \<longleftrightarrow> s < t \<or> s = t \<and> u < (v :: 'a::linorder list)"
  by (induction s t rule: list_induct2) auto

lemma digit_less: "is_digit c \<Longrightarrow> is_digit d \<Longrightarrow> c < d \<longleftrightarrow> digit_val c < digit_val d"
  by (auto simp: is_digit_code digit_val_def less_char_def)

lemma digits_less:
  assumes "length s = length t" "list_all is_digit s" "list_all is_digit t"
  shows "s < t \<longleftrightarrow> digits_val s < digits_val t"
  using assms
proof (induction s t rule: list_induct2)
  case Nil
  show ?case by simp
next
  case (Cons c s d t)
  have b: "digits_val s < 10 ^ length t" "digits_val t < 10 ^ length t"
    using Cons digits_val_less [of s] digits_val_less [of t] by simp_all
  have c: "is_digit c" "is_digit d" using Cons by simp_all
  have step: "digit_val x * 10 ^ length t + digits_val u < digit_val y * 10 ^ length t + digits_val v"
    if "digit_val x < digit_val y" "digits_val u < 10 ^ length t" for x y u v
  proof -
    have "Suc (digit_val x) * 10 ^ length t \<le> digit_val y * 10 ^ length t"
      using that(1) by (intro mult_le_mono1) simp
    then show ?thesis using that(2) by simp
  qed
  consider "digit_val c < digit_val d" | "digit_val d < digit_val c" | "digit_val c = digit_val d" by linarith
  then show ?case
  proof cases
    case 1
    then show ?thesis using step [OF 1, of s t] b Cons digit_less [OF c] by simp
  next
    case 2
    then have "\<not> c < d" "c \<noteq> d" using digit_less [OF c] by auto
    then show ?thesis using step [OF 2, of t s] b Cons by simp
  next
    case 3
    then have "c = d" using c digit_char_digit_val by metis
    then show ?thesis using Cons by simp
  qed
qed

lemma nat_string_length: "n < 10 ^ w \<Longrightarrow> 0 < w \<Longrightarrow> length (nat_string n) \<le> w"
proof -
  assume a: "n < 10 ^ w" "0 < w"
  show ?thesis
  proof (cases "nat_string n = ''0''")
    case True
    then show ?thesis using a by simp
  next
    case False
    then have "(10::nat) ^ (length (nat_string n) - 1) < 10 ^ w"
      using canonical_digits_bounds [OF canonical_nat_string False] a by (metis le_less_trans nat_string_val)
    then have "length (nat_string n) - 1 < w" by (rule power_less_imp_less_exp [rotated]) simp
    then show ?thesis by simp
  qed
qed

section \<open>Integers of 64 bits\<close>

text \<open>The value an \<open>int64\<close> operation leaves when its exact result is \<open>n\<close>: addition and multiplication wrap.\<close>

definition wrap64 :: "int \<Rightarrow> int" where
  "wrap64 n = (n + 2 ^ 63) mod 2 ^ 64 - 2 ^ 63"

definition fits64 :: "int \<Rightarrow> bool" where
  "fits64 n \<longleftrightarrow> - (2 ^ 63) \<le> n \<and> n < 2 ^ 63"

lemma wrap64_fits [simp]: "fits64 (wrap64 n)"
proof -
  have "0 \<le> (n + 2 ^ 63) mod (2 ^ 64 :: int)" "(n + 2 ^ 63) mod (2 ^ 64 :: int) < 2 ^ 64" by simp_all
  then show ?thesis unfolding fits64_def wrap64_def by simp
qed

lemma wrap64_exact: "fits64 n \<Longrightarrow> wrap64 n = n"
  by (simp add: fits64_def wrap64_def)

section \<open>Text that came from outside\<close>

text \<open>A regular expression \<open>^[class]{lo,hi}$\<close>.\<close>

definition of_class :: "(char \<Rightarrow> bool) \<Rightarrow> nat \<Rightarrow> nat \<Rightarrow> string \<Rightarrow> bool" where
  "of_class ok lo hi s \<longleftrightarrow> lo \<le> length s \<and> length s \<le> hi \<and> list_all ok s"

definition hex64 :: "string \<Rightarrow> bool" where
  "hex64 = of_class is_hex 64 64"

definition is_space :: "char \<Rightarrow> bool" where
  "is_space c \<longleftrightarrow> c \<in> {CHR '' '', CHR 0x09, CHR 0x0A, CHR 0x0B, CHR 0x0C, CHR 0x0D}"

text \<open>\<open>strings.TrimSpace\<close> on ASCII text.\<close>

definition trim_space :: "string \<Rightarrow> string" where
  "trim_space s = rev (dropWhile is_space (rev (dropWhile is_space s)))"

definition trim_right :: "string \<Rightarrow> char \<Rightarrow> string" where
  "trim_right s c = rev (dropWhile (\<lambda>d. d = c) (rev s))"

definition hex_digit :: "nat \<Rightarrow> char" where
  "hex_digit n = (if n < 10 then digit_char n else char_of (87 + n))"

text \<open>
  The verb \<open>%q\<close> on text without bytes above 0x7E: the printable bytes as they are, the others
  escaped. A byte above 0x7E is kept here, as Go keeps a printable rune.
\<close>

definition quote_char :: "char \<Rightarrow> string" where
  "quote_char c =
     (if c = CHR 0x22 \<or> c = CHR 0x5C then [CHR 0x5C, c]
      else if c = CHR 0x07 then [CHR 0x5C, CHR ''a''] else if c = CHR 0x08 then [CHR 0x5C, CHR ''b'']
      else if c = CHR 0x0C then [CHR 0x5C, CHR ''f''] else if c = CHR 0x0A then [CHR 0x5C, CHR ''n'']
      else if c = CHR 0x0D then [CHR 0x5C, CHR ''r''] else if c = CHR 0x09 then [CHR 0x5C, CHR ''t'']
      else if c = CHR 0x0B then [CHR 0x5C, CHR ''v'']
      else if c < CHR '' '' \<or> c = CHR 0x7F then
        [CHR 0x5C, CHR ''x'', hex_digit (of_char c div 16), hex_digit (of_char c mod 16)]
      else [c])"

definition go_quote :: "string \<Rightarrow> string" where
  "go_quote s = CHR 0x22 # concat (map quote_char s) @ [CHR 0x22]"

text \<open>A JSON document as \<open>encoding/json\<close> reads it. A number keeps its text, as \<open>json.Number\<close> does.\<close>

datatype json =
    JNull
  | JBool bool
  | JNumber string
  | JString string
  | JArray "json list"
  | JObject "(string \<times> json) list"

text \<open>The last of two members with one name is the one the decoder keeps.\<close>

definition member_of :: "json \<Rightarrow> string \<Rightarrow> json option" where
  "member_of v k = (case v of JObject kvs \<Rightarrow> map_of (rev kvs) k | _ \<Rightarrow> None)"

text \<open>
  A \<open>bufio.Scanner\<close>'s lines: the text between line feeds, without an empty line at its end. The
  scanner hands a line over without its final carriage return, and refuses a line that fills its
  buffer.
\<close>

definition drop_cr :: "string \<Rightarrow> string" where
  "drop_cr s = (if s \<noteq> [] \<and> last s = CHR 0x0D then butlast s else s)"

definition raw_lines :: "string \<Rightarrow> string list" where
  "raw_lines s = (let ls = split_at s (CHR 0x0A) in if last ls = [] then butlast ls else ls)"

text \<open>The rows of a file: its lines without their endings, the empty ones left out.\<close>

definition row_lines :: "string \<Rightarrow> string list" where
  "row_lines source = filter (\<lambda>l. l \<noteq> []) (map drop_cr (raw_lines source))"

end
