(* ===== verification/Totals.thy ===== *)
theory Totals
  imports Prelude "HOL-Library.Multiset"
begin

text \<open>
  The interface between the arithmetic and everything that adds figures up. A client folds an
  addition over a list, or over the entries of a keyed table; the provider promises that its
  addition agrees with addition in a commutative monoid of exact values. The totals of the run, the
  policy, the ledger's view, reconciliation and the comment are all instances.
\<close>

locale exact_total =
  fixes zero :: "'a" and plus :: "'a \<Rightarrow> 'a \<Rightarrow> 'a"
    and val :: "'a \<Rightarrow> 'v::comm_monoid_add" and ok :: "'a \<Rightarrow> bool"
  assumes ok_zero: "ok zero"
    and ok_plus: "ok a \<Longrightarrow> ok b \<Longrightarrow> ok (plus a b)"
    and val_zero: "val zero = 0"
    and val_plus: "ok a \<Longrightarrow> ok b \<Longrightarrow> val (plus a b) = val a + val b"
begin

lemma ok_foldl: "ok a \<Longrightarrow> (\<forall>x\<in>set xs. ok x) \<Longrightarrow> ok (foldl plus a xs)"
  by (induction xs arbitrary: a) (auto intro: ok_plus)

lemma val_foldl:
  "ok a \<Longrightarrow> (\<forall>x\<in>set xs. ok x) \<Longrightarrow> val (foldl plus a xs) = val a + sum_list (map val xs)"
  by (induction xs arbitrary: a) (auto simp: ok_plus val_plus ac_simps)

lemma ok_total: "(\<forall>x\<in>set xs. ok x) \<Longrightarrow> ok (foldl plus zero xs)"
  by (rule ok_foldl [OF ok_zero])

lemma val_total: "(\<forall>x\<in>set xs. ok x) \<Longrightarrow> val (foldl plus zero xs) = sum_list (map val xs)"
  using val_foldl [OF ok_zero, of xs] by (simp add: val_zero)

text \<open>A total does not depend on the order its figures come in.\<close>

lemma val_total_permuted:
  assumes "mset xs = mset ys" "\<forall>x\<in>set xs. ok x"
  shows "val (foldl plus zero xs) = val (foldl plus zero ys)"
proof -
  have "set xs = set ys" using assms(1) by (rule mset_eq_setD)
  then have "\<forall>x\<in>set ys. ok x" using assms(2) by simp
  moreover have "sum_list (map val xs) = sum_list (map val ys)"
    using assms(1) by (metis mset_map sum_mset_sum_list)
  ultimately show ?thesis using assms(2) by (simp add: val_total)
qed

text \<open>
  Keyed totals: each item names a key and a figure, and the table adds the figure to the key's
  entry. Every key then holds exactly the sum of the figures that named it.
\<close>

lemma keyed_ok:
  assumes "\<forall>x\<in>set xs. ok (fig x)" "\<forall>k v. map_of m k = Some v \<longrightarrow> ok v"
  shows "\<forall>k v. map_of (foldl (\<lambda>m x. upsert (key x) zero (\<lambda>v. plus v (fig x)) m) m xs) k = Some v \<longrightarrow> ok v"
  using assms
proof (induction xs arbitrary: m)
  case Nil
  then show ?case by simp
next
  case (Cons x xs)
  have "\<forall>k v. map_of (upsert (key x) zero (\<lambda>v. plus v (fig x)) m) k = Some v \<longrightarrow> ok v"
    using Cons.prems by (auto simp: map_of_upsert ok_zero ok_plus split: option.splits)
  with Cons show ?case by simp
qed

lemma keyed_total:
  assumes "\<forall>x\<in>set xs. ok (fig x)" "\<forall>k v. map_of m k = Some v \<longrightarrow> ok v"
  shows "(case map_of (foldl (\<lambda>m x. upsert (key x) zero (\<lambda>v. plus v (fig x)) m) m xs) k of
            None \<Rightarrow> 0 | Some v \<Rightarrow> val v) =
         (case map_of m k of None \<Rightarrow> 0 | Some v \<Rightarrow> val v) +
         sum_list (map (\<lambda>x. val (fig x)) (filter (\<lambda>x. key x = k) xs))"
  using assms
proof (induction xs arbitrary: m)
  case Nil
  then show ?case by simp
next
  case (Cons x xs)
  let ?m = "upsert (key x) zero (\<lambda>v. plus v (fig x)) m"
  have ok: "\<forall>k v. map_of ?m k = Some v \<longrightarrow> ok v"
    using Cons.prems by (auto simp: map_of_upsert ok_zero ok_plus split: option.splits)
  have step: "(case map_of ?m k of None \<Rightarrow> 0 | Some v \<Rightarrow> val v) =
      (case map_of m k of None \<Rightarrow> 0 | Some v \<Rightarrow> val v) + (if key x = k then val (fig x) else 0)"
    using Cons.prems
    by (auto simp: map_of_upsert val_plus ok_zero val_zero split: option.splits)
  show ?case using Cons.IH [OF _ ok] Cons.prems by (simp add: step add.assoc)
qed

end

end
