(* ===== verification/Decimal.thy ===== *)
theory Decimal
  imports Totals
begin

text \<open>
  \<open>internal/decimal/decimal.go\<close>: an exact base-10 number, an integer coefficient over a
  power of ten. The coefficient is \<open>None\<close> in the zero value, whose Go coefficient is the nil
  pointer. Arithmetic on \<open>big.Int\<close> is arithmetic on \<open>int\<close>. The theory shows that
  every operation is exact on the rational the number stands for, that every result is in the one
  canonical form of its value, and that printing and parsing are inverse.
\<close>

section \<open>The number\<close>

record decimal =
  coefficient :: "int option"
  scale :: int

datatype decimal_error =
    NotPlain string
  | NoIntegerForm string
  | NotANumber string
  | ExponentOutOfRange string

definition zero_decimal :: decimal where
  "zero_decimal = \<lparr>coefficient = None, scale = 0\<rparr>"

definition int_of :: "decimal \<Rightarrow> int" where
  "int_of d = (case coefficient d of None \<Rightarrow> 0 | Some n \<Rightarrow> n)"

text \<open>The loop of \<open>normal\<close> strips trailing zeros of the fraction.\<close>

function strip_zeros :: "int \<Rightarrow> int \<Rightarrow> int \<times> int" where
  "strip_zeros c s =
     (if s > 0 then
        (let quotient = go_quo c 10; remainder = go_rem c 10
         in if remainder \<noteq> 0 then (c, s) else strip_zeros quotient (s - 1))
      else (c, s))"
  by pat_completeness auto
termination
  by (relation "measure (\<lambda>(c, s). nat s)") auto

declare strip_zeros.simps [simp del]

definition normal :: "decimal \<Rightarrow> decimal" where
  "normal d =
     (let (c, s) = strip_zeros (int_of d) (scale d) in \<lparr>coefficient = Some c, scale = s\<rparr>)"

text \<open>\<open>new(big.Int).Exp(10, e, nil)\<close> is 1 for a negative exponent.\<close>

definition exp10 :: "int \<Rightarrow> int" where
  "exp10 e = (if e \<le> 0 then 1 else 10 ^ nat e)"

section \<open>Arithmetic\<close>

definition rescale :: "decimal \<Rightarrow> int \<Rightarrow> int" where
  "rescale d s = int_of d * exp10 (s - scale d)"

definition aligned :: "decimal \<Rightarrow> decimal \<Rightarrow> int \<times> int \<times> int" where
  "aligned a b = (let s = max (scale a) (scale b) in (rescale a s, rescale b s, s))"

definition Add :: "decimal \<Rightarrow> decimal \<Rightarrow> decimal" where
  "Add d other =
     (let (a, b, s) = aligned d other in normal \<lparr>coefficient = Some (a + b), scale = s\<rparr>)"

definition Sub :: "decimal \<Rightarrow> decimal \<Rightarrow> decimal" where
  "Sub d other =
     (let (a, b, s) = aligned d other in normal \<lparr>coefficient = Some (a - b), scale = s\<rparr>)"

definition Mul :: "decimal \<Rightarrow> decimal \<Rightarrow> decimal" where
  "Mul d other =
     normal \<lparr>coefficient = Some (int_of d * int_of other), scale = scale d + scale other\<rparr>"

definition DivPow10 :: "decimal \<Rightarrow> int \<Rightarrow> decimal" where
  "DivPow10 d p = normal \<lparr>coefficient = Some (int_of d), scale = scale d + p\<rparr>"

definition shift :: "decimal \<Rightarrow> int \<Rightarrow> decimal" where
  "shift d p =
     (if p < 0 then DivPow10 d (- p)
      else normal \<lparr>coefficient = Some (int_of d * exp10 p), scale = scale d\<rparr>)"

definition FromInt :: "int \<Rightarrow> decimal" where
  "FromInt n = \<lparr>coefficient = Some n, scale = 0\<rparr>"

definition Cmp :: "decimal \<Rightarrow> decimal \<Rightarrow> int" where
  "Cmp d other = (let (a, b, s) = aligned d other in go_cmp a b)"

definition Sign :: "decimal \<Rightarrow> int" where
  "Sign d = sgn (int_of d)"

definition Scale :: "decimal \<Rightarrow> int" where
  "Scale d = scale (normal d)"

section \<open>Text\<close>

text \<open>The regular expression \<open>^(0|[1-9][0-9]*)(\.[0-9]+)?$\<close>.\<close>

definition literal :: "string \<Rightarrow> bool" where
  "literal text =
     (let (whole, fraction, found) = cut_str text ''.''
      in canonical_digits whole \<and> (found \<longrightarrow> fraction \<noteq> [] \<and> list_all is_digit fraction))"

definition SetString :: "string \<Rightarrow> int option" where
  "SetString s = (if s \<noteq> [] \<and> list_all is_digit s then Some (int (digits_val s)) else None)"

definition Parse :: "string \<Rightarrow> decimal_error + decimal" where
  "Parse text =
     (if \<not> literal text then Inl (NotPlain text)
      else
        (let (whole, fraction, found) = cut_str text ''.''
         in case SetString (whole @ fraction) of
              None \<Rightarrow> Inl (NoIntegerForm text)
            | Some n \<Rightarrow> Inr (normal \<lparr>coefficient = Some n, scale = int (length fraction)\<rparr>)))"

definition maxExponent :: int where
  "maxExponent = 64"

definition ParseNumber :: "string \<Rightarrow> decimal_error + decimal" where
  "ParseNumber text =
     (let (digits, negative) = cut_prefix text ''-'';
          (mantissa, exponent, scientific) = cut_str (to_lower digits) ''e''
      in case Parse mantissa of
           Inl _ \<Rightarrow> Inl (NotANumber text)
         | Inr value \<Rightarrow>
             rmap (\<lambda>v. if negative then Sub zero_decimal v else v)
               (if scientific then
                  (case parse_int64 exponent of
                     None \<Rightarrow> Inl (ExponentOutOfRange text)
                   | Some s \<Rightarrow>
                       if s > maxExponent \<or> s < - maxExponent then Inl (ExponentOutOfRange text)
                       else Inr (shift value s))
                else Inr value))"

definition String :: "decimal \<Rightarrow> string" where
  "String d =
     (let n = normal d;
          digits = nat_string (nat \<bar>int_of n\<bar>);
          sign = (if sgn (int_of n) < 0 then ''-'' else [])
      in if scale n = 0 then sign @ digits
         else
           let padded = (if int (length digits) \<le> scale n
                         then replicate (nat (scale n - int (length digits) + 1)) (CHR ''0'') @ digits
                         else digits);
               point = length padded - nat (scale n)
           in sign @ take point padded @ ''.'' @ drop point padded)"

definition MarshalJSON :: "decimal \<Rightarrow> string" where
  "MarshalJSON d = CHR 0x22 # String d @ [CHR 0x22]"

section \<open>The value a decimal stands for\<close>

definition wf_decimal :: "decimal \<Rightarrow> bool" where
  "wf_decimal d \<longleftrightarrow> 0 \<le> scale d"

definition canonical :: "decimal \<Rightarrow> bool" where
  "canonical d \<longleftrightarrow>
     0 \<le> scale d \<and> coefficient d \<noteq> None \<and> (0 < scale d \<longrightarrow> \<not> 10 dvd int_of d)"

definition dval :: "decimal \<Rightarrow> rat" where
  "dval d = of_int (int_of d) / 10 ^ nat (scale d)"

lemma canonical_wf [keeps_wf]: "canonical d \<Longrightarrow> wf_decimal d"
  by (simp add: canonical_def wf_decimal_def)

lemma int_of_simps [simp]:
  "int_of \<lparr>coefficient = Some n, scale = s\<rparr> = n"
  "int_of \<lparr>coefficient = None, scale = s\<rparr> = 0"
  by (simp_all add: int_of_def)

lemma zero_decimal_wf [simp, keeps_wf]: "wf_decimal zero_decimal"
  by (simp add: zero_decimal_def wf_decimal_def)

lemma zero_decimal_val [simp, exact_simps]: "dval zero_decimal = 0"
  by (simp add: zero_decimal_def dval_def)

lemma FromInt_wf [simp, keeps_wf]: "wf_decimal (FromInt n)"
  by (simp add: FromInt_def wf_decimal_def)

lemma FromInt_val [simp, exact_simps]: "dval (FromInt n) = of_int n"
  by (simp add: FromInt_def dval_def)

lemma strip_zeros_spec:
  assumes "strip_zeros c s = (c', s')" "0 \<le> s"
  shows "0 \<le> s' \<and> s' \<le> s \<and> c = c' * 10 ^ nat (s - s') \<and> (0 < s' \<longrightarrow> \<not> 10 dvd c')"
  using assms
proof (induction c s rule: strip_zeros.induct)
  case (1 c s)
  show ?case
  proof (cases "0 < s \<and> 10 dvd c")
    case True
    then have r: "go_rem c 10 = 0" and q: "go_quo c 10 = c div 10"
      by (simp_all add: go_rem_0_iff go_quo_exact)
    with True 1(2) have eq: "strip_zeros (c div 10) (s - 1) = (c', s')"
      by (simp add: strip_zeros.simps [of c s])
    have IH: "0 \<le> s' \<and> s' \<le> s - 1 \<and> c div 10 = c' * 10 ^ nat (s - 1 - s') \<and> (0 < s' \<longrightarrow> \<not> 10 dvd c')"
      using 1(1) [OF _ refl refl] True r q eq by simp
    then have "nat (s - s') = Suc (nat (s - 1 - s'))" by linarith
    moreover have "c = 10 * (c div 10)" using True by simp
    ultimately show ?thesis using IH by (simp add: mult.left_commute)
  next
    case False
    then have "(c', s') = (c, s)" and "0 < s \<longrightarrow> \<not> 10 dvd c"
      using 1(2) by (auto simp: strip_zeros.simps [of c s] go_rem_0_iff Let_def split: if_splits)
    then show ?thesis using 1(3) by simp
  qed
qed

lemma normal_canonical [keeps_wf]: "wf_decimal d \<Longrightarrow> canonical (normal d)"
  using strip_zeros_spec [of "int_of d" "scale d"]
  by (auto simp: normal_def canonical_def wf_decimal_def split: prod.splits)

lemma normal_val [simp, exact_simps]:
  assumes "wf_decimal d"
  shows "dval (normal d) = dval d"
proof -
  obtain c s where eq: "strip_zeros (int_of d) (scale d) = (c, s)" by force
  with assms have *: "0 \<le> s" "s \<le> scale d" "int_of d = c * 10 ^ nat (scale d - s)"
    using strip_zeros_spec [of "int_of d" "scale d" c s] by (auto simp: wf_decimal_def)
  then have "nat (scale d) = nat s + nat (scale d - s)" by simp
  then have "(10::rat) ^ nat (scale d) = 10 ^ nat s * 10 ^ nat (scale d - s)" by (simp add: power_add)
  then show ?thesis using eq * by (simp add: normal_def dval_def)
qed

lemma normal_wf [keeps_wf]: "wf_decimal d \<Longrightarrow> wf_decimal (normal d)"
  by (rule canonical_wf [OF normal_canonical])

lemma exp10_nonneg: "0 \<le> e \<Longrightarrow> exp10 e = 10 ^ nat e"
  by (simp add: exp10_def)

lemma exp10_pos: "0 < exp10 e"
  by (simp add: exp10_def)

lemma rescale_val:
  assumes "wf_decimal d" "scale d \<le> s"
  shows "of_int (rescale d s) = dval d * 10 ^ nat s"
proof -
  have "nat s = nat (s - scale d) + nat (scale d)" using assms by (simp add: wf_decimal_def)
  then have "(10::rat) ^ nat s = 10 ^ nat (s - scale d) * 10 ^ nat (scale d)"
    by (simp add: power_add)
  then show ?thesis using assms by (simp add: rescale_def dval_def exp10_nonneg)
qed

lemma aligned_val:
  assumes "wf_decimal a" "wf_decimal b" "aligned a b = (x, y, s)"
  shows "0 \<le> s \<and> of_int x = dval a * 10 ^ nat s \<and> of_int y = dval b * 10 ^ nat s"
proof -
  have "s = max (scale a) (scale b)" "x = rescale a s" "y = rescale b s"
    using assms(3) by (auto simp: aligned_def Let_def)
  then show ?thesis using assms(1,2) by (auto simp: rescale_val wf_decimal_def)
qed

lemma Add_wf [simp, keeps_wf]: "wf_decimal a \<Longrightarrow> wf_decimal b \<Longrightarrow> wf_decimal (Add a b)"
  by (auto simp: Add_def aligned_def Let_def wf_decimal_def intro!: normal_wf [unfolded wf_decimal_def])

lemma Sub_wf [simp, keeps_wf]: "wf_decimal a \<Longrightarrow> wf_decimal b \<Longrightarrow> wf_decimal (Sub a b)"
  by (auto simp: Sub_def aligned_def Let_def wf_decimal_def intro!: normal_wf [unfolded wf_decimal_def])

lemma Mul_wf [simp, keeps_wf]: "wf_decimal a \<Longrightarrow> wf_decimal b \<Longrightarrow> wf_decimal (Mul a b)"
  by (auto simp: Mul_def wf_decimal_def intro!: normal_wf [unfolded wf_decimal_def])

lemma DivPow10_wf [simp, keeps_wf]: "wf_decimal d \<Longrightarrow> 0 \<le> p \<Longrightarrow> wf_decimal (DivPow10 d p)"
  by (auto simp: DivPow10_def wf_decimal_def intro!: normal_wf [unfolded wf_decimal_def])

lemma shift_wf [simp, keeps_wf]: "wf_decimal d \<Longrightarrow> wf_decimal (shift d p)"
  by (auto simp: shift_def wf_decimal_def intro!: normal_wf [unfolded wf_decimal_def]
      DivPow10_wf [unfolded wf_decimal_def])

lemma Add_val [simp, exact_simps]:
  assumes "wf_decimal a" "wf_decimal b"
  shows "dval (Add a b) = dval a + dval b"
proof -
  obtain x y s where eq: "aligned a b = (x, y, s)" by (metis prod_cases3)
  with aligned_val [OF assms eq] show ?thesis
    by (simp add: Add_def wf_decimal_def) (simp add: dval_def add_divide_distrib)
qed

lemma Sub_val [simp, exact_simps]:
  assumes "wf_decimal a" "wf_decimal b"
  shows "dval (Sub a b) = dval a - dval b"
proof -
  obtain x y s where eq: "aligned a b = (x, y, s)" by (metis prod_cases3)
  with aligned_val [OF assms eq] show ?thesis
    by (simp add: Sub_def wf_decimal_def) (simp add: dval_def diff_divide_distrib)
qed

lemma Mul_val [simp, exact_simps]:
  assumes "wf_decimal a" "wf_decimal b"
  shows "dval (Mul a b) = dval a * dval b"
  using assms by (simp add: Mul_def wf_decimal_def) (simp add: dval_def nat_add_distrib power_add)

lemma DivPow10_val [simp, exact_simps]:
  assumes "wf_decimal d" "0 \<le> p"
  shows "dval (DivPow10 d p) = dval d / 10 ^ nat p"
  using assms by (simp add: DivPow10_def wf_decimal_def) (simp add: dval_def nat_add_distrib power_add)

lemma shift_val [simp, exact_simps]:
  assumes "wf_decimal d"
  shows "dval (shift d p) = (if p < 0 then dval d / 10 ^ nat (- p) else dval d * 10 ^ nat p)"
  using assms by (simp add: shift_def wf_decimal_def) (simp add: dval_def exp10_def)

lemma go_cmp_cases: "go_cmp a b = sgn (a - b)"
  by (simp add: go_cmp_def sgn_if)

lemma Cmp_val:
  assumes "wf_decimal a" "wf_decimal b"
  shows "Cmp a b = (if dval a < dval b then - 1 else if dval a = dval b then 0 else 1)"
proof -
  obtain x y s where eq: "aligned a b = (x, y, s)" by (metis prod_cases3)
  let ?p = "(10::rat) ^ nat s"
  have v: "of_int x = dval a * ?p" "of_int y = dval b * ?p" using aligned_val [OF assms eq] by auto
  have "x < y \<longleftrightarrow> of_int x < (of_int y :: rat)" "x = y \<longleftrightarrow> of_int x = (of_int y :: rat)" by auto
  then show ?thesis by (simp add: Cmp_def eq go_cmp_def v)
qed

lemma Cmp_simps [simp]:
  assumes "wf_decimal a" "wf_decimal b"
  shows "Cmp a b < 0 \<longleftrightarrow> dval a < dval b" "Cmp a b \<le> 0 \<longleftrightarrow> dval a \<le> dval b"
    "0 < Cmp a b \<longleftrightarrow> dval b < dval a" "0 \<le> Cmp a b \<longleftrightarrow> dval b \<le> dval a"
    "Cmp a b = 0 \<longleftrightarrow> dval a = dval b"
  by (auto simp: Cmp_val assms)

lemma dval_cases:
  "dval d < 0 \<longleftrightarrow> int_of d < 0" "dval d = 0 \<longleftrightarrow> int_of d = 0" "0 < dval d \<longleftrightarrow> 0 < int_of d"
  by (auto simp: dval_def divide_less_0_iff zero_less_divide_iff)

lemma Sign_simps [simp]:
  "Sign d < 0 \<longleftrightarrow> dval d < 0" "Sign d \<le> 0 \<longleftrightarrow> dval d \<le> 0"
  "0 < Sign d \<longleftrightarrow> 0 < dval d" "0 \<le> Sign d \<longleftrightarrow> 0 \<le> dval d" "Sign d = 0 \<longleftrightarrow> dval d = 0"
  using dval_cases [of d] by (auto simp: Sign_def sgn_if not_less [symmetric] simp del: not_less)

text \<open>Addition of decimals is the exact addition every total of the program folds.\<close>

interpretation dec: exact_total zero_decimal Add dval wf_decimal
  by unfold_locales simp_all

section \<open>One form for one value\<close>

lemma canonical_unique:
  assumes "canonical a" "canonical b" "dval a = dval b"
  shows "a = b"
proof -
  have main: "scale x \<le> scale y" if "canonical x" "canonical y" "dval x = dval y" for x y
  proof (rule ccontr)
    assume "\<not> scale x \<le> scale y"
    with that have s: "0 \<le> scale y" "scale y < scale x" by (auto simp: canonical_def)
    let ?k = "nat (scale x - scale y)"
    have "nat (scale x) = nat (scale y) + ?k" using s by simp
    then have "(10::rat) ^ nat (scale x) = 10 ^ nat (scale y) * 10 ^ ?k" by (simp add: power_add)
    with that(3) have "(of_int (int_of x) :: rat) = of_int (int_of y * 10 ^ ?k)"
      by (simp add: dval_def field_simps)
    then have "int_of x = int_of y * 10 ^ ?k" by (simp only: of_int_eq_iff)
    moreover have "10 dvd (10::int) ^ ?k" using s by (simp add: dvd_power)
    ultimately have "10 dvd int_of x" by simp
    with that(1) s show False by (simp add: canonical_def)
  qed
  have s: "scale a = scale b" using main [OF assms] main [OF assms(2,1)] assms(3) by simp
  with assms(3) have "int_of a = int_of b" by (simp add: dval_def)
  with assms(1,2) s show ?thesis
    by (cases a; cases b) (auto simp: canonical_def int_of_def)
qed

lemma normal_idem [simp]: "canonical d \<Longrightarrow> normal d = d"
  using canonical_wf [of d] by (intro canonical_unique normal_canonical) simp_all

lemma ops_canonical [keeps_wf]:
  "wf_decimal a \<Longrightarrow> wf_decimal b \<Longrightarrow> canonical (Add a b)"
  "wf_decimal a \<Longrightarrow> wf_decimal b \<Longrightarrow> canonical (Sub a b)"
  "wf_decimal a \<Longrightarrow> wf_decimal b \<Longrightarrow> canonical (Mul a b)"
  by (auto simp: Add_def Sub_def Mul_def aligned_def Let_def wf_decimal_def
      intro!: normal_canonical [unfolded wf_decimal_def])

section \<open>Printing and parsing\<close>

lemma literal_whole: "canonical_digits w \<Longrightarrow> literal w"
proof -
  assume w: "canonical_digits w"
  then have "CHR ''.'' \<notin> set w"
    using canonical_digits_all [OF w] by (auto simp: list_all_iff is_digit_code)
  then show ?thesis using w by (simp add: literal_def cut_str_single_not_found)
qed

lemma Parse_whole:
  assumes "canonical_digits w"
  shows "Parse w = Inr \<lparr>coefficient = Some (int (digits_val w)), scale = 0\<rparr>"
proof -
  have d: "list_all is_digit w" "w \<noteq> []" using canonical_digits_all [OF assms] by simp_all
  then have "CHR ''.'' \<notin> set w" by (auto simp: list_all_iff is_digit_code)
  then show ?thesis using assms d
    by (simp add: Parse_def literal_whole cut_str_single_not_found SetString_def canonical_def)
qed

lemma Parse_fraction:
  assumes "canonical_digits w" "f \<noteq> []" "list_all is_digit f"
  shows "Parse (w @ CHR ''.'' # f) =
    Inr (normal \<lparr>coefficient = Some (int (digits_val (w @ f))), scale = int (length f)\<rparr>)"
proof -
  have d: "list_all is_digit w" "w \<noteq> []" using canonical_digits_all [OF assms(1)] by simp_all
  then have "CHR ''.'' \<notin> set w" by (auto simp: list_all_iff is_digit_code)
  then have "cut_str (w @ CHR ''.'' # f) ''.'' = (w, f, True)" by (rule cut_str_single_found)
  then show ?thesis using assms d by (simp add: Parse_def literal_def SetString_def)
qed

text \<open>What \<open>literal\<close> admits, written as a shape.\<close>

lemma literal_cases:
  assumes "literal s"
  obtains (whole) "canonical_digits s"
  | (fraction) w f where "s = w @ CHR ''.'' # f" "canonical_digits w" "f \<noteq> []" "list_all is_digit f"
proof -
  obtain w f b where c: "cut_str s ''.'' = (w, f, b)" by (metis prod_cases3)
  with assms have l: "canonical_digits w" "b \<longrightarrow> f \<noteq> [] \<and> list_all is_digit f"
    by (simp_all add: literal_def)
  show thesis
  proof (cases b)
    case True
    then show thesis using l cut_str_eq [OF c] by (intro fraction [of w f]) auto
  next
    case False
    then show thesis using l cut_str_eq [OF c] by (intro whole) simp
  qed
qed

lemma Parse_ok_iff: "is_ok (Parse s) \<longleftrightarrow> literal s"
proof
  assume "literal s"
  then show "is_ok (Parse s)" by (cases rule: literal_cases) (simp_all add: Parse_whole Parse_fraction)
next
  assume "is_ok (Parse s)"
  then show "literal s" by (auto simp: Parse_def split: if_splits)
qed

lemma Parse_canonical [keeps_wf]:
  assumes "Parse s = Inr d"
  shows "canonical d \<and> 0 \<le> dval d"
proof -
  have "literal s" using Parse_ok_iff [of s] assms by simp
  then show ?thesis
  proof (cases rule: literal_cases)
    case whole
    then show ?thesis using assms by (auto simp: Parse_whole canonical_def dval_def)
  next
    case (fraction w f)
    let ?d = "\<lparr>coefficient = Some (int (digits_val (w @ f))), scale = int (length f)\<rparr>"
    have "d = normal ?d" using fraction assms by (simp add: Parse_fraction)
    moreover have "wf_decimal ?d" by (simp add: wf_decimal_def)
    moreover have "0 \<le> dval ?d" by (simp add: dval_def)
    ultimately show ?thesis by (simp add: normal_canonical)
  qed
qed

lemma take_canonical:
  assumes "canonical_digits s" "s \<noteq> ''0''" "0 < n"
  shows "canonical_digits (take n s)"
proof -
  from assms obtain c cs where "s = c # cs" "is_digit c" "c \<noteq> CHR ''0''" "list_all is_digit cs"
    by (auto simp: canonical_digits_def split: list.splits)
  then show ?thesis using assms(3) set_take_subset [of "n - 1" cs]
    by (cases n) (auto simp: canonical_digits_def list_all_iff)
qed

definition sign_text :: "decimal \<Rightarrow> string" where
  "sign_text d = (if int_of d < 0 then ''-'' else [])"

lemma String_whole:
  "canonical d \<Longrightarrow> scale d = 0 \<Longrightarrow> String d = sign_text d @ nat_string (nat \<bar>int_of d\<bar>)"
  by (simp add: String_def sign_text_def sgn_if)

lemma String_fraction:
  assumes "canonical d" "0 < scale d"
  obtains w f where "String d = sign_text d @ w @ CHR ''.'' # f" "canonical_digits w"
    "f \<noteq> []" "list_all is_digit f" "int (length f) = scale d" "int (digits_val (w @ f)) = \<bar>int_of d\<bar>"
proof -
  let ?m = "nat \<bar>int_of d\<bar>" and ?k = "nat (scale d)"
  let ?ds = "nat_string ?m"
  define p where "p = (if int (length ?ds) \<le> scale d
      then replicate (nat (scale d - int (length ?ds) + 1)) (CHR ''0'') @ ?ds else ?ds)"
  have "\<not> 10 dvd int_of d" using assms by (simp add: canonical_def)
  then have "0 < ?m" by auto
  then have nz: "?ds \<noteq> ''0''" using nat_string_inj [of ?m 0] by auto
  have digits: "list_all is_digit p"
    using nat_string_digits [of ?m] by (auto simp: p_def list_all_iff is_digit_code)
  have val: "digits_val p = ?m" by (simp add: p_def)
  have len: "?k < length p"
    using assms(2) by (auto simp: p_def)
  define w where "w = take (length p - ?k) p"
  define f where "f = drop (length p - ?k) p"
  have w: "canonical_digits w"
  proof (cases "int (length ?ds) \<le> scale d")
    case True
    then have "length p = ?k + 1" by (simp add: p_def)
    then have "w = ''0''" using True by (simp add: w_def p_def nat_add_distrib)
    then show ?thesis by (simp add: canonical_digits_def)
  next
    case False
    then show ?thesis using len nz
      by (simp add: w_def p_def take_canonical canonical_nat_string)
  qed
  have f: "length f = ?k" using len by (simp add: f_def)
  have "String d = sign_text d @ w @ CHR ''.'' # f"
    using assms by (simp add: String_def sign_text_def sgn_if Let_def p_def w_def f_def)
  moreover have "list_all is_digit f"
    using digits by (auto simp: f_def list_all_iff dest: in_set_dropD)
  moreover have "digits_val (w @ f) = ?m" using val by (simp add: w_def f_def)
  ultimately show thesis using w f assms(2) by (intro that [of w f]) auto
qed

lemma Parse_String_canonical:
  assumes "canonical d" "0 \<le> dval d"
  shows "Parse (String d) = Inr d"
proof -
  have n: "\<not> int_of d < 0" using assms(2) dval_cases(1) [of d] by simp
  have c: "coefficient d = Some (int_of d)" using assms(1) by (auto simp: canonical_def int_of_def)
  show ?thesis
  proof (cases "scale d = 0")
    case True
    then have "d = \<lparr>coefficient = Some (int_of d), scale = 0\<rparr>" using c by (cases d) simp
    then show ?thesis using True n assms(1)
      by (simp add: String_whole sign_text_def Parse_whole canonical_nat_string)
  next
    case False
    then have s: "0 < scale d" using assms(1) by (simp add: canonical_def)
    then obtain w f where *: "String d = sign_text d @ w @ CHR ''.'' # f" "canonical_digits w"
      "f \<noteq> []" "list_all is_digit f" "int (length f) = scale d" "int (digits_val (w @ f)) = \<bar>int_of d\<bar>"
      using String_fraction [OF assms(1)] by metis
    have "d = \<lparr>coefficient = Some (int (digits_val (w @ f))), scale = int (length f)\<rparr>"
      using c * n by (cases d) simp
    then have "normal \<lparr>coefficient = Some (int (digits_val (w @ f))), scale = int (length f)\<rparr> = d"
      using assms(1) by (metis normal_idem)
    then show ?thesis using * n by (simp add: sign_text_def Parse_fraction)
  qed
qed

lemma String_normal: "wf_decimal d \<Longrightarrow> String (normal d) = String d"
  by (simp add: String_def normal_canonical)

lemma Parse_String:
  "wf_decimal d \<Longrightarrow> 0 \<le> dval d \<Longrightarrow> Parse (String d) = Inr (normal d)"
  using Parse_String_canonical [of "normal d"] by (simp add: normal_canonical String_normal)

text \<open>The characters of a printed magnitude: none of them is a sign or an exponent mark.\<close>

lemma String_chars:
  assumes "canonical d"
  obtains t where "String d = sign_text d @ t" "set t \<subseteq> {c. is_digit c \<or> c = CHR ''.''}" "t \<noteq> []"
proof (cases "scale d = 0")
  case True
  then show thesis using assms nat_string_digits [of "nat \<bar>int_of d\<bar>"]
    by (intro that [of "nat_string (nat \<bar>int_of d\<bar>)"]) (auto simp: String_whole list_all_iff)
next
  case False
  then have "0 < scale d" using assms by (simp add: canonical_def)
  then obtain w f where "String d = sign_text d @ w @ CHR ''.'' # f" "canonical_digits w"
      "list_all is_digit f"
    using String_fraction [OF assms] by metis
  then show thesis using canonical_digits_all [of w]
    by (intro that [of "w @ CHR ''.'' # f"]) (auto simp: list_all_iff)
qed

lemma lower_plain: "set t \<subseteq> {c. is_digit c \<or> c = CHR ''.''} \<Longrightarrow> to_lower t = t"
proof (induction t)
  case Nil
  show ?case by (simp add: to_lower_def)
next
  case (Cons c t)
  then have "is_digit c \<or> c = CHR ''.''" by simp
  then have "\<not> is_upper c" by (auto simp: is_digit_code is_upper_def less_eq_char_def)
  with Cons show ?case by (simp add: to_lower_def lower_char_def)
qed

lemma plain_not_special:
  "set t \<subseteq> {c. is_digit c \<or> c = CHR ''.''} \<Longrightarrow> CHR ''e'' \<notin> set t \<and> CHR ''-'' \<notin> set t"
  by (auto simp: is_digit_code)

lemma Sub_zero_canonical:
  assumes "canonical d"
  shows "Sub zero_decimal d = \<lparr>coefficient = Some (- int_of d), scale = scale d\<rparr>"
proof (rule canonical_unique)
  show "canonical (Sub zero_decimal d)" using canonical_wf [OF assms] by (simp add: ops_canonical)
  show "canonical \<lparr>coefficient = Some (- int_of d), scale = scale d\<rparr>"
    using assms by (simp add: canonical_def)
  show "dval (Sub zero_decimal d) = dval \<lparr>coefficient = Some (- int_of d), scale = scale d\<rparr>"
    using canonical_wf [OF assms] by (simp add: dval_def [of d]) (simp add: dval_def)
qed

lemma String_negative:
  assumes "canonical d" "int_of d < 0"
  shows "String d = CHR ''-'' # String (Sub zero_decimal d)"
proof -
  have "canonical \<lparr>coefficient = Some (- int_of d), scale = scale d\<rparr>"
    using assms(1) by (simp add: canonical_def)
  then show ?thesis using assms by (simp add: Sub_zero_canonical String_def sgn_if Let_def)
qed

lemma ParseNumber_String_canonical:
  assumes "canonical d"
  shows "ParseNumber (String d) = Inr d"
proof (cases "int_of d < 0")
  case False
  then have "0 \<le> dval d" using dval_cases(1) [of d] by linarith
  with assms have P: "Parse (String d) = Inr d" by (rule Parse_String_canonical)
  obtain t where t: "String d = sign_text d @ t" "set t \<subseteq> {c. is_digit c \<or> c = CHR ''.''}" "t \<noteq> []"
    using String_chars [OF assms] by metis
  then have s: "String d = t" using False by (simp add: sign_text_def)
  have "cut_prefix t ''-'' = (t, False)"
    using t plain_not_special [OF t(2)] by (cases t) (auto simp: cut_prefix_def)
  moreover have "cut_str (to_lower t) ''e'' = (t, [], False)"
    using plain_not_special [OF t(2)] by (simp add: lower_plain [OF t(2)] cut_str_single_not_found)
  ultimately show ?thesis using P by (simp add: ParseNumber_def s)
next
  case True
  let ?m = "Sub zero_decimal d"
  have wf: "wf_decimal d" using assms by (rule canonical_wf)
  have m: "canonical ?m" "dval ?m = - dval d" using wf by (simp_all add: ops_canonical)
  then have "0 \<le> dval ?m" using True dval_cases(1) [of d] by simp
  with m have P: "Parse (String ?m) = Inr ?m" by (intro Parse_String_canonical)
  have twice: "Sub zero_decimal ?m = d"
    using m wf assms by (intro canonical_unique) (simp_all add: ops_canonical)
  have "0 < dval ?m" using m(2) True dval_cases(1) [of d] by simp
  then have "\<not> int_of ?m < 0" using dval_cases(1) [of ?m] by linarith
  then obtain t where t: "String ?m = t" "set t \<subseteq> {c. is_digit c \<or> c = CHR ''.''}"
    using String_chars [OF m(1)] by (metis append_Nil sign_text_def)
  have neg: "String d = CHR ''-'' # String ?m" using assms True by (rule String_negative)
  have "cut_prefix (CHR ''-'' # t) ''-'' = (t, True)" by (simp add: cut_prefix_def)
  moreover have "cut_str (to_lower t) ''e'' = (t, [], False)"
    using plain_not_special [OF t(2)] by (simp add: lower_plain [OF t(2)] cut_str_single_not_found)
  ultimately show ?thesis using P twice by (simp add: ParseNumber_def neg t(1))
qed

lemma ParseNumber_String: "wf_decimal d \<Longrightarrow> ParseNumber (String d) = Inr (normal d)"
  using ParseNumber_String_canonical [of "normal d"] by (simp add: normal_canonical String_normal)

lemma ParseNumber_canonical [keeps_wf]: "ParseNumber s = Inr d \<Longrightarrow> canonical d"
proof -
  assume P: "ParseNumber s = Inr d"
  obtain ds neg where c: "cut_prefix s ''-'' = (ds, neg)" by force
  obtain m e sci where k: "cut_str (to_lower ds) ''e'' = (m, e, sci)" by (metis prod_cases3)
  from P c k obtain v where v: "Parse m = Inr v" by (cases "Parse m") (auto simp: ParseNumber_def)
  then have "canonical v" by (simp add: Parse_canonical)
  then have wf: "wf_decimal v" by (rule canonical_wf)
  have sh: "canonical (shift v x)" for x
    using wf by (auto simp: shift_def DivPow10_def wf_decimal_def intro!: normal_canonical)
  have "\<exists>w. canonical w \<and> d = (if neg then Sub zero_decimal w else w)"
    using P c k v sh \<open>canonical v\<close>
    by (auto simp: ParseNumber_def rmap_eq_Inr simp del: rmap_simps split: if_splits option.splits)
  then show ?thesis by (auto simp: ops_canonical canonical_wf)
qed

section \<open>Properties\<close>

text \<open>
  C1. Money is exact: addition, subtraction, multiplication, division by a power of ten and
  comparison of decimals agree with the same operations on the rationals they stand for, with no
  rounding at any scale, and sums, differences and products come back in canonical form.
\<close>

theorem decimal_arithmetic_exact:
  assumes "wf_decimal a" "wf_decimal b" "0 \<le> p"
  shows "dval (Add a b) = dval a + dval b \<and> dval (Sub a b) = dval a - dval b \<and>
    dval (Mul a b) = dval a * dval b \<and> dval (DivPow10 a p) = dval a / 10 ^ nat p \<and>
    Cmp a b = (if dval a < dval b then - 1 else if dval a = dval b then 0 else 1) \<and>
    canonical (Add a b) \<and> canonical (Sub a b) \<and> canonical (Mul a b)"
  using assms by (simp add: Cmp_val ops_canonical)

theorem decimal_arithmetic_exact_witness:
  "dval (Add \<lparr>coefficient = Some 15, scale = 1\<rparr> \<lparr>coefficient = Some (- 25), scale = 2\<rparr>) = 5 / 4 \<and>
   canonical (Add \<lparr>coefficient = Some 15, scale = 1\<rparr> \<lparr>coefficient = Some (- 25), scale = 2\<rparr>)"
  using decimal_arithmetic_exact
    [of "\<lparr>coefficient = Some 15, scale = 1\<rparr>" "\<lparr>coefficient = Some (- 25), scale = 2\<rparr>" 6]
  by (simp add: wf_decimal_def dval_def)

text \<open>
  C10. Printing loses nothing: reading back what \<open>String\<close> writes with \<open>ParseNumber\<close>
  returns the canonical form of the number, whatever its sign, and two decimals print alike exactly
  when they stand for the same value.
\<close>

theorem decimal_text_round_trip:
  assumes "wf_decimal a" "wf_decimal b"
  shows "ParseNumber (String a) = Inr (normal a) \<and> (String a = String b \<longleftrightarrow> dval a = dval b)"
proof -
  have "normal a = normal b" if "String a = String b"
    using ParseNumber_String [OF assms(1)] ParseNumber_String [OF assms(2)] that by simp
  moreover have "String a = String b" if "dval a = dval b"
  proof -
    have "normal a = normal b" using that assms by (intro canonical_unique normal_canonical) simp_all
    then show ?thesis using String_normal [OF assms(1)] String_normal [OF assms(2)] by simp
  qed
  ultimately show ?thesis using ParseNumber_String [OF assms(1)] assms normal_val by metis
qed

theorem decimal_text_round_trip_witness:
  "ParseNumber ''-0.25'' = Inr \<lparr>coefficient = Some (- 25), scale = 2\<rparr>"
proof -
  let ?d = "\<lparr>coefficient = Some (- 25), scale = 2\<rparr>"
  have s: "String ?d = ''-0.25''" by code_simp
  have n: "normal ?d = ?d" by code_simp
  show ?thesis using decimal_text_round_trip [of ?d ?d] by (simp add: wf_decimal_def s n)
qed

text \<open>
  \<open>Parse\<close> accepts exactly the plain non-negative decimals (digits with no leading zero,
  then optionally a point and at least one digit) and returns, in canonical form, the number the
  digits denote. Every other text is refused, signs, exponents and blanks among them.
\<close>

theorem decimal_parse_exact:
  "Parse s = Inr d \<longleftrightarrow>
     (\<exists>w f. canonical_digits w \<and> list_all is_digit f \<and>
        s = w @ (if f = [] then [] else CHR ''.'' # f) \<and>
        canonical d \<and> dval d = of_nat (digits_val (w @ f)) / 10 ^ length f)"
proof
  assume P: "Parse s = Inr d"
  then have c: "canonical d" by (simp add: Parse_canonical)
  have "literal s" using P Parse_ok_iff [of s] by simp
  then show "\<exists>w f. canonical_digits w \<and> list_all is_digit f \<and>
      s = w @ (if f = [] then [] else CHR ''.'' # f) \<and>
      canonical d \<and> dval d = of_nat (digits_val (w @ f)) / 10 ^ length f"
  proof (cases rule: literal_cases)
    case whole
    then have "d = \<lparr>coefficient = Some (int (digits_val s)), scale = 0\<rparr>" using P by (simp add: Parse_whole)
    then show ?thesis using whole c by (intro exI [of _ s] exI [of _ "[]"]) (simp add: dval_def)
  next
    case (fraction w f)
    let ?d = "\<lparr>coefficient = Some (int (digits_val (w @ f))), scale = int (length f)\<rparr>"
    have d: "normal ?d = d" using fraction P by (simp add: Parse_fraction)
    have "wf_decimal ?d" by (simp add: wf_decimal_def)
    then have "dval d = dval ?d" using d normal_val by metis
    then show ?thesis using fraction c
      by (intro exI [of _ w] exI [of _ f]) (simp add: dval_def [of ?d])
  qed
next
  assume "\<exists>w f. canonical_digits w \<and> list_all is_digit f \<and>
      s = w @ (if f = [] then [] else CHR ''.'' # f) \<and>
      canonical d \<and> dval d = of_nat (digits_val (w @ f)) / 10 ^ length f"
  then obtain w f where *: "canonical_digits w" "list_all is_digit f"
      "s = w @ (if f = [] then [] else CHR ''.'' # f)" "canonical d"
      "dval d = of_nat (digits_val (w @ f)) / 10 ^ length f"
    by blast
  let ?d = "\<lparr>coefficient = Some (int (digits_val (w @ f))), scale = int (length f)\<rparr>"
  have wf: "wf_decimal ?d" by (simp add: wf_decimal_def)
  have "dval ?d = of_nat (digits_val (w @ f)) / 10 ^ length f" by (simp add: dval_def)
  then have "dval d = dval (normal ?d)" using *(5) normal_val [OF wf] by simp
  then have "normal ?d = d" using *(4) wf by (intro canonical_unique normal_canonical) simp_all
  moreover have "Parse s = Inr (normal ?d)"
    using * by (cases "f = []") (simp_all add: Parse_whole Parse_fraction canonical_def)
  ultimately show "Parse s = Inr d" by simp
qed

end
