(* ===== verification/Instant.thy ===== *)
theory Instant
  imports Prelude
begin

text \<open>
  The part of Go's package \<open>time\<close> the program uses, in UTC. An instant is its number of
  nanoseconds since the Unix epoch. The proleptic Gregorian calendar is written out, because
  billing periods, charge periods and the days of reconciliation are computed with it.
\<close>

section \<open>Instants\<close>

type_synonym instant = int

definition second_ns :: int where
  "second_ns = 1000000000"

definition day_ns :: int where
  "day_ns = 86400 * second_ns"

text \<open>\<open>time.Time{}\<close>, the first instant of year 1.\<close>

definition zero_time :: instant where
  "zero_time = - 62135596800 * second_ns"

text \<open>\<open>t.UTC().Truncate(time.Second)\<close>.\<close>

definition truncate_second :: "instant \<Rightarrow> instant" where
  "truncate_second t = t - t mod second_ns"

section \<open>The calendar\<close>

definition is_leap :: "int \<Rightarrow> bool" where
  "is_leap y \<longleftrightarrow> 4 dvd y \<and> (\<not> 100 dvd y \<or> 400 dvd y)"

text \<open>Days from the first day of year 1 to the first day of a year.\<close>

definition days_before_year :: "int \<Rightarrow> int" where
  "days_before_year y = 365 * (y - 1) + (y - 1) div 4 - (y - 1) div 100 + (y - 1) div 400"

text \<open>Days of a year before the first day of its month, month 13 being the year's end.\<close>

definition days_before_month :: "bool \<Rightarrow> int \<Rightarrow> int" where
  "days_before_month leap m =
     (if m \<le> 1 then 0 else if m = 2 then 31 else
        (if leap then 1 else 0) +
        (if m = 3 then 59 else if m = 4 then 90 else if m = 5 then 120 else if m = 6 then 151
         else if m = 7 then 181 else if m = 8 then 212 else if m = 9 then 243
         else if m = 10 then 273 else if m = 11 then 304 else if m = 12 then 334 else 365))"

definition year_of_day :: "int \<Rightarrow> int" where
  "year_of_day n =
     (let e = (400 * n) div 146097 + 1
      in if n < days_before_year e then e - 1
         else if days_before_year (e + 1) \<le> n then e + 1 else e)"

definition month_of_day :: "bool \<Rightarrow> int \<Rightarrow> int" where
  "month_of_day leap d =
     (if d < days_before_month leap 2 then 1 else if d < days_before_month leap 3 then 2
      else if d < days_before_month leap 4 then 3 else if d < days_before_month leap 5 then 4
      else if d < days_before_month leap 6 then 5 else if d < days_before_month leap 7 then 6
      else if d < days_before_month leap 8 then 7 else if d < days_before_month leap 9 then 8
      else if d < days_before_month leap 10 then 9 else if d < days_before_month leap 11 then 10
      else if d < days_before_month leap 12 then 11 else 12)"

text \<open>Days from the first day of year 1 to the Unix epoch.\<close>

definition epoch_days :: int where
  "epoch_days = 719162"

definition day_of :: "instant \<Rightarrow> int" where
  "day_of t = t div day_ns"

text \<open>\<open>t.Date()\<close>: year, month and day of the month.\<close>

definition date_of :: "instant \<Rightarrow> int \<times> int \<times> int" where
  "date_of t =
     (let n = day_of t + epoch_days;
          y = year_of_day n;
          yd = n - days_before_year y;
          m = month_of_day (is_leap y) yd
      in (y, m, yd - days_before_month (is_leap y) m + 1))"

text \<open>
  \<open>time.Date(y, m, d, 0, 0, 0, 0, time.UTC)\<close>, which carries a month past 12 into the year and
  a day past the month's end into the next.
\<close>

definition go_date :: "int \<Rightarrow> int \<Rightarrow> int \<Rightarrow> instant" where
  "go_date y m d =
     (let y' = y + (m - 1) div 12; m' = (m - 1) mod 12 + 1
      in (days_before_year y' + days_before_month (is_leap y') m' + d - 1 - epoch_days) * day_ns)"

text \<open>\<open>t.AddDate(0, n, 0)\<close> of an instant at midnight.\<close>

definition add_months :: "instant \<Rightarrow> int \<Rightarrow> instant" where
  "add_months t n = (let (y, m, d) = date_of t in go_date y (m + n) d)"

section \<open>Layouts\<close>

definition pad :: "nat \<Rightarrow> int \<Rightarrow> string" where
  "pad w n =
     (if n < 0 then CHR ''-'' # replicate (w - length (nat_string (nat (- n)))) (CHR ''0'') @ nat_string (nat (- n))
      else replicate (w - length (nat_string (nat n))) (CHR ''0'') @ nat_string (nat n))"

text \<open>\<open>t.UTC().Format("2006-01-02")\<close>.\<close>

definition format_day :: "instant \<Rightarrow> string" where
  "format_day t = (let (y, m, d) = date_of t in pad 4 y @ ''-'' @ pad 2 m @ ''-'' @ pad 2 d)"

text \<open>\<open>t.UTC().Format("2006-01-02T15:04:05Z")\<close>.\<close>

definition format_instant :: "instant \<Rightarrow> string" where
  "format_instant t =
     (let s = (t mod day_ns) div second_ns
      in format_day t @ ''T'' @ pad 2 (s div 3600) @ '':'' @ pad 2 ((s mod 3600) div 60) @ '':'' @
         pad 2 (s mod 60) @ ''Z'')"

section \<open>Reading an instant\<close>

text \<open>
  \<open>time.Parse\<close> with the layouts \<open>RFC3339\<close> and \<open>RFC3339Nano\<close>: the hour may have one digit, the
  seconds may have a fraction after a point or a comma, of which nine digits count, and the zone is Z or
  an offset.
\<close>

definition days_in :: "int \<Rightarrow> int \<Rightarrow> int" where
  "days_in y m = days_before_month (is_leap y) (m + 1) - days_before_month (is_leap y) m"

text \<open>A number of exactly \<open>w\<close> digits at the head of the text.\<close>

definition fixed_digits :: "nat \<Rightarrow> string \<Rightarrow> (int \<times> string) option" where
  "fixed_digits w s =
     (if w \<le> length s \<and> list_all is_digit (take w s)
      then Some (int (digits_val (take w s)), drop w s) else None)"

definition one_or_two_digits :: "string \<Rightarrow> (int \<times> string) option" where
  "one_or_two_digits s =
     (case fixed_digits 2 s of Some r \<Rightarrow> Some r | None \<Rightarrow> fixed_digits 1 s)"

definition literal_char :: "char \<Rightarrow> string \<Rightarrow> string option" where
  "literal_char c s = (case s of [] \<Rightarrow> None | d # ds \<Rightarrow> if d = c then Some ds else None)"

definition fraction_ns :: "string \<Rightarrow> int \<times> string" where
  "fraction_ns s =
     (case s of
        c # cs \<Rightarrow>
          (if (c = CHR ''.'' \<or> c = CHR '','') \<and> takeWhile is_digit cs \<noteq> []
           then (let ds = take 9 (takeWhile is_digit cs)
                 in (int (digits_val ds) * 10 ^ (9 - length ds), dropWhile is_digit cs))
           else (0, s))
      | [] \<Rightarrow> (0, s))"

definition zone_offset :: "string \<Rightarrow> int option" where
  "zone_offset s =
     (case s of
        [] \<Rightarrow> None
      | c # cs \<Rightarrow>
          if c = CHR ''Z'' then (if cs = [] then Some 0 else None)
          else if c = CHR ''+'' \<or> c = CHR ''-'' then
            (case fixed_digits 2 cs of
               None \<Rightarrow> None
             | Some (h, r1) \<Rightarrow>
                 (case literal_char (CHR '':'') r1 of
                    None \<Rightarrow> None
                  | Some r2 \<Rightarrow>
                      (case fixed_digits 2 r2 of
                         None \<Rightarrow> None
                       | Some (m, r3) \<Rightarrow>
                           if r3 \<noteq> [] \<or> 24 < h \<or> 60 < m then None
                           else Some ((if c = CHR ''-'' then - 1 else 1) * (h * 3600 + m * 60)))))
          else None)"

definition parse_date :: "string \<Rightarrow> (instant \<times> string) option" where
  "parse_date s =
     Option.bind (fixed_digits 4 s) (\<lambda>(y, s).
     Option.bind (literal_char (CHR ''-'') s) (\<lambda>s.
     Option.bind (fixed_digits 2 s) (\<lambda>(m, s).
     Option.bind (literal_char (CHR ''-'') s) (\<lambda>s.
     Option.bind (fixed_digits 2 s) (\<lambda>(d, s).
       if 1 \<le> m \<and> m \<le> 12 \<and> 1 \<le> d \<and> d \<le> days_in y m then Some (go_date y m d, s) else None)))))"

definition parse_clock :: "string \<Rightarrow> (int \<times> string) option" where
  "parse_clock s =
     Option.bind (one_or_two_digits s) (\<lambda>(h, s).
     Option.bind (literal_char (CHR '':'') s) (\<lambda>s.
     Option.bind (fixed_digits 2 s) (\<lambda>(m, s).
     Option.bind (literal_char (CHR '':'') s) (\<lambda>s.
     Option.bind (fixed_digits 2 s) (\<lambda>(sec, s).
       if h < 24 \<and> m < 60 \<and> sec < 60 then
         (let (ns, s) = fraction_ns s in Some ((h * 3600 + m * 60 + sec) * second_ns + ns, s))
       else None)))))"

definition parse_rfc3339 :: "string \<Rightarrow> instant option" where
  "parse_rfc3339 s =
     Option.bind (parse_date s) (\<lambda>(day, s).
     Option.bind (literal_char (CHR ''T'') s) (\<lambda>s.
     Option.bind (parse_clock s) (\<lambda>(clock, s).
     Option.bind (zone_offset s) (\<lambda>offset.
       Some (day + clock - offset * second_ns)))))"

section \<open>The calendar is right\<close>

lemma div_step:
  assumes "0 < (k::int)"
  shows "(y - 1) div k = (if k dvd y then y div k - 1 else y div k)"
proof (cases "k dvd y")
  case True
  then obtain q where q: "y = k * q" ..
  then have "y - 1 = k * (q - 1) + (k - 1)" by (simp add: algebra_simps)
  then have "(y - 1) div k = q - 1" by (rule int_div_pos_eq) (use assms in simp_all)
  then show ?thesis using True q assms by simp
next
  case False
  then have r: "0 < y mod k" using assms by (simp add: dvd_eq_mod_eq_0 order_less_le)
  have b: "y mod k < k" using assms by simp
  have "y - 1 = k * (y div k) + (y mod k - 1)" by simp
  then have "(y - 1) div k = y div k" by (rule int_div_pos_eq) (use r b in simp_all)
  then show ?thesis using False by simp
qed

lemma leap_arithmetic:
  fixes y p q r p' q' r' :: int
  assumes "p' = (if A then p - 1 else p)" "q' = (if B then q - 1 else q)"
    "r' = (if C then r - 1 else r)" "C \<longrightarrow> B" "B \<longrightarrow> A"
  shows "365 * y + p - q + r - (365 * (y - 1) + p' - q' + r') = (if A \<and> (\<not> B \<or> C) then 366 else 365)"
  using assms by (cases A; cases B; cases C) simp_all

lemma days_in_year:
  "days_before_year (y + 1) - days_before_year y = (if is_leap y then 366 else 365)"
proof -
  have c: "400 dvd y \<longrightarrow> 100 dvd y" "100 dvd y \<longrightarrow> 4 dvd y"
    by (rule impI, rule dvd_trans [rotated], assumption, simp)+
  have "365 * y + y div 4 - y div 100 + y div 400 -
      (365 * (y - 1) + (y - 1) div 4 - (y - 1) div 100 + (y - 1) div 400) =
      (if 4 dvd y \<and> (\<not> 100 dvd y \<or> 400 dvd y) then 366 else 365)"
    by (rule leap_arithmetic [OF div_step div_step div_step c]) simp_all
  then show ?thesis unfolding days_before_year_def is_leap_def by simp
qed

lemma days_before_year_Suc: "days_before_year y < days_before_year (y + 1)"
  using days_in_year [of y] by (auto split: if_splits)

text \<open>The estimate of the year is at most one year off, so the correction finds it.\<close>

lemma year_estimate:
  assumes "e = (400 * n) div 146097 + 1"
  shows "days_before_year (e - 1) \<le> n \<and> n < days_before_year (e + 2)"
proof -
  define q where "q = e - 1"
  have q: "146097 * q \<le> 400 * n" "400 * n < 146097 * q + 146097"
    using assms by (simp_all add: q_def)
  have d: "4 * (x div 4) \<le> x \<and> x \<le> 4 * (x div 4) + 3"
    "100 * (x div 100) \<le> x \<and> x \<le> 100 * (x div 100) + 99"
    "400 * (x div 400) \<le> x \<and> x \<le> 400 * (x div 400) + 399" for x :: int
    by presburger+
  have "days_before_year (e - 1) \<le> n"
    using q(1) d [of "q - 1"] by (simp add: days_before_year_def q_def)
  moreover have "n < days_before_year (e + 2)"
    using q(2) d [of "q + 2"] by (simp add: days_before_year_def q_def)
  ultimately show ?thesis ..
qed

lemma year_of_day_correct:
  "days_before_year (year_of_day n) \<le> n \<and> n < days_before_year (year_of_day n + 1)"
  using year_estimate [of "(400 * n) div 146097 + 1" n]
  by (auto simp: year_of_day_def Let_def add.commute)

lemma days_before_year_mono: "a \<le> b \<Longrightarrow> days_before_year a \<le> days_before_year b"
proof (induction "nat (b - a)" arbitrary: b)
  case 0
  then show ?case by simp
next
  case (Suc k)
  then have "days_before_year a \<le> days_before_year (b - 1)" by simp
  also have "\<dots> < days_before_year b" using days_before_year_Suc [of "b - 1"] by simp
  finally show ?case by simp
qed

lemma year_of_day_unique:
  assumes "days_before_year y \<le> n" "n < days_before_year (y + 1)"
  shows "year_of_day n = y"
proof (rule ccontr)
  assume "year_of_day n \<noteq> y"
  then consider "year_of_day n + 1 \<le> y" | "y + 1 \<le> year_of_day n" by linarith
  then show False
    using assms year_of_day_correct [of n] days_before_year_mono
    by cases (meson leD le_less_trans order_trans)+
qed

lemma month_of_day_correct:
  assumes "0 \<le> d" "d < (if leap then 366 else 365)"
  shows "1 \<le> month_of_day leap d \<and> month_of_day leap d \<le> 12 \<and>
    days_before_month leap (month_of_day leap d) \<le> d \<and>
    d < days_before_month leap (month_of_day leap d + 1)"
  using assms by (cases leap) (simp_all add: month_of_day_def days_before_month_def)

lemma year_length:
  "days_before_year (y + 1) = days_before_year y + days_before_month (is_leap y) 13"
  using days_in_year [of y] by (cases "is_leap y") (simp_all add: days_before_month_def)

lemma month_cases:
  assumes "1 \<le> (m::int)" "m \<le> 12"
  shows "m = 1 \<or> m = 2 \<or> m = 3 \<or> m = 4 \<or> m = 5 \<or> m = 6 \<or> m = 7 \<or> m = 8 \<or> m = 9 \<or>
    m = 10 \<or> m = 11 \<or> m = 12"
  using assms by presburger

lemma day_of_bounds: "day_of t * day_ns \<le> t \<and> t < (day_of t + 1) * day_ns"
proof -
  have p: "0 < day_ns" by (simp add: day_ns_def second_ns_def)
  have "day_of t * day_ns + t mod day_ns = t" by (simp add: day_of_def)
  moreover have "0 \<le> t mod day_ns" "t mod day_ns < day_ns" using p by simp_all
  ultimately show ?thesis by (simp add: distrib_right)
qed

lemma day_of_unique: "n * day_ns \<le> t \<Longrightarrow> t < (n + 1) * day_ns \<Longrightarrow> day_of t = n"
proof -
  assume a: "n * day_ns \<le> t" "t < (n + 1) * day_ns"
  have "t = day_ns * n + (t - n * day_ns)" by simp
  then show ?thesis unfolding day_of_def by (rule int_div_pos_eq) (use a in \<open>simp_all add: distrib_right\<close>)
qed

lemma day_of_midnight [simp]: "day_of (n * day_ns) = n"
  by (rule day_of_unique) (simp_all add: day_ns_def second_ns_def)

text \<open>The date of an instant, as the day it names and its place in the month and the year.\<close>

lemma date_of_bounds:
  assumes "date_of t = (y, m, d)"
  shows "1 \<le> m \<and> m \<le> 12 \<and> 1 \<le> d \<and>
    d \<le> days_before_month (is_leap y) (m + 1) - days_before_month (is_leap y) m \<and>
    day_of t = days_before_year y + days_before_month (is_leap y) m + d - 1 - epoch_days"
proof -
  define n where "n = day_of t + epoch_days"
  define yd where "yd = n - days_before_year y"
  have y: "y = year_of_day n" and m: "m = month_of_day (is_leap y) yd"
    and d: "d = yd - days_before_month (is_leap y) m + 1"
    using assms by (auto simp: date_of_def Let_def n_def yd_def)
  have "0 \<le> yd" "yd < (if is_leap y then 366 else 365)"
    using year_of_day_correct [of n] days_in_year [of y] by (simp_all add: yd_def y)
  then have "1 \<le> m \<and> m \<le> 12 \<and> days_before_month (is_leap y) m \<le> yd \<and>
      yd < days_before_month (is_leap y) (m + 1)"
    unfolding m by (rule month_of_day_correct)
  then show ?thesis by (auto simp: d yd_def n_def)
qed

lemma go_date_month:
  "1 \<le> m \<Longrightarrow> m \<le> 12 \<Longrightarrow>
    go_date y m d = (days_before_year y + days_before_month (is_leap y) m + d - 1 - epoch_days) * day_ns"
  by (simp add: go_date_def Let_def)

lemma go_date_next_month:
  assumes "1 \<le> m" "m \<le> 12"
  shows "go_date y (m + 1) d =
    (days_before_year y + days_before_month (is_leap y) (m + 1) + d - 1 - epoch_days) * day_ns"
proof (cases "m = 12")
  case True
  then show ?thesis using year_length [of y] by (simp add: go_date_def days_before_month_def)
next
  case False
  then show ?thesis using assms go_date_month [of "m + 1" y d] by simp
qed

lemma month_of_day_unique:
  assumes "1 \<le> m" "m \<le> 12" "days_before_month leap m \<le> d" "d < days_before_month leap (m + 1)"
  shows "month_of_day leap d = m"
  using month_cases [OF assms(1,2)] assms(3,4)
  by (cases leap) (auto simp: month_of_day_def days_before_month_def)

lemma days_before_month_range:
  "1 \<le> m \<Longrightarrow> m \<le> 13 \<Longrightarrow>
    0 \<le> days_before_month leap m \<and> days_before_month leap m \<le> days_before_month leap 13"
  by (simp add: days_before_month_def)

lemma date_of_go_date:
  assumes "1 \<le> m" "m \<le> 12" "1 \<le> d"
    "d \<le> days_before_month (is_leap y) (m + 1) - days_before_month (is_leap y) m"
  shows "date_of (go_date y m d) = (y, m, d)"
proof -
  define n where "n = days_before_year y + days_before_month (is_leap y) m + d - 1"
  have "0 \<le> days_before_month (is_leap y) m"
    "days_before_month (is_leap y) (m + 1) \<le> days_before_month (is_leap y) 13"
    using days_before_month_range [of m "is_leap y"] days_before_month_range [of "m + 1" "is_leap y"] assms
    by simp_all
  then have "days_before_year y \<le> n" "n < days_before_year (y + 1)"
    using assms year_length [of y] by (simp_all add: n_def)
  then have y: "year_of_day n = y" by (rule year_of_day_unique)
  have "month_of_day (is_leap y) (n - days_before_year y) = m"
    using assms by (intro month_of_day_unique) (simp_all add: n_def)
  then show ?thesis
    using y by (simp add: go_date_month assms date_of_def n_def [symmetric] Let_def) (simp add: n_def)
qed

lemma days_in_month_pos:
  "1 \<le> m \<Longrightarrow> m \<le> 12 \<Longrightarrow> 28 \<le> days_before_month leap (m + 1) - days_before_month leap m"
  using month_cases [of m] by (auto simp: days_before_month_def)

text \<open>The first instants of a month and of the next one hold every instant of the month.\<close>

lemma month_holds:
  assumes "date_of t = (y, m, d)"
  shows "go_date y m 1 \<le> t \<and> t < go_date y (m + 1) 1"
proof -
  note b = date_of_bounds [OF assms]
  let ?first = "days_before_year y + days_before_month (is_leap y) m - epoch_days"
  let ?last = "days_before_year y + days_before_month (is_leap y) (m + 1) - epoch_days"
  have p: "0 < day_ns" by (simp add: day_ns_def second_ns_def)
  have "?first \<le> day_of t" "day_of t + 1 \<le> ?last" using b by simp_all
  then have "?first * day_ns \<le> day_of t * day_ns" "(day_of t + 1) * day_ns \<le> ?last * day_ns"
    using p by (simp_all add: mult_le_cancel_right del: mult_less_cancel_right)
  then show ?thesis using b day_of_bounds [of t]
    by (simp add: go_date_month go_date_next_month)
qed

section \<open>Days compare as their text does\<close>

lemma pad_spec:
  assumes "0 \<le> n" "n < 10 ^ w" "0 < w"
  shows "length (pad w n) = w \<and> list_all is_digit (pad w n) \<and> digits_val (pad w n) = nat n"
proof -
  have "nat n < nat (10 ^ w)" using assms by simp
  then have "nat n < 10 ^ w" by (simp add: nat_power_eq)
  then have "length (nat_string (nat n)) \<le> w" using assms by (intro nat_string_length)
  moreover have "list_all is_digit (replicate k (CHR ''0''))" for k by (induction k) (auto simp: is_digit_code)
  ultimately show ?thesis using assms(1) nat_string_digits [of "nat n"] by (simp add: pad_def)
qed

lemma pad_less:
  assumes "0 \<le> m" "m < 10 ^ w" "0 \<le> n" "n < 10 ^ w" "0 < w"
  shows "(pad w m < pad w n \<longleftrightarrow> m < n) \<and> (pad w m = pad w n \<longleftrightarrow> m = n)"
  using pad_spec [OF assms(1,2,5)] pad_spec [OF assms(3,4,5)] digits_less [of "pad w m" "pad w n"] assms
  by (metis nat_eq_iff2 nat_less_eq_zless nat_0_le)

lemma days_before_month_mono:
  assumes "1 \<le> m" "m < m'" "m' \<le> 12"
  shows "days_before_month leap (m + 1) \<le> days_before_month leap m'"
  using month_cases [of m] month_cases [of m'] assms by (auto simp: days_before_month_def)

lemma date_less_day:
  assumes a: "date_of a = (y, m, d)" and b: "date_of b = (y', m', d')"
    and less: "y < y' \<or> y = y' \<and> (m < m' \<or> m = m' \<and> d < d')"
  shows "day_of a < day_of b"
proof -
  note da = date_of_bounds [OF a] and db = date_of_bounds [OF b]
  consider "y < y'" | "y = y'" "m < m'" | "y = y'" "m = m'" "d < d'" using less by blast
  then show ?thesis
  proof cases
    case 1
    have "days_before_year (y + 1) \<le> days_before_year y'" using 1 by (intro days_before_year_mono) simp
    moreover have "days_before_month (is_leap y) (m + 1) \<le> days_before_month (is_leap y) 13"
      using days_before_month_range [of "m + 1"] da by simp
    moreover have "0 \<le> days_before_month (is_leap y') m'" using days_before_month_range [of m'] db by simp
    ultimately show ?thesis using da db year_length [of y] by linarith
  next
    case 2
    then show ?thesis using da db days_before_month_mono [of m m' "is_leap y"] by simp
  next
    case 3
    then show ?thesis using da db by simp
  qed
qed

lemma date_eq_day:
  assumes "date_of a = date_of b"
  shows "day_of a = day_of b"
proof -
  obtain y m d where a: "date_of a = (y, m, d)" by (metis prod_cases3)
  then show ?thesis using date_of_bounds [OF a] date_of_bounds [of b y m d] assms by simp
qed

definition four_digit_year :: "instant \<Rightarrow> bool" where
  "four_digit_year t \<longleftrightarrow> 0 \<le> fst (date_of t) \<and> fst (date_of t) \<le> 9999"

lemma format_day_less:
  assumes "four_digit_year a" "four_digit_year b"
  shows "format_day a < format_day b \<longleftrightarrow> day_of a < day_of b"
proof -
  obtain y m d where a: "date_of a = (y, m, d)" by (metis prod_cases3)
  obtain y' m' d' where b: "date_of b = (y', m', d')" by (metis prod_cases3)
  note da = date_of_bounds [OF a] and db = date_of_bounds [OF b]
  have y: "0 \<le> y" "y < 10 ^ 4" "0 \<le> y'" "y' < 10 ^ 4" using assms a b by (simp_all add: four_digit_year_def)
  have short: "days_before_month leap (m + 1) - days_before_month leap m \<le> 31" if "1 \<le> m" "m \<le> 12" for leap m
    using month_cases [OF that] by (auto simp: days_before_month_def)
  have m: "0 \<le> m" "m < 10 ^ 2" "0 \<le> m'" "m' < 10 ^ 2" using da db by simp_all
  have d: "0 \<le> d" "d < 10 ^ 2" "0 \<le> d'" "d' < 10 ^ 2"
    using da db short [of m "is_leap y"] short [of m' "is_leap y'"] by simp_all
  have len: "length (pad 4 y) = length (pad 4 y')" "length (pad 2 m) = length (pad 2 m')"
    using pad_spec [of y 4] pad_spec [of y' 4] pad_spec [of m 2] pad_spec [of m' 2] y m by simp_all
  have dash: "''-'' @ u < ''-'' @ v \<longleftrightarrow> u < v" for u v :: string by simp
  have "format_day a < format_day b \<longleftrightarrow> y < y' \<or> y = y' \<and> (m < m' \<or> m = m' \<and> d < d')"
    unfolding format_day_def a b Let_def prod.case
    by (simp only: append_less_append [OF len(1)] append_less_append [OF len(2)] dash
      pad_less [OF y] pad_less [OF m] pad_less [OF d] zero_less_numeral)
  also have "\<dots> \<longleftrightarrow> day_of a < day_of b"
  proof
    show "day_of a < day_of b" if "y < y' \<or> y = y' \<and> (m < m' \<or> m = m' \<and> d < d')"
      using date_less_day [OF a b that] .
    show "y < y' \<or> y = y' \<and> (m < m' \<or> m = m' \<and> d < d')" if lt: "day_of a < day_of b"
    proof (rule ccontr)
      assume "\<not> ?thesis"
      then have "y' = y \<and> m' = m \<and> d' = d \<or> (y' < y \<or> y' = y \<and> (m' < m \<or> m' = m \<and> d' < d))"
        by presburger
      then show False
      proof
        assume "y' = y \<and> m' = m \<and> d' = d"
        then show False using date_eq_day [of a b] a b lt by simp
      next
        assume "y' < y \<or> y' = y \<and> (m' < m \<or> m' = m \<and> d' < d)"
        then show False using date_less_day [OF b a] lt by simp
      qed
    qed
  qed
  finally show ?thesis .
qed

end
