(* ===== verification/Focus.thy ===== *)
theory Focus
  imports Decimal Instant
begin

text \<open>
  \<open>internal/focus\<close>: the Costroid FOCUS row, how one charge becomes a row, and the arithmetic
  check every row passes before it is written. A token class is the string its column carries. The
  hash behind a row's identity, \<open>crypto/sha256\<close> in hex, is the parameter \<open>sha256\<close>.
\<close>

section \<open>Token classes and bases\<close>

type_synonym token_class = string

abbreviation InputUncached :: token_class where "InputUncached \<equiv> ''input_uncached''"

abbreviation CacheRead :: token_class where "CacheRead \<equiv> ''cache_read''"

abbreviation CacheWrite5m :: token_class where "CacheWrite5m \<equiv> ''cache_write_5m''"

abbreviation CacheWrite1h :: token_class where "CacheWrite1h \<equiv> ''cache_write_1h''"

abbreviation CacheWrite30m :: token_class where "CacheWrite30m \<equiv> ''cache_write_30m''"

abbreviation CacheWrite12h :: token_class where "CacheWrite12h \<equiv> ''cache_write_12h''"

abbreviation Output :: token_class where "Output \<equiv> ''output''"

abbreviation ReasoningOutput :: token_class where "ReasoningOutput \<equiv> ''reasoning_output''"

abbreviation CachedInputReported :: token_class where "CachedInputReported \<equiv> ''cached_input_reported''"

definition Informational :: "token_class \<Rightarrow> bool" where
  "Informational c \<longleftrightarrow> c = ReasoningOutput \<or> c = CachedInputReported"

definition Lifetime :: "token_class \<Rightarrow> string" where
  "Lifetime c =
     (let (lifetime, isWrite) = cut_prefix c ''cache_write_'' in if \<not> isWrite then [] else lifetime)"

type_synonym cost_basis = string

abbreviation Measured :: cost_basis where "Measured \<equiv> ''measured''"

abbreviation ListEquivalent :: cost_basis where "ListEquivalent \<equiv> ''list_equivalent''"

abbreviation RegionGlobal :: string where "RegionGlobal \<equiv> ''global''"

section \<open>The row\<close>

record focus_row =
  BilledCost :: decimal
  BillingAccountID :: string
  BillingAccountName :: "string option"
  BillingCurrency :: string
  BillingPeriodEnd :: string
  BillingPeriodStart :: string
  ChargeCategory :: string
  ChargeClass :: "string option"
  ChargeDescription :: string
  ChargeFrequency :: string
  ChargePeriodEnd :: string
  ChargePeriodStart :: string
  ConsumedQuantity :: decimal
  ConsumedUnit :: string
  ContractedCost :: decimal
  ContractedUnitPrice :: decimal
  EffectiveCost :: decimal
  HostProviderName :: "string option"
  InvoiceIssuerName :: string
  ListCost :: decimal
  ListUnitPrice :: decimal
  PricingCategory :: string
  PricingQuantity :: decimal
  PricingUnit :: string
  RegionID :: "string option"
  RegionName :: "string option"
  ServiceCategory :: string
  ServiceName :: string
  ServiceProviderName :: string
  ServiceSubcategory :: string
  SkuID :: string
  SkuMeter :: token_class
  SkuPriceID :: string
  SubAccountID :: "string option"
  SubAccountName :: "string option"
  Tags :: "string \<rightharpoonup> string"
  CatalogVersion :: "string option"
  OvershootBound :: "decimal option"
  RowID :: string
  ServiceTier :: "string option"

text \<open>A row with every column at Go's zero value, as a composite literal leaves unnamed fields.\<close>

definition zero_row :: focus_row where
  "zero_row =
     \<lparr>BilledCost = zero_decimal, BillingAccountID = [], BillingAccountName = None, BillingCurrency = [],
      BillingPeriodEnd = [], BillingPeriodStart = [], ChargeCategory = [], ChargeClass = None,
      ChargeDescription = [], ChargeFrequency = [], ChargePeriodEnd = [], ChargePeriodStart = [],
      ConsumedQuantity = zero_decimal, ConsumedUnit = [], ContractedCost = zero_decimal,
      ContractedUnitPrice = zero_decimal, EffectiveCost = zero_decimal, HostProviderName = None,
      InvoiceIssuerName = [], ListCost = zero_decimal, ListUnitPrice = zero_decimal, PricingCategory = [],
      PricingQuantity = zero_decimal, PricingUnit = [], RegionID = None, RegionName = None,
      ServiceCategory = [], ServiceName = [], ServiceProviderName = [], ServiceSubcategory = [],
      SkuID = [], SkuMeter = [], SkuPriceID = [], SubAccountID = None, SubAccountName = None,
      Tags = Map.empty, CatalogVersion = None, OvershootBound = None, RowID = [], ServiceTier = None\<rparr>"

section \<open>Charges\<close>

record price =
  pr_SkuPriceID :: string
  pr_PricingUnit :: string
  pr_ListUnitPrice :: decimal

record charge =
  ch_RowID :: string
  ch_Provider :: string
  ch_ServiceProviderName :: string
  ch_Model :: string
  ch_Class :: token_class
  ch_Tokens :: int
  ch_Start :: instant
  ch_End :: instant
  ch_Account :: string
  ch_Credential :: string
  ch_Region :: string
  ch_ServiceTier :: string
  ch_CatalogVersion :: string
  ch_Price :: "price option"
  ch_Basis :: cost_basis
  ch_Tags :: "string \<rightharpoonup> string"
  ch_Notes :: "string list"
  ch_OvershootBound :: "decimal option"

abbreviation NoteInformational :: string where "NoteInformational \<equiv> ''informational''"

abbreviation NoteFallback :: string where
  "NoteFallback \<equiv> ''priced at the catalog fallback tier: the sheet does not name this model, tier and class''"

definition ResidencyNote :: "decimal \<Rightarrow> string \<Rightarrow> string" where
  "ResidencyNote multiplier region =
     ''list price times '' @ String multiplier @ '' for data residency in '' @ region"

definition tokensPerMillion :: int where
  "tokensPerMillion = 6"

definition optional :: "string \<Rightarrow> string option" where
  "optional text = (if text = [] then None else Some text)"

definition description :: "charge \<Rightarrow> string" where
  "description c = join ((ch_Model c @ '' '' @ ch_Class c @ '' tokens'') # ch_Notes c) ''; ''"

definition ChargePeriod :: "instant \<Rightarrow> instant \<Rightarrow> instant \<times> instant" where
  "ChargePeriod start stop =
     (let first = truncate_second start;
          last = truncate_second stop
      in (first, if last < stop \<or> \<not> first < last then last + second_ns else last))"

definition BillingPeriod :: "instant \<Rightarrow> instant \<times> instant" where
  "BillingPeriod t =
     (let (y, m, d) = date_of t; first = go_date y m 1 in (first, add_months first 1))"

definition RowIdentity :: "(string \<Rightarrow> string) \<Rightarrow> string \<Rightarrow> token_class \<Rightarrow> string" where
  "RowIdentity sha256 requestID class = sha256 (requestID @ '':'' @ class)"

definition NewRow :: "charge \<Rightarrow> focus_row" where
  "NewRow c =
     (let (start, stop) = ChargePeriod (ch_Start c) (ch_End c);
          (periodStart, periodEnd) = BillingPeriod start;
          row = zero_row
            \<lparr>BillingAccountID := (if ch_Account c = [] then ''unknown'' else ch_Account c),
             BillingCurrency := ''USD'',
             BillingPeriodEnd := format_instant periodEnd,
             BillingPeriodStart := format_instant periodStart,
             ChargeCategory := ''Usage'',
             ChargeDescription := description c,
             ChargeFrequency := ''Usage-Based'',
             ChargePeriodEnd := format_instant stop,
             ChargePeriodStart := format_instant start,
             ConsumedQuantity := FromInt (ch_Tokens c),
             HostProviderName := Some (ch_ServiceProviderName c),
             InvoiceIssuerName := ch_ServiceProviderName c,
             PricingCategory := ''Standard'',
             ServiceCategory := ''AI and Machine Learning'',
             ServiceName := ch_ServiceProviderName c @ '' API'',
             ServiceProviderName := ch_ServiceProviderName c,
             ServiceSubcategory := ''Generative AI'',
             SkuID := ch_Provider c @ ''/'' @ ch_Model c @ ''/'' @ ch_Class c,
             SkuMeter := ch_Class c,
             SubAccountID := optional (ch_Credential c),
             Tags := ch_Tags c,
             CatalogVersion := Some (ch_CatalogVersion c),
             OvershootBound := ch_OvershootBound c,
             RowID := ch_RowID c,
             ServiceTier := optional (ch_ServiceTier c)\<rparr>;
          row = (if ch_Region c \<noteq> [] \<and> ch_Region c \<noteq> RegionGlobal
                 then row\<lparr>RegionID := Some (ch_Region c), RegionName := Some (ch_Region c)\<rparr> else row)
      in case ch_Price c of
           None \<Rightarrow>
             row\<lparr>ConsumedUnit := ''Informational Tokens'',
                 PricingUnit := ''Informational Tokens'',
                 PricingQuantity := ConsumedQuantity row,
                 SkuPriceID := ch_Provider c @ '':'' @ NoteInformational @ '':'' @ ch_Class c\<rparr>
         | Some p \<Rightarrow>
             (let quantity = DivPow10 (ConsumedQuantity row) tokensPerMillion;
                  cost = Mul (pr_ListUnitPrice p) quantity;
                  row = row\<lparr>ConsumedUnit := ''Tokens'',
                            PricingUnit := pr_PricingUnit p,
                            PricingQuantity := quantity,
                            SkuPriceID := pr_SkuPriceID p,
                            ListUnitPrice := pr_ListUnitPrice p,
                            ListCost := cost,
                            ContractedUnitPrice := pr_ListUnitPrice p,
                            ContractedCost := cost\<rparr>
              in if ch_Basis c = Measured then row\<lparr>EffectiveCost := cost\<rparr> else row))"

section \<open>The check before a row is written\<close>

datatype row_error =
    TooManyDigits string decimal
  | NegativeAmount string decimal
  | BilledCostNotZero decimal
  | ListCostMismatch decimal
  | ContractedCostMismatch decimal

definition MaxScale :: int where
  "MaxScale = 12"

text \<open>
  The code ranges over a map of these columns, so which bad column it names first is not
  determined; the model takes them in the order the code lists them.
\<close>

definition amounts :: "focus_row \<Rightarrow> (string \<times> decimal) list" where
  "amounts r =
     [(''ConsumedQuantity'', ConsumedQuantity r), (''ContractedCost'', ContractedCost r),
      (''ContractedUnitPrice'', ContractedUnitPrice r), (''EffectiveCost'', EffectiveCost r),
      (''ListCost'', ListCost r), (''ListUnitPrice'', ListUnitPrice r),
      (''PricingQuantity'', PricingQuantity r)]"

definition check_amount :: "string \<times> decimal \<Rightarrow> row_error + unit" where
  "check_amount ca =
     (if Scale (snd ca) > MaxScale then Inl (TooManyDigits (fst ca) (snd ca))
      else if Sign (snd ca) < 0 then Inl (NegativeAmount (fst ca) (snd ca))
      else Inr ())"

definition Check :: "focus_row \<Rightarrow> row_error + unit" where
  "Check r =
     rbind (rtraverse check_amount (amounts r)) (\<lambda>_.
       if Sign (BilledCost r) \<noteq> 0 then Inl (BilledCostNotZero (BilledCost r))
       else if Cmp (ListCost r) (Mul (ListUnitPrice r) (PricingQuantity r)) \<noteq> 0
         then Inl (ListCostMismatch (ListCost r))
       else if Cmp (ContractedCost r) (Mul (ContractedUnitPrice r) (PricingQuantity r)) \<noteq> 0
         then Inl (ContractedCostMismatch (ContractedCost r))
       else Inr ())"

text \<open>\<open>Writer.Write\<close>: a row is encoded only after its check; \<open>encode\<close> stands for the JSON encoder.\<close>

definition Write :: "(focus_row \<Rightarrow> string) \<Rightarrow> string \<Rightarrow> focus_row \<Rightarrow> row_error + string" where
  "Write encode out r = rbind (Check r) (\<lambda>_. Inr (out @ encode r @ [CHR 0x0A]))"

section \<open>Lemmas on scales\<close>

lemma Scale_le: "wf_decimal d \<Longrightarrow> Scale d \<le> scale d"
  using strip_zeros_spec [of "int_of d" "scale d"]
  by (auto simp: Scale_def normal_def wf_decimal_def split: prod.splits)

lemma Scale_canonical: "canonical d \<Longrightarrow> Scale d = scale d"
  by (simp add: Scale_def)

lemma Scale_nonneg: "wf_decimal d \<Longrightarrow> 0 \<le> Scale d"
  using normal_canonical [of d] by (simp add: Scale_def canonical_def)

lemma scale_normal_le: "wf_decimal d \<Longrightarrow> scale (normal d) \<le> scale d"
  using Scale_le [of d] by (simp add: Scale_def)

text \<open>The scale is the fewest fractional digits that hold the value.\<close>

lemma Scale_least:
  assumes "wf_decimal d" "dval d = of_int n / 10 ^ k"
  shows "Scale d \<le> int k"
proof -
  let ?e = "\<lparr>coefficient = Some n, scale = int k\<rparr>"
  have wf: "wf_decimal ?e" by (simp add: wf_decimal_def)
  have "dval ?e = dval d" using assms(2) by (simp add: dval_def [of ?e])
  then have "normal d = normal ?e" using assms(1) wf by (intro canonical_unique normal_canonical) simp_all
  then have "Scale d = Scale ?e" by (simp add: Scale_def)
  then show ?thesis using Scale_le [OF wf] by simp
qed

lemma dval_Scale:
  assumes "wf_decimal d"
  obtains n where "dval d = of_int n / 10 ^ nat (Scale d)"
  using normal_val [OF assms] by (metis Scale_def dval_def)

lemma Scale_Mul:
  assumes "wf_decimal a" "wf_decimal b"
  shows "Scale (Mul a b) \<le> Scale a + Scale b"
proof -
  obtain m n where "dval a = of_int m / 10 ^ nat (Scale a)" "dval b = of_int n / 10 ^ nat (Scale b)"
    using dval_Scale [OF assms(1)] dval_Scale [OF assms(2)] by metis
  then have "dval (Mul a b) = of_int (m * n) / 10 ^ (nat (Scale a) + nat (Scale b))"
    using assms by (simp add: power_add)
  then have "Scale (Mul a b) \<le> int (nat (Scale a) + nat (Scale b))"
    by (rule Scale_least [OF Mul_wf [OF assms]])
  then show ?thesis using Scale_nonneg assms by simp
qed

lemma Scale_DivPow10:
  assumes "wf_decimal a" "0 \<le> p"
  shows "Scale (DivPow10 a p) \<le> Scale a + p"
proof -
  obtain m where "dval a = of_int m / 10 ^ nat (Scale a)" using dval_Scale [OF assms(1)] by metis
  then have "dval (DivPow10 a p) = of_int m / 10 ^ (nat (Scale a) + nat p)"
    using assms by (simp add: power_add)
  then have "Scale (DivPow10 a p) \<le> int (nat (Scale a) + nat p)"
    by (rule Scale_least [OF DivPow10_wf [OF assms]])
  then show ?thesis using Scale_nonneg assms by simp
qed

lemma Scale_zero [simp]: "Scale zero_decimal = 0"
  by (simp add: Scale_def normal_def zero_decimal_def strip_zeros.simps)

lemma Scale_FromInt [simp]: "Scale (FromInt n) = 0"
  by (simp add: Scale_def FromInt_def canonical_def)

section \<open>The columns of a new row\<close>

definition quantity_of :: "charge \<Rightarrow> decimal" where
  "quantity_of c = DivPow10 (FromInt (ch_Tokens c)) tokensPerMillion"

lemma NewRow_amounts:
  "BilledCost (NewRow c) = zero_decimal"
  "ConsumedQuantity (NewRow c) = FromInt (ch_Tokens c)"
  "PricingQuantity (NewRow c) =
     (case ch_Price c of None \<Rightarrow> FromInt (ch_Tokens c) | Some p \<Rightarrow> quantity_of c)"
  "ListUnitPrice (NewRow c) = (case ch_Price c of None \<Rightarrow> zero_decimal | Some p \<Rightarrow> pr_ListUnitPrice p)"
  "ContractedUnitPrice (NewRow c) = (case ch_Price c of None \<Rightarrow> zero_decimal | Some p \<Rightarrow> pr_ListUnitPrice p)"
  "ListCost (NewRow c) =
     (case ch_Price c of None \<Rightarrow> zero_decimal | Some p \<Rightarrow> Mul (pr_ListUnitPrice p) (quantity_of c))"
  "ContractedCost (NewRow c) =
     (case ch_Price c of None \<Rightarrow> zero_decimal | Some p \<Rightarrow> Mul (pr_ListUnitPrice p) (quantity_of c))"
  "EffectiveCost (NewRow c) =
     (case ch_Price c of None \<Rightarrow> zero_decimal
      | Some p \<Rightarrow> if ch_Basis c = Measured then Mul (pr_ListUnitPrice p) (quantity_of c) else zero_decimal)"
  by (simp_all add: NewRow_def zero_row_def quantity_of_def Let_def split: prod.split option.split)

lemma NewRow_columns:
  "BillingCurrency (NewRow c) = ''USD''"
  "RowID (NewRow c) = ch_RowID c"
  "Tags (NewRow c) = ch_Tags c"
  "SkuMeter (NewRow c) = ch_Class c"
  "OvershootBound (NewRow c) = ch_OvershootBound c"
  "SubAccountID (NewRow c) = optional (ch_Credential c)"
  "ChargeDescription (NewRow c) = description c"
  "ChargePeriodStart (NewRow c) = format_instant (fst (ChargePeriod (ch_Start c) (ch_End c)))"
  "ChargePeriodEnd (NewRow c) = format_instant (snd (ChargePeriod (ch_Start c) (ch_End c)))"
  by (simp_all add: NewRow_def zero_row_def Let_def split: prod.split option.split)

lemmas NewRow_simps [simp] = NewRow_amounts NewRow_columns

lemma quantity_of_wf [simp]: "wf_decimal (quantity_of c)"
  by (simp add: quantity_of_def tokensPerMillion_def)

lemma quantity_of_val [simp]: "dval (quantity_of c) = of_int (ch_Tokens c) / 10 ^ 6"
  by (simp add: quantity_of_def tokensPerMillion_def)

lemma quantity_of_Scale: "Scale (quantity_of c) \<le> 6"
  using Scale_DivPow10 [of "FromInt (ch_Tokens c)" 6] by (simp add: quantity_of_def tokensPerMillion_def)

section \<open>What the check accepts\<close>

definition wf_row :: "focus_row \<Rightarrow> bool" where
  "wf_row r \<longleftrightarrow> wf_decimal (BilledCost r) \<and> (\<forall>ca\<in>set (amounts r). wf_decimal (snd ca))"

lemma wf_row_amounts:
  "wf_row r \<Longrightarrow> wf_decimal (ListCost r) \<and> wf_decimal (ListUnitPrice r) \<and> wf_decimal (PricingQuantity r) \<and>
    wf_decimal (ContractedCost r) \<and> wf_decimal (ContractedUnitPrice r) \<and> wf_decimal (EffectiveCost r) \<and>
    wf_decimal (ConsumedQuantity r) \<and> wf_decimal (BilledCost r)"
  by (simp add: wf_row_def amounts_def)

lemma check_amount_ok:
  "check_amount ca = Inr () \<longleftrightarrow> Scale (snd ca) \<le> MaxScale \<and> 0 \<le> dval (snd ca)"
  by (auto simp: check_amount_def)

lemma rtraverse_unit_ok:
  "is_ok (rtraverse f xs) \<longleftrightarrow> (\<forall>x\<in>set xs. f x = Inr ())" for f :: "'a \<Rightarrow> 'e + unit"
proof (induction xs)
  case (Cons x xs)
  then show ?case by (cases "f x"; cases "rtraverse f xs") auto
qed simp

lemma Check_iff:
  assumes "wf_row r"
  shows "Check r = Inr () \<longleftrightarrow>
    (\<forall>ca\<in>set (amounts r). Scale (snd ca) \<le> MaxScale \<and> 0 \<le> dval (snd ca)) \<and>
    dval (BilledCost r) = 0 \<and>
    dval (ListCost r) = dval (ListUnitPrice r) * dval (PricingQuantity r) \<and>
    dval (ContractedCost r) = dval (ContractedUnitPrice r) * dval (PricingQuantity r)"
proof -
  have "is_ok (rtraverse check_amount (amounts r)) \<longleftrightarrow>
      (\<forall>ca\<in>set (amounts r). Scale (snd ca) \<le> MaxScale \<and> 0 \<le> dval (snd ca))"
    by (simp add: rtraverse_unit_ok check_amount_ok)
  then show ?thesis using wf_row_amounts [OF assms]
    by (cases "rtraverse check_amount (amounts r)") (auto simp: Check_def)
qed

section \<open>Periods\<close>

lemma truncate_second_bounds:
  "truncate_second t \<le> t \<and> t < truncate_second t + second_ns \<and> second_ns dvd truncate_second t"
proof -
  have "second_ns > 0" by (simp add: second_ns_def)
  then show ?thesis
    by (simp add: truncate_second_def minus_mod_eq_mult_div [symmetric] pos_mod_bound dvd_minus_mod)
qed

lemma date_of_day: "day_of s = day_of t \<Longrightarrow> date_of s = date_of t"
  by (simp add: date_of_def)

lemma BillingPeriod_month:
  assumes "date_of t = (y, m, d)"
  shows "BillingPeriod t = (go_date y m 1, go_date y (m + 1) 1)"
proof -
  note b = date_of_bounds [OF assms]
  have "date_of (go_date y m 1) = (y, m, 1)"
    by (rule date_of_go_date) (use b days_in_month_pos [of m "is_leap y"] in auto)
  then show ?thesis by (simp add: BillingPeriod_def assms add_months_def Let_def)
qed

lemma month_holds_only:
  assumes m: "1 \<le> m" "m \<le> 12" and t: "go_date y m 1 \<le> t" "t < go_date y (m + 1) 1"
  shows "\<exists>d. date_of t = (y, m, d)"
proof -
  let ?first = "days_before_year y + days_before_month (is_leap y) m - epoch_days"
  let ?last = "days_before_year y + days_before_month (is_leap y) (m + 1) - epoch_days"
  have p: "0 < day_ns" by (simp add: day_ns_def second_ns_def)
  have lo: "?first * day_ns \<le> t" using t go_date_month [OF m, of y 1] by simp
  have hi: "t < ?last * day_ns" using t go_date_next_month [OF m, of y 1] by simp
  define d where "d = day_of t - ?first + 1"
  have "?first * day_ns < (day_of t + 1) * day_ns" "day_of t * day_ns < ?last * day_ns"
    using lo hi day_of_bounds [of t] by linarith+
  then have "?first < day_of t + 1" "day_of t < ?last"
    using p by (simp_all only: mult_less_cancel_right)
  then have d: "1 \<le> d" "d \<le> days_before_month (is_leap y) (m + 1) - days_before_month (is_leap y) m"
    by (simp_all add: d_def)
  have "go_date y m d = day_of t * day_ns" using go_date_month [OF m, of y d] by (simp add: d_def)
  then have "day_of (go_date y m d) = day_of t" by simp
  then show ?thesis using date_of_go_date [OF m d] date_of_day by metis
qed

lemma next_month_starts:
  assumes "1 \<le> m" "m \<le> 12"
  shows "\<exists>y' m'. date_of (go_date y (m + 1) 1) = (y', m', 1) \<and> go_date y' m' 1 = go_date y (m + 1) 1"
proof (cases "m = 12")
  case True
  have "go_date y 13 1 = go_date (y + 1) 1 1" by (simp add: go_date_def)
  moreover have "date_of (go_date (y + 1) 1 1) = (y + 1, 1, 1)"
    by (rule date_of_go_date) (use days_in_month_pos [of 1 "is_leap (y + 1)"] in auto)
  ultimately show ?thesis using True by auto
next
  case False
  then have "date_of (go_date y (m + 1) 1) = (y, m + 1, 1)"
    by (intro date_of_go_date) (use assms days_in_month_pos [of "m + 1" "is_leap y"] in auto)
  then show ?thesis by auto
qed

section \<open>New rows pass the check\<close>

lemma NewRow_checked:
  assumes tokens: "0 \<le> ch_Tokens c"
    and price: "\<forall>p. ch_Price c = Some p \<longrightarrow>
      wf_decimal (pr_ListUnitPrice p) \<and> 0 \<le> dval (pr_ListUnitPrice p) \<and> Scale (pr_ListUnitPrice p) \<le> 6"
  shows "Check (NewRow c) = Inr ()"
proof (cases "ch_Price c")
  case None
  then show ?thesis using tokens
    by (subst Check_iff) (simp_all add: wf_row_def amounts_def MaxScale_def)
next
  case (Some p)
  then have p: "wf_decimal (pr_ListUnitPrice p)" "0 \<le> dval (pr_ListUnitPrice p)"
      "Scale (pr_ListUnitPrice p) \<le> 6"
    using price by auto
  have "Scale (Mul (pr_ListUnitPrice p) (quantity_of c)) \<le> 12"
    using Scale_Mul [OF p(1) quantity_of_wf [of c]] quantity_of_Scale [of c] p(3) by simp
  then show ?thesis using Some p tokens quantity_of_Scale [of c]
    by (subst Check_iff) (simp_all add: wf_row_def amounts_def MaxScale_def)
qed

section \<open>Properties\<close>

text \<open>
  C2. A charge becomes a row the contract accepts: with non-negative tokens and a non-negative catalog
  price of at most six fractional digits, the row \<open>NewRow\<close> builds passes \<open>Check\<close>, bills
  nothing, and its list cost is exactly the unit price times the tokens over a million. The effective
  cost is that cost when the basis is measured and zero otherwise, and a charge without a price (an
  informational class) costs nothing.
\<close>

theorem new_row_passes_check:
  assumes tokens: "0 \<le> ch_Tokens c"
    and price: "\<forall>p. ch_Price c = Some p \<longrightarrow>
      wf_decimal (pr_ListUnitPrice p) \<and> 0 \<le> dval (pr_ListUnitPrice p) \<and> Scale (pr_ListUnitPrice p) \<le> 6"
  shows "Check (NewRow c) = Inr () \<and> dval (BilledCost (NewRow c)) = 0 \<and>
    dval (ConsumedQuantity (NewRow c)) = of_int (ch_Tokens c) \<and>
    dval (ListCost (NewRow c)) =
      (case ch_Price c of None \<Rightarrow> 0 | Some p \<Rightarrow> dval (pr_ListUnitPrice p) * of_int (ch_Tokens c) / 10 ^ 6) \<and>
    dval (EffectiveCost (NewRow c)) = (if ch_Basis c = Measured then dval (ListCost (NewRow c)) else 0)"
  using price NewRow_checked [OF tokens price] by (auto split: option.splits)

definition sample_charge :: charge where
  "sample_charge =
     \<lparr>ch_RowID = ''id'', ch_Provider = ''anthropic'', ch_ServiceProviderName = ''Anthropic'',
      ch_Model = ''m'', ch_Class = Output, ch_Tokens = 1500, ch_Start = 0, ch_End = 5, ch_Account = [],
      ch_Credential = [], ch_Region = [], ch_ServiceTier = ''standard'', ch_CatalogVersion = ''v'',
      ch_Price = Some \<lparr>pr_SkuPriceID = ''s'', pr_PricingUnit = ''u'',
        pr_ListUnitPrice = \<lparr>coefficient = Some 25, scale = 0\<rparr>\<rparr>,
      ch_Basis = Measured, ch_Tags = Map.empty, ch_Notes = [], ch_OvershootBound = None\<rparr>"

theorem new_row_passes_check_witness:
  "Check (NewRow sample_charge) = Inr () \<and> dval (EffectiveCost (NewRow sample_charge)) = 3 / 80"
proof -
  have s: "Scale \<lparr>coefficient = Some 25, scale = 0\<rparr> \<le> 6" by code_simp
  show ?thesis using new_row_passes_check [of sample_charge] s
    by (simp add: sample_charge_def wf_decimal_def dval_def)
qed

text \<open>
  Nothing reaches a ledger unchecked: \<open>Write\<close> emits a row's line exactly when no amount has
  more than twelve fractional digits or is negative, the billed cost is zero, and the list and the
  contracted cost are each exactly their unit price times the pricing quantity. In every other case
  it returns an error and nothing is written.
\<close>

theorem write_only_checked_rows:
  assumes "wf_row r"
  shows "Write encode out r = Inr s \<longleftrightarrow>
    s = out @ encode r @ [CHR 0x0A] \<and>
    (\<forall>ca\<in>set (amounts r). Scale (snd ca) \<le> 12 \<and> 0 \<le> dval (snd ca)) \<and>
    dval (BilledCost r) = 0 \<and>
    dval (ListCost r) = dval (ListUnitPrice r) * dval (PricingQuantity r) \<and>
    dval (ContractedCost r) = dval (ContractedUnitPrice r) * dval (PricingQuantity r)"
  using Check_iff [OF assms]
  by (cases "Check r") (auto simp: Write_def MaxScale_def)

theorem write_only_checked_rows_witness:
  "Write (\<lambda>_. ''row'') [] zero_row = Inr (''row'' @ [CHR 0x0A]) \<and>
   Write (\<lambda>_. ''row'') [] (zero_row\<lparr>BilledCost := FromInt 1\<rparr>) \<noteq> Inr (''row'' @ [CHR 0x0A])"
proof -
  have wf: "wf_row zero_row" "wf_row (zero_row\<lparr>BilledCost := FromInt 1\<rparr>)"
    by (simp_all add: wf_row_def zero_row_def amounts_def)
  show ?thesis
    using write_only_checked_rows [OF wf(1), of "\<lambda>_. ''row''" "[]"]
      write_only_checked_rows [OF wf(2), of "\<lambda>_. ''row''" "[]"]
    by (simp add: zero_row_def amounts_def)
qed

text \<open>
  A charge period is the tightest span of whole seconds around the work: for a span that does not
  end before it starts, both ends are whole seconds, the start is at most a second early, the
  exclusive end is never before the work's end, the period is never empty, and it is longer than
  needed by less than a second unless the whole span lies within one second.
\<close>

theorem charge_period_covers:
  assumes "start \<le> stop" "ChargePeriod start stop = (lo, hi)"
  shows "second_ns dvd lo \<and> second_ns dvd hi \<and> lo \<le> start \<and> start < lo + second_ns \<and>
    stop \<le> hi \<and> lo < hi \<and> (hi < stop + second_ns \<or> hi = lo + second_ns)"
proof -
  have p: "0 < second_ns" by (simp add: second_ns_def)
  let ?l = "truncate_second stop"
  have f: "lo = truncate_second start" using assms(2) by (simp add: ChargePeriod_def Let_def)
  have l: "hi = (if ?l < stop \<or> \<not> lo < ?l then ?l + second_ns else ?l)"
    using assms(2) by (auto simp: ChargePeriod_def Let_def)
  have mono: "truncate_second start \<le> ?l"
  proof -
    have "truncate_second t = second_ns * (t div second_ns)" for t
      by (simp add: truncate_second_def minus_mod_eq_mult_div)
    moreover have "start div second_ns \<le> stop div second_ns" using assms(1) p by (simp add: zdiv_mono1)
    ultimately show ?thesis using p by simp
  qed
  have d: "second_ns dvd hi" using l truncate_second_bounds [of stop] by auto
  show ?thesis
    using truncate_second_bounds [of start] truncate_second_bounds [of stop] mono p d
    by (auto simp: f l)
qed

theorem charge_period_covers_witness:
  "ChargePeriod 1500000000 2000000001 = (1000000000, 3000000000) \<and> (2000000001::int) \<le> 3000000000"
proof -
  have c: "ChargePeriod 1500000000 2000000001 = (1000000000, 3000000000)" by code_simp
  show ?thesis using charge_period_covers [OF _ c] c by simp
qed

text \<open>
  Billing periods partition time into UTC months: the period of an instant holds it, every other
  instant it holds has the same period, and the next period starts exactly where it ends.
\<close>

theorem billing_periods_partition:
  "fst (BillingPeriod t) \<le> t \<and> t < snd (BillingPeriod t) \<and>
   {s. BillingPeriod s = BillingPeriod t} = {fst (BillingPeriod t) ..< snd (BillingPeriod t)} \<and>
   fst (BillingPeriod (snd (BillingPeriod t))) = snd (BillingPeriod t)"
proof -
  obtain y m d where t: "date_of t = (y, m, d)" by (metis prod_cases3)
  note bp = BillingPeriod_month [OF t]
  have m: "1 \<le> m" "m \<le> 12" using date_of_bounds [OF t] by auto
  have holds: "fst (BillingPeriod s) \<le> s \<and> s < snd (BillingPeriod s)" for s
  proof -
    obtain y m d where s: "date_of s = (y, m, d)" by (metis prod_cases3)
    show ?thesis using month_holds [OF s] by (simp add: BillingPeriod_month [OF s])
  qed
  have same: "BillingPeriod s = BillingPeriod t" if "fst (BillingPeriod t) \<le> s" "s < snd (BillingPeriod t)" for s
    using month_holds_only [OF m, of y s] that by (auto simp: bp BillingPeriod_month)
  have "fst (BillingPeriod (snd (BillingPeriod t))) = snd (BillingPeriod t)"
    using next_month_starts [OF m, of y] by (auto simp: bp BillingPeriod_month)
  moreover have "{s. BillingPeriod s = BillingPeriod t} = {fst (BillingPeriod t) ..< snd (BillingPeriod t)}"
  proof (intro set_eqI iffI)
    fix s
    assume "s \<in> {s. BillingPeriod s = BillingPeriod t}"
    then show "s \<in> {fst (BillingPeriod t) ..< snd (BillingPeriod t)}" using holds [of s] by simp
  next
    fix s
    assume "s \<in> {fst (BillingPeriod t) ..< snd (BillingPeriod t)}"
    then show "s \<in> {s. BillingPeriod s = BillingPeriod t}" using same by simp
  qed
  ultimately show ?thesis using holds by blast
qed

end
