(* ===== verification/Catalog.thy ===== *)
theory Catalog
  imports Focus
begin

text \<open>
  \<open>internal/catalog\<close>: the pinned price sheets and the lookup of one token class. A sheet is
  modelled after \<open>encoding/json\<close> has read it, which is the parameter \<open>unmarshal\<close>; files are pairs
  of a name and its bytes. Pointer fields are options.
\<close>

section \<open>Sheets, queries and answers\<close>

abbreviation TierStandard :: string where "TierStandard \<equiv> ''standard''"

record query =
  q_Provider :: string
  q_Model :: string
  q_Class :: token_class
  q_ServiceTier :: string
  q_Region :: string
  q_ContextInputTokens :: int
  q_At :: instant

record catalog_price =
  cp_SkuPriceID :: string
  cp_ListUnitPrice :: decimal
  cp_PricingUnit :: string
  cp_Fallback :: bool
  cp_FallbackBasis :: string
  cp_ResidencyMultiplier :: "decimal option"
  cp_ContextTierMin :: "int option"
  cp_ContextTierMax :: "int option"

record sheet_row =
  sr_RowType :: string
  sr_SkuPriceID :: string
  sr_ModelID :: string
  sr_RegionID :: string
  sr_ServiceTier :: string
  sr_ContextTierMinInputTokens :: "int option"
  sr_ContextTierMaxInputTokens :: "int option"
  sr_TokenClass :: string
  sr_ListUnitPrice :: string
  sr_PricingUnit :: string
  sr_EffectiveStart :: string
  sr_EffectiveEnd :: "string option"
  sr_FallbackBasis :: string
  sr_ModifierKind :: string
  sr_Multiplier :: string
  sr_AppliesToModels :: "string list"

record sheet =
  sh_Provider :: string
  sh_ServiceProviderName :: string
  sh_Rows :: "sheet_row list"

record catalog =
  cat_version :: string
  cat_sheets :: "string \<rightharpoonup> sheet"

datatype catalog_error =
    NoSheet string
  | NoPrice string string string
  | BadFigure string decimal_error
  | EmptyRelease string
  | BadSheet string

section \<open>Reading a release\<close>

definition parse_sheet :: "(string \<Rightarrow> sheet option) \<Rightarrow> (string \<rightharpoonup> sheet) \<Rightarrow> string \<times> string \<Rightarrow> catalog_error + (string \<rightharpoonup> sheet)" where
  "parse_sheet unmarshal sheets file =
     (case unmarshal (snd file) of
        None \<Rightarrow> Inl (BadSheet (fst file))
      | Some s \<Rightarrow> Inr (sheets(sh_Provider s \<mapsto> s)))"

definition ParseRelease :: "(string \<Rightarrow> sheet option) \<Rightarrow> string \<Rightarrow> (string \<times> string) list \<Rightarrow> catalog_error + catalog" where
  "ParseRelease unmarshal version files =
     (if files = [] then Inl (EmptyRelease version)
      else rmap (\<lambda>sheets. \<lparr>cat_version = version, cat_sheets = sheets\<rparr>)
             (rfold (parse_sheet unmarshal) Map.empty files))"

definition ServiceProviderNameOf :: "catalog \<Rightarrow> string \<Rightarrow> catalog_error + string" where
  "ServiceProviderNameOf c provider =
     (case cat_sheets c provider of
        None \<Rightarrow> Inl (NoSheet provider)
      | Some s \<Rightarrow> Inr (sh_ServiceProviderName s))"

section \<open>The lookup\<close>

definition holdsContext :: "sheet_row \<Rightarrow> int \<Rightarrow> bool" where
  "holdsContext r tokens =
     (if (case sr_ContextTierMinInputTokens r of None \<Rightarrow> False | Some m \<Rightarrow> tokens \<le> m) then False
      else (case sr_ContextTierMaxInputTokens r of None \<Rightarrow> True | Some m \<Rightarrow> tokens \<le> m))"

definition holdsOn :: "sheet_row \<Rightarrow> instant \<Rightarrow> bool" where
  "holdsOn r t = (case sr_EffectiveEnd r of None \<Rightarrow> True | Some e \<Rightarrow> format_day t < e)"

definition matches :: "sheet_row \<Rightarrow> query \<Rightarrow> bool" where
  "matches r q \<longleftrightarrow>
     sr_RowType r = ''unit_price'' \<and>
     sr_ModelID r = q_Model q \<and>
     sr_TokenClass r = q_Class q \<and>
     sr_ServiceTier r = q_ServiceTier q \<and>
     sr_RegionID r = RegionGlobal \<and>
     holdsOn r (q_At q) \<and>
     holdsContext r (q_ContextInputTokens q)"

definition residency_row :: "query \<Rightarrow> sheet_row \<Rightarrow> bool" where
  "residency_row q r \<longleftrightarrow>
     \<not> (sr_RowType r \<noteq> ''multiplier'' \<or> sr_ModifierKind r \<noteq> ''data_residency'' \<or> sr_RegionID r \<noteq> q_Region q) \<and>
     \<not> (0 < length (sr_AppliesToModels r) \<and> q_Model q \<notin> set (sr_AppliesToModels r))"

definition residency :: "sheet \<Rightarrow> query \<Rightarrow> catalog_error + decimal option" where
  "residency s q =
     (case find (residency_row q) (sh_Rows s) of
        None \<Rightarrow> Inr None
      | Some r \<Rightarrow>
          (case Parse (sr_Multiplier r) of
             Inl e \<Rightarrow> Inl (BadFigure (sr_SkuPriceID r) e)
           | Inr factor \<Rightarrow> Inr (Some factor)))"

definition priced :: "sheet \<Rightarrow> sheet_row \<Rightarrow> query \<Rightarrow> catalog_error + catalog_price" where
  "priced s r q =
     (case Parse (sr_ListUnitPrice r) of
        Inl e \<Rightarrow> Inl (BadFigure (sr_SkuPriceID r) e)
      | Inr price \<Rightarrow>
          (let answer =
             \<lparr>cp_SkuPriceID = sr_SkuPriceID r, cp_ListUnitPrice = price, cp_PricingUnit = sr_PricingUnit r,
              cp_Fallback = False, cp_FallbackBasis = [], cp_ResidencyMultiplier = None,
              cp_ContextTierMin = sr_ContextTierMinInputTokens r,
              cp_ContextTierMax = sr_ContextTierMaxInputTokens r\<rparr>
           in if q_Region q = [] \<or> q_Region q = RegionGlobal then Inr answer
              else (case residency s q of
                      Inl e \<Rightarrow> Inl e
                    | Inr None \<Rightarrow> Inr answer
                    | Inr (Some factor) \<Rightarrow>
                        Inr (answer\<lparr>cp_ListUnitPrice := Mul price factor,
                                    cp_ResidencyMultiplier := Some factor\<rparr>))))"

definition fallback_row :: "query \<Rightarrow> sheet_row \<Rightarrow> bool" where
  "fallback_row q r \<longleftrightarrow> sr_RowType r = ''fallback'' \<and> sr_TokenClass r = q_Class q \<and> holdsOn r (q_At q)"

definition fallback :: "sheet_row \<Rightarrow> catalog_error + catalog_price" where
  "fallback r =
     (case Parse (sr_ListUnitPrice r) of
        Inl e \<Rightarrow> Inl (BadFigure (sr_SkuPriceID r) e)
      | Inr price \<Rightarrow>
          Inr \<lparr>cp_SkuPriceID = sr_SkuPriceID r, cp_ListUnitPrice = price, cp_PricingUnit = sr_PricingUnit r,
               cp_Fallback = True, cp_FallbackBasis = sr_FallbackBasis r, cp_ResidencyMultiplier = None,
               cp_ContextTierMin = None, cp_ContextTierMax = None\<rparr>)"

definition Lookup :: "catalog \<Rightarrow> query \<Rightarrow> catalog_error + catalog_price" where
  "Lookup c q =
     (case cat_sheets c (q_Provider q) of
        None \<Rightarrow> Inl (NoSheet (q_Provider q))
      | Some s \<Rightarrow>
          (case find (\<lambda>r. matches r q) (sh_Rows s) of
             Some r \<Rightarrow> priced s r q
           | None \<Rightarrow>
               (case find (fallback_row q) (sh_Rows s) of
                  Some r \<Rightarrow> fallback r
                | None \<Rightarrow> Inl (NoPrice (q_Provider q) (q_Model q) (q_Class q)))))"

section \<open>The interface of a price source\<close>

text \<open>
  The recipe and the ledger service price a class through the same call. What they rely on is that a
  price that comes back is a canonical, non-negative decimal.
\<close>

locale price_source =
  fixes lookup :: "query \<Rightarrow> catalog_error + catalog_price"
  assumes price_canonical: "lookup q = Inr p \<Longrightarrow> canonical (cp_ListUnitPrice p)"
    and price_nonneg: "lookup q = Inr p \<Longrightarrow> 0 \<le> dval (cp_ListUnitPrice p)"
begin

lemma price_wf: "lookup q = Inr p \<Longrightarrow> wf_decimal (cp_ListUnitPrice p)"
  by (rule canonical_wf [OF price_canonical])

lemma cost_nonneg:
  "lookup q = Inr p \<Longrightarrow> 0 \<le> n \<Longrightarrow> 0 \<le> dval (Mul (cp_ListUnitPrice p) (DivPow10 (FromInt n) tokensPerMillion))"
  using price_wf price_nonneg by (simp add: tokensPerMillion_def)

lemma row_checked:
  assumes "lookup q = Inr p" "Scale (cp_ListUnitPrice p) \<le> 6" "0 \<le> ch_Tokens c"
    and "ch_Price c = None \<or> (\<exists>s u. ch_Price c =
      Some \<lparr>pr_SkuPriceID = s, pr_PricingUnit = u, pr_ListUnitPrice = cp_ListUnitPrice p\<rparr>)"
  shows "Check (NewRow c) = Inr ()"
  using assms price_wf price_nonneg by (intro NewRow_checked) auto

end

lemma priced_nonneg:
  assumes "priced s r q = Inr p"
  shows "canonical (cp_ListUnitPrice p) \<and> 0 \<le> dval (cp_ListUnitPrice p)"
proof -
  obtain price where P: "Parse (sr_ListUnitPrice r) = Inr price"
    using assms by (cases "Parse (sr_ListUnitPrice r)") (auto simp: priced_def)
  note c = Parse_canonical [OF P]
  have "canonical (Mul price f) \<and> 0 \<le> dval (Mul price f)" if "residency s q = Inr (Some f)" for f
  proof -
    have "canonical f \<and> 0 \<le> dval f"
      using that by (auto simp: residency_def split: option.splits sum.splits dest: Parse_canonical)
    then show ?thesis using c by (simp add: ops_canonical canonical_wf)
  qed
  then show ?thesis using assms P c
    by (auto simp: priced_def Let_def split: if_splits sum.splits option.splits)
qed

lemma fallback_nonneg:
  "fallback r = Inr p \<Longrightarrow> canonical (cp_ListUnitPrice p) \<and> 0 \<le> dval (cp_ListUnitPrice p)"
  by (auto simp: fallback_def split: sum.splits dest: Parse_canonical)

lemma Lookup_nonneg:
  "Lookup c q = Inr p \<Longrightarrow> canonical (cp_ListUnitPrice p) \<and> 0 \<le> dval (cp_ListUnitPrice p)"
  by (auto simp: Lookup_def split: option.splits dest: priced_nonneg fallback_nonneg)

interpretation cat: price_source "Lookup c" for c
  by unfold_locales (auto dest: Lookup_nonneg)

lemma priced_fields:
  assumes "priced s r q = Inr p"
  shows "cp_SkuPriceID p = sr_SkuPriceID r \<and> \<not> cp_Fallback p \<and>
    (\<exists>base. Parse (sr_ListUnitPrice r) = Inr base \<and>
      (case cp_ResidencyMultiplier p of
         None \<Rightarrow> cp_ListUnitPrice p = base \<and> (q_Region q = [] \<or> q_Region q = RegionGlobal \<or>
           (\<forall>m\<in>set (sh_Rows s). \<not> residency_row q m))
       | Some f \<Rightarrow> dval (cp_ListUnitPrice p) = dval base * dval f \<and> q_Region q \<noteq> [] \<and> q_Region q \<noteq> RegionGlobal \<and>
           (\<exists>m\<in>set (sh_Rows s). residency_row q m \<and> Parse (sr_Multiplier m) = Inr f)))"
proof -
  obtain base where P: "Parse (sr_ListUnitPrice r) = Inr base"
    using assms by (cases "Parse (sr_ListUnitPrice r)") (auto simp: priced_def)
  have res: "canonical f \<and> (\<exists>m\<in>set (sh_Rows s). residency_row q m \<and> Parse (sr_Multiplier m) = Inr f)"
    if f: "residency s q = Inr (Some f)" for f
  proof -
    obtain m where m: "find (residency_row q) (sh_Rows s) = Some m" "Parse (sr_Multiplier m) = Inr f"
      using f by (auto simp: residency_def split: option.splits sum.splits)
    then show ?thesis using Parse_canonical [OF m(2)] by (auto simp: find_first)
  qed
  have base: "wf_decimal base" using Parse_canonical [OF P] by (simp add: canonical_wf)
  show ?thesis
  proof (cases "q_Region q = [] \<or> q_Region q = RegionGlobal")
    case True
    then show ?thesis using assms P by (auto simp: priced_def Let_def)
  next
    case False
    then obtain o' where o: "residency s q = Inr o'"
      using assms P by (cases "residency s q") (auto simp: priced_def Let_def)
    show ?thesis
    proof (cases o')
      case None
      then have "\<forall>m\<in>set (sh_Rows s). \<not> residency_row q m"
        using o by (auto simp: residency_def find_None_iff split: option.splits sum.splits)
      then show ?thesis using assms P o False None by (auto simp: priced_def Let_def)
    next
      case (Some f)
      have p: "p = \<lparr>cp_SkuPriceID = sr_SkuPriceID r, cp_ListUnitPrice = Mul base f,
          cp_PricingUnit = sr_PricingUnit r, cp_Fallback = False, cp_FallbackBasis = [],
          cp_ResidencyMultiplier = Some f, cp_ContextTierMin = sr_ContextTierMinInputTokens r,
          cp_ContextTierMax = sr_ContextTierMaxInputTokens r\<rparr>"
        using assms P o False Some by (simp add: priced_def Let_def)
      show ?thesis using p P False res [of f] o Some base by (simp add: canonical_wf)
    qed
  qed
qed

section \<open>Properties\<close>

text \<open>
  C4. A price always comes from the sheet: \<open>Lookup\<close> answers with the first row of the
  provider's sheet that names the model, class and tier, is in force that day and holds the context
  size, at its parsed price times the residency multiplier of the query's region when there is one.
  Only when no such row exists does the first fallback row of the class answer, flagged as a
  fallback. Either way the price is canonical and never negative.
\<close>

theorem lookup_prices_from_sheet:
  assumes "Lookup c q = Inr p"
  shows "canonical (cp_ListUnitPrice p) \<and> 0 \<le> dval (cp_ListUnitPrice p) \<and>
    (\<exists>s us r vs. cat_sheets c (q_Provider q) = Some s \<and> sh_Rows s = us @ r # vs \<and>
       cp_SkuPriceID p = sr_SkuPriceID r \<and>
       (if cp_Fallback p
        then fallback_row q r \<and> (\<forall>u\<in>set us. \<not> fallback_row q u) \<and>
          (\<forall>u\<in>set (sh_Rows s). \<not> matches u q) \<and> Parse (sr_ListUnitPrice r) = Inr (cp_ListUnitPrice p)
        else matches r q \<and> (\<forall>u\<in>set us. \<not> matches u q) \<and>
          sr_ModelID r = q_Model q \<and> sr_TokenClass r = q_Class q \<and> sr_ServiceTier r = q_ServiceTier q \<and>
          (\<forall>n. sr_ContextTierMinInputTokens r = Some n \<longrightarrow> n < q_ContextInputTokens q) \<and>
          (\<forall>n. sr_ContextTierMaxInputTokens r = Some n \<longrightarrow> q_ContextInputTokens q \<le> n) \<and>
          (\<exists>base. Parse (sr_ListUnitPrice r) = Inr base \<and>
            (case cp_ResidencyMultiplier p of
               None \<Rightarrow> cp_ListUnitPrice p = base \<and> (q_Region q = [] \<or> q_Region q = RegionGlobal \<or>
                 (\<forall>m\<in>set (sh_Rows s). \<not> residency_row q m))
             | Some f \<Rightarrow> dval (cp_ListUnitPrice p) = dval base * dval f \<and>
                 q_Region q \<noteq> [] \<and> q_Region q \<noteq> RegionGlobal \<and>
                 (\<exists>m\<in>set (sh_Rows s). residency_row q m \<and> Parse (sr_Multiplier m) = Inr f)))))"
proof -
  obtain s where s: "cat_sheets c (q_Provider q) = Some s"
    using assms by (auto simp: Lookup_def split: option.splits)
  show ?thesis
  proof (cases "find (\<lambda>r. matches r q) (sh_Rows s)")
    case (Some r)
    then obtain us vs where r: "sh_Rows s = us @ r # vs" "matches r q" "\<forall>u\<in>set us. \<not> matches u q"
      by (auto simp: find_first)
    have "priced s r q = Inr p" using assms s Some by (simp add: Lookup_def)
    note f = priced_fields [OF this]
    have own: "sr_ModelID r = q_Model q \<and> sr_TokenClass r = q_Class q \<and> sr_ServiceTier r = q_ServiceTier q \<and>
        (\<forall>n. sr_ContextTierMinInputTokens r = Some n \<longrightarrow> n < q_ContextInputTokens q) \<and>
        (\<forall>n. sr_ContextTierMaxInputTokens r = Some n \<longrightarrow> q_ContextInputTokens q \<le> n)"
      using r(2) by (auto simp: matches_def holdsContext_def split: if_splits option.splits)
    show ?thesis
      by (intro conjI Lookup_nonneg [OF assms, THEN conjunct1] Lookup_nonneg [OF assms, THEN conjunct2]
          exI [of _ s] exI [of _ us] exI [of _ r] exI [of _ vs] s r(1)) (use f r own in auto)
  next
    case None
    then have no: "\<forall>u\<in>set (sh_Rows s). \<not> matches u q" by (simp add: find_None_iff)
    obtain r where "find (fallback_row q) (sh_Rows s) = Some r" and p: "fallback r = Inr p"
      using assms s None by (auto simp: Lookup_def split: option.splits)
    then obtain us vs where r: "sh_Rows s = us @ r # vs" "fallback_row q r" "\<forall>u\<in>set us. \<not> fallback_row q u"
      by (auto simp: find_first)
    have "Parse (sr_ListUnitPrice r) = Inr (cp_ListUnitPrice p) \<and> cp_Fallback p \<and>
        cp_SkuPriceID p = sr_SkuPriceID r"
      using p by (auto simp: fallback_def split: sum.splits)
    then show ?thesis
      by (intro conjI Lookup_nonneg [OF assms, THEN conjunct1] Lookup_nonneg [OF assms, THEN conjunct2]
          exI [of _ s] exI [of _ us] exI [of _ r] exI [of _ vs] s r(1)) (use no r in auto)
  qed
qed

definition sample_row :: sheet_row where
  "sample_row =
     \<lparr>sr_RowType = ''unit_price'', sr_SkuPriceID = ''sku'', sr_ModelID = ''m'', sr_RegionID = ''global'',
      sr_ServiceTier = ''standard'', sr_ContextTierMinInputTokens = None,
      sr_ContextTierMaxInputTokens = Some 200000, sr_TokenClass = ''output'', sr_ListUnitPrice = ''25'',
      sr_PricingUnit = ''1M Tokens'', sr_EffectiveStart = ''2026-01-01'', sr_EffectiveEnd = Some ''2026-09-01'',
      sr_FallbackBasis = [], sr_ModifierKind = [], sr_Multiplier = [], sr_AppliesToModels = []\<rparr>"

definition sample_catalog :: catalog where
  "sample_catalog =
     \<lparr>cat_version = ''v'',
      cat_sheets = [''anthropic'' \<mapsto> \<lparr>sh_Provider = ''anthropic'', sh_ServiceProviderName = ''Anthropic'',
        sh_Rows = [sample_row\<lparr>sr_ModelID := ''other''\<rparr>, sample_row,
          sample_row\<lparr>sr_RowType := ''multiplier'', sr_ModifierKind := ''data_residency'',
            sr_RegionID := ''us'', sr_Multiplier := ''1.1''\<rparr>]\<rparr>]\<rparr>"

definition sample_query :: query where
  "sample_query =
     \<lparr>q_Provider = ''anthropic'', q_Model = ''m'', q_Class = Output, q_ServiceTier = ''standard'',
      q_Region = ''us'', q_ContextInputTokens = 1000, q_At = go_date 2026 8 31\<rparr>"

lemma sample_lookup:
  "Lookup sample_catalog sample_query =
     Inr \<lparr>cp_SkuPriceID = ''sku'', cp_ListUnitPrice = \<lparr>coefficient = Some 275, scale = 1\<rparr>,
       cp_PricingUnit = ''1M Tokens'', cp_Fallback = False, cp_FallbackBasis = [],
       cp_ResidencyMultiplier = Some \<lparr>coefficient = Some 11, scale = 1\<rparr>,
       cp_ContextTierMin = None, cp_ContextTierMax = Some 200000\<rparr>"
  by code_simp

theorem lookup_prices_from_sheet_witness:
  "\<exists>p. Lookup sample_catalog sample_query = Inr p \<and> canonical (cp_ListUnitPrice p) \<and> cp_SkuPriceID p = ''sku''"
  using lookup_prices_from_sheet [OF sample_lookup] sample_lookup by simp

text \<open>
  No expired price is used: when a sheet writes the ends of its rows as days, the row a price
  comes from ends on a later day than the day of the request. The code compares the days as text; for
  the years the layout holds that is the calendar's order.
\<close>

theorem lookup_in_force:
  assumes "Lookup c q = Inr p" "four_digit_year (q_At q)"
  shows "\<exists>s r. cat_sheets c (q_Provider q) = Some s \<and> r \<in> set (sh_Rows s) \<and>
    cp_SkuPriceID p = sr_SkuPriceID r \<and>
    (\<forall>e. sr_EffectiveEnd r = Some (format_day e) \<and> four_digit_year e \<longrightarrow> day_of (q_At q) < day_of e)"
proof -
  have holds: "\<forall>e. sr_EffectiveEnd r = Some (format_day e) \<and> four_digit_year e \<longrightarrow> day_of (q_At q) < day_of e"
    if "holdsOn r (q_At q)" for r
    using that format_day_less [OF assms(2)] by (auto simp: holdsOn_def)
  obtain s where s: "cat_sheets c (q_Provider q) = Some s"
    using assms(1) by (auto simp: Lookup_def split: option.splits)
  have "\<exists>r. r \<in> set (sh_Rows s) \<and> cp_SkuPriceID p = sr_SkuPriceID r \<and> holdsOn r (q_At q)"
  proof (cases "find (\<lambda>r. matches r q) (sh_Rows s)")
    case (Some r)
    then have "priced s r q = Inr p" using assms(1) s by (simp add: Lookup_def)
    then show ?thesis using Some priced_fields by (auto simp: find_first matches_def)
  next
    case None
    then obtain r where "find (fallback_row q) (sh_Rows s) = Some r" "fallback r = Inr p"
      using assms(1) s by (auto simp: Lookup_def split: option.splits)
    then show ?thesis by (auto simp: find_first fallback_row_def fallback_def split: sum.splits)
  qed
  then show ?thesis using s holds by blast
qed

theorem lookup_in_force_witness:
  "\<exists>s r. cat_sheets sample_catalog ''anthropic'' = Some s \<and> r \<in> set (sh_Rows s) \<and>
     sr_SkuPriceID r = ''sku''"
proof -
  have "date_of (go_date 2026 8 31) = (2026, 8, 31)" by code_simp
  then have "four_digit_year (q_At sample_query)" by (simp add: four_digit_year_def sample_query_def)
  then show ?thesis using lookup_in_force [OF sample_lookup] by (auto simp: sample_query_def)
qed

end
