(* ===== verification/Adapter.thy ===== *)
theory Adapter
  imports Focus
begin

text \<open>
  \<open>internal/adapter\<close>: what an agent's adapter reports of a run. Token counts are \<open>int64\<close>; a sum
  that leaves the range wraps, as Go's addition does. The interfaces \<open>Session\<close>, \<open>Tailer\<close>,
  \<open>Exclusive\<close> and \<open>Agent\<close> hold no code.
\<close>

section \<open>Tokens\<close>

type_synonym grain = string

abbreviation PerRequest :: grain where "PerRequest \<equiv> ''request''"

abbreviation PerTurn :: grain where "PerTurn \<equiv> ''turn''"

abbreviation PerRun :: grain where "PerRun \<equiv> ''run''"

record enforcement =
  en_Grade :: string
  en_Note :: string
  en_Watchdog :: bool

definition no_enforcement :: enforcement where
  "no_enforcement = \<lparr>en_Grade = [], en_Note = [], en_Watchdog = False\<rparr>"

abbreviation GradeGatewayPrecheck :: string where "GradeGatewayPrecheck \<equiv> ''gateway-precheck''"

abbreviation GradeAgentFlag :: string where "GradeAgentFlag \<equiv> ''agent-flag''"

abbreviation GradeWrapperWatchdog :: string where "GradeWrapperWatchdog \<equiv> ''wrapper-watchdog''"

abbreviation GradeNone :: string where "GradeNone \<equiv> ''none''"

record tokens =
  tk_InputUncached :: int
  tk_CacheRead :: int
  tk_CacheWrite5m :: int
  tk_CacheWrite1h :: int
  tk_CacheWrite30m :: int
  tk_Output :: int
  tk_ReasoningOutput :: int
  tk_CachedInputReported :: int

type_synonym token_count = "token_class \<times> int"

definition all_counts :: "tokens \<Rightarrow> token_count list" where
  "all_counts t =
     [(InputUncached, tk_InputUncached t), (CacheRead, tk_CacheRead t),
      (CacheWrite5m, tk_CacheWrite5m t), (CacheWrite1h, tk_CacheWrite1h t),
      (CacheWrite30m, tk_CacheWrite30m t), (Output, tk_Output t),
      (ReasoningOutput, tk_ReasoningOutput t), (CachedInputReported, tk_CachedInputReported t)]"

definition Counts :: "tokens \<Rightarrow> token_count list" where
  "Counts t = filter (\<lambda>c. snd c \<noteq> 0) (all_counts t)"

definition CheckTokens :: "tokens \<Rightarrow> token_count + unit" where
  "CheckTokens t =
     (case find (\<lambda>c. snd c < 0) (Counts t) of None \<Rightarrow> Inr () | Some c \<Rightarrow> Inl c)"

definition AddTokens :: "tokens \<Rightarrow> tokens \<Rightarrow> tokens" where
  "AddTokens t u =
     \<lparr>tk_InputUncached = wrap64 (tk_InputUncached t + tk_InputUncached u),
      tk_CacheRead = wrap64 (tk_CacheRead t + tk_CacheRead u),
      tk_CacheWrite5m = wrap64 (tk_CacheWrite5m t + tk_CacheWrite5m u),
      tk_CacheWrite1h = wrap64 (tk_CacheWrite1h t + tk_CacheWrite1h u),
      tk_CacheWrite30m = wrap64 (tk_CacheWrite30m t + tk_CacheWrite30m u),
      tk_Output = wrap64 (tk_Output t + tk_Output u),
      tk_ReasoningOutput = wrap64 (tk_ReasoningOutput t + tk_ReasoningOutput u),
      tk_CachedInputReported = wrap64 (tk_CachedInputReported t + tk_CachedInputReported u)\<rparr>"

section \<open>Requests and reports\<close>

record request =
  rq_ID :: string
  rq_Provider :: string
  rq_Model :: string
  rq_Start :: instant
  rq_End :: instant
  rq_ServiceTier :: string
  rq_Region :: string
  rq_ContextInputTokens :: int
  rq_Grain :: grain
  rq_Tokens :: tokens
  rq_AssumedWrite :: token_class
  rq_CostSource :: string
  rq_Note :: string

type_synonym agent_error = string

abbreviation AgentErrorAuthentication :: agent_error where
  "AgentErrorAuthentication \<equiv> ''authentication_failed''"

abbreviation AgentErrorBilling :: agent_error where "AgentErrorBilling \<equiv> ''billing_error''"

abbreviation AgentErrorRateLimit :: agent_error where "AgentErrorRateLimit \<equiv> ''rate_limit''"

abbreviation AgentErrorInvalidRequest :: agent_error where "AgentErrorInvalidRequest \<equiv> ''invalid_request''"

abbreviation AgentErrorServer :: agent_error where "AgentErrorServer \<equiv> ''server_error''"

abbreviation AgentErrorUnknown :: agent_error where "AgentErrorUnknown \<equiv> ''unknown''"

definition ParseAgentError :: "string \<Rightarrow> agent_error" where
  "ParseAgentError stated =
     (if stated \<in> {AgentErrorAuthentication, AgentErrorBilling, AgentErrorRateLimit,
          AgentErrorInvalidRequest, AgentErrorServer}
      then stated else AgentErrorUnknown)"

text \<open>
  A report holds the reports of the sessions nested in it, so it is a datatype; the fields the rows
  read are in the record \<open>report_facts\<close>, and the requests and warnings are beside it because the run
  rewrites them.
\<close>

record report_facts =
  rf_SessionID :: string
  rf_AgentVersion :: string
  rf_CostBasis :: cost_basis
  rf_CostSource :: string
  rf_AgentError :: agent_error
  rf_Enforcement :: enforcement
  rf_Unrecorded :: int

datatype report =
  Report (rp_facts: report_facts) (rp_Requests: "request list") (rp_Warnings: "string list")
    (rp_Nested: "report list")

record plan =
  pl_Argv :: "string list"
  pl_Enforcement :: enforcement

section \<open>Lemmas\<close>

text \<open>The exact number of tokens of a class.\<close>

definition tokens_of :: "tokens \<Rightarrow> token_class \<Rightarrow> int" where
  "tokens_of t c = (case map_of (all_counts t) c of None \<Rightarrow> 0 | Some n \<Rightarrow> n)"

lemma all_counts_distinct: "distinct (map fst (all_counts t))"
  by (simp add: all_counts_def)

lemma Counts_distinct: "distinct (map fst (Counts t))"
  using all_counts_distinct [of t] by (simp add: Counts_def distinct_map_filter)

lemma CheckTokens_ok: "CheckTokens t = Inr () \<longleftrightarrow> (\<forall>c\<in>set (all_counts t). 0 \<le> snd c)"
proof -
  have "CheckTokens t = Inr () \<longleftrightarrow> find (\<lambda>c. snd c < 0) (Counts t) = None"
    by (simp add: CheckTokens_def split: option.split)
  then show ?thesis by (force simp: find_None_iff Counts_def not_less)
qed

lemma in_Counts: "(c, n) \<in> set (Counts t) \<longleftrightarrow> (c, n) \<in> set (all_counts t) \<and> n \<noteq> 0"
  by (auto simp: Counts_def)

lemma Counts_nonneg: "CheckTokens t = Inr () \<Longrightarrow> (c, n) \<in> set (Counts t) \<Longrightarrow> 0 < n"
  by (fastforce simp: CheckTokens_ok in_Counts)

end
