(* ===== verification/CIContext.thy ===== *)
theory CIContext
  imports Focus
begin

text \<open>
  \<open>internal/cicontext\<close>: what the CI system states about a run, and which of it a row may carry. The
  environment is a function from variable names to values, empty when unset. The event file is the
  parameter \<open>event\<close>: what reading and parsing it gave.
\<close>

section \<open>The tag convention's patterns\<close>

definition host_char :: "char \<Rightarrow> bool" where
  "host_char c \<longleftrightarrow> is_lower c \<or> is_digit c \<or> c = CHR ''.'' \<or> c = CHR ''-''"

definition path_char :: "char \<Rightarrow> bool" where
  "path_char c \<longleftrightarrow> host_char c \<or> c = CHR ''_'' \<or> c = CHR ''~'' \<or> c = CHR ''%''"

definition run_char :: "char \<Rightarrow> bool" where
  "run_char c \<longleftrightarrow> is_alnum c \<or> c \<in> {CHR ''.'', CHR ''_'', CHR '':'', CHR ''-''}"

text \<open>\<open>^[a-z0-9.-]+(/[a-z0-9._~%-]+){1,8}$\<close>.\<close>

definition repositoryPattern :: "string \<Rightarrow> bool" where
  "repositoryPattern s =
     (case split_at s (CHR ''/'') of
        [] \<Rightarrow> False
      | host # path \<Rightarrow>
          host \<noteq> [] \<and> list_all host_char host \<and>
          1 \<le> length path \<and> length path \<le> 8 \<and>
          list_all (\<lambda>p. p \<noteq> [] \<and> list_all path_char p) path)"

definition pullRequestPattern :: "string \<Rightarrow> bool" where
  "pullRequestPattern s =
     (case s of [] \<Rightarrow> False | c # cs \<Rightarrow> is_digit c \<and> c \<noteq> CHR ''0'' \<and> of_class is_digit 0 19 cs)"

definition commitPattern :: "string \<Rightarrow> bool" where
  "commitPattern s \<longleftrightarrow> of_class is_hex 40 40 s \<or> of_class is_hex 64 64 s"

definition runPattern :: "string \<Rightarrow> bool" where
  "runPattern = of_class run_char 1 128"

definition maxRepositoryLength :: nat where
  "maxRepositoryLength = 256"

section \<open>The context\<close>

record ci_context =
  ci_Repository :: string
  ci_RepositoryURL :: string
  ci_PullRequest :: string
  ci_Head :: string
  ci_Base :: string
  ci_Run :: string
  ci_Task :: string

definition no_context :: ci_context where
  "no_context =
     \<lparr>ci_Repository = [], ci_RepositoryURL = [], ci_PullRequest = [], ci_Head = [], ci_Base = [],
      ci_Run = [], ci_Task = []\<rparr>"

datatype ci_system = NoSystem | GitHubActions | GitLabCI

record pull_request_event =
  pe_Number :: int
  pe_Head :: string
  pe_Base :: string

record issue_event =
  ie_Number :: int
  ie_PullRequest :: bool

record ci_event =
  ev_Issue :: "issue_event option"
  ev_PullRequest :: "pull_request_event option"

definition Detect :: "(string \<Rightarrow> string) \<Rightarrow> ci_system" where
  "Detect getenv =
     (if getenv ''GITHUB_ACTIONS'' = ''true'' then GitHubActions
      else if getenv ''GITLAB_CI'' = ''true'' then GitLabCI
      else NoSystem)"

definition repositoryOf :: "string \<Rightarrow> string \<Rightarrow> string" where
  "repositoryOf host path = to_lower (host @ ''/'' @ path)"

definition buildsItsCommit :: "string \<Rightarrow> bool" where
  "buildsItsCommit eventName \<longleftrightarrow> eventName \<in> {''push'', ''schedule'', ''workflow_dispatch''}"

definition keep :: "(string \<Rightarrow> bool) \<Rightarrow> string \<Rightarrow> string" where
  "keep pattern value = (if pattern value then value else [])"

definition checked :: "ci_context \<Rightarrow> ci_context" where
  "checked c =
     (let c = (if maxRepositoryLength < length (ci_Repository c) \<or> \<not> repositoryPattern (ci_Repository c)
               then c\<lparr>ci_Repository := [], ci_RepositoryURL := []\<rparr> else c)
      in c\<lparr>ci_PullRequest := keep pullRequestPattern (ci_PullRequest c),
           ci_Head := keep commitPattern (ci_Head c),
           ci_Base := keep commitPattern (ci_Base c),
           ci_Run := keep runPattern (ci_Run c),
           ci_Task := keep runPattern (ci_Task c)\<rparr>)"

definition or_else :: "string \<Rightarrow> string \<Rightarrow> string" where
  "or_else a b = (if a \<noteq> [] then a else b)"

definition readGitHub :: "(string \<Rightarrow> string) \<Rightarrow> 'e + ci_event \<Rightarrow> ci_context \<times> 'e option" where
  "readGitHub getenv event =
     (let server = trim_right (or_else (getenv ''GITHUB_SERVER_URL'') ''https://github.com'') (CHR ''/'');
          host = fst (cut_prefix (fst (cut_prefix server ''https://'')) ''http://'');
          context = no_context
            \<lparr>ci_Repository := repositoryOf host (getenv ''GITHUB_REPOSITORY''),
             ci_RepositoryURL := server @ ''/'' @ getenv ''GITHUB_REPOSITORY'',
             ci_Run := getenv ''GITHUB_RUN_ID'',
             ci_Task := getenv ''GITHUB_JOB''\<rparr>;
          name = getenv ''GITHUB_EVENT_NAME''
      in case event of
           Inl e \<Rightarrow>
             (checked (if buildsItsCommit name then context\<lparr>ci_Head := getenv ''GITHUB_SHA''\<rparr> else context), Some e)
         | Inr event \<Rightarrow>
             (checked
               (case ev_PullRequest event of
                  Some p \<Rightarrow>
                    context\<lparr>ci_PullRequest := int_string (pe_Number p), ci_Head := pe_Head p, ci_Base := pe_Base p\<rparr>
                | None \<Rightarrow>
                    (case ev_Issue event of
                       Some i \<Rightarrow>
                         if name = ''issue_comment'' \<and> ie_PullRequest i
                         then context\<lparr>ci_PullRequest := int_string (ie_Number i)\<rparr>
                         else if buildsItsCommit name then context\<lparr>ci_Head := getenv ''GITHUB_SHA''\<rparr> else context
                     | None \<Rightarrow>
                         if buildsItsCommit name then context\<lparr>ci_Head := getenv ''GITHUB_SHA''\<rparr> else context)),
              None))"

definition readGitLab :: "(string \<Rightarrow> string) \<Rightarrow> ci_context" where
  "readGitLab getenv =
     checked
       \<lparr>ci_Repository = repositoryOf (getenv ''CI_SERVER_HOST'') (getenv ''CI_PROJECT_PATH''),
        ci_RepositoryURL = getenv ''CI_PROJECT_URL'',
        ci_PullRequest = getenv ''CI_MERGE_REQUEST_IID'',
        ci_Head = or_else (getenv ''CI_MERGE_REQUEST_SOURCE_BRANCH_SHA'') (getenv ''CI_COMMIT_SHA''),
        ci_Base = getenv ''CI_MERGE_REQUEST_DIFF_BASE_SHA'',
        ci_Run = getenv ''CI_PIPELINE_ID'',
        ci_Task = getenv ''CI_JOB_ID''\<rparr>"

definition ReadContext :: "(string \<Rightarrow> string) \<Rightarrow> 'e + ci_event \<Rightarrow> ci_context \<times> 'e option" where
  "ReadContext getenv event =
     (case Detect getenv of
        GitHubActions \<Rightarrow> readGitHub getenv event
      | GitLabCI \<Rightarrow> (readGitLab getenv, None)
      | NoSystem \<Rightarrow> (no_context, None))"

section \<open>Tags and attributes\<close>

definition tag_if :: "string \<Rightarrow> string \<Rightarrow> (string \<rightharpoonup> string) \<Rightarrow> (string \<rightharpoonup> string)" where
  "tag_if key value tags = (if value \<noteq> [] then tags(key \<mapsto> value) else tags)"

definition ContextTags :: "ci_context \<Rightarrow> (string \<rightharpoonup> string)" where
  "ContextTags c =
     tag_if ''costroid/repo'' (ci_Repository c)
       (tag_if ''costroid/pr'' (ci_PullRequest c)
         (tag_if ''costroid/commit_sha'' (ci_Head c)
           (tag_if ''costroid/workflow_run_id'' (ci_Run c) Map.empty)))"

definition upper_hex :: "nat \<Rightarrow> char" where
  "upper_hex n = (if n < 10 then digit_char n else char_of (55 + n))"

definition escapeAttribute :: "string \<Rightarrow> string" where
  "escapeAttribute value =
     concat (map (\<lambda>b.
       if b \<le> CHR '' '' \<or> CHR 0x7F \<le> b \<or> b \<in> {CHR 0x22, CHR '','', CHR '';'', CHR 0x5C, CHR ''%''}
       then [CHR ''%'', upper_hex (of_char b div 16), upper_hex (of_char b mod 16)] else [b]) value)"

text \<open>The attributes in the order of their keys, which is the order the code writes them in.\<close>

definition attributes_of :: "ci_context \<Rightarrow> (string \<times> string) list" where
  "attributes_of c =
     map (\<lambda>(k, v). (k, escapeAttribute v)) (filter (\<lambda>kv. snd kv \<noteq> [])
       [(''cicd.pipeline.run.id'', ci_Run c), (''cicd.pipeline.task.run.id'', ci_Task c),
        (''vcs.change.id'', ci_PullRequest c), (''vcs.ref.base.revision'', ci_Base c),
        (''vcs.ref.head.revision'', ci_Head c), (''vcs.repository.url.full'', ci_RepositoryURL c)])"

definition ResourceAttributes :: "ci_context \<Rightarrow> string \<Rightarrow> string" where
  "ResourceAttributes c existing =
     (let attributes = attributes_of c
      in if attributes = [] then []
         else join
           (filter (\<lambda>pair. pair \<noteq> [] \<and> trim_space (fst (cut_str pair ''='')) \<notin> fst ` set attributes)
              (split_at existing (CHR '','')) @
            map (\<lambda>(k, v). k @ ''='' @ v) attributes) '','')"

section \<open>What a context may state\<close>

lemma keep_cases: "keep P v = [] \<or> P (keep P v)"
  by (simp add: keep_def)

lemma checked_fields:
  "(ci_Repository (checked c) = [] \<or> repositoryPattern (ci_Repository (checked c)) \<and> length (ci_Repository (checked c)) \<le> 256)"
  "(ci_PullRequest (checked c) = [] \<or> pullRequestPattern (ci_PullRequest (checked c)))"
  "(ci_Head (checked c) = [] \<or> commitPattern (ci_Head (checked c)))"
  "(ci_Base (checked c) = [] \<or> commitPattern (ci_Base (checked c)))"
  "(ci_Run (checked c) = [] \<or> runPattern (ci_Run (checked c)))"
  "(ci_Task (checked c) = [] \<or> runPattern (ci_Task (checked c)))"
  by (auto simp: checked_def Let_def keep_def maxRepositoryLength_def)

definition stated_ok :: "ci_context \<Rightarrow> bool" where
  "stated_ok c \<longleftrightarrow>
     (ci_Repository c = [] \<or> repositoryPattern (ci_Repository c) \<and> length (ci_Repository c) \<le> 256) \<and>
     (ci_PullRequest c = [] \<or> pullRequestPattern (ci_PullRequest c)) \<and>
     (ci_Head c = [] \<or> commitPattern (ci_Head c)) \<and>
     (ci_Base c = [] \<or> commitPattern (ci_Base c)) \<and>
     (ci_Run c = [] \<or> runPattern (ci_Run c)) \<and>
     (ci_Task c = [] \<or> runPattern (ci_Task c))"

lemma checked_ok: "stated_ok (checked c)"
  using checked_fields [of c] by (simp add: stated_ok_def)

lemma no_context_ok: "stated_ok no_context"
  by (simp add: stated_ok_def no_context_def)

lemma readGitHub_checked: "\<exists>c. fst (readGitHub getenv event) = checked c"
  by (cases event) (auto simp: readGitHub_def Let_def split: prod.splits)

lemma ReadContext_ok: "stated_ok (fst (ReadContext getenv event))"
proof (cases "Detect getenv")
  case GitHubActions
  then show ?thesis using readGitHub_checked [of getenv event] checked_ok by (metis ReadContext_def ci_system.simps(8))
qed (simp_all add: ReadContext_def readGitLab_def checked_ok no_context_ok)


lemma upper_hex_plain: "n < 16 \<Longrightarrow> upper_hex n \<noteq> CHR '',''"
proof -
  assume n: "n < 16"
  have "(of_char (upper_hex n) :: nat) = (if n < 10 then 48 + n else 55 + n)"
    using n by (simp add: upper_hex_def)
  then have "(of_char (upper_hex n) :: nat) \<noteq> of_char (CHR '','')" by (simp split: if_splits)
  then show ?thesis by (metis)
qed

lemma escapeAttribute_no_comma: "CHR '','' \<notin> set (escapeAttribute v)"
proof (induction v)
  case Nil
  then show ?case by (simp add: escapeAttribute_def)
next
  case (Cons b v)
  have b: "(of_char b :: nat) < 256" by simp
  then have "of_char b div 16 < (16::nat)" "of_char b mod 16 < (16::nat)"
    by (simp_all add: less_mult_imp_div_less)
  then have "upper_hex (of_char b div 16) \<noteq> CHR '',''" "upper_hex (of_char b mod 16) \<noteq> CHR '',''"
    by (simp_all add: upper_hex_plain)
  then show ?case using Cons by (auto simp: escapeAttribute_def)
qed

lemma attributes_keys:
  assumes "(k, v) \<in> set (attributes_of c)"
  shows "CHR ''='' \<notin> set k \<and> CHR '','' \<notin> set k \<and> trim_space k = k \<and> CHR '','' \<notin> set v"
proof -
  have "k \<in> {''cicd.pipeline.run.id'', ''cicd.pipeline.task.run.id'', ''vcs.change.id'',
      ''vcs.ref.base.revision'', ''vcs.ref.head.revision'', ''vcs.repository.url.full''}"
    and v: "\<exists>w. v = escapeAttribute w"
    using assms by (auto simp: attributes_of_def split: if_splits)
  moreover have "trim_space ''cicd.pipeline.run.id'' = ''cicd.pipeline.run.id''"
    "trim_space ''cicd.pipeline.task.run.id'' = ''cicd.pipeline.task.run.id''"
    "trim_space ''vcs.change.id'' = ''vcs.change.id''"
    "trim_space ''vcs.ref.base.revision'' = ''vcs.ref.base.revision''"
    "trim_space ''vcs.ref.head.revision'' = ''vcs.ref.head.revision''"
    "trim_space ''vcs.repository.url.full'' = ''vcs.repository.url.full''"
    by code_simp+
  ultimately show ?thesis using escapeAttribute_no_comma by auto
qed

lemma attributes_distinct: "distinct (map fst (attributes_of c))"
  by (simp add: attributes_of_def)

lemma distinct_keys_eq: "distinct (map fst xs) \<Longrightarrow> (k, v) \<in> set xs \<Longrightarrow> (k, w) \<in> set xs \<Longrightarrow> v = w"
  by (metis map_of_is_SomeI option.inject)

definition entry_key :: "string \<Rightarrow> string" where
  "entry_key e = trim_space (fst (cut_str e ''=''))"

lemma ResourceAttributes_entries:
  assumes "attributes_of c \<noteq> []"
  shows "split_at (ResourceAttributes c existing) (CHR '','') =
    filter (\<lambda>pair. pair \<noteq> [] \<and> entry_key pair \<notin> fst ` set (attributes_of c)) (split_at existing (CHR '','')) @
    map (\<lambda>(k, v). k @ ''='' @ v) (attributes_of c)"
proof -
  let ?xs = "filter (\<lambda>pair. pair \<noteq> [] \<and> entry_key pair \<notin> fst ` set (attributes_of c)) (split_at existing (CHR '','')) @
    map (\<lambda>(k, v). k @ ''='' @ v) (attributes_of c)"
  have "CHR '','' \<notin> set x" if "x \<in> set ?xs" for x
    using that attributes_keys [of _ _ c] by (auto dest: split_at_pieces)
  moreover have "ResourceAttributes c existing = join ?xs '',''"
    using assms by (simp add: ResourceAttributes_def Let_def entry_key_def)
  ultimately show ?thesis using assms by (simp add: split_at_join)
qed

section \<open>Properties\<close>

text \<open>
  Nothing from the CI environment reaches a row unless it has the tag convention's form: whatever
  the variables and the event hold, every tag \<open>ContextTags\<close> states of the context that was read is one
  of the four join keys, and its value matches that key's pattern.
\<close>

theorem context_states_conforming_tags:
  assumes "ContextTags (fst (ReadContext getenv event)) key = Some v"
  shows "key = ''costroid/repo'' \<and> repositoryPattern v \<and> length v \<le> 256 \<or>
    key = ''costroid/pr'' \<and> pullRequestPattern v \<or>
    key = ''costroid/commit_sha'' \<and> commitPattern v \<or>
    key = ''costroid/workflow_run_id'' \<and> runPattern v"
  using assms ReadContext_ok [of getenv event]
  by (auto simp: ContextTags_def tag_if_def stated_ok_def split: if_splits)

definition sample_env :: "string \<Rightarrow> string" where
  "sample_env k =
     (if k = ''GITHUB_ACTIONS'' then ''true'' else if k = ''GITHUB_REPOSITORY'' then ''Acme/Shop''
      else if k = ''GITHUB_RUN_ID'' then ''42'' else if k = ''GITHUB_RUN_ATTEMPT'' then ''1''
      else if k = ''GITHUB_JOB'' then ''a b'' else [])"

definition sample_event :: "string + ci_event" where
  "sample_event = Inr \<lparr>ev_Issue = None, ev_PullRequest = Some \<lparr>pe_Number = 7, pe_Head = ''main'', pe_Base = []\<rparr>\<rparr>"

theorem context_states_conforming_tags_witness:
  "ContextTags (fst (ReadContext sample_env sample_event)) ''costroid/repo'' = Some ''github.com/acme/shop'' \<and>
   repositoryPattern ''github.com/acme/shop''"
proof -
  have t: "ContextTags (fst (ReadContext sample_env sample_event)) ''costroid/repo'' = Some ''github.com/acme/shop''"
    by code_simp
  show ?thesis using context_states_conforming_tags [OF t] t by simp
qed

text \<open>
  The run's resource attributes cannot be overridden or forged: split at its commas, the value
  \<open>ResourceAttributes\<close> returns holds for each of the run's keys exactly one entry, the run's own
  escaped value, whatever the job had set; and every entry the job set under another key is still there.
\<close>

theorem resource_attributes_stated_once:
  assumes "attributes_of c \<noteq> []"
  shows "(\<forall>(k, v)\<in>set (attributes_of c).
      {e \<in> set (split_at (ResourceAttributes c existing) (CHR '','')). entry_key e = k} = {k @ ''='' @ v}) \<and>
    {e \<in> set (split_at (ResourceAttributes c existing) (CHR '','')). entry_key e \<notin> fst ` set (attributes_of c)} =
    {e \<in> set (split_at existing (CHR '','')). e \<noteq> [] \<and> entry_key e \<notin> fst ` set (attributes_of c)}"
proof -
  let ?own = "(\<lambda>(k, v). k @ ''='' @ v) ` set (attributes_of c)"
  let ?kept = "{e \<in> set (split_at existing (CHR '','')). e \<noteq> [] \<and> entry_key e \<notin> fst ` set (attributes_of c)}"
  have entries: "set (split_at (ResourceAttributes c existing) (CHR '','')) = ?kept \<union> ?own"
    by (auto simp: ResourceAttributes_entries [OF assms])
  have key: "entry_key (k @ ''='' @ v) = k" if "(k, v) \<in> set (attributes_of c)" for k v
    using attributes_keys [OF that] by (simp add: entry_key_def cut_str_single_found)
  have "{e \<in> ?kept \<union> ?own. entry_key e = k} = {k @ ''='' @ v}" if kv: "(k, v) \<in> set (attributes_of c)" for k v
  proof (intro set_eqI iffI)
    fix e
    assume e: "e \<in> {e \<in> ?kept \<union> ?own. entry_key e = k}"
    have "k \<in> fst ` set (attributes_of c)" using kv by force
    then have "e \<in> ?own" using e by auto
    then obtain k' w where w: "(k', w) \<in> set (attributes_of c)" "e = k' @ ''='' @ w" by auto
    then have "k' = k" using key [OF w(1)] e by simp
    then show "e \<in> {k @ ''='' @ v}" using w distinct_keys_eq [OF attributes_distinct kv] by simp
  next
    fix e
    assume "e \<in> {k @ ''='' @ v}"
    then show "e \<in> {e \<in> ?kept \<union> ?own. entry_key e = k}" using key [OF kv] kv by force
  qed
  moreover have "{e \<in> ?kept \<union> ?own. entry_key e \<notin> fst ` set (attributes_of c)} = ?kept"
  proof -
    have "entry_key e \<in> fst ` set (attributes_of c)" if "e \<in> ?own" for e
      using that key by force
    then show ?thesis by blast
  qed
  ultimately show ?thesis by (simp add: entries split_beta)
qed

definition sample_context :: ci_context where
  "sample_context = no_context\<lparr>ci_Run := ''42''\<rparr>"

theorem resource_attributes_stated_once_witness:
  "{e \<in> set (split_at (ResourceAttributes sample_context ''team=x,cicd.pipeline.run.id=9'') (CHR '','')).
     entry_key e = ''cicd.pipeline.run.id''} = {''cicd.pipeline.run.id='' @ ''42''}"
proof -
  have a: "attributes_of sample_context = [(''cicd.pipeline.run.id'', ''42'')]" by code_simp
  have ne: "attributes_of sample_context \<noteq> []" by (subst a) (rule list.distinct)
  have m: "(''cicd.pipeline.run.id'', ''42'') \<in> set (attributes_of sample_context)"
    by (subst a) (rule list.set_intros)
  show ?thesis
    using bspec [OF conjunct1 [OF resource_attributes_stated_once [OF ne]] m]
    by (simp only: prod.case append_Cons append_Nil)
qed

end
