(* ===== verification/Gateway.thy ===== *)
theory Gateway
  imports CIContext
begin

text \<open>
  \<open>internal/gateway\<close>: one run's own key on a LiteLLM proxy. The cryptography is not under
  src/: \<open>sha256\<close> is the key id's hash in hex, \<open>public_of\<close> turns a sealing key's private half into its
  public half, \<open>seal_with\<close> and \<open>open_with\<close> are HPKE with a key, the binding's bytes and the text, base64
  included. The proxy's answers are values, and a polling loop is a function of the answers it reads
  and of the clock readings between them.
\<close>

section \<open>Bindings\<close>

record binding =
  bi_Repository :: string
  bi_Run :: string
  bi_Attempt :: string

abbreviation requestFormat :: string where "requestFormat \<equiv> ''costroid gateway request v2''"

abbreviation legacyRequestFormat :: string where "legacyRequestFormat \<equiv> ''costroid gateway request v1''"

abbreviation keyPrefix :: string where "keyPrefix \<equiv> ''sk-''"

abbreviation SealingKeyPrefix :: string where "SealingKeyPrefix \<equiv> ''costroid-sealing-key-v1-''"

datatype gateway_error =
    NotActions
  | IncompleteBinding
  | DerivedSealingKey
  | WrongFormat string
  | RequestForAnotherRun
  | BadSealingKey
  | SealedToAnotherKey
  | DoesNotOpen
  | KeyIDMismatch
  | PublicKeyIsPrivate
  | BadPublicKey
  | NoIDListed
  | BadSpend string
  | ManyKeys nat
  | BadKeyID
  | BadIngestURL
  | BudgetNotPositive
  | LifetimeTooShort
  | NoParallel
  | NoTokens
  | CallFailed string
  | NotRegistered

definition ReadBinding :: "(string \<Rightarrow> string) \<Rightarrow> 'e + ci_event \<Rightarrow> gateway_error + binding" where
  "ReadBinding getenv event =
     (if Detect getenv \<noteq> GitHubActions then Inl NotActions
      else
        (let ci = fst (ReadContext getenv event);
             b = \<lparr>bi_Repository = ci_Repository ci, bi_Run = ci_Run ci, bi_Attempt = getenv ''GITHUB_RUN_ATTEMPT''\<rparr>
         in if bi_Repository b = [] \<or> bi_Run b = [] \<or> bi_Attempt b = [] then Inl IncompleteBinding else Inr b))"

definition binding_info :: "binding \<Rightarrow> string" where
  "binding_info b = join [requestFormat, bi_Repository b, bi_Run b, bi_Attempt b] [CHR 0x0A]"

definition Alias :: "binding \<Rightarrow> string" where
  "Alias b = join [''costroid'', bi_Repository b, bi_Run b, bi_Attempt b] '':''"

section \<open>Sealed requests\<close>

record sealed_request =
  se_Format :: string
  se_Binding :: binding
  se_SealingKey :: string
  se_KeyID :: string
  se_Sealed :: string

definition PublicKey :: "(string \<Rightarrow> string option) \<Rightarrow> string \<Rightarrow> gateway_error + string" where
  "PublicKey public_of sealingKey =
     (let (encoded, ok) = cut_prefix sealingKey SealingKeyPrefix
      in if \<not> ok then Inl BadSealingKey
         else (case public_of encoded of None \<Rightarrow> Inl BadSealingKey | Some public \<Rightarrow> Inr public))"

definition seal :: "(string \<Rightarrow> string \<Rightarrow> string \<Rightarrow> string option) \<Rightarrow> string \<Rightarrow> binding \<Rightarrow> string \<Rightarrow> gateway_error + string" where
  "seal seal_with publicKey binding key =
     (if prefix SealingKeyPrefix publicKey then Inl PublicKeyIsPrivate
      else (case seal_with publicKey (binding_info binding) key of
              None \<Rightarrow> Inl BadPublicKey
            | Some sealed \<Rightarrow> Inr sealed))"

definition open_sealed :: "(string \<Rightarrow> string option) \<Rightarrow> (string \<Rightarrow> string \<Rightarrow> string \<Rightarrow> string option) \<Rightarrow>
    string \<Rightarrow> binding \<Rightarrow> string \<Rightarrow> gateway_error + string" where
  "open_sealed public_of open_with sealingKey binding sealed =
     rbind (PublicKey public_of sealingKey) (\<lambda>_.
       case open_with (fst (cut_prefix sealingKey SealingKeyPrefix)) (binding_info binding) sealed of
         None \<Rightarrow> Inl DoesNotOpen
       | Some key \<Rightarrow> Inr key)"

text \<open>The key drawn, \<open>sk-\<close> and 128 random bits, is the argument \<open>key\<close>.\<close>

definition NewRequest :: "(string \<Rightarrow> string) \<Rightarrow> (string \<Rightarrow> string \<Rightarrow> string \<Rightarrow> string option) \<Rightarrow>
    string \<Rightarrow> binding \<Rightarrow> string \<Rightarrow> gateway_error + sealed_request" where
  "NewRequest sha256 seal_with publicKey binding key =
     rmap (\<lambda>sealed. \<lparr>se_Format = requestFormat, se_Binding = binding, se_SealingKey = publicKey,
                     se_KeyID = sha256 key, se_Sealed = sealed\<rparr>)
       (seal seal_with publicKey binding key)"

definition ReadRequest :: "sealed_request \<Rightarrow> gateway_error + sealed_request" where
  "ReadRequest r =
     (if se_Format r = legacyRequestFormat then Inl DerivedSealingKey
      else if se_Format r \<noteq> requestFormat then Inl (WrongFormat (se_Format r))
      else Inr r)"

definition OpenRequest :: "(string \<Rightarrow> string) \<Rightarrow> (string \<Rightarrow> string option) \<Rightarrow>
    (string \<Rightarrow> string \<Rightarrow> string \<Rightarrow> string option) \<Rightarrow> sealed_request \<Rightarrow> string \<Rightarrow> binding \<Rightarrow> gateway_error + string" where
  "OpenRequest sha256 public_of open_with r sealingKey run =
     (if se_Binding r \<noteq> run then Inl RequestForAnotherRun
      else rbind (PublicKey public_of sealingKey) (\<lambda>public.
        if se_SealingKey r \<noteq> public then Inl SealedToAnotherKey
        else rbind (open_sealed public_of open_with sealingKey run (se_Sealed r)) (\<lambda>key.
          if \<not> prefix keyPrefix key \<or> sha256 key \<noteq> se_KeyID r then Inl KeyIDMismatch
          else Inr key)))"

section \<open>The key the gateway returned\<close>

record key_info =
  ki_MaxBudget :: "string option"
  ki_Spend :: string
  ki_Expires :: json
  ki_MaxParallel :: "int option"
  ki_Metadata :: json

record expect =
  ex_Budget :: decimal
  ex_Run :: string
  ex_Now :: instant

record grant =
  gr_KeyID :: string
  gr_MaxBudget :: decimal
  gr_MaxParallel :: int
  gr_MaxRequestTokens :: int
  gr_Problems :: "string list"

datatype expires_error = ExpiresNotString | ExpiresNotTime string

text \<open>\<open>ExpiresAt\<close>: a missing expiry, an error, or an instant.\<close>

definition ExpiresAt :: "key_info \<Rightarrow> expires_error + instant option" where
  "ExpiresAt k =
     (case ki_Expires k of
        JNull \<Rightarrow> Inr None
      | JString text \<Rightarrow>
          (case parse_rfc3339 text of None \<Rightarrow> Inl (ExpiresNotTime text) | Some t \<Rightarrow> Inr (Some t))
      | _ \<Rightarrow> Inl ExpiresNotString)"

definition expires_problem :: "expires_error \<Rightarrow> string" where
  "expires_problem e =
     (case e of
        ExpiresNotString \<Rightarrow> ''the key's expires field is not a string''
      | ExpiresNotTime text \<Rightarrow>
          ''the key's expires field reads '' @ go_quote text @
          '', which is not an RFC 3339 time with a zone offset'')"

definition metadata :: "key_info \<Rightarrow> string \<Rightarrow> string" where
  "metadata k key = (case member_of (ki_Metadata k) key of Some (JString s) \<Rightarrow> s | _ \<Rightarrow> [])"

abbreviation MetaRun :: string where "MetaRun \<equiv> ''costroid_run_id''"

abbreviation MetaMaxRequestTokens :: string where "MetaMaxRequestTokens \<equiv> ''costroid_max_request_tokens''"

text \<open>Each fact the key must state, as the figure it grants or the problem it leaves.\<close>

definition inspect_budget :: "key_info \<Rightarrow> expect \<Rightarrow> string + decimal" where
  "inspect_budget info ex =
     (case ki_MaxBudget info of
        None \<Rightarrow> Inl ''the key has no budget''
      | Some text \<Rightarrow>
          (let problem = ''the key's budget '' @ text @ '' is not above 0 and at or under the run's '' @
                 String (ex_Budget ex)
           in case Parse text of
                Inl _ \<Rightarrow> Inl problem
              | Inr budget \<Rightarrow>
                  if Sign budget \<le> 0 \<or> 0 < Cmp budget (ex_Budget ex) then Inl problem else Inr budget))"

definition inspect_expiry :: "key_info \<Rightarrow> expect \<Rightarrow> string + unit" where
  "inspect_expiry info ex =
     (case ExpiresAt info of
        Inl e \<Rightarrow> Inl (expires_problem e)
      | Inr None \<Rightarrow> Inl ''the key has no expiry ahead of now''
      | Inr (Some t) \<Rightarrow> if \<not> ex_Now ex < t then Inl ''the key has no expiry ahead of now'' else Inr ())"

definition inspect_parallel :: "key_info \<Rightarrow> string + int" where
  "inspect_parallel info =
     (case ki_MaxParallel info of
        None \<Rightarrow> Inl ''the key has no parallel-request limit''
      | Some n \<Rightarrow> if n < 1 then Inl ''the key has no parallel-request limit'' else Inr n)"

definition inspect_tokens :: "key_info \<Rightarrow> string + int" where
  "inspect_tokens info =
     (case parse_int64 (metadata info MetaMaxRequestTokens) of
        None \<Rightarrow> Inl ''the key's metadata states no largest request''
      | Some n \<Rightarrow> if n < 1 then Inl ''the key's metadata states no largest request'' else Inr n)"

definition inspect_run :: "key_info \<Rightarrow> expect \<Rightarrow> string + unit" where
  "inspect_run info ex =
     (let run = metadata info MetaRun
      in if run = [] \<or> run \<noteq> ex_Run ex
         then Inl (''the key was minted for run '' @ go_quote run @ '', not this run '' @ go_quote (ex_Run ex))
         else Inr ())"

definition problem_of :: "string + 'a \<Rightarrow> string list" where
  "problem_of r = (case r of Inl p \<Rightarrow> [p] | Inr _ \<Rightarrow> [])"

definition granted :: "'a \<Rightarrow> string + 'a \<Rightarrow> 'a" where
  "granted none r = (case r of Inl _ \<Rightarrow> none | Inr x \<Rightarrow> x)"

definition Inspect :: "(string \<Rightarrow> string) \<Rightarrow> string \<Rightarrow> key_info \<Rightarrow> expect \<Rightarrow> grant" where
  "Inspect sha256 key info ex =
     (let budget = inspect_budget info ex;
          expiry = inspect_expiry info ex;
          parallel = inspect_parallel info;
          largest = inspect_tokens info;
          run = inspect_run info ex
      in \<lparr>gr_KeyID = sha256 key,
          gr_MaxBudget = granted zero_decimal budget,
          gr_MaxParallel = granted 0 parallel,
          gr_MaxRequestTokens = granted 0 largest,
          gr_Problems = problem_of budget @ problem_of expiry @ problem_of parallel @ problem_of largest @
            problem_of run\<rparr>)"

definition Holds :: "grant \<Rightarrow> bool" where
  "Holds g \<longleftrightarrow> gr_Problems g = []"

section \<open>The key's spend\<close>

definition spendTolerance :: decimal where
  "spendTolerance = \<lparr>coefficient = Some 1, scale = 9\<rparr>"

definition SameSpend :: "decimal \<Rightarrow> decimal \<Rightarrow> bool" where
  "SameSpend counted listed =
     (let gap = Sub counted listed;
          gap = (if Sign gap < 0 then Sub zero_decimal gap else gap)
      in Cmp gap (Mul listed spendTolerance) \<le> 0)"

record listed_key =
  lk_Token :: string
  lk_Alias :: string
  lk_Spend :: string

record key_count =
  kc_KeyID :: string
  kc_Spend :: decimal

definition spendOf :: "string \<Rightarrow> gateway_error + decimal" where
  "spendOf field =
     (case ParseNumber field of
        Inl _ \<Rightarrow> Inl (BadSpend field)
      | Inr spend \<Rightarrow> if Sign spend < 0 then Inl (BadSpend field) else Inr spend)"

definition listed_count :: "listed_key \<Rightarrow> gateway_error + key_count" where
  "listed_count key =
     (if \<not> hex64 (lk_Token key) then Inl NoIDListed
      else rmap (\<lambda>spend. \<lparr>kc_KeyID = lk_Token key, kc_Spend = spend\<rparr>) (spendOf (lk_Spend key)))"

definition CountKeys :: "gateway_error + listed_key list \<Rightarrow> string \<Rightarrow> gateway_error + key_count option" where
  "CountKeys answer alias =
     rbind answer (\<lambda>keys.
     rbind (rtraverse listed_count (filter (\<lambda>k. lk_Alias k = alias) keys)) (\<lambda>found.
       case found of
         [] \<Rightarrow> Inr None
       | [one] \<Rightarrow> Inr (Some one)
       | _ \<Rightarrow> Inl (ManyKeys (length found))))"

text \<open>
  \<open>Counter.Settled\<close>. An observation is one turn of the loop: the clock when the condition is
  read, whether the context ended during the pause, the answer of the next count, and the clock when a
  moved figure restarts the wait. When the observations run out the loop is still waiting, which is None.
\<close>

record observation =
  ob_Checked :: instant
  ob_Cancelled :: bool
  ob_Answer :: "gateway_error + key_count option"
  ob_Updated :: instant

definition same_count :: "key_count \<Rightarrow> key_count \<Rightarrow> bool" where
  "same_count a b \<longleftrightarrow> \<not> (kc_KeyID a \<noteq> kc_KeyID b \<or> Cmp (kc_Spend a) (kc_Spend b) \<noteq> 0)"

fun settle :: "int \<Rightarrow> instant \<Rightarrow> key_count \<Rightarrow> instant \<Rightarrow> observation list \<Rightarrow> (gateway_error + key_count option) option" where
  "settle steady deadline found since [] = None"
| "settle steady deadline found since (ob # obs) =
     (if \<not> (ob_Checked ob - since < steady \<and> ob_Checked ob < deadline) then Some (Inr (Some found))
      else if ob_Cancelled ob then Some (Inl (CallFailed ''context''))
      else (case ob_Answer ob of
              Inl e \<Rightarrow> Some (Inl e)
            | Inr None \<Rightarrow> Some (Inr None)
            | Inr (Some newer) \<Rightarrow>
                if \<not> same_count newer found then settle steady deadline newer (ob_Updated ob) obs
                else settle steady deadline found since obs))"

definition Settled :: "instant \<Rightarrow> int \<Rightarrow> int \<Rightarrow> gateway_error + key_count option \<Rightarrow> instant \<Rightarrow> observation list \<Rightarrow>
    (gateway_error + key_count option) option" where
  "Settled start settle_for steady first since obs =
     (case first of
        Inl e \<Rightarrow> Some (Inl e)
      | Inr None \<Rightarrow> Some (Inr None)
      | Inr (Some found) \<Rightarrow> settle steady (start + settle_for) found since obs)"

text \<open>
  \<open>Session.Spend\<close>: one turn reads the key, answers a figure that is the wanted one, one that has
  not moved for \<open>steady\<close>, or the last before the deadline. The clock is read when a moved figure is
  kept and twice at the end of the turn.
\<close>

record spend_turn =
  st_Answer :: "gateway_error + string"
  st_Updated :: instant
  st_Now :: instant
  st_After :: instant
  st_Cancelled :: bool

fun spend_loop :: "decimal \<Rightarrow> int \<Rightarrow> instant \<Rightarrow> decimal \<Rightarrow> instant \<Rightarrow> spend_turn list \<Rightarrow> (gateway_error + decimal) option" where
  "spend_loop want steady deadline kept since [] = None"
| "spend_loop want steady deadline kept since (t # ts) =
     (case st_Answer t of
        Inl e \<Rightarrow> Some (Inl e)
      | Inr field \<Rightarrow>
          (case ParseNumber field of
             Inl _ \<Rightarrow> Some (Inl (BadSpend field))
           | Inr spend \<Rightarrow>
               if SameSpend spend want then Some (Inr spend)
               else
                 (let moved = Cmp spend kept \<noteq> 0;
                      kept = (if moved then spend else kept);
                      since = (if moved then st_Updated t else since)
                  in if steady \<le> st_Now t - since \<or> deadline < st_After t then Some (Inr spend)
                     else if st_Cancelled t then Some (Inl (CallFailed ''context''))
                     else spend_loop want steady deadline kept since ts)))"

definition Spend :: "decimal \<Rightarrow> instant \<Rightarrow> int \<Rightarrow> int \<Rightarrow> instant \<Rightarrow> spend_turn list \<Rightarrow> (gateway_error + decimal) option" where
  "Spend want start settle_for steady since turns =
     spend_loop want steady (start + settle_for) zero_decimal since turns"

text \<open>\<open>decimal.MustParse\<close> panics on a text it cannot read, which is None.\<close>

definition MustParse :: "string \<Rightarrow> decimal option" where
  "MustParse text = (case Parse text of Inl _ \<Rightarrow> None | Inr d \<Rightarrow> Some d)"

definition ledgerScale :: int where
  "ledgerScale = 12"

definition roundUp :: "decimal \<Rightarrow> int \<Rightarrow> decimal option" where
  "roundUp figure places =
     (if Scale figure \<le> places then Some figure
      else
        (let (whole, fraction, _) = cut_str (String figure) ''.''
         in Option.bind (MustParse (whole @ ''.'' @ take (nat places) fraction)) (\<lambda>kept.
            Option.bind (MustParse ''1'') (\<lambda>one. Some (Add kept (DivPow10 one places))))))"

record spend_attestation =
  sp_Repository :: string
  sp_RunID :: string
  sp_RunAttempt :: string
  sp_Currency :: string
  sp_Spend :: string

definition SpendFor :: "key_count \<Rightarrow> binding \<Rightarrow> spend_attestation option" where
  "SpendFor c run =
     map_option (\<lambda>d. \<lparr>sp_Repository = bi_Repository run, sp_RunID = bi_Run run, sp_RunAttempt = bi_Attempt run,
                      sp_Currency = ''USD'', sp_Spend = String d\<rparr>)
       (roundUp (kc_Spend c) ledgerScale)"

section \<open>The store while the agent runs\<close>

datatype readiness = NoAnswer | Answered int string

definition probe_reason :: "readiness \<Rightarrow> string" where
  "probe_reason r =
     (case r of
        NoAnswer \<Rightarrow> ''the gateway did not answer its readiness probe, so its budget check is unknown''
      | Answered status store \<Rightarrow>
          if status = 200 \<and> store \<noteq> ''connected''
          then ''the gateway served while its store read '' @ go_quote store @
            '', and a gateway that serves without its store reads no budget''
          else if status \<noteq> 200
          then ''the gateway's readiness probe answered '' @ int_string status @ '', so its budget check is unknown''
          else [])"

text \<open>A probe whose context has ended is dropped; otherwise the first reason stays.\<close>

definition probe :: "string \<Rightarrow> bool \<times> readiness \<Rightarrow> string" where
  "probe failed p =
     (let (ended, r) = p in if ended then failed else if failed = [] then probe_reason r else failed)"

definition Watch :: "(bool \<times> readiness) list \<Rightarrow> string" where
  "Watch probes = foldl probe [] probes"

section \<open>Minting\<close>

record mint =
  mi_AdminKey :: string
  mi_SealingKey :: string
  mi_Run :: binding
  mi_Request :: sealed_request
  mi_Budget :: decimal
  mi_Lifetime :: int
  mi_MaxParallel :: int
  mi_MaxRequestTokens :: int
  mi_PullRequest :: string
  mi_Head :: string
  mi_Author :: string
  mi_RepositoryCap :: "decimal option"
  mi_AuthorCap :: "decimal option"

record key_spec =
  ks_Key :: string
  ks_Alias :: string
  ks_MaxBudget :: decimal
  ks_Lifetime :: int
  ks_MaxParallel :: int
  ks_Metadata :: "string \<rightharpoonup> string"
  ks_Team :: string
  ks_User :: string

text \<open>The calls a registration makes on the proxy, in the order it makes them.\<close>

datatype proxy_call =
    EnsureDailyBudget string string decimal
  | Generate key_spec

definition authorID :: "mint \<Rightarrow> string" where
  "authorID m =
     (if mi_Author m = [] then []
      else (let (host, _, _) = cut_str (bi_Repository (mi_Run m)) ''/''
            in ''costroid:'' @ host @ ''/'' @ mi_Author m))"

text \<open>The proxy answers a call with an error or not; the calls made are threaded through.\<close>

definition ensure :: "(proxy_call \<Rightarrow> gateway_error option) \<Rightarrow> proxy_call list \<Rightarrow> string \<Rightarrow> string \<Rightarrow> decimal option \<Rightarrow>
    proxy_call list \<times> (gateway_error + string)" where
  "ensure proxy calls kind name limit =
     (case limit of
        None \<Rightarrow> (calls, Inr [])
      | Some budget \<Rightarrow>
          if name = [] then (calls, Inr [])
          else (let c = EnsureDailyBudget kind name budget
                in (calls @ [c], case proxy c of Some e \<Rightarrow> Inl e | None \<Rightarrow> Inr name)))"

definition registered_metadata :: "mint \<Rightarrow> string \<rightharpoonup> string" where
  "registered_metadata m =
     [''costroid_repository'' \<mapsto> bi_Repository (mi_Run m),
      ''costroid_pull_request'' \<mapsto> mi_PullRequest m,
      ''costroid_head'' \<mapsto> mi_Head m,
      MetaRun \<mapsto> bi_Run (mi_Run m),
      ''costroid_run_attempt'' \<mapsto> bi_Attempt (mi_Run m),
      MetaMaxRequestTokens \<mapsto> int_string (mi_MaxRequestTokens m)]"

definition spec_of :: "mint \<Rightarrow> string \<Rightarrow> string \<Rightarrow> string \<Rightarrow> key_spec" where
  "spec_of m key team user =
     \<lparr>ks_Key = key, ks_Alias = Alias (mi_Run m), ks_MaxBudget = mi_Budget m, ks_Lifetime = mi_Lifetime m,
      ks_MaxParallel = mi_MaxParallel m, ks_Metadata = registered_metadata m, ks_Team = team, ks_User = user\<rparr>"

definition Register :: "(string \<Rightarrow> string) \<Rightarrow> (string \<Rightarrow> string option) \<Rightarrow> (string \<Rightarrow> string \<Rightarrow> string \<Rightarrow> string option) \<Rightarrow>
    (string \<Rightarrow> string) \<Rightarrow> (proxy_call \<Rightarrow> gateway_error option) \<Rightarrow> mint \<Rightarrow> proxy_call list \<times> (gateway_error + string)" where
  "Register sha256 public_of open_with derived proxy m =
     (if Sign (mi_Budget m) \<le> 0 then ([], Inl BudgetNotPositive)
      else if mi_Lifetime m < 60 * second_ns then ([], Inl LifetimeTooShort)
      else if mi_MaxParallel m < 1 then ([], Inl NoParallel)
      else if mi_MaxRequestTokens m < 1 then ([], Inl NoTokens)
      else if se_SealingKey (mi_Request m) = derived (mi_AdminKey m) then ([], Inl DerivedSealingKey)
      else (case OpenRequest sha256 public_of open_with (mi_Request m) (mi_SealingKey m) (mi_Run m) of
              Inl e \<Rightarrow> ([], Inl e)
            | Inr key \<Rightarrow>
                (let (calls, team) = ensure proxy [] ''team'' (''costroid:'' @ bi_Repository (mi_Run m)) (mi_RepositoryCap m)
                 in case team of
                      Inl e \<Rightarrow> (calls, Inl e)
                    | Inr team \<Rightarrow>
                        (let (calls, user) = ensure proxy calls ''user'' (authorID m) (mi_AuthorCap m)
                         in case user of
                              Inl e \<Rightarrow> (calls, Inl e)
                            | Inr user \<Rightarrow>
                                (let spec = spec_of m key team user
                                 in (calls @ [Generate spec],
                                     case proxy (Generate spec) of Some e \<Rightarrow> Inl e | None \<Rightarrow> Inr (sha256 key)))))))"

section \<open>Lemmas\<close>

lemma SameSpend_val:
  assumes "wf_decimal a" "wf_decimal b"
  shows "SameSpend a b \<longleftrightarrow> \<bar>dval a - dval b\<bar> \<le> dval b / 10 ^ 9"
proof -
  have t: "wf_decimal spendTolerance" "dval spendTolerance = 1 / 10 ^ 9"
    by (simp_all add: spendTolerance_def wf_decimal_def dval_def)
  define e where "e = dval b / 10 ^ 9"
  have m: "dval b * dval spendTolerance = e" by (simp only: t e_def mult_1_right times_divide_eq_right)
  have "SameSpend a b \<longleftrightarrow> \<bar>dval a - dval b\<bar> \<le> e"
    using assms t(1) m by (simp add: SameSpend_def Let_def)
  then show ?thesis by (simp only: e_def)
qed

lemma problem_of_Nil: "problem_of r = [] \<longleftrightarrow> (\<exists>x. r = Inr x)"
  by (cases r) (simp_all add: problem_of_def)

lemma inspect_budget_ok:
  "wf_decimal (ex_Budget ex) \<Longrightarrow> inspect_budget info ex = Inr b \<longleftrightarrow>
     (\<exists>text. ki_MaxBudget info = Some text \<and> Parse text = Inr b \<and> 0 < dval b \<and> dval b \<le> dval (ex_Budget ex))"
  using Parse_canonical
  by (fastforce simp: inspect_budget_def Let_def canonical_wf not_le not_less split: option.splits sum.splits if_splits)

lemma inspect_expiry_ok:
  "inspect_expiry info ex = Inr u \<longleftrightarrow> (\<exists>t. ExpiresAt info = Inr (Some t) \<and> ex_Now ex < t)"
  by (auto simp: inspect_expiry_def split: sum.splits option.splits if_splits)

lemma inspect_parallel_ok:
  "inspect_parallel info = Inr n \<longleftrightarrow> ki_MaxParallel info = Some n \<and> 1 \<le> n"
  by (auto simp: inspect_parallel_def split: option.splits if_splits)

lemma inspect_tokens_ok:
  "inspect_tokens info = Inr n \<longleftrightarrow> parse_int64 (metadata info MetaMaxRequestTokens) = Some n \<and> 1 \<le> n"
  by (auto simp: inspect_tokens_def split: option.splits if_splits)

lemma inspect_run_ok:
  "inspect_run info ex = Inr u \<longleftrightarrow> metadata info MetaRun = ex_Run ex \<and> ex_Run ex \<noteq> []"
  by (auto simp: inspect_run_def Let_def)

lemma Inspect_holds:
  assumes "wf_decimal (ex_Budget ex)"
  shows "Holds (Inspect sha256 key info ex) \<longleftrightarrow>
    (\<exists>text b t n m. ki_MaxBudget info = Some text \<and> Parse text = Inr b \<and> 0 < dval b \<and> dval b \<le> dval (ex_Budget ex) \<and>
      ExpiresAt info = Inr (Some t) \<and> ex_Now ex < t \<and>
      ki_MaxParallel info = Some n \<and> 1 \<le> n \<and>
      parse_int64 (metadata info MetaMaxRequestTokens) = Some m \<and> 1 \<le> m \<and>
      metadata info MetaRun = ex_Run ex \<and> ex_Run ex \<noteq> [] \<and>
      Inspect sha256 key info ex =
        \<lparr>gr_KeyID = sha256 key, gr_MaxBudget = b, gr_MaxParallel = n, gr_MaxRequestTokens = m, gr_Problems = []\<rparr>)"
    (is "?l \<longleftrightarrow> ?r")
proof
  assume ?l
  then obtain b u n m v where r: "inspect_budget info ex = Inr b" "inspect_expiry info ex = Inr u"
      "inspect_parallel info = Inr n" "inspect_tokens info = Inr m" "inspect_run info ex = Inr v"
    by (auto simp: Holds_def Inspect_def Let_def problem_of_Nil)
  have g: "Inspect sha256 key info ex =
      \<lparr>gr_KeyID = sha256 key, gr_MaxBudget = b, gr_MaxParallel = n, gr_MaxRequestTokens = m, gr_Problems = []\<rparr>"
    using r by (simp add: Inspect_def problem_of_def granted_def)
  obtain tx where tx: "ki_MaxBudget info = Some tx" "Parse tx = Inr b" "0 < dval b" "dval b \<le> dval (ex_Budget ex)"
    using r(1) inspect_budget_ok [OF assms] by auto
  obtain t where t: "ExpiresAt info = Inr (Some t)" "ex_Now ex < t" using r(2) inspect_expiry_ok by auto
  note rest = r(3-5) [unfolded inspect_parallel_ok inspect_tokens_ok inspect_run_ok]
  show ?r
    by (rule exI [of _ tx], rule exI [of _ b], rule exI [of _ t], rule exI [of _ n], rule exI [of _ m])
      (simp only: tx t rest g simp_thms)
next
  assume ?r
  then show ?l by (auto simp: Holds_def)
qed

text \<open>The figure kept by cutting a canonical decimal's text after some fractional digits is its floor there.\<close>

lemma roundUp_spec:
  assumes d: "wf_decimal d" "0 \<le> dval d" and p: "0 < places"
  shows "\<exists>r. roundUp d places = Some r \<and> wf_decimal r \<and> Scale r \<le> places \<and>
    dval d \<le> dval r \<and> dval r < dval d + 1 / 10 ^ nat places \<and> (dval r = dval d \<longleftrightarrow> Scale d \<le> places)"
proof (cases "Scale d \<le> places")
  case True
  then show ?thesis using d by (simp add: roundUp_def)
next
  case False
  let ?k = "nat places"
  define n where "n = normal d"
  have c: "canonical n" and v: "dval n = dval d" and s: "scale n = Scale d"
    using d normal_canonical by (simp_all add: n_def Scale_def)
  obtain w f where *: "String n = sign_text n @ w @ CHR ''.'' # f" "canonical_digits w"
      "f \<noteq> []" "list_all is_digit f" "int (length f) = scale n" "int (digits_val (w @ f)) = \<bar>int_of n\<bar>"
    using String_fraction [OF c] False p s by (metis le_less_trans linorder_not_le order_less_le)
  have nonneg: "0 \<le> int_of n" using d(2) v dval_cases(1) [of n] by (simp add: not_less)
  have str: "String d = w @ CHR ''.'' # f"
    using * String_normal [OF d(1)] nonneg by (simp add: n_def sign_text_def)
  have dot: "CHR ''.'' \<notin> set w"
    using canonical_digits_all [OF *(2)] by (auto simp: list_all_iff is_digit_code)
  define g where "g = take ?k f"
  define h where "h = drop ?k f"
  have f: "f = g @ h" by (simp add: g_def h_def)
  have len: "length g = ?k" "?k < length f"
    using False p s *(5) by (auto simp: g_def)
  have gd: "g \<noteq> []" "list_all is_digit g" "list_all is_digit h"
    using len p *(4) f by auto
  let ?kept = "\<lparr>coefficient = Some (int (digits_val (w @ g))), scale = int (length g)\<rparr>"
  have parse: "Parse (w @ ''.'' @ g) = Inr (normal ?kept)"
    using Parse_fraction [OF *(2) gd(1,2)] by simp
  have one: "MustParse ''1'' = Some \<lparr>coefficient = Some 1, scale = 0\<rparr>" by code_simp
  let ?one = "DivPow10 \<lparr>coefficient = Some 1, scale = 0\<rparr> places"
  let ?r = "Add (normal ?kept) ?one"
  have r: "roundUp d places = Some ?r"
    using False str dot parse one by (simp add: roundUp_def MustParse_def cut_str_single_found g_def [symmetric])
  have wf: "wf_decimal ?kept" "wf_decimal \<lparr>coefficient = Some 1, scale = 0\<rparr>" by (simp_all add: wf_decimal_def)
  have wone: "wf_decimal ?one" using wf p by simp
  have vone: "dval ?one = 1 / 10 ^ ?k" using wf p by (simp add: dval_def [of "\<lparr>coefficient = Some 1, scale = 0\<rparr>"])
  have wr: "wf_decimal ?r" using wf wone normal_wf by simp
  have kept: "dval (normal ?kept) = of_nat (digits_val (w @ g)) / 10 ^ ?k"
  proof -
    have "dval ?kept = of_nat (digits_val (w @ g)) / 10 ^ length g"
      by (simp only: dval_def [of ?kept] int_of_simps decimal.simps nat_int of_int_of_nat_eq)
    then show ?thesis using normal_val [OF wf(1)] len(1) by simp
  qed
  then have vr: "dval ?r = (of_nat (digits_val (w @ g)) + 1) / 10 ^ ?k"
    using wf wone vone normal_wf by (simp add: add_divide_distrib)
  have "dval ?r = of_int (int (digits_val (w @ g)) + 1) / 10 ^ ?k" using vr by simp
  then have "Scale ?r \<le> int ?k" by (rule Scale_least [OF wr])
  then have sr: "Scale ?r \<le> places" using p by simp
  let ?h = "digits_val h" and ?L = "length h"
  have "int_of n = int (digits_val (w @ g) * 10 ^ ?L + ?h)"
    using *(6) nonneg by (simp add: f digits_val_append algebra_simps power_add)
  moreover have "nat (scale n) = ?k + ?L"
  proof -
    have "length f = ?k + ?L" using f len by (metis length_append)
    then show ?thesis using *(5) by (metis nat_int)
  qed
  ultimately have vd: "dval d = (of_nat (digits_val (w @ g)) * 10 ^ ?L + of_nat ?h) / (10 ^ ?k * 10 ^ ?L)"
    unfolding v [symmetric] by (simp add: dval_def power_add)
  have h: "?h < 10 ^ ?L" using digits_val_less [OF gd(3)] .
  have hpos: "0 < ?h"
  proof (rule ccontr)
    assume "\<not> 0 < ?h"
    then have "dval d = of_int (int (digits_val (w @ g))) / 10 ^ ?k" using vd by simp
    then have "Scale d \<le> int ?k" by (rule Scale_least [OF d(1)])
    then show False using False p by simp
  qed
  have split: "dval d = (of_nat (digits_val (w @ g)) + of_nat ?h / 10 ^ ?L) / 10 ^ ?k"
    using vd by (simp add: field_simps)
  define x where "x = (of_nat ?h :: rat) / 10 ^ ?L"
  define a where "a = (of_nat (digits_val (w @ g)) :: rat)"
  have "(of_nat ?h :: rat) < of_nat (10 ^ ?L)" using h by (simp only: of_nat_less_iff)
  then have frac: "0 < x" "x < 1" using hpos by (simp_all add: x_def)
  have K: "0 < (10 :: rat) ^ ?k" by simp
  have "(a + x) / 10 ^ ?k < (a + 1) / 10 ^ ?k" "(a + 1) / 10 ^ ?k < (a + x + 1) / 10 ^ ?k"
    using frac K by (intro divide_strict_right_mono; simp)+
  then have "dval d < dval ?r" "dval ?r < dval d + 1 / 10 ^ ?k"
    by (simp_all only: split vr a_def [symmetric] x_def [symmetric] add_divide_distrib)
  then show ?thesis using r wr sr False by (intro exI [of _ ?r]) simp
qed

lemma Watch_from: "foldl probe failed probes = [] \<longleftrightarrow> failed = [] \<and> (\<forall>(ended, r)\<in>set probes. ended \<or> probe_reason r = [])"
proof (induction probes arbitrary: failed)
  case (Cons p probes)
  have "probe failed p = [] \<longleftrightarrow> failed = [] \<and> (fst p \<or> probe_reason (snd p) = [])"
    by (simp add: probe_def split_beta)
  then show ?case using Cons [of "probe failed p"] by (simp add: split_beta)
qed simp

lemma probe_reason_Nil: "probe_reason r = [] \<longleftrightarrow> r = Answered 200 ''connected''"
  by (cases r) (auto simp: probe_reason_def)

lemma same_count_trans: "wf_decimal (kc_Spend a) \<Longrightarrow> wf_decimal (kc_Spend b) \<Longrightarrow>
  same_count a b \<longleftrightarrow> kc_KeyID a = kc_KeyID b \<and> dval (kc_Spend a) = dval (kc_Spend b)"
  by (simp add: same_count_def)

lemma settle_spec:
  assumes "settle steady deadline c0 since obs = Some (Inr (Some c))"
  shows "\<exists>us vs ob rest t. obs = us @ vs @ ob # rest \<and>
    (deadline \<le> ob_Checked ob \<or> steady \<le> ob_Checked ob - t) \<and>
    (\<forall>v\<in>set vs. \<exists>r. ob_Answer v = Inr (Some r) \<and> same_count r c) \<and>
    (if us = [] then c = c0 \<and> t = since
     else ob_Answer (last us) = Inr (Some c) \<and> t = ob_Updated (last us))"
  using assms
proof (induction steady deadline c0 since obs rule: settle.induct)
  case (1 steady deadline found since)
  then show ?case by simp
next
  case (2 steady deadline found since ob obs)
  let ?P = "\<lambda>c0 since obs us vs x rest t. obs = us @ vs @ x # rest \<and>
    (deadline \<le> ob_Checked x \<or> steady \<le> ob_Checked x - t) \<and>
    (\<forall>v\<in>set vs. \<exists>r. ob_Answer v = Inr (Some r) \<and> same_count r c) \<and>
    (if us = [] then c = c0 \<and> t = since
     else ob_Answer (last us) = Inr (Some c) \<and> t = ob_Updated (last us))"
  show ?case
  proof (cases "ob_Checked ob - since < steady \<and> ob_Checked ob < deadline")
    case False
    then have "?P found since (ob # obs) [] [] ob obs since" using 2(3) by (auto split: if_splits)
    then show ?thesis by blast
  next
    case True
    then obtain newer where n: "\<not> ob_Cancelled ob" "ob_Answer ob = Inr (Some newer)"
      using 2(3) by (auto split: if_splits sum.splits option.splits)
    show ?thesis
    proof (cases "same_count newer found")
      case False
      then have "\<exists>us vs x rest t. ?P newer (ob_Updated ob) obs us vs x rest t"
        using True n 2(3) by (intro 2(1) [of "Some newer"]) auto
      then obtain us vs x rest t where p: "?P newer (ob_Updated ob) obs us vs x rest t"
        by blast
      then have "?P found since (ob # obs) (ob # us) vs x rest t" using n by (cases "us = []") auto
      then show ?thesis by blast
    next
      case same: True
      then have "\<exists>us vs x rest t. ?P found since obs us vs x rest t"
        using True n 2(3) by (intro 2(2) [of "Some newer"]) auto
      then obtain us vs x rest t where p: "?P found since obs us vs x rest t"
        by blast
      show ?thesis
      proof (cases "us = []")
        case True
        then have "?P found since (ob # obs) [] (ob # vs) x rest t" using p n same by auto
        then show ?thesis by blast
      next
        case False
        then have "?P found since (ob # obs) (ob # us) vs x rest t" using p by auto
        then show ?thesis by blast
      qed
    qed
  qed
qed

lemma join_inj:
  assumes "(sep :: char) \<notin> set a" "sep \<notin> set b" "sep \<notin> set a'" "sep \<notin> set b'"
    and "p @ sep # a @ sep # b @ sep # c = p @ sep # a' @ sep # b' @ sep # c'"
  shows "a = a' \<and> b = b' \<and> c = c'"
proof -
  have cut: "x = x' \<and> y = y'" if "sep \<notin> set x" "sep \<notin> set x'" "x @ sep # y = x' @ sep # y'" for x x' y y'
    using cut_str_single_found [OF that(1), of y] cut_str_single_found [OF that(2), of y'] that(3)
    by (metis prod.inject)
  have "a @ sep # (b @ sep # c) = a' @ sep # (b' @ sep # c')" using assms(5) by simp
  then have 1: "a = a' \<and> b @ sep # c = b' @ sep # c'" by (rule cut [OF assms(1,3)])
  then show ?thesis using cut [OF assms(2,4), of c c'] by blast
qed

lemma ReadBinding_lines:
  assumes "ReadBinding getenv event = Inr b"
  shows "CHR 0x0A \<notin> set (bi_Repository b) \<and> CHR 0x0A \<notin> set (bi_Run b)"
proof -
  have b: "bi_Repository b = ci_Repository (fst (ReadContext getenv event))"
      "bi_Run b = ci_Run (fst (ReadContext getenv event))" "bi_Repository b \<noteq> []" "bi_Run b \<noteq> []"
    using assms by (auto simp: ReadBinding_def Let_def split: if_splits)
  have nl: "\<not> run_char (CHR 0x0A)" "\<not> path_char (CHR 0x0A)" "\<not> host_char (CHR 0x0A)" by code_simp+
  have run: "CHR 0x0A \<notin> set s" if "runPattern s" for s
    using that nl by (auto simp: runPattern_def of_class_def list_all_iff)
  have repo: "CHR 0x0A \<notin> set s" if r: "repositoryPattern s" for s
  proof
    assume "CHR 0x0A \<in> set s"
    moreover have "set s \<subseteq> insert (CHR ''/'') (\<Union> (set ` set (split_at s (CHR ''/''))))"
    proof (induction s)
      case (Cons x xs)
      then show ?case using split_at_nonempty [of xs "CHR ''/''"]
        by (cases "split_at xs (CHR ''/'')"; cases "x = CHR ''/''") (simp_all, blast+)
    qed simp
    ultimately obtain p where p: "p \<in> set (split_at s (CHR ''/''))" "CHR 0x0A \<in> set p" by auto
    then show False using r nl by (auto simp: repositoryPattern_def list_all_iff split: list.splits)
  qed
  show ?thesis using ReadContext_ok [of getenv event] b run repo by (auto simp: stated_ok_def)
qed

lemma binding_info_inj:
  assumes "ReadBinding getenv event = Inr a" "ReadBinding getenv' event' = Inr b"
    and "binding_info a = binding_info b"
  shows "a = b"
proof -
  have "bi_Repository a = bi_Repository b \<and> bi_Run a = bi_Run b \<and> bi_Attempt a = bi_Attempt b"
    using assms(3) ReadBinding_lines [OF assms(1)] ReadBinding_lines [OF assms(2)]
    by (intro join_inj [of "CHR 0x0A" _ _ _ _ requestFormat]) (simp_all add: binding_info_def)
  then show ?thesis by (cases a; cases b) simp
qed

section \<open>Properties\<close>

text \<open>
  C6. A key holds a run to \<open>gateway-precheck\<close> exactly when its own facts say so: a budget above zero
  and at or under the run's, an expiry after now, at least one parallel request, a largest request of at
  least one token, and the run's own id. The grant then carries those figures, and nothing else.
\<close>

theorem inspect_holds_iff_facts:
  assumes "wf_decimal (ex_Budget ex)"
  shows "Holds (Inspect sha256 key info ex) \<longleftrightarrow>
    (\<exists>tx b t n m. ki_MaxBudget info = Some tx \<and> Parse tx = Inr b \<and> 0 < dval b \<and> dval b \<le> dval (ex_Budget ex) \<and>
      ExpiresAt info = Inr (Some t) \<and> ex_Now ex < t \<and>
      ki_MaxParallel info = Some n \<and> 1 \<le> n \<and>
      parse_int64 (metadata info MetaMaxRequestTokens) = Some m \<and> 1 \<le> m \<and>
      metadata info MetaRun = ex_Run ex \<and> ex_Run ex \<noteq> [] \<and>
      Inspect sha256 key info ex =
        \<lparr>gr_KeyID = sha256 key, gr_MaxBudget = b, gr_MaxParallel = n, gr_MaxRequestTokens = m, gr_Problems = []\<rparr>)"
  using Inspect_holds [OF assms] .

definition sample_info :: key_info where
  "sample_info =
     \<lparr>ki_MaxBudget = Some ''2.5'', ki_Spend = ''0'', ki_Expires = JString ''2026-08-31T10:00:00Z'',
      ki_MaxParallel = Some 4,
      ki_Metadata = JObject [(''costroid_run_id'', JString ''42''), (''costroid_max_request_tokens'', JString ''200000'')]\<rparr>"

definition sample_expect :: expect where
  "sample_expect = \<lparr>ex_Budget = \<lparr>coefficient = Some 3, scale = 0\<rparr>, ex_Run = ''42'', ex_Now = go_date 2026 8 31\<rparr>"

theorem inspect_holds_iff_facts_witness:
  "Holds (Inspect (\<lambda>_. ''id'') ''sk-x'' sample_info sample_expect) \<and>
   (\<exists>tx. ki_MaxBudget sample_info = Some tx)"
proof -
  have "Parse ''2.5'' = Inr \<lparr>coefficient = Some 25, scale = 1\<rparr>" by code_simp
  moreover have "Cmp \<lparr>coefficient = Some 25, scale = 1\<rparr> \<lparr>coefficient = Some 3, scale = 0\<rparr> = - 1"
    "Sign \<lparr>coefficient = Some 25, scale = 1\<rparr> = 1" by code_simp+
  moreover have "parse_rfc3339 ''2026-08-31T10:00:00Z'' = Some 1788170400000000000" "go_date 2026 8 31 = 1788134400000000000"
    by code_simp+
  moreover have "parse_int64 ''200000'' = Some 200000" by (simp add: parse_int64_def is_digit_code digit_val_def)
  ultimately have h: "Holds (Inspect (\<lambda>_. ''id'') ''sk-x'' sample_info sample_expect)"
    by (simp add: Holds_def Inspect_def inspect_budget_def inspect_expiry_def inspect_parallel_def inspect_tokens_def
      inspect_run_def problem_of_def sample_info_def sample_expect_def ExpiresAt_def metadata_def member_of_def
      del: Cmp_simps Sign_simps)
  have w: "wf_decimal (ex_Budget sample_expect)" by (simp add: sample_expect_def wf_decimal_def)
  from inspect_holds_iff_facts [OF w, THEN iffD1, OF h] show ?thesis
    by (elim exE conjE) (intro conjI h exI, assumption)
qed

text \<open>
  The ledger's figure of a key's spend is never below the gateway's and never a unit above it:
  \<open>roundUp\<close> returns a figure of at most the digits asked for that is at least the figure given, less
  than one unit in the last place above it, and equal to it exactly when it already fits. It never
  panics.
\<close>

theorem round_up_tight:
  assumes "wf_decimal d" "0 \<le> dval d" "0 < places"
  shows "\<exists>r. roundUp d places = Some r \<and> wf_decimal r \<and> Scale r \<le> places \<and>
    dval d \<le> dval r \<and> dval r < dval d + 1 / 10 ^ nat places \<and> (dval r = dval d \<longleftrightarrow> Scale d \<le> places)"
  by (rule roundUp_spec [OF assms])

theorem round_up_tight_witness:
  "\<exists>r. roundUp \<lparr>coefficient = Some 18000000000000002, scale = 18\<rparr> 12 = Some r \<and> Scale r \<le> 12"
  using round_up_tight [of "\<lparr>coefficient = Some 18000000000000002, scale = 18\<rparr>" 12]
  by (auto simp: wf_decimal_def dval_def)

text \<open>
  \<open>SameSpend\<close> accepts the gateway's count exactly when it lies within a billionth of the rows'
  total, on either side.
\<close>

theorem same_spend_exact:
  assumes "wf_decimal counted" "wf_decimal listed"
  shows "SameSpend counted listed \<longleftrightarrow> \<bar>dval counted - dval listed\<bar> \<le> dval listed / 10 ^ 9"
  by (rule SameSpend_val [OF assms])

theorem same_spend_exact_witness:
  "SameSpend \<lparr>coefficient = Some 18000000000000002, scale = 18\<rparr> \<lparr>coefficient = Some 18, scale = 3\<rparr>"
  using same_spend_exact [of "\<lparr>coefficient = Some 18000000000000002, scale = 18\<rparr>" "\<lparr>coefficient = Some 18, scale = 3\<rparr>"]
  by (simp add: wf_decimal_def dval_def)

text \<open>
  C7. A sealed key opens for its own run and no other. Given that HPKE opens a sealed text with the
  matching private key exactly under the information it was sealed with, a request \<open>NewRequest\<close> made
  opens to its key in its own run; and a request that was copied to another run, with the run it names
  rewritten or not, never opens there, because the bytes a binding is sealed under determine the binding.
\<close>

theorem request_opens_for_its_run_only:
  assumes own: "ReadBinding getenv event = Inr run" and other: "ReadBinding getenv' event' = Inr run'"
    and public: "PublicKey public_of sealingKey = Inr public"
    and hpke: "\<And>info text sealed info'. seal_with public info text = Some sealed \<Longrightarrow>
      open_with (fst (cut_prefix sealingKey SealingKeyPrefix)) info' sealed = (if info' = info then Some text else None)"
    and made: "NewRequest sha256 seal_with public run key = Inr r" and sk: "prefix keyPrefix key"
  shows "OpenRequest sha256 public_of open_with r sealingKey run = Inr key \<and>
    (run' \<noteq> run \<longrightarrow>
      OpenRequest sha256 public_of open_with r sealingKey run' = Inl RequestForAnotherRun \<and>
      OpenRequest sha256 public_of open_with (r\<lparr>se_Binding := run'\<rparr>) sealingKey run' = Inl DoesNotOpen)"
proof -
  obtain sealed where s: "seal_with public (binding_info run) key = Some sealed"
      and r: "r = \<lparr>se_Format = requestFormat, se_Binding = run, se_SealingKey = public,
                   se_KeyID = sha256 key, se_Sealed = sealed\<rparr>"
    using made by (auto simp: NewRequest_def seal_def split: if_splits option.splits)
  have "binding_info run' \<noteq> binding_info run" if "run' \<noteq> run"
    using binding_info_inj [OF other own] that by blast
  then show ?thesis using r public sk hpke [OF s] by (auto simp: OpenRequest_def open_sealed_def)
qed

definition toy_seal :: "string \<Rightarrow> string \<Rightarrow> string \<Rightarrow> string option" where
  "toy_seal public info text = Some (nat_string (length info) @ '':'' @ info @ text)"

definition toy_open :: "string \<Rightarrow> string \<Rightarrow> string \<Rightarrow> string option" where
  "toy_open private info sealed =
     (if prefix (nat_string (length info) @ '':'' @ info) sealed
      then Some (drop (length (nat_string (length info) @ '':'' @ info)) sealed) else None)"

lemma toy_hpke:
  assumes "toy_seal public info plain = Some sealed"
  shows "toy_open private info' sealed = (if info' = info then Some plain else None)"
proof -
  have s: "sealed = nat_string (length info) @ '':'' @ info @ plain" using assms by (simp add: toy_seal_def)
  have no: "CHR '':'' \<notin> set (nat_string n)" for n
    using nat_string_digits [of n] by (auto simp: list_all_iff is_digit_code)
  have "info' = info" if p: "prefix (nat_string (length info') @ '':'' @ info') sealed"
  proof -
    obtain rest where "nat_string (length info') @ CHR '':'' # (info' @ rest) = nat_string (length info) @ CHR '':'' # (info @ plain)"
      using p s by (auto simp: prefix_def)
    then have "nat_string (length info') = nat_string (length info) \<and> info' @ rest = info @ plain"
      using cut_str_single_found [OF no, of "length info'"] cut_str_single_found [OF no, of "length info"]
      by (metis prod.inject)
    then show ?thesis using nat_string_inj append_eq_append_conv by blast
  qed
  then show ?thesis using s by (auto simp: toy_open_def)
qed

theorem request_opens_for_its_run_only_witness:
  "\<exists>r. NewRequest (\<lambda>k. ''id'' @ k) toy_seal ''PUB'' \<lparr>bi_Repository = ''github.com/acme/shop'', bi_Run = ''42'', bi_Attempt = ''1''\<rparr> ''sk-K'' = Inr r \<and>
    OpenRequest (\<lambda>k. ''id'' @ k) (\<lambda>_. Some ''PUB'') toy_open r (SealingKeyPrefix @ ''s'')
      \<lparr>bi_Repository = ''github.com/acme/shop'', bi_Run = ''42'', bi_Attempt = ''1''\<rparr> = Inr ''sk-K''"
proof -
  let ?run = "\<lparr>bi_Repository = ''github.com/acme/shop'', bi_Run = ''42'', bi_Attempt = ''1''\<rparr>"
  have b: "ReadBinding sample_env sample_event = Inr ?run" by code_simp
  have p: "PublicKey (\<lambda>_. Some ''PUB'') (SealingKeyPrefix @ ''s'') = Inr ''PUB''" by code_simp
  have k: "prefix keyPrefix ''sk-K''" by simp
  obtain r where r: "NewRequest (\<lambda>k. ''id'' @ k) toy_seal ''PUB'' ?run ''sk-K'' = Inr r"
    by (simp add: NewRequest_def seal_def toy_seal_def)
  have "OpenRequest (\<lambda>k. ''id'' @ k) (\<lambda>_. Some ''PUB'') toy_open r (SealingKeyPrefix @ ''s'') ?run = Inr ''sk-K''"
    by (rule request_opens_for_its_run_only [OF b b p toy_hpke r k, THEN conjunct1])
  then show ?thesis using r by (intro exI conjI)
qed

text \<open>
  A settled count is one the gateway stopped moving: when \<open>Settled\<close> answers a count, every answer
  read since that count was first seen names the same key and the same spend, and either it has not
  moved for the stable time or the whole wait has passed.
\<close>

theorem settled_count_is_stable:
  assumes "Settled start settle_for steady first since obs = Some (Inr (Some c))"
  shows "\<exists>us vs ob rest t. obs = us @ vs @ ob # rest \<and>
    (start + settle_for \<le> ob_Checked ob \<or> steady \<le> ob_Checked ob - t) \<and>
    (\<forall>v\<in>set vs. \<exists>r. ob_Answer v = Inr (Some r) \<and> same_count r c) \<and>
    (if us = [] then first = Inr (Some c) \<and> t = since
     else ob_Answer (last us) = Inr (Some c) \<and> t = ob_Updated (last us))"
proof -
  obtain c0 where f: "first = Inr (Some c0)" "settle steady (start + settle_for) c0 since obs = Some (Inr (Some c))"
    using assms by (auto simp: Settled_def split: sum.splits option.splits)
  have "(first = Inr (Some c)) = (c = c0)" using f(1) by auto
  then show ?thesis using settle_spec [OF f(2)] by (simp only:)
qed

theorem settled_count_is_stable_witness:
  "\<exists>us vs ob rest. [\<lparr>ob_Checked = 9, ob_Cancelled = False, ob_Answer = Inr None, ob_Updated = 9\<rparr>] = us @ vs @ ob # rest \<and>
    5 \<le> ob_Checked ob"
proof -
  let ?c = "\<lparr>kc_KeyID = ''k'', kc_Spend = zero_decimal\<rparr>"
  let ?obs = "[\<lparr>ob_Checked = 9, ob_Cancelled = False, ob_Answer = Inr None, ob_Updated = 9\<rparr>]"
  have s: "Settled 0 100 5 (Inr (Some ?c)) 0 ?obs = Some (Inr (Some ?c))" by (simp add: Settled_def)
  show ?thesis using settled_count_is_stable [OF s] by (auto simp: Cons_eq_append_conv)
qed

text \<open>
  A run reads its precheck grade only while the gateway's store held throughout: \<open>Watch\<close> finds
  no failure exactly when every probe whose context was still open answered 200 with its store connected.
\<close>

theorem watch_holds_iff_store_held:
  "Watch probes = [] \<longleftrightarrow> list_all (\<lambda>(ended, r). ended \<or> r = Answered 200 ''connected'') probes"
  by (simp add: Watch_def Watch_from probe_reason_Nil list_all_iff)

lemma ensure_calls:
  "ensure proxy calls kind name limit = (calls', r) \<Longrightarrow>
    \<exists>more. calls' = calls @ more \<and> (\<forall>c\<in>set more. \<exists>budget. c = EnsureDailyBudget kind name budget)"
  by (auto simp: ensure_def Let_def split: option.splits if_splits)

lemma Register_ok:
  assumes "Register sha256 public_of open_with derived proxy m = (calls, Inr name)"
  shows "0 < dval (mi_Budget m) \<and> 60 * second_ns \<le> mi_Lifetime m \<and> 1 \<le> mi_MaxParallel m \<and>
    1 \<le> mi_MaxRequestTokens m \<and> se_SealingKey (mi_Request m) \<noteq> derived (mi_AdminKey m) \<and>
    (\<exists>key caps spec. OpenRequest sha256 public_of open_with (mi_Request m) (mi_SealingKey m) (mi_Run m) = Inr key \<and>
       name = sha256 key \<and> calls = caps @ [Generate spec] \<and>
       (\<forall>c\<in>set caps. \<exists>kind who budget. c = EnsureDailyBudget kind who budget) \<and>
       ks_Key spec = key \<and> ks_Alias spec = Alias (mi_Run m) \<and> ks_MaxBudget spec = mi_Budget m \<and>
       ks_Lifetime spec = mi_Lifetime m \<and> ks_MaxParallel spec = mi_MaxParallel m \<and>
       ks_Metadata spec = registered_metadata m)"
proof -
  have g: "\<not> Sign (mi_Budget m) \<le> 0" "\<not> mi_Lifetime m < 60 * second_ns" "\<not> mi_MaxParallel m < 1"
      "\<not> mi_MaxRequestTokens m < 1" "se_SealingKey (mi_Request m) \<noteq> derived (mi_AdminKey m)"
    using assms by (auto simp: Register_def simp del: Sign_simps split: if_splits)
  obtain key where key: "OpenRequest sha256 public_of open_with (mi_Request m) (mi_SealingKey m) (mi_Run m) = Inr key"
    using assms g by (cases "OpenRequest sha256 public_of open_with (mi_Request m) (mi_SealingKey m) (mi_Run m)")
      (simp_all add: Register_def del: Sign_simps)
  obtain c1 team where t: "ensure proxy [] ''team'' (''costroid:'' @ bi_Repository (mi_Run m)) (mi_RepositoryCap m) = (c1, Inr team)"
    using assms g key
    by (cases "ensure proxy [] ''team'' (''costroid:'' @ bi_Repository (mi_Run m)) (mi_RepositoryCap m)"; cases "snd (ensure proxy [] ''team'' (''costroid:'' @ bi_Repository (mi_Run m)) (mi_RepositoryCap m))")
      (simp_all add: Register_def del: Sign_simps)
  obtain c2 user where u: "ensure proxy c1 ''user'' (authorID m) (mi_AuthorCap m) = (c2, Inr user)"
    using assms g key t
    by (cases "ensure proxy c1 ''user'' (authorID m) (mi_AuthorCap m)"; cases "snd (ensure proxy c1 ''user'' (authorID m) (mi_AuthorCap m))")
      (simp_all add: Register_def del: Sign_simps)
  obtain m1 where m1: "c1 = [] @ m1" "\<forall>c\<in>set m1. \<exists>budget. c = EnsureDailyBudget ''team'' (''costroid:'' @ bi_Repository (mi_Run m)) budget"
    using ensure_calls [OF t] by blast
  obtain m2 where m2: "c2 = c1 @ m2" "\<forall>c\<in>set m2. \<exists>budget. c = EnsureDailyBudget ''user'' (authorID m) budget"
    using ensure_calls [OF u] by blast
  have "calls = c2 @ [Generate (spec_of m key team user)]" "name = sha256 key"
    using assms g key t u
    by (simp_all add: Register_def Let_def del: Sign_simps split: option.splits)
  moreover have "\<forall>c\<in>set c2. \<exists>kind who budget. c = EnsureDailyBudget kind who budget"
    using m1 m2 by auto
  moreover have "0 < dval (mi_Budget m)" using g(1) by simp
  ultimately show ?thesis using g(2-5) key
    by (intro conjI exI [of _ key] exI [of _ c2] exI [of _ "spec_of m key team user"])
      (simp_all add: spec_of_def)
qed

text \<open>
  C8. A key that is minted is one its run accepts. When \<open>Register\<close> succeeds, the last call it made
  registers the key the request sealed, and every call before it only sets a daily budget. When the
  gateway then states that key as it was registered, with an expiry ahead, to a run with the same id and
  a budget at or above the key's, \<open>Inspect\<close> finds no problem and grants exactly the figures minted.
\<close>

theorem minted_key_is_accepted:
  assumes minted: "Register sha256 public_of open_with derived proxy m = (calls, Inr name)"
    and wf: "wf_decimal (mi_Budget m)" "fits64 (mi_MaxRequestTokens m)"
    and stated: "\<forall>spec. last calls = Generate spec \<longrightarrow>
      ki_MaxBudget info = Some (String (ks_MaxBudget spec)) \<and> ki_MaxParallel info = Some (ks_MaxParallel spec) \<and>
      (\<forall>k v. ks_Metadata spec k = Some v \<longrightarrow> metadata info k = v)"
    and ahead: "ExpiresAt info = Inr (Some t)" "ex_Now ex < t"
    and run: "ex_Run ex = bi_Run (mi_Run m)" "ex_Run ex \<noteq> []"
    and budget: "wf_decimal (ex_Budget ex)" "dval (mi_Budget m) \<le> dval (ex_Budget ex)"
  shows "\<exists>key caps spec. calls = caps @ [Generate spec] \<and>
    (\<forall>c\<in>set caps. \<exists>kind who b. c = EnsureDailyBudget kind who b) \<and>
    OpenRequest sha256 public_of open_with (mi_Request m) (mi_SealingKey m) (mi_Run m) = Inr key \<and>
    ks_Key spec = key \<and> name = sha256 key \<and>
    Holds (Inspect sha256 key info ex) \<and> gr_KeyID (Inspect sha256 key info ex) = name \<and>
    dval (gr_MaxBudget (Inspect sha256 key info ex)) = dval (mi_Budget m) \<and>
    gr_MaxParallel (Inspect sha256 key info ex) = mi_MaxParallel m \<and>
    gr_MaxRequestTokens (Inspect sha256 key info ex) = mi_MaxRequestTokens m"
proof -
  note r = Register_ok [OF minted]
  then obtain key caps spec where k: "OpenRequest sha256 public_of open_with (mi_Request m) (mi_SealingKey m) (mi_Run m) = Inr key"
      "name = sha256 key" "calls = caps @ [Generate spec]"
      "\<forall>c\<in>set caps. \<exists>kind who b. c = EnsureDailyBudget kind who b"
      "ks_Key spec = key" "ks_MaxBudget spec = mi_Budget m" "ks_MaxParallel spec = mi_MaxParallel m"
      "ks_Metadata spec = registered_metadata m"
    by blast
  have meta: "ki_MaxBudget info = Some (String (mi_Budget m))" "ki_MaxParallel info = Some (mi_MaxParallel m)"
      "metadata info MetaRun = bi_Run (mi_Run m)"
      "metadata info MetaMaxRequestTokens = int_string (mi_MaxRequestTokens m)"
    using stated [rule_format, of spec] k by (simp_all add: registered_metadata_def)
  have b: "inspect_budget info ex = Inr (normal (mi_Budget m))"
    using meta(1) Parse_String [OF wf(1)] wf budget r
    by (subst inspect_budget_ok) (simp_all add: normal_val less_imp_le)
  have e: "inspect_expiry info ex = Inr ()" using ahead by (subst inspect_expiry_ok) simp
  have p: "inspect_parallel info = Inr (mi_MaxParallel m)" using meta(2) r by (subst inspect_parallel_ok) simp
  have n: "inspect_tokens info = Inr (mi_MaxRequestTokens m)"
    using meta(4) r wf(2) parse_int64_int_string [of "mi_MaxRequestTokens m"]
    by (subst inspect_tokens_ok) (simp add: fits64_def)
  have u: "inspect_run info ex = Inr ()" using meta(3) run by (subst inspect_run_ok) simp
  have "Inspect sha256 key info ex = \<lparr>gr_KeyID = sha256 key, gr_MaxBudget = normal (mi_Budget m),
      gr_MaxParallel = mi_MaxParallel m, gr_MaxRequestTokens = mi_MaxRequestTokens m, gr_Problems = []\<rparr>"
    using b e p n u by (simp add: Inspect_def problem_of_def granted_def)
  then show ?thesis using k wf(1) normal_val
    by (intro exI [of _ key] exI [of _ caps] exI [of _ spec]) (simp add: Holds_def)
qed

definition sample_run :: binding where
  "sample_run = \<lparr>bi_Repository = ''github.com/acme/shop'', bi_Run = ''42'', bi_Attempt = ''1''\<rparr>"

definition sample_request :: sealed_request where
  "sample_request = \<lparr>se_Format = requestFormat, se_Binding = sample_run, se_SealingKey = ''PUB'',
     se_KeyID = ''id'', se_Sealed = ''x''\<rparr>"

definition sample_mint :: mint where
  "sample_mint = \<lparr>mi_AdminKey = ''admin'', mi_SealingKey = SealingKeyPrefix @ ''s'', mi_Run = sample_run,
     mi_Request = sample_request, mi_Budget = \<lparr>coefficient = Some 25, scale = 1\<rparr>, mi_Lifetime = 60 * second_ns,
     mi_MaxParallel = 4, mi_MaxRequestTokens = 200000, mi_PullRequest = ''7'', mi_Head = [], mi_Author = ''ann'',
     mi_RepositoryCap = Some \<lparr>coefficient = Some 50, scale = 0\<rparr>, mi_AuthorCap = None\<rparr>"

definition minted_info :: key_info where
  "minted_info = sample_info\<lparr>ki_Metadata := JObject
     [(''costroid_repository'', JString ''github.com/acme/shop''), (''costroid_pull_request'', JString ''7''),
      (''costroid_head'', JString []), (''costroid_run_id'', JString ''42''),
      (''costroid_run_attempt'', JString ''1''), (''costroid_max_request_tokens'', JString ''200000'')]\<rparr>"

lemma six_keys:
  "[a \<mapsto> a', b \<mapsto> b', c \<mapsto> c', d \<mapsto> d', e \<mapsto> e', f \<mapsto> f'] k = Some v \<Longrightarrow>
    k = a \<and> v = a' \<or> k = b \<and> v = b' \<or> k = c \<and> v = c' \<or> k = d \<and> v = d' \<or> k = e \<and> v = e' \<or> k = f \<and> v = f'"
  by (auto split: if_splits)

lemma minted_info_states:
  "ki_MaxBudget minted_info = Some (String (mi_Budget sample_mint))"
  "registered_metadata sample_mint k = Some v \<Longrightarrow> metadata minted_info k = v"
proof -
  have "String \<lparr>coefficient = Some 25, scale = 1\<rparr> = ''2.5''" by code_simp
  then show "ki_MaxBudget minted_info = Some (String (mi_Budget sample_mint))"
    by (simp add: minted_info_def sample_info_def sample_mint_def)
  have n: "int_string 200000 = ''200000''"
    using nat_string_canonical [of "''200000''"]
    by (simp add: int_string_def canonical_digits_def is_digit_code digit_val_def)
  have m: "metadata minted_info ''costroid_repository'' = ''github.com/acme/shop''"
    "metadata minted_info ''costroid_pull_request'' = ''7''" "metadata minted_info ''costroid_head'' = []"
    "metadata minted_info MetaRun = ''42''" "metadata minted_info ''costroid_run_attempt'' = ''1''"
    "metadata minted_info MetaMaxRequestTokens = ''200000''"
    by code_simp+
  have f: "bi_Repository (mi_Run sample_mint) = ''github.com/acme/shop''" "mi_PullRequest sample_mint = ''7''"
    "mi_Head sample_mint = []" "bi_Run (mi_Run sample_mint) = ''42''" "bi_Attempt (mi_Run sample_mint) = ''1''"
    "int_string (mi_MaxRequestTokens sample_mint) = ''200000''"
    using n by (simp_all add: sample_mint_def sample_run_def)
  assume a: "registered_metadata sample_mint k = Some v"
  have "k = ''costroid_repository'' \<and> v = ''github.com/acme/shop'' \<or> k = ''costroid_pull_request'' \<and> v = ''7'' \<or>
      k = ''costroid_head'' \<and> v = [] \<or> k = MetaRun \<and> v = ''42'' \<or> k = ''costroid_run_attempt'' \<and> v = ''1'' \<or>
      k = MetaMaxRequestTokens \<and> v = ''200000''"
    by (rule six_keys [OF a [unfolded registered_metadata_def f]])
  then show "metadata minted_info k = v" using m by (elim disjE conjE) (simp_all only:)
qed

theorem minted_key_is_accepted_witness:
  "\<exists>key. Holds (Inspect (\<lambda>_. ''id'') key minted_info sample_expect)"
proof -
  let ?r = "Register (\<lambda>_. ''id'') (\<lambda>_. Some ''PUB'') (\<lambda>_ _ _. Some ''sk-K'') (\<lambda>_. ''OLD'') (\<lambda>_. None) sample_mint"
  have "OpenRequest (\<lambda>_. ''id'') (\<lambda>_. Some ''PUB'') (\<lambda>_ _ _. Some ''sk-K'') (mi_Request sample_mint)
      (mi_SealingKey sample_mint) (mi_Run sample_mint) = Inr ''sk-K''"
    by (simp add: OpenRequest_def sample_mint_def sample_request_def PublicKey_def open_sealed_def cut_prefix_def)
  moreover have "dval \<lparr>coefficient = Some 25, scale = 1\<rparr> = 5 / 2" by (simp add: dval_def)
  ultimately obtain calls where r: "?r = (calls, Inr ''id'')"
    by (cases ?r) (auto simp: Register_def sample_mint_def sample_request_def ensure_def Let_def second_ns_def)
  obtain caps spec where c: "calls = caps @ [Generate spec]" "ks_MaxBudget spec = mi_Budget sample_mint"
      "ks_MaxParallel spec = mi_MaxParallel sample_mint" "ks_Metadata spec = registered_metadata sample_mint"
    using Register_ok [OF r] by blast
  have e: "parse_rfc3339 ''2026-08-31T10:00:00Z'' = Some 1788170400000000000" "go_date 2026 8 31 = 1788134400000000000"
    by code_simp+
  have x: "ExpiresAt minted_info = Inr (Some 1788170400000000000)" "ex_Now sample_expect < 1788170400000000000"
    using e by (simp_all add: ExpiresAt_def minted_info_def sample_info_def sample_expect_def)
  have w: "wf_decimal (mi_Budget sample_mint)" "fits64 (mi_MaxRequestTokens sample_mint)"
      "wf_decimal (ex_Budget sample_expect)" "ex_Run sample_expect = bi_Run (mi_Run sample_mint)"
      "ex_Run sample_expect \<noteq> []"
    by (simp_all add: sample_mint_def sample_expect_def sample_run_def wf_decimal_def fits64_def)
  have b: "dval (mi_Budget sample_mint) \<le> dval (ex_Budget sample_expect)"
    by (simp add: sample_mint_def sample_expect_def dval_def)
  have s: "\<forall>spec. last calls = Generate spec \<longrightarrow>
      ki_MaxBudget minted_info = Some (String (ks_MaxBudget spec)) \<and>
      ki_MaxParallel minted_info = Some (ks_MaxParallel spec) \<and>
      (\<forall>k v. ks_Metadata spec k = Some v \<longrightarrow> metadata minted_info k = v)"
  proof (intro allI impI)
    fix spec'
    assume "last calls = Generate spec'"
    then have "spec' = spec" using c(1) by simp
    moreover have "ki_MaxParallel minted_info = Some (mi_MaxParallel sample_mint)"
      by (simp add: minted_info_def sample_info_def sample_mint_def)
    ultimately show "ki_MaxBudget minted_info = Some (String (ks_MaxBudget spec')) \<and>
      ki_MaxParallel minted_info = Some (ks_MaxParallel spec') \<and>
      (\<forall>k v. ks_Metadata spec' k = Some v \<longrightarrow> metadata minted_info k = v)"
      using c(2-4) minted_info_states by simp
  qed
  from minted_key_is_accepted [OF r w(1,2) s x w(4,5,3) b] show ?thesis
    by (elim exE conjE) (rule exI)
qed

end
