(* ===== verification/Run.thy ===== *)
theory Run
  imports Catalog Adapter Gateway
begin

text \<open>
  \<open>internal/run\<close>: how a run's report becomes priced rows, the grade they carry, and the stop at the
  budget. The agent's process, its pipes and its signals are not modelled; what they leave (an exit
  code, a stop, the store's failure, the report) are arguments. \<open>sha256\<close> is the hash in hex, \<open>encode\<close>
  the JSON encoder of a row.
\<close>

section \<open>Models outside the allowlist\<close>

definition model_char :: "char \<Rightarrow> bool" where
  "model_char c \<longleftrightarrow> is_alnum c \<or> c \<in> {CHR ''.'', CHR ''_'', CHR '':'', CHR ''/'', CHR ''+'', CHR ''-''}"

definition modelPattern :: "string \<Rightarrow> bool" where
  "modelPattern s = (case s of [] \<Rightarrow> False | c # cs \<Rightarrow> is_alnum c \<and> of_class model_char 0 127 cs)"

definition sessionTagPattern :: "string \<Rightarrow> bool" where
  "sessionTagPattern = of_class run_char 1 256"

definition version_char :: "char \<Rightarrow> bool" where
  "version_char c \<longleftrightarrow> is_alnum c \<or> c \<in> {CHR ''.'', CHR ''_'', CHR ''+'', CHR ''-''}"

definition versionTagPattern :: "string \<Rightarrow> bool" where
  "versionTagPattern = of_class version_char 1 64"

abbreviation unknownModel :: string where "unknownModel \<equiv> ''unknown-model''"

definition contain_model :: "request \<Rightarrow> request" where
  "contain_model q = (if \<not> modelPattern (rq_Model q) then q\<lparr>rq_Model := unknownModel\<rparr> else q)"

fun containModels :: "report \<Rightarrow> report \<times> nat" where
  "containModels (Report facts requests warnings nested) =
     (let contained = map containModels nested
      in (Report facts (map contain_model requests) warnings (map fst contained),
          length (filter (\<lambda>q. \<not> modelPattern (rq_Model q)) requests) + sum_list (map snd contained)))"

definition unknownModelLine :: "nat \<Rightarrow> string" where
  "unknownModelLine renamed =
     (if renamed = 1
      then ''1 request named a model outside the allowed characters, so its rows read '' @ unknownModel
      else nat_string renamed @ '' requests named a model outside the allowed characters, so their rows read '' @
        unknownModel)"

section \<open>The digest of the rows\<close>

definition rowsDigest :: "(string \<Rightarrow> string) \<Rightarrow> focus_row list \<Rightarrow> string" where
  "rowsDigest sha256 rs =
     (if rs = [] then []
      else if \<not> list_all (\<lambda>r. hex64 (RowID r)) rs then []
      else sha256 (concat (map (\<lambda>i. i @ [CHR 0x0A]) (sort (map RowID rs)))))"

section \<open>The overshoot bound\<close>

definition billedClasses :: "token_class list" where
  "billedClasses =
     [InputUncached, CacheRead, CacheWrite5m, CacheWrite1h, CacheWrite30m, CacheWrite12h, Output]"

definition bound_query :: "grant \<Rightarrow> request \<Rightarrow> token_class \<Rightarrow> query" where
  "bound_query g q class =
     \<lparr>q_Provider = rq_Provider q, q_Model = rq_Model q, q_Class = class, q_ServiceTier = rq_ServiceTier q,
      q_Region = rq_Region q, q_ContextInputTokens = gr_MaxRequestTokens g,
      q_At = fst (ChargePeriod (rq_Start q) (rq_End q))\<rparr>"

definition higher :: "decimal \<Rightarrow> decimal \<Rightarrow> decimal" where
  "higher price target = (if 0 < Cmp price target then price else target)"

text \<open>One turn of the loop: the highest price so far, and the highest fallback.\<close>

definition bound_step :: "catalog \<Rightarrow> grant \<Rightarrow> request \<Rightarrow> decimal \<times> decimal \<Rightarrow> token_class \<Rightarrow> catalog_error + (decimal \<times> decimal)" where
  "bound_step prices g q acc class =
     (case Lookup prices (bound_query g q class) of
        Inl (NoPrice _ _ _) \<Rightarrow> Inr acc
      | Inl e \<Rightarrow> Inl e
      | Inr p \<Rightarrow>
          (if cp_Fallback p then Inr (fst acc, higher (cp_ListUnitPrice p) (snd acc))
           else Inr (higher (cp_ListUnitPrice p) (fst acc), snd acc)))"

definition bound_tokens :: "grant \<Rightarrow> int" where
  "bound_tokens g = wrap64 (wrap64 (gr_MaxParallel g + 1) * gr_MaxRequestTokens g)"

definition overshootBound :: "catalog \<Rightarrow> grant \<Rightarrow> request \<Rightarrow> catalog_error + decimal" where
  "overshootBound prices g q =
     rmap (\<lambda>(highest, highestFallback).
        Mul (DivPow10 (FromInt (bound_tokens g)) 6) (if Sign highest = 0 then highestFallback else highest))
       (rfold (bound_step prices g q) (zero_decimal, zero_decimal) billedClasses)"

section \<open>From a report to rows\<close>

record row_builder =
  rb_catalog :: catalog
  rb_agent :: string
  rb_enforcement :: enforcement
  rb_account :: string
  rb_credential :: string
  rb_ci :: ci_context
  rb_held :: "grant option"

datatype run_error =
    NegativeTokens string token_count
  | PriceError catalog_error
  | RowError row_error
  | ReaderRefused string

definition of_catalog :: "catalog_error + 'a \<Rightarrow> run_error + 'a" where
  "of_catalog r = (case r of Inl e \<Rightarrow> Inl (PriceError e) | Inr x \<Rightarrow> Inr x)"

definition credentialID :: "row_builder \<Rightarrow> string" where
  "credentialID b = (case rb_held b of Some g \<Rightarrow> gr_KeyID g | None \<Rightarrow> rb_credential b)"

definition tierNote :: "catalog_price \<Rightarrow> request \<Rightarrow> string" where
  "tierNote p q =
     (if rq_Grain q = PerRequest then []
      else if rq_ContextInputTokens q = 0
      then ''one '' @ rq_Grain q @ '''s total, so the lowest context tier applies''
      else (case cp_ContextTierMin p of
              Some m \<Rightarrow>
                ''one '' @ rq_Grain q @ '''s input of '' @ int_string (rq_ContextInputTokens q) @
                '' tokens passes the '' @ int_string m @
                ''-token context tier boundary, and its requests' own inputs are unknown, so the tier above prices it as an upper bound''
            | None \<Rightarrow>
                (case cp_ContextTierMax p of
                   Some m \<Rightarrow>
                     ''one '' @ rq_Grain q @ '''s input of '' @ int_string (rq_ContextInputTokens q) @
                     '' tokens is within the '' @ int_string m @ ''-token context tier, so each of its requests is too''
                 | None \<Rightarrow> [])))"

definition priceNotes :: "catalog_price \<Rightarrow> request \<Rightarrow> string list" where
  "priceNotes p q =
     (if cp_Fallback p then [NoteFallback] else []) @
     (case cp_ResidencyMultiplier p of Some f \<Rightarrow> [ResidencyNote f (rq_Region q)] | None \<Rightarrow> []) @
     (if tierNote p q \<noteq> [] then [tierNote p q] else []) @
     (if rq_AssumedWrite q \<noteq> [] then [''cache lifetime assumed''] else [])"

definition row_tags :: "row_builder \<Rightarrow> report_facts \<Rightarrow> request \<Rightarrow> token_class \<Rightarrow> (string \<rightharpoonup> string)" where
  "row_tags b facts q class =
     (let source = (if rq_CostSource q \<noteq> [] then rq_CostSource q else rf_CostSource facts);
          tags = [''costroid/agent'' \<mapsto> rb_agent b,
                  ''costroid/model'' \<mapsto> rq_Model q,
                  ''costroid/cost_source'' \<mapsto> source,
                  ''costroid/cost_basis'' \<mapsto> rf_CostBasis facts,
                  ''costroid/attribution_grade'' \<mapsto> ''unattributed'',
                  ''costroid/enforcement_grade'' \<mapsto> en_Grade (rb_enforcement b),
                  ''costroid/run_identity'' \<mapsto> ''unverified''];
          tags = (if sessionTagPattern (rf_SessionID facts)
                  then tags(''costroid/session_id'' \<mapsto> rf_SessionID facts) else tags);
          tags = (if versionTagPattern (rf_AgentVersion facts)
                  then tags(''costroid/agent_version'' \<mapsto> rf_AgentVersion facts) else tags);
          tags = (if class = rq_AssumedWrite q then tags(''costroid/assumed_ttl'' \<mapsto> Lifetime class) else tags)
      in tags ++ ContextTags (rb_ci b))"

definition row_query :: "request \<Rightarrow> token_class \<Rightarrow> query" where
  "row_query q class =
     \<lparr>q_Provider = rq_Provider q, q_Model = rq_Model q, q_Class = class, q_ServiceTier = rq_ServiceTier q,
      q_Region = rq_Region q, q_ContextInputTokens = rq_ContextInputTokens q,
      q_At = fst (ChargePeriod (rq_Start q) (rq_End q))\<rparr>"

text \<open>The price and the notes of one class: an informational class has no price and is not looked up.\<close>

definition price_class :: "row_builder \<Rightarrow> request \<Rightarrow> token_class \<Rightarrow> run_error + (price option \<times> string list)" where
  "price_class b q class =
     (if Informational class then Inr (None, [NoteInformational])
      else rmap (\<lambda>p. (Some \<lparr>pr_SkuPriceID = cp_SkuPriceID p, pr_PricingUnit = cp_PricingUnit p,
                             pr_ListUnitPrice = cp_ListUnitPrice p\<rparr>, priceNotes p q))
             (of_catalog (Lookup (rb_catalog b) (row_query q class))))"

definition row_bound :: "row_builder \<Rightarrow> request \<Rightarrow> run_error + decimal option" where
  "row_bound b q =
     (case rb_held b of
        Some g \<Rightarrow>
          (if en_Grade (rb_enforcement b) = GradeGatewayPrecheck
           then rmap Some (of_catalog (overshootBound (rb_catalog b) g q)) else Inr None)
      | None \<Rightarrow> Inr None)"

definition row_charge :: "(string \<Rightarrow> string) \<Rightarrow> row_builder \<Rightarrow> report_facts \<Rightarrow> string list \<Rightarrow> request \<Rightarrow> token_count \<Rightarrow>
    string \<Rightarrow> price option \<times> string list \<Rightarrow> decimal option \<Rightarrow> charge" where
  "row_charge sha256 b facts notes q c provider pn bound =
     \<lparr>ch_RowID = RowIdentity sha256 (rq_ID q) (fst c), ch_Provider = rq_Provider q,
      ch_ServiceProviderName = provider, ch_Model = rq_Model q, ch_Class = fst c, ch_Tokens = snd c,
      ch_Start = rq_Start q, ch_End = rq_End q, ch_Account = rb_account b, ch_Credential = credentialID b,
      ch_Region = rq_Region q, ch_ServiceTier = rq_ServiceTier q, ch_CatalogVersion = cat_version (rb_catalog b),
      ch_Price = fst pn, ch_Basis = rf_CostBasis facts, ch_Tags = row_tags b facts q (fst c),
      ch_Notes = notes @ (if rq_Note q \<noteq> [] then [rq_Note q] else []) @ snd pn @ [en_Note (rb_enforcement b)],
      ch_OvershootBound = bound\<rparr>"

definition build_row :: "(string \<Rightarrow> string) \<Rightarrow> row_builder \<Rightarrow> report_facts \<Rightarrow> string list \<Rightarrow> request \<Rightarrow> token_count \<Rightarrow>
    run_error + focus_row" where
  "build_row sha256 b facts notes q c =
     rbind (of_catalog (ServiceProviderNameOf (rb_catalog b) (rq_Provider q))) (\<lambda>provider.
     rbind (price_class b q (fst c)) (\<lambda>pn.
     rbind (row_bound b q) (\<lambda>bound.
       Inr (NewRow (row_charge sha256 b facts notes q c provider pn bound)))))"

definition request_rows :: "(string \<Rightarrow> string) \<Rightarrow> row_builder \<Rightarrow> report_facts \<Rightarrow> string list \<Rightarrow> request \<Rightarrow>
    run_error + focus_row list" where
  "request_rows sha256 b facts notes q =
     (case CheckTokens (rq_Tokens q) of
        Inl c \<Rightarrow> Inl (NegativeTokens (rq_ID q) c)
      | Inr _ \<Rightarrow> rtraverse (build_row sha256 b facts notes q) (Counts (rq_Tokens q)))"

definition sessionRows :: "(string \<Rightarrow> string) \<Rightarrow> row_builder \<Rightarrow> report \<Rightarrow> string list \<Rightarrow> run_error + focus_row list" where
  "sessionRows sha256 b rp notes =
     rmap concat (rtraverse (request_rows sha256 b (rp_facts rp) notes) (rp_Requests rp))"

abbreviation nestedNote :: string where "nestedNote \<equiv> ''nested session: started and ended inside this run''"

definition rows :: "(string \<Rightarrow> string) \<Rightarrow> row_builder \<Rightarrow> report \<Rightarrow> run_error + focus_row list" where
  "rows sha256 b rp =
     rbind (sessionRows sha256 b rp []) (\<lambda>own.
     rmap (\<lambda>more. own @ concat more)
       (rtraverse (\<lambda>n. sessionRows sha256 b n [nestedNote]) (rp_Nested rp)))"

definition listTotal :: "focus_row list \<Rightarrow> decimal" where
  "listTotal rs = foldl Add zero_decimal (map ListCost rs)"

section \<open>The grade a run earned\<close>

abbreviation gatewayNote :: string where
  "gatewayNote \<equiv> ''gateway-precheck: the gateway checks the key's budget before each request, and requests in flight can pass it by the overshoot bound''"

definition held_enforcement :: "grant \<Rightarrow> string \<Rightarrow> enforcement" where
  "held_enforcement g storeFailure =
     (let reasons = gr_Problems g @ (if storeFailure \<noteq> [] then [storeFailure] else [])
      in if reasons \<noteq> []
         then \<lparr>en_Grade = GradeNone, en_Note = ''none: '' @ join reasons ''; '', en_Watchdog = False\<rparr>
         else \<lparr>en_Grade = GradeGatewayPrecheck, en_Note = gatewayNote, en_Watchdog = False\<rparr>)"

definition passes_bound :: "decimal \<Rightarrow> focus_row \<Rightarrow> bool" where
  "passes_bound over r = (case OvershootBound r of None \<Rightarrow> False | Some bound \<Rightarrow> \<not> Cmp over bound \<le> 0)"

definition checkOvershoot :: "row_builder \<Rightarrow> focus_row list \<Rightarrow> enforcement \<times> string" where
  "checkOvershoot b rs =
     (case rb_held b of
        None \<Rightarrow> (no_enforcement, [])
      | Some g \<Rightarrow>
          if en_Grade (rb_enforcement b) \<noteq> GradeGatewayPrecheck then (no_enforcement, [])
          else
            (let sum = listTotal rs;
                 over = Sub sum (gr_MaxBudget g)
             in case find (passes_bound over) rs of
                  None \<Rightarrow> (no_enforcement, [])
                | Some r \<Rightarrow>
                    (let bound = (case OvershootBound r of Some d \<Rightarrow> String d | None \<Rightarrow> []);
                         reason = ''the run passed the key's budget by USD '' @ String over @
                           '', more than the overshoot bound of USD '' @ bound @ '' its rows state'';
                         warning = ''the rows, priced at the catalog, come to USD '' @ String sum @
                           '' against the key's budget of USD '' @ String (gr_MaxBudget g) @
                           '': an overshoot of USD '' @ String over @ '', above the bound of USD '' @ bound @
                           '', so the rows read none''
                     in (\<lparr>en_Grade = GradeNone, en_Note = ''none: '' @ reason, en_Watchdog = False\<rparr>, warning))))"

section \<open>Recording the rows\<close>

record run_result =
  rs_Agent :: string
  rs_AgentExit :: int
  rs_Stopped :: bool
  rs_Enforcement :: enforcement
  rs_Report :: "report option"
  rs_Rows :: nat
  rs_ListTotal :: decimal
  rs_Reason :: string
  rs_AgentError :: agent_error
  rs_RowsSHA256 :: string
  rs_RowsFileSHA256 :: string

definition new_result :: "string \<Rightarrow> enforcement \<Rightarrow> run_result" where
  "new_result agent e =
     \<lparr>rs_Agent = agent, rs_AgentExit = 0, rs_Stopped = False, rs_Enforcement = e, rs_Report = None,
      rs_Rows = 0, rs_ListTotal = zero_decimal, rs_Reason = [], rs_AgentError = [], rs_RowsSHA256 = [],
      rs_RowsFileSHA256 = []\<rparr>"

abbreviation ReasonNoUsage :: string where "ReasonNoUsage \<equiv> ''no_usage''"

abbreviation ReasonConcurrentRun :: string where "ReasonConcurrentRun \<equiv> ''concurrent_run''"

abbreviation ReasonReaderRefused :: string where "ReasonReaderRefused \<equiv> ''reader_refused''"

abbreviation ReasonAgentError :: string where "ReasonAgentError \<equiv> ''agent_error''"

definition Sentence :: "string \<Rightarrow> string" where
  "Sentence reason =
     (if reason = ReasonNoUsage then ''the agent reported no usage, so the run wrote no rows''
      else if reason = ReasonConcurrentRun
      then ''another costroid run holds the agent's state directory, so this run did not start and wrote no rows''
      else if reason = ReasonReaderRefused then ''the reader refused the agent's stream, so the run wrote no rows''
      else if reason = ReasonAgentError
      then ''the agent ended in an error before it reported usage, so the run wrote no rows''
      else [])"

definition AgentErrorFix :: "agent_error \<Rightarrow> string" where
  "AgentErrorFix class =
     (if class = AgentErrorAuthentication then ''check the API key the agent runs with, the api-key input in the action''
      else if class = AgentErrorBilling then ''check the credit balance of the provider account the API key belongs to''
      else if class = AgentErrorRateLimit
      then ''run the job again later, or raise the API key's rate limit with the provider''
      else if class = AgentErrorInvalidRequest then ''check the model name and the arguments the agent runs with''
      else if class = AgentErrorServer then ''run the job again, because the provider failed the request''
      else if class = AgentErrorUnknown then ''run the agent alone with the same arguments to read its error''
      else [])"

definition AgentErrorLine :: "agent_error \<Rightarrow> string" where
  "AgentErrorLine class = ''the agent ended with '' @ class @ '': '' @ AgentErrorFix class"

definition warn :: "report \<Rightarrow> string \<Rightarrow> report" where
  "warn rp line = Report (rp_facts rp) (rp_Requests rp) (rp_Warnings rp @ [line]) (rp_Nested rp)"

text \<open>The loop that writes the rows stops at the first row the check refuses, with what is written kept.\<close>

fun write_rows :: "(focus_row \<Rightarrow> string) \<Rightarrow> string \<Rightarrow> focus_row list \<Rightarrow> string \<times> row_error option" where
  "write_rows encode out [] = (out, None)"
| "write_rows encode out (r # rs) =
     (case Write encode out r of Inl e \<Rightarrow> (out, Some e) | Inr out' \<Rightarrow> write_rows encode out' rs)"

text \<open>The reason and the warning of a run's end, by its rows and its agent's error.\<close>

definition ending :: "focus_row list \<Rightarrow> report \<Rightarrow> string \<times> report" where
  "ending rs rp =
     (let err = rf_AgentError (rp_facts rp)
      in if rs = [] \<and> err \<noteq> []
         then (ReasonAgentError, warn rp (''reason '' @ ReasonAgentError @ '': '' @ AgentErrorLine err))
         else if rs = []
         then (ReasonNoUsage, warn rp (''reason '' @ ReasonNoUsage @ '': '' @ Sentence ReasonNoUsage))
         else if err \<noteq> []
         then ([], warn rp (AgentErrorLine err @ ''; the rows hold the requests it made before''))
         else ([], rp))"

text \<open>The rows at the grade that stands after the overshoot is checked, with the report they come from.\<close>

definition graded_rows :: "(string \<Rightarrow> string) \<Rightarrow> row_builder \<Rightarrow> report \<Rightarrow> enforcement \<Rightarrow>
    report \<times> enforcement \<times> (run_error + focus_row list)" where
  "graded_rows sha256 b rp e =
     (case rows sha256 b rp of
        Inl err \<Rightarrow> (rp, e, Inl err)
      | Inr rs \<Rightarrow>
          (let (lowered, warning) = checkOvershoot b rs
           in if warning \<noteq> []
              then (warn rp warning, lowered, rows sha256 (b\<lparr>rb_enforcement := lowered\<rparr>) (warn rp warning))
              else (rp, e, Inr rs)))"

definition record_run :: "(string \<Rightarrow> string) \<Rightarrow> (focus_row \<Rightarrow> string) \<Rightarrow> run_result \<Rightarrow> row_builder \<Rightarrow> report \<Rightarrow>
    run_result \<times> string \<times> run_error option" where
  "record_run sha256 encode result b rp =
     (let (rp, renamed) = containModels rp;
          rp = (if 0 < renamed then warn rp (unknownModelLine renamed) else rp);
          (rp, e, outcome) = graded_rows sha256 b rp (rs_Enforcement result);
          result = result\<lparr>rs_Enforcement := e\<rparr>
      in case outcome of
           Inl err \<Rightarrow> (result\<lparr>rs_Report := Some rp\<rparr>, [], Some err)
         | Inr rs \<Rightarrow>
             (let (reason, rp') = ending rs rp;
                  result = result\<lparr>rs_AgentError := rf_AgentError (rp_facts rp),
                                  rs_Reason := (if reason = [] then rs_Reason result else reason),
                                  rs_Report := Some rp'\<rparr>;
                  (written, failed) = write_rows encode [] rs
              in case failed of
                   Some err \<Rightarrow> (result, written, Some (RowError err))
                 | None \<Rightarrow>
                     (result\<lparr>rs_Rows := length rs, rs_ListTotal := listTotal rs,
                             rs_RowsSHA256 := rowsDigest sha256 rs, rs_RowsFileSHA256 := sha256 written\<rparr>,
                      written, None)))"

definition Record :: "(string \<Rightarrow> string) \<Rightarrow> (focus_row \<Rightarrow> string) \<Rightarrow> row_builder \<Rightarrow> report \<Rightarrow>
    run_result \<times> string \<times> run_error option" where
  "Record sha256 encode b rp =
     (let e = rf_Enforcement (rp_facts rp)
      in record_run sha256 encode (new_result (rb_agent b) e) (b\<lparr>rb_enforcement := e, rb_held := None\<rparr>) rp)"

text \<open>
  \<open>Run\<close> from the moment the agent's process has ended: what it left is its exit code, whether the
  budget stopped it, the store's failure, and the report or the reader's refusal.
\<close>

datatype finish = Refused string | Finished report

definition final_enforcement :: "enforcement \<Rightarrow> grant option \<Rightarrow> string \<Rightarrow> report \<Rightarrow> enforcement" where
  "final_enforcement planned held storeFailure rp =
     (case held of
        Some g \<Rightarrow> held_enforcement g storeFailure
      | None \<Rightarrow>
          if en_Grade (rf_Enforcement (rp_facts rp)) \<noteq> [] then rf_Enforcement (rp_facts rp) else planned)"

definition finish_run :: "(string \<Rightarrow> string) \<Rightarrow> (focus_row \<Rightarrow> string) \<Rightarrow> row_builder \<Rightarrow> enforcement \<Rightarrow> int \<Rightarrow> bool \<Rightarrow> string \<Rightarrow>
    finish \<Rightarrow> run_result \<times> string \<times> run_error option" where
  "finish_run sha256 encode b planned exit stopped storeFailure f =
     (let planned = (case rb_held b of Some g \<Rightarrow> held_enforcement g [] | None \<Rightarrow> planned);
          result = (new_result (rb_agent b) planned)\<lparr>rs_AgentExit := exit, rs_Stopped := stopped\<rparr>
      in case f of
           Refused e \<Rightarrow> (result\<lparr>rs_Reason := ReasonReaderRefused\<rparr>, [], Some (ReaderRefused e))
         | Finished rp \<Rightarrow>
             (let e = final_enforcement planned (rb_held b) storeFailure rp
              in record_run sha256 encode (result\<lparr>rs_Enforcement := e\<rparr>) (b\<lparr>rb_enforcement := e\<rparr>) rp))"

text \<open>
  \<open>compareSpend\<close> adds at most one warning to a gateway run's report: the gateway's count could not be
  read, or it is not the rows' figure.
\<close>

datatype spend_warning = Unreadable gateway_error | Gap decimal decimal

definition compareSpend :: "gateway_error + decimal \<Rightarrow> run_result \<Rightarrow> spend_warning option" where
  "compareSpend counted result =
     (case counted of
        Inl e \<Rightarrow> Some (Unreadable e)
      | Inr spend \<Rightarrow>
          if SameSpend spend (rs_ListTotal result) then None else Some (Gap spend (rs_ListTotal result)))"

definition checkCap :: "(string \<Rightarrow> string) \<Rightarrow> row_builder \<Rightarrow> decimal \<Rightarrow> report \<Rightarrow> run_error + bool" where
  "checkCap sha256 b budget rp = rmap (\<lambda>rs. 0 \<le> Cmp (listTotal rs) budget) (rows sha256 b rp)"

section \<open>Lemmas on the rows\<close>

lemma of_catalog_Inr [simp]: "of_catalog r = Inr x \<longleftrightarrow> r = Inr x"
  by (cases r) (simp_all add: of_catalog_def)

text \<open>What a class of a request costs at the catalog, over the exact tokens.\<close>

definition class_cost :: "row_builder \<Rightarrow> request \<Rightarrow> token_count \<Rightarrow> rat" where
  "class_cost b q c =
     (if Informational (fst c) then 0
      else (case Lookup (rb_catalog b) (row_query q (fst c)) of
              Inl _ \<Rightarrow> 0
            | Inr p \<Rightarrow> dval (cp_ListUnitPrice p) * of_int (snd c) / 10 ^ 6))"

lemma price_class_Inr:
  "price_class b q class = Inr pn \<Longrightarrow>
    (if Informational class then fst pn = None
     else \<exists>p. Lookup (rb_catalog b) (row_query q class) = Inr p \<and>
       fst pn = Some \<lparr>pr_SkuPriceID = cp_SkuPriceID p, pr_PricingUnit = cp_PricingUnit p,
                      pr_ListUnitPrice = cp_ListUnitPrice p\<rparr>)"
  by (auto simp: price_class_def rmap_eq_Inr split: if_splits)

lemma build_row_Inr:
  assumes "build_row sha256 b facts notes q c = Inr r"
  obtains provider pn bound where
    "price_class b q (fst c) = Inr pn" "row_bound b q = Inr bound"
    "r = NewRow (row_charge sha256 b facts notes q c provider pn bound)"
  using assms by (auto simp: build_row_def rbind_eq_Inr)

lemma build_row_columns:
  assumes "build_row sha256 b facts notes q c = Inr r"
  shows "RowID r = RowIdentity sha256 (rq_ID q) (fst c) \<and> SkuMeter r = fst c \<and>
    dval (ConsumedQuantity r) = of_int (snd c) \<and>
    dval (ListCost r) = class_cost b q c \<and> wf_decimal (ListCost r) \<and>
    row_bound b q = Inr (OvershootBound r) \<and> Tags r = row_tags b facts q (fst c) \<and>
    SubAccountID r = optional (credentialID b)"
proof -
  obtain provider pn bound where *: "price_class b q (fst c) = Inr pn" "row_bound b q = Inr bound"
      "r = NewRow (row_charge sha256 b facts notes q c provider pn bound)"
    using build_row_Inr [OF assms] .
  show ?thesis
  proof (cases "Informational (fst c)")
    case True
    then show ?thesis using price_class_Inr [OF *(1)] * by (simp add: row_charge_def class_cost_def)
  next
    case False
    then obtain p where p: "Lookup (rb_catalog b) (row_query q (fst c)) = Inr p"
        "fst pn = Some \<lparr>pr_SkuPriceID = cp_SkuPriceID p, pr_PricingUnit = cp_PricingUnit p,
                        pr_ListUnitPrice = cp_ListUnitPrice p\<rparr>"
      using price_class_Inr [OF *(1)] by auto
    have w: "wf_decimal (cp_ListUnitPrice p)" by (rule cat.price_wf [OF p(1)])
    show ?thesis using False * p w by (simp add: row_charge_def class_cost_def)
  qed
qed

lemma class_cost_nonneg: "0 \<le> snd c \<Longrightarrow> 0 \<le> class_cost b q c"
  using cat.price_nonneg by (auto simp: class_cost_def split: sum.splits)

lemma rtraverse_map:
  "rtraverse f xs = Inr ys \<Longrightarrow> (\<And>x y. x \<in> set xs \<Longrightarrow> f x = Inr y \<Longrightarrow> g y = h x) \<Longrightarrow> map g ys = map h xs"
  by (induction xs arbitrary: ys) (auto simp: result_eqs)

lemma rtraverse_concat:
  "rtraverse f xs = Inr yss \<Longrightarrow> (\<And>x ys. x \<in> set xs \<Longrightarrow> f x = Inr ys \<Longrightarrow> map g ys = h x) \<Longrightarrow>
    map g (concat yss) = concat (map h xs)"
  by (induction xs arbitrary: yss) (auto simp: result_eqs)

text \<open>The requests a report's rows are built from: its own, then each nested session's.\<close>

definition row_requests :: "report \<Rightarrow> request list" where
  "row_requests rp = rp_Requests rp @ concat (map rp_Requests (rp_Nested rp))"

text \<open>What the row of a class must state: its identity, its class, its tokens and its cost.\<close>

definition row_facts :: "focus_row \<Rightarrow> string \<times> token_class \<times> rat \<times> rat" where
  "row_facts r = (RowID r, SkuMeter r, dval (ConsumedQuantity r), dval (ListCost r))"

definition expected_facts :: "(string \<Rightarrow> string) \<Rightarrow> row_builder \<Rightarrow> request \<Rightarrow> (string \<times> token_class \<times> rat \<times> rat) list" where
  "expected_facts sha256 b q =
     map (\<lambda>c. (RowIdentity sha256 (rq_ID q) (fst c), fst c, of_int (snd c), class_cost b q c)) (Counts (rq_Tokens q))"

lemma request_rows_facts:
  assumes "request_rows sha256 b facts notes q = Inr rs"
  shows "map row_facts rs = expected_facts sha256 b q"
proof -
  have "rtraverse (build_row sha256 b facts notes q) (Counts (rq_Tokens q)) = Inr rs"
    using assms by (auto simp: request_rows_def split: sum.splits)
  then show ?thesis unfolding expected_facts_def
    by (rule rtraverse_map) (auto simp: row_facts_def dest: build_row_columns)
qed

lemma sessionRows_facts:
  assumes "sessionRows sha256 b rp notes = Inr rs"
  shows "map row_facts rs = concat (map (expected_facts sha256 b) (rp_Requests rp))"
proof -
  obtain rss where "rtraverse (request_rows sha256 b (rp_facts rp) notes) (rp_Requests rp) = Inr rss" "rs = concat rss"
    using assms by (auto simp: sessionRows_def rmap_eq_Inr)
  then show ?thesis using rtraverse_concat [of _ _ rss row_facts "expected_facts sha256 b"] request_rows_facts by blast
qed

lemma rows_Inr:
  assumes "rows sha256 b rp = Inr rs"
  obtains own more where "sessionRows sha256 b rp [] = Inr own"
    "rtraverse (\<lambda>n. sessionRows sha256 b n [nestedNote]) (rp_Nested rp) = Inr more" "rs = own @ concat more"
  using assms by (auto simp: rows_def result_eqs)

lemma concat_map_concat: "concat (map f (concat (map g xs))) = concat (map (\<lambda>x. concat (map f (g x))) xs)"
  by (induction xs) simp_all

lemma rows_facts:
  assumes "rows sha256 b rp = Inr rs"
  shows "map row_facts rs = concat (map (expected_facts sha256 b) (row_requests rp))"
proof -
  obtain own more where *: "sessionRows sha256 b rp [] = Inr own"
      "rtraverse (\<lambda>n. sessionRows sha256 b n [nestedNote]) (rp_Nested rp) = Inr more" "rs = own @ concat more"
    using rows_Inr [OF assms] .
  have "map row_facts (concat more) = concat (map (\<lambda>n. concat (map (expected_facts sha256 b) (rp_Requests n))) (rp_Nested rp))"
    using *(2) by (rule rtraverse_concat) (rule sessionRows_facts)
  then show ?thesis using *(3) sessionRows_facts [OF *(1)] by (simp add: row_requests_def concat_map_concat)
qed

text \<open>Every row comes from a request's class; what holds of each built row holds of all.\<close>

lemma rows_each:
  assumes "rows sha256 b rp = Inr rs" "r \<in> set rs"
  obtains facts ns q c where "q \<in> set (row_requests rp)" "c \<in> set (Counts (rq_Tokens q))"
    "CheckTokens (rq_Tokens q) = Inr ()" "build_row sha256 b facts ns q c = Inr r"
proof -
  have req: "\<exists>c. c \<in> set (Counts (rq_Tokens q)) \<and> CheckTokens (rq_Tokens q) = Inr () \<and> build_row sha256 b facts ns q c = Inr r"
    if "request_rows sha256 b facts ns q = Inr xs" "r \<in> set xs" for facts ns q xs
  proof -
    have "rtraverse (build_row sha256 b facts ns q) (Counts (rq_Tokens q)) = Inr xs" "CheckTokens (rq_Tokens q) = Inr ()"
      using that(1) by (auto simp: request_rows_def split: sum.splits)
    then show ?thesis using rtraverse_in [OF _ that(2)] by metis
  qed
  have sess: "\<exists>facts q c. q \<in> set (rp_Requests n) \<and> c \<in> set (Counts (rq_Tokens q)) \<and>
      CheckTokens (rq_Tokens q) = Inr () \<and> build_row sha256 b facts ns q c = Inr r"
    if "sessionRows sha256 b n ns = Inr xs" "r \<in> set xs" for n ns xs
  proof -
    obtain yss where y: "rtraverse (request_rows sha256 b (rp_facts n) ns) (rp_Requests n) = Inr yss" "xs = concat yss"
      using \<open>sessionRows sha256 b n ns = Inr xs\<close> by (auto simp: sessionRows_def rmap_eq_Inr)
    then obtain ys where "ys \<in> set yss" "r \<in> set ys" using \<open>r \<in> set xs\<close> by auto
    then show ?thesis using rtraverse_in [OF y(1)] req by meson
  qed
  obtain own more where *: "sessionRows sha256 b rp [] = Inr own"
      "rtraverse (\<lambda>n. sessionRows sha256 b n [nestedNote]) (rp_Nested rp) = Inr more" "rs = own @ concat more"
    using rows_Inr [OF assms(1)] .
  have "r \<in> set own \<or> (\<exists>xs\<in>set more. r \<in> set xs)" using assms(2) *(3) by auto
  then show thesis
  proof
    assume "r \<in> set own"
    then show thesis using sess [OF *(1)] that by (force simp: row_requests_def)
  next
    assume "\<exists>xs\<in>set more. r \<in> set xs"
    then obtain xs where xs: "xs \<in> set more" "r \<in> set xs" by blast
    then obtain n where n: "n \<in> set (rp_Nested rp)" "sessionRows sha256 b n [nestedNote] = Inr xs"
      using rtraverse_in [OF *(2)] by blast
    then show thesis using sess [OF n(2) xs(2)] that by (force simp: row_requests_def)
  qed
qed

lemma rows_ListCost_wf: "rows sha256 b rp = Inr rs \<Longrightarrow> r \<in> set rs \<Longrightarrow> wf_decimal (ListCost r)"
  by (metis rows_each build_row_columns)

lemma listTotal_wf: "\<forall>r\<in>set rs. wf_decimal (ListCost r) \<Longrightarrow> wf_decimal (listTotal rs)"
  unfolding listTotal_def by (rule dec.ok_total) simp

lemma listTotal_val:
  "\<forall>r\<in>set rs. wf_decimal (ListCost r) \<Longrightarrow> dval (listTotal rs) = sum_list (map (\<lambda>r. dval (ListCost r)) rs)"
  unfolding listTotal_def by (subst dec.val_total) (simp_all add: comp_def)

text \<open>The loop over the requests checks every request of the report.\<close>

lemma rows_checked:
  assumes "rows sha256 b rp = Inr rs" "q \<in> set (row_requests rp)"
  shows "CheckTokens (rq_Tokens q) = Inr ()"
proof -
  have ok: "CheckTokens (rq_Tokens q) = Inr ()" if "sessionRows sha256 b n ns = Inr xs" "q \<in> set (rp_Requests n)" for n ns xs
  proof -
    obtain yss where "rtraverse (request_rows sha256 b (rp_facts n) ns) (rp_Requests n) = Inr yss"
      using \<open>sessionRows sha256 b n ns = Inr xs\<close> by (auto simp: sessionRows_def rmap_eq_Inr)
    then have "\<exists>ys. request_rows sha256 b (rp_facts n) ns q = Inr ys"
      using that(2) by (auto simp: rtraverse_eq_Inr list_all2_conv_all_nth in_set_conv_nth)
    then show ?thesis by (auto simp: request_rows_def split: sum.splits)
  qed
  obtain own more where *: "sessionRows sha256 b rp [] = Inr own"
      "rtraverse (\<lambda>n. sessionRows sha256 b n [nestedNote]) (rp_Nested rp) = Inr more"
    using rows_Inr [OF assms(1)] by metis
  have "\<exists>xs. sessionRows sha256 b n [nestedNote] = Inr xs" if "n \<in> set (rp_Nested rp)" for n
    using *(2) that by (auto simp: rtraverse_eq_Inr list_all2_conv_all_nth in_set_conv_nth)
  then show ?thesis using assms(2) ok *(1) by (fastforce simp: row_requests_def)
qed

section \<open>Lemmas on the models\<close>

fun deep_requests :: "report \<Rightarrow> request list" where
  "deep_requests (Report facts requests warnings nested) = requests @ concat (map deep_requests nested)"

lemma contain_model_ok: "modelPattern (rq_Model (contain_model q))"
proof -
  have "modelPattern unknownModel" by code_simp
  then show ?thesis by (simp add: contain_model_def)
qed

lemma containModels_deep:
  "deep_requests (fst (containModels rp)) = map contain_model (deep_requests rp) \<and>
   snd (containModels rp) = length (filter (\<lambda>q. \<not> modelPattern (rq_Model q)) (deep_requests rp))"
proof (induction rp)
  case (Report facts requests warnings nested)
  have "map (\<lambda>n. deep_requests (fst (containModels n))) nested = map (\<lambda>n. map contain_model (deep_requests n)) nested"
    using Report by simp
  moreover have "map (\<lambda>n. snd (containModels n)) nested =
      map (\<lambda>n. length (filter (\<lambda>q. \<not> modelPattern (rq_Model q)) (deep_requests n))) nested"
    using Report by simp
  ultimately show ?case
    by (simp add: Let_def comp_def map_concat filter_concat length_concat cong: map_cong)
qed

section \<open>Lemmas on the bound\<close>

lemma higher_spec:
  "wf_decimal p \<Longrightarrow> wf_decimal t \<Longrightarrow> wf_decimal (higher p t) \<and> dval p \<le> dval (higher p t) \<and> dval t \<le> dval (higher p t)"
  by (auto simp: higher_def)

lemma bound_step_grows:
  assumes "bound_step prices g q acc cl = Inr acc'" "wf_decimal (fst acc)" "wf_decimal (snd acc)"
  shows "wf_decimal (fst acc') \<and> wf_decimal (snd acc') \<and> dval (fst acc) \<le> dval (fst acc') \<and>
    (\<forall>p. Lookup prices (bound_query g q cl) = Inr p \<and> \<not> cp_Fallback p \<longrightarrow> dval (cp_ListUnitPrice p) \<le> dval (fst acc'))"
proof (cases "Lookup prices (bound_query g q cl)")
  case (Inl e)
  then show ?thesis using assms by (cases e) (auto simp: bound_step_def)
next
  case (Inr p)
  have w: "wf_decimal (cp_ListUnitPrice p)" by (rule cat.price_wf [OF Inr])
  show ?thesis using assms Inr higher_spec [OF w assms(2)] higher_spec [OF w assms(3)]
    by (auto simp: bound_step_def split: if_splits)
qed

lemma bound_fold_grows:
  assumes "rfold (bound_step prices g q) acc classes = Inr acc'" "wf_decimal (fst acc)" "wf_decimal (snd acc)"
  shows "wf_decimal (fst acc') \<and> wf_decimal (snd acc') \<and> dval (fst acc) \<le> dval (fst acc') \<and>
    (\<forall>cl\<in>set classes. \<forall>p. Lookup prices (bound_query g q cl) = Inr p \<and> \<not> cp_Fallback p \<longrightarrow>
      dval (cp_ListUnitPrice p) \<le> dval (fst acc'))"
  using assms
proof (induction classes arbitrary: acc)
  case Nil
  then show ?case by simp
next
  case (Cons cl classes)
  then obtain mid where m: "bound_step prices g q acc cl = Inr mid" "rfold (bound_step prices g q) mid classes = Inr acc'"
    by (auto simp: rbind_eq_Inr)
  note s = bound_step_grows [OF m(1) Cons.prems(2,3)]
  have "wf_decimal (fst acc') \<and> wf_decimal (snd acc') \<and> dval (fst mid) \<le> dval (fst acc') \<and>
    (\<forall>cl\<in>set classes. \<forall>p. Lookup prices (bound_query g q cl) = Inr p \<and> \<not> cp_Fallback p \<longrightarrow>
      dval (cp_ListUnitPrice p) \<le> dval (fst acc'))"
    using s by (intro Cons.IH [OF m(2)]) simp_all
  with s show ?case by fastforce
qed

lemma bound_snd_nonneg:
  assumes "rfold (bound_step prices g q) (zero_decimal, zero_decimal) classes = Inr acc"
  shows "0 \<le> dval (snd acc) \<and> 0 \<le> dval (fst acc)"
proof (rule rfold_invariant [OF assms, of "\<lambda>a. 0 \<le> dval (snd a) \<and> 0 \<le> dval (fst a)"])
  fix cl u v
  assume u: "0 \<le> dval (snd u) \<and> 0 \<le> dval (fst u)" and s: "bound_step prices g q u cl = Inr v"
  show "0 \<le> dval (snd v) \<and> 0 \<le> dval (fst v)"
  proof (cases "Lookup prices (bound_query g q cl)")
    case (Inl e)
    then show ?thesis using u s by (cases e) (auto simp: bound_step_def)
  next
    case (Inr p)
    then show ?thesis using u s cat.price_nonneg [OF Inr]
      by (auto simp: bound_step_def higher_def split: if_splits)
  qed
qed simp

lemma overshootBound_Inr:
  assumes "overshootBound prices g q = Inr bound"
  obtains acc where "rfold (bound_step prices g q) (zero_decimal, zero_decimal) billedClasses = Inr acc"
    "bound = Mul (DivPow10 (FromInt (bound_tokens g)) 6) (if Sign (fst acc) = 0 then snd acc else fst acc)"
    "wf_decimal (fst acc)" "wf_decimal (snd acc)" "0 \<le> dval (fst acc)"
proof -
  obtain acc where a: "rfold (bound_step prices g q) (zero_decimal, zero_decimal) billedClasses = Inr acc"
      "bound = Mul (DivPow10 (FromInt (bound_tokens g)) 6) (if Sign (fst acc) = 0 then snd acc else fst acc)"
    using assms by (auto simp: overshootBound_def rmap_eq_Inr split: prod.splits)
  have "wf_decimal (fst acc) \<and> wf_decimal (snd acc) \<and> 0 \<le> dval (fst acc)"
    using bound_fold_grows [OF a(1)] by simp
  then show thesis using a by (intro that) blast+
qed

lemma overshootBound_wf: "overshootBound prices g q = Inr bound \<Longrightarrow> wf_decimal bound"
  by (elim overshootBound_Inr) simp

lemma bound_tokens_exact:
  assumes "1 \<le> gr_MaxParallel g" "1 \<le> gr_MaxRequestTokens g" "fits64 ((gr_MaxParallel g + 1) * gr_MaxRequestTokens g)"
  shows "bound_tokens g = (gr_MaxParallel g + 1) * gr_MaxRequestTokens g"
proof -
  define n where "n = (gr_MaxParallel g + 1) * gr_MaxRequestTokens g"
  have "gr_MaxParallel g + 1 \<le> n" using assms(1,2) by (simp add: n_def)
  moreover have "n < 2 ^ 63" using assms(3) by (simp add: fits64_def n_def)
  ultimately have "fits64 (gr_MaxParallel g + 1)" using assms(1) by (simp add: fits64_def)
  then show ?thesis using assms(3) by (simp add: bound_tokens_def wrap64_exact)
qed

lemma weighted_le:
  assumes "\<forall>x\<in>set xs. 0 \<le> (w x :: rat) \<and> v x \<le> m" "sum_list (map w xs) \<le> s" "0 \<le> m"
  shows "sum_list (map (\<lambda>x. w x * v x) xs) \<le> s * m"
proof -
  have "sum_list (map (\<lambda>x. w x * v x) xs) \<le> sum_list (map (\<lambda>x. w x * m) xs)"
    using assms(1) by (intro sum_list_mono) (auto intro: mult_left_mono)
  also have "\<dots> = sum_list (map w xs) * m" by (induction xs) (simp_all add: distrib_right)
  also have "\<dots> \<le> s * m" using assms(2,3) by (rule mult_right_mono)
  finally show ?thesis .
qed

text \<open>What the bound covers.\<close>

lemma overshootBound_covers:
  assumes b: "overshootBound prices g q = Inr bound"
    and g: "1 \<le> gr_MaxParallel g" "1 \<le> gr_MaxRequestTokens g" "fits64 ((gr_MaxParallel g + 1) * gr_MaxRequestTokens g)"
    and xs: "\<forall>(cl, n, p)\<in>set xs. cl \<in> set billedClasses \<and> 0 \<le> n \<and>
      Lookup prices (bound_query g q cl) = Inr p \<and> \<not> cp_Fallback p"
    and total: "sum_list (map (\<lambda>(cl, n, p). n) xs) \<le> (gr_MaxParallel g + 1) * gr_MaxRequestTokens g"
  shows "sum_list (map (\<lambda>(cl, n, p). of_int n * dval (cp_ListUnitPrice p) / 10 ^ 6) xs) \<le> dval bound"
proof -
  obtain acc where a: "rfold (bound_step prices g q) (zero_decimal, zero_decimal) billedClasses = Inr acc"
      "bound = Mul (DivPow10 (FromInt (bound_tokens g)) 6) (if Sign (fst acc) = 0 then snd acc else fst acc)"
      "wf_decimal (fst acc)" "wf_decimal (snd acc)" "0 \<le> dval (fst acc)"
    using overshootBound_Inr [OF b] .
  let ?T = "(of_int ((gr_MaxParallel g + 1) * gr_MaxRequestTokens g) :: rat)"
  have top: "dval (cp_ListUnitPrice p) \<le> dval (fst acc)" if "(cl, n, p) \<in> set xs" for cl n p
    using bound_fold_grows [OF a(1)] xs that by fastforce
  have T: "0 \<le> ?T" using g by simp
  have snd0: "0 \<le> dval (snd acc)"
    using bound_snd_nonneg [OF a(1)] by simp
  have bd: "dval bound = ?T / 10 ^ 6 * (if dval (fst acc) = 0 then dval (snd acc) else dval (fst acc))"
    using a bound_tokens_exact [OF g] by (simp add: a(2))
  have weighted: "sum_list (map (\<lambda>x. (case x of (cl, n, p) \<Rightarrow> of_int n / 10 ^ 6) * (case x of (cl, n, p) \<Rightarrow> dval (cp_ListUnitPrice p))) xs)
      \<le> ?T / 10 ^ 6 * dval (fst acc)"
  proof (rule weighted_le)
    show "\<forall>x\<in>set xs. 0 \<le> (case x of (cl, n, p) \<Rightarrow> (of_int n :: rat) / 10 ^ 6) \<and>
        (case x of (cl, n, p) \<Rightarrow> dval (cp_ListUnitPrice p)) \<le> dval (fst acc)"
      using xs top by fastforce
    have "sum_list (map (\<lambda>x. case x of (cl, n, p) \<Rightarrow> (of_int n :: rat) / 10 ^ 6) xs) =
        of_int (sum_list (map (\<lambda>(cl, n, p). n) xs)) / 10 ^ 6"
      by (induction xs) (auto simp: add_divide_distrib)
    also have "\<dots> \<le> ?T / 10 ^ 6" using total by (intro divide_right_mono) (simp_all only: of_int_le_iff, simp)
    finally show "sum_list (map (\<lambda>x. case x of (cl, n, p) \<Rightarrow> (of_int n :: rat) / 10 ^ 6) xs) \<le> ?T / 10 ^ 6" .
  qed (use a in simp)
  have eq: "map (\<lambda>(cl, n, p). of_int n * dval (cp_ListUnitPrice p) / 10 ^ 6) xs =
      map (\<lambda>x. (case x of (cl, n, p) \<Rightarrow> (of_int n :: rat) / 10 ^ 6) * (case x of (cl, n, p) \<Rightarrow> dval (cp_ListUnitPrice p))) xs"
    by (rule map_cong) auto
  have "?T / 10 ^ 6 * dval (fst acc) \<le> dval bound"
    unfolding bd using T snd0 by (intro mult_left_mono) auto
  with weighted show ?thesis unfolding eq by (rule order_trans)
qed

section \<open>Lemmas on the grade\<close>

lemma row_bound_wf: "row_bound b q = Inr (Some bound) \<Longrightarrow> wf_decimal bound"
  by (auto simp: row_bound_def rmap_eq_Inr overshootBound_wf split: option.splits if_splits)

lemma checkOvershoot_none:
  assumes "snd (checkOvershoot b rs) = []" "rb_held b = Some g" "en_Grade (rb_enforcement b) = GradeGatewayPrecheck" "r \<in> set rs"
  shows "\<not> passes_bound (Sub (listTotal rs) (gr_MaxBudget g)) r"
proof -
  have "find (passes_bound (Sub (listTotal rs) (gr_MaxBudget g))) rs = None"
    using assms(1-3) by (auto simp: checkOvershoot_def Let_def split: option.splits)
  then show ?thesis using assms(4) by (simp add: find_None_iff)
qed

lemma checkOvershoot_grade: "snd (checkOvershoot b rs) \<noteq> [] \<Longrightarrow> en_Grade (fst (checkOvershoot b rs)) = GradeNone"
  by (auto simp: checkOvershoot_def Let_def split: option.splits if_splits)

lemma held_enforcement_precheck:
  "en_Grade (held_enforcement g f) = GradeGatewayPrecheck \<longleftrightarrow> Holds g \<and> f = []"
  by (auto simp: held_enforcement_def Holds_def Let_def)

lemma graded_rows_precheck:
  assumes "graded_rows sha256 b rp e = (rp', e', Inr rs)" "en_Grade e' = GradeGatewayPrecheck"
  shows "e' = e \<and> rp' = rp \<and> rows sha256 b rp = Inr rs \<and> snd (checkOvershoot b rs) = []"
proof (cases "rows sha256 b rp")
  case (Inr xs)
  show ?thesis
  proof (cases "snd (checkOvershoot b xs) = []")
    case True
    then show ?thesis using assms Inr by (auto simp: graded_rows_def split_beta)
  next
    case False
    then show ?thesis using assms Inr checkOvershoot_grade [OF False] by (auto simp: graded_rows_def split_beta)
  qed
qed (use assms in \<open>simp add: graded_rows_def\<close>)

lemma graded_rows_rows:
  "graded_rows sha256 b rp e = (rp', e', Inr rs) \<Longrightarrow>
    \<exists>b' rp'. rows sha256 b' rp' = Inr rs \<and> rb_catalog b' = rb_catalog b \<and> row_requests rp' = row_requests rp"
  by (fastforce simp: graded_rows_def warn_def row_requests_def Let_def split: sum.splits prod.splits if_splits)

lemma write_rows_ok:
  "write_rows encode out rs = (out', None) \<longleftrightarrow>
    (\<forall>r\<in>set rs. Check r = Inr ()) \<and> out' = out @ concat (map (\<lambda>r. encode r @ [CHR 0x0A]) rs)"
proof (induction rs arbitrary: out)
  case Nil
  then show ?case by auto
next
  case (Cons r rs)
  then show ?case by (cases "Check r") (auto simp: Write_def)
qed

lemma record_run_ok:
  assumes "record_run sha256 encode result b rp = (res, out, None)"
  obtains e rp1 rs where
    "graded_rows sha256 b (if 0 < snd (containModels rp) then warn (fst (containModels rp)) (unknownModelLine (snd (containModels rp)))
       else fst (containModels rp)) (rs_Enforcement result) = (rp1, e, Inr rs)"
    "write_rows encode [] rs = (out, None)"
    "res = result\<lparr>rs_Enforcement := e, rs_AgentError := rf_AgentError (rp_facts rp1),
       rs_Reason := (if fst (ending rs rp1) = [] then rs_Reason result else fst (ending rs rp1)),
       rs_Report := Some (snd (ending rs rp1)), rs_Rows := length rs, rs_ListTotal := listTotal rs,
       rs_RowsSHA256 := rowsDigest sha256 rs, rs_RowsFileSHA256 := sha256 out\<rparr>"
proof -
  define rp0 where "rp0 = (if 0 < snd (containModels rp) then warn (fst (containModels rp)) (unknownModelLine (snd (containModels rp)))
       else fst (containModels rp))"
  obtain rp1 e outcome where g: "graded_rows sha256 b rp0 (rs_Enforcement result) = (rp1, e, outcome)"
    by (metis prod_cases3)
  obtain rs where rs: "outcome = Inr rs"
    using assms g by (cases outcome) (auto simp: record_run_def rp0_def split_beta Let_def)
  obtain w f where w: "write_rows encode [] rs = (w, f)" by (metis surj_pair)
  show thesis
  proof (rule that [of rp1 e rs])
    show "graded_rows sha256 b (if 0 < snd (containModels rp) then warn (fst (containModels rp)) (unknownModelLine (snd (containModels rp)))
       else fst (containModels rp)) (rs_Enforcement result) = (rp1, e, Inr rs)"
      using g rs by (simp add: rp0_def)
    show "write_rows encode [] rs = (out, None)"
      using assms g rs w by (cases f) (auto simp: record_run_def rp0_def split_beta Let_def)
    show "res = result\<lparr>rs_Enforcement := e, rs_AgentError := rf_AgentError (rp_facts rp1),
       rs_Reason := (if fst (ending rs rp1) = [] then rs_Reason result else fst (ending rs rp1)),
       rs_Report := Some (snd (ending rs rp1)), rs_Rows := length rs, rs_ListTotal := listTotal rs,
       rs_RowsSHA256 := rowsDigest sha256 rs, rs_RowsFileSHA256 := sha256 out\<rparr>"
      using assms g rs w by (cases f) (auto simp: record_run_def rp0_def split_beta Let_def)
  qed
qed

lemma containModels_facts [simp]: "rp_facts (fst (containModels rp)) = rp_facts rp"
  by (cases rp) (simp add: Let_def)

lemma warn_facts [simp]: "rp_facts (warn rp line) = rp_facts rp" "row_requests (warn rp line) = row_requests rp"
  by (simp_all add: warn_def row_requests_def)

lemma graded_rows_facts: "graded_rows sha256 b rp e = (rp', e', r) \<Longrightarrow> rp_facts rp' = rp_facts rp"
  by (auto simp: graded_rows_def Let_def split: sum.splits prod.splits if_splits)

lemma sum_concat: "sum_list (concat xss) = sum_list (map sum_list xss)" for xss :: "'a::monoid_add list list"
  by (induction xss) simp_all

section \<open>A sample run\<close>

definition sample_tokens :: tokens where
  "sample_tokens = \<lparr>tk_InputUncached = 0, tk_CacheRead = 0, tk_CacheWrite5m = 0, tk_CacheWrite1h = 0,
     tk_CacheWrite30m = 0, tk_Output = 2000000, tk_ReasoningOutput = 0, tk_CachedInputReported = 0\<rparr>"

definition sample_usage :: request where
  "sample_usage = \<lparr>rq_ID = ''req_1'', rq_Provider = ''anthropic'', rq_Model = ''m'', rq_Start = go_date 2026 8 31,
     rq_End = go_date 2026 8 31, rq_ServiceTier = ''standard'', rq_Region = [], rq_ContextInputTokens = 1000,
     rq_Grain = PerRequest, rq_Tokens = sample_tokens, rq_AssumedWrite = [], rq_CostSource = [], rq_Note = []\<rparr>"

definition sample_facts :: report_facts where
  "sample_facts = \<lparr>rf_SessionID = [], rf_AgentVersion = [], rf_CostBasis = Measured, rf_CostSource = ''stream'',
     rf_AgentError = [], rf_Enforcement = no_enforcement, rf_Unrecorded = 0\<rparr>"

definition sample_report :: report where
  "sample_report = Report sample_facts [sample_usage] [] []"

definition sample_builder :: row_builder where
  "sample_builder = \<lparr>rb_catalog = sample_catalog, rb_agent = ''claude-code'', rb_enforcement = no_enforcement,
     rb_account = [], rb_credential = [], rb_ci = no_context, rb_held = None\<rparr>"

lemma sample_usage_lookup:
  "Lookup sample_catalog (row_query sample_usage Output) =
     Inr \<lparr>cp_SkuPriceID = ''sku'', cp_ListUnitPrice = \<lparr>coefficient = Some 25, scale = 0\<rparr>,
       cp_PricingUnit = ''1M Tokens'', cp_Fallback = False, cp_FallbackBasis = [],
       cp_ResidencyMultiplier = None, cp_ContextTierMin = None, cp_ContextTierMax = Some 200000\<rparr>"
  by code_simp

lemma sample_counts: "Counts sample_tokens = [(Output, 2000000)]" "CheckTokens sample_tokens = Inr ()"
  by (simp_all add: Counts_def CheckTokens_def all_counts_def sample_tokens_def)

lemma sample_provider: "ServiceProviderNameOf sample_catalog ''anthropic'' = Inr ''Anthropic''"
  by code_simp

lemma sample_rows: "\<exists>r. rows sha256 sample_builder sample_report = Inr [r]"
  using sample_usage_lookup sample_provider
  by (simp add: rows_def sessionRows_def sample_report_def request_rows_def sample_counts build_row_def
    price_class_def row_bound_def sample_builder_def of_catalog_def Informational_def sample_usage_def)

section \<open>Properties\<close>

text \<open>
  C3. A run's rows state exactly its usage at the catalog. When the rows build, they are in order one row
  per request and non-zero class, the nested sessions' after the run's own; each carries the identity of
  its request and class, the exact tokens, and the catalog's price times the tokens over a million (zero
  for an informational class). The total is the exact sum of those costs, and never negative.
\<close>

theorem run_rows_state_usage:
  assumes "rows sha256 b rp = Inr rs"
  shows "map row_facts rs = concat (map (expected_facts sha256 b) (row_requests rp)) \<and>
    wf_decimal (listTotal rs) \<and> 0 \<le> dval (listTotal rs) \<and>
    dval (listTotal rs) = (\<Sum>q\<leftarrow>row_requests rp. \<Sum>c\<leftarrow>Counts (rq_Tokens q). class_cost b q c)"
proof -
  note f = rows_facts [OF assms]
  have wf: "\<forall>r\<in>set rs. wf_decimal (ListCost r)" using rows_ListCost_wf [OF assms] by blast
  have costs: "map (\<lambda>r. dval (ListCost r)) rs =
      concat (map (\<lambda>q. map (class_cost b q) (Counts (rq_Tokens q))) (row_requests rp))"
  proof -
    have "map (\<lambda>r. dval (ListCost r)) rs = map (snd \<circ> snd \<circ> snd) (map row_facts rs)"
      by (simp add: row_facts_def)
    then show ?thesis by (simp add: f map_concat expected_facts_def comp_def)
  qed
  have "0 \<le> dval (ListCost r)" if "r \<in> set rs" for r
  proof -
    obtain facts ns q c where c: "c \<in> set (Counts (rq_Tokens q))" "CheckTokens (rq_Tokens q) = Inr ()"
        "build_row sha256 b facts ns q c = Inr r"
      using rows_each [OF assms \<open>r \<in> set rs\<close>] by metis
    then have "0 \<le> snd c" using Counts_nonneg [of "rq_Tokens q" "fst c" "snd c"] by simp
    then show ?thesis using build_row_columns [OF c(3)] class_cost_nonneg by simp
  qed
  then have "0 \<le> dval (listTotal rs)" unfolding listTotal_val [OF wf] by (intro sum_list_nonneg) auto
  then show ?thesis using f listTotal_wf [OF wf] listTotal_val [OF wf]
    by (simp add: costs sum_concat comp_def)
qed

theorem run_rows_state_usage_witness:
  "\<exists>rs. rows (\<lambda>_. ''h'') sample_builder sample_report = Inr rs \<and> dval (listTotal rs) = 50"
proof -
  obtain r where r: "rows (\<lambda>_. ''h'') sample_builder sample_report = Inr [r]" using sample_rows by blast
  have "dval (listTotal [r]) = class_cost sample_builder sample_usage (Output, 2000000)"
    using run_rows_state_usage [OF r]
    by (simp add: row_requests_def sample_report_def sample_usage_def sample_counts)
  also have "\<dots> = 50"
    using sample_usage_lookup by (simp add: class_cost_def Informational_def sample_builder_def dval_def)
  finally show ?thesis using r by blast
qed

text \<open>
  No run is billed a negative count: when any request of the report or of a session nested in it
  holds a class below zero tokens, no row of the run is built at all.
\<close>

theorem negative_usage_refused:
  assumes "q \<in> set (row_requests rp)" "(c, n) \<in> set (all_counts (rq_Tokens q))" "n < 0"
  shows "\<not> is_ok (rows sha256 b rp)"
proof (cases "rows sha256 b rp")
  case (Inr rs)
  then show ?thesis using rows_checked [OF Inr assms(1)] assms(2,3) by (fastforce simp: CheckTokens_ok)
qed simp

theorem negative_usage_refused_witness:
  "\<not> is_ok (rows (\<lambda>_. ''h'') sample_builder
     (Report sample_facts [] [] [Report sample_facts [sample_usage\<lparr>rq_Tokens := sample_tokens\<lparr>tk_CacheRead := - 1\<rparr>\<rparr>] [] []]))"
  by (rule negative_usage_refused [of "sample_usage\<lparr>rq_Tokens := sample_tokens\<lparr>tk_CacheRead := - 1\<rparr>\<rparr>" _ CacheRead "- 1"])
    (simp_all add: row_requests_def all_counts_def)

text \<open>
  Every model name a row can state passes the allowlist: \<open>containModels\<close> leaves no request of the
  report, nested sessions at any depth included, with a name outside \<open>modelPattern\<close>, changes nothing but
  those names, counts exactly the requests it renamed, and finds nothing to rename a second time.
\<close>

theorem contained_models_allowed:
  "list_all (\<lambda>q. modelPattern (rq_Model q)) (deep_requests (fst (containModels rp))) \<and>
   deep_requests (fst (containModels rp)) =
     map (\<lambda>q. if modelPattern (rq_Model q) then q else q\<lparr>rq_Model := unknownModel\<rparr>) (deep_requests rp) \<and>
   snd (containModels rp) = length (filter (\<lambda>q. \<not> modelPattern (rq_Model q)) (deep_requests rp)) \<and>
   snd (containModels (fst (containModels rp))) = 0 \<and> rp_facts (fst (containModels rp)) = rp_facts rp"
proof -
  have ok: "\<forall>q\<in>set (deep_requests (fst (containModels rp))). modelPattern (rq_Model q)"
    using containModels_deep [of rp] contain_model_ok by auto
  have "contain_model = (\<lambda>q. if modelPattern (rq_Model q) then q else q\<lparr>rq_Model := unknownModel\<rparr>)"
    by (rule ext) (simp add: contain_model_def)
  then show ?thesis using ok containModels_deep [of rp] containModels_deep [of "fst (containModels rp)"]
    by (simp add: filter_empty_conv list_all_iff)
qed

text \<open>
  A run that recorded without an error wrote every row and nothing else: the file holds one line per
  row, each row passed the check, the result's counts, total and digest are those rows' own, and a reason
  is given exactly when there is no row, naming the agent's error when it ended in one.
\<close>

theorem recorded_run_states_its_file:
  assumes "record_run sha256 encode result b rp = (res, out, None)" "rs_Reason result = []"
  shows "\<exists>rs. out = concat (map (\<lambda>r. encode r @ [CHR 0x0A]) rs) \<and> (\<forall>r\<in>set rs. Check r = Inr ()) \<and>
    rs_Rows res = length rs \<and> rs_ListTotal res = listTotal rs \<and> rs_RowsSHA256 res = rowsDigest sha256 rs \<and>
    rs_RowsFileSHA256 res = sha256 out \<and> rs_AgentError res = rf_AgentError (rp_facts rp) \<and>
    rs_Reason res = (if rs \<noteq> [] then [] else if rs_AgentError res \<noteq> [] then ReasonAgentError else ReasonNoUsage)"
proof -
  obtain e rp1 rs where *: "graded_rows sha256 b (if 0 < snd (containModels rp) then warn (fst (containModels rp)) (unknownModelLine (snd (containModels rp)))
       else fst (containModels rp)) (rs_Enforcement result) = (rp1, e, Inr rs)"
      "write_rows encode [] rs = (out, None)"
      "res = result\<lparr>rs_Enforcement := e, rs_AgentError := rf_AgentError (rp_facts rp1),
       rs_Reason := (if fst (ending rs rp1) = [] then rs_Reason result else fst (ending rs rp1)),
       rs_Report := Some (snd (ending rs rp1)), rs_Rows := length rs, rs_ListTotal := listTotal rs,
       rs_RowsSHA256 := rowsDigest sha256 rs, rs_RowsFileSHA256 := sha256 out\<rparr>"
    using record_run_ok [OF assms(1)] .
  have f: "rp_facts rp1 = rp_facts rp" using graded_rows_facts [OF *(1)] by (simp split: if_splits)
  have w: "(\<forall>r\<in>set rs. Check r = Inr ()) \<and> out = concat (map (\<lambda>r. encode r @ [CHR 0x0A]) rs)"
    using *(2) by (simp add: write_rows_ok)
  show ?thesis
    by (intro exI [of _ rs]) (use w f *(3) assms(2) in \<open>simp add: ending_def Let_def\<close>)
qed

theorem recorded_run_states_its_file_witness:
  "\<exists>res. record_run (\<lambda>_. ''h'') (\<lambda>_. ''row'') (new_result ''codex'' no_enforcement) sample_builder (Report sample_facts [] [] []) =
     (res, [], None) \<and> rs_Reason res = ReasonNoUsage"
proof -
  obtain res where r: "record_run (\<lambda>_. ''h'') (\<lambda>_. ''row'') (new_result ''codex'' no_enforcement) sample_builder (Report sample_facts [] [] []) = (res, [], None)"
    by (simp add: record_run_def graded_rows_def rows_def sessionRows_def checkOvershoot_def sample_builder_def Let_def split_beta)
  have "rs_Reason (new_result ''codex'' no_enforcement) = []" by (simp add: new_result_def)
  from recorded_run_states_its_file [OF r this] have "rs_Reason res = ReasonNoUsage"
    by (auto simp: sample_facts_def)
  then show ?thesis using r by blast
qed

text \<open>
  C5. The grade \<open>gateway-precheck\<close> is earned: a gateway run that ends without an error and still reads
  it had a key with no problem and a store that held throughout, every one of its rows states an
  overshoot bound, and the rows' total passes the key's budget by no more than any of those bounds.
\<close>

theorem precheck_grade_is_earned:
  assumes "finish_run sha256 encode b planned exit stopped storeFailure (Finished rp) = (res, out, None)"
    and "rb_held b = Some g" "wf_decimal (gr_MaxBudget g)"
    and "en_Grade (rs_Enforcement res) = GradeGatewayPrecheck"
  shows "Holds g \<and> storeFailure = [] \<and>
    (\<exists>rs. out = concat (map (\<lambda>r. encode r @ [CHR 0x0A]) rs) \<and>
      (\<forall>r\<in>set rs. \<exists>bound. OvershootBound r = Some bound \<and>
        dval (rs_ListTotal res) - dval (gr_MaxBudget g) \<le> dval bound))"
proof -
  let ?e = "held_enforcement g storeFailure"
  let ?b = "b\<lparr>rb_enforcement := ?e\<rparr>"
  obtain result where r: "record_run sha256 encode result ?b rp = (res, out, None)" "rs_Enforcement result = ?e"
    using assms(1,2) by (auto simp: finish_run_def final_enforcement_def Let_def)
  obtain e rp1 rs where *: "graded_rows sha256 ?b (if 0 < snd (containModels rp) then warn (fst (containModels rp)) (unknownModelLine (snd (containModels rp)))
       else fst (containModels rp)) (rs_Enforcement result) = (rp1, e, Inr rs)"
      "write_rows encode [] rs = (out, None)"
      "res = result\<lparr>rs_Enforcement := e, rs_AgentError := rf_AgentError (rp_facts rp1),
       rs_Reason := (if fst (ending rs rp1) = [] then rs_Reason result else fst (ending rs rp1)),
       rs_Report := Some (snd (ending rs rp1)), rs_Rows := length rs, rs_ListTotal := listTotal rs,
       rs_RowsSHA256 := rowsDigest sha256 rs, rs_RowsFileSHA256 := sha256 out\<rparr>"
    using record_run_ok [OF r(1)] .
  have e: "en_Grade e = GradeGatewayPrecheck" using *(3) assms(4) by simp
  note g = graded_rows_precheck [OF *(1) e]
  then have grade: "en_Grade ?e = GradeGatewayPrecheck" using e r(2) by simp
  have bounds: "\<exists>bound. OvershootBound x = Some bound \<and> dval (listTotal rs) - dval (gr_MaxBudget g) \<le> dval bound"
    if x: "x \<in> set rs" for x
  proof -
    obtain rp2 where rows: "rows sha256 ?b rp2 = Inr rs" using g by blast
    obtain facts ns q c where "build_row sha256 ?b facts ns q c = Inr x"
      using rows_each [OF rows x] by metis
    then have rb: "row_bound ?b q = Inr (OvershootBound x)" using build_row_columns by blast
    then obtain bound where bound: "OvershootBound x = Some bound"
      using assms(2) grade by (auto simp: row_bound_def rmap_eq_Inr)
    have "wf_decimal bound" using rb bound by (simp add: row_bound_wf)
    moreover have "wf_decimal (listTotal rs)" using rows_ListCost_wf [OF rows] by (intro listTotal_wf) blast
    moreover have "\<not> passes_bound (Sub (listTotal rs) (gr_MaxBudget g)) x"
      using g grade assms(2) x by (intro checkOvershoot_none [of ?b]) simp_all
    ultimately show ?thesis using bound assms(3) by (simp add: passes_bound_def)
  qed
  have "out = concat (map (\<lambda>r. encode r @ [CHR 0x0A]) rs)" using *(2) by (simp add: write_rows_ok)
  moreover have "rs_ListTotal res = listTotal rs" using *(3) by simp
  ultimately show ?thesis using grade bounds held_enforcement_precheck by (metis (no_types))
qed

definition sample_grant :: grant where
  "sample_grant = \<lparr>gr_KeyID = ''id'', gr_MaxBudget = \<lparr>coefficient = Some 2, scale = 0\<rparr>, gr_MaxParallel = 1,
     gr_MaxRequestTokens = 1000, gr_Problems = []\<rparr>"

theorem precheck_grade_is_earned_witness:
  "\<exists>res out. finish_run (\<lambda>_. ''h'') (\<lambda>_. ''row'') (sample_builder\<lparr>rb_held := Some sample_grant\<rparr>) no_enforcement 0 False []
     (Finished (Report sample_facts [] [] [])) = (res, out, None) \<and>
   en_Grade (rs_Enforcement res) = GradeGatewayPrecheck \<and> Holds sample_grant"
proof -
  have g: "held_enforcement sample_grant [] = \<lparr>en_Grade = GradeGatewayPrecheck, en_Note = gatewayNote, en_Watchdog = False\<rparr>"
    by (simp add: held_enforcement_def sample_grant_def)
  obtain res out where r: "finish_run (\<lambda>_. ''h'') (\<lambda>_. ''row'') (sample_builder\<lparr>rb_held := Some sample_grant\<rparr>) no_enforcement 0 False []
     (Finished (Report sample_facts [] [] [])) = (res, out, None)"
      "rs_Enforcement res = held_enforcement sample_grant []"
    by (simp add: finish_run_def final_enforcement_def record_run_def graded_rows_def rows_def sessionRows_def
      checkOvershoot_def sample_builder_def Let_def split_beta)
  have "wf_decimal (gr_MaxBudget sample_grant)" by (simp add: sample_grant_def wf_decimal_def)
  from precheck_grade_is_earned [OF r(1) _ this] r g show ?thesis by auto
qed


lemma sample_bound: "overshootBound sample_catalog sample_grant sample_usage = Inr \<lparr>coefficient = Some 5, scale = 2\<rparr>"
  by code_simp


text \<open>
  A wrapped run never vouches for itself: whatever the agent, the report and the CI environment
  state, every row reads \<open>unattributed\<close> and \<open>unverified\<close>, at the grade its builder holds, on the gateway
  key's id when there is one, and a stated session id or version appears only in its pattern.
\<close>

theorem run_rows_claim_nothing:
  assumes "rows sha256 b rp = Inr rs" "r \<in> set rs"
  shows "Tags r ''costroid/attribution_grade'' = Some ''unattributed'' \<and>
    Tags r ''costroid/run_identity'' = Some ''unverified'' \<and>
    Tags r ''costroid/enforcement_grade'' = Some (en_Grade (rb_enforcement b)) \<and>
    SubAccountID r = optional (case rb_held b of Some g \<Rightarrow> gr_KeyID g | None \<Rightarrow> rb_credential b) \<and>
    (\<forall>v. Tags r ''costroid/session_id'' = Some v \<longrightarrow> sessionTagPattern v) \<and>
    (\<forall>v. Tags r ''costroid/agent_version'' = Some v \<longrightarrow> versionTagPattern v)"
proof -
  obtain facts ns q c where "build_row sha256 b facts ns q c = Inr r"
    using rows_each [OF assms(1,2)] by metis
  then have *: "Tags r = row_tags b facts q (fst c)" "SubAccountID r = optional (credentialID b)"
    using build_row_columns by blast+
  show ?thesis
    by (simp add: * row_tags_def Let_def map_add_def credentialID_def ContextTags_def tag_if_def)
qed

theorem run_rows_claim_nothing_witness:
  "\<exists>r. rows (\<lambda>_. ''h'') sample_builder sample_report = Inr [r] \<and>
     Tags r ''costroid/run_identity'' = Some ''unverified''"
proof -
  obtain r where r: "rows (\<lambda>_. ''h'') sample_builder sample_report = Inr [r]" using sample_rows by blast
  have "Tags r ''costroid/run_identity'' = Some ''unverified''"
    using run_rows_claim_nothing [OF r, of r] by simp
  then show ?thesis using r by blast
qed

text \<open>
  The limits of a key are read as any positive integer of 64 bits, and nothing bounds their product: for a
  key that states a large enough request, the product wraps and the bound its rows state is negative.
\<close>

lemma overshoot_bound_wraps:
  "bound_tokens (sample_grant\<lparr>gr_MaxRequestTokens := 2 ^ 62\<rparr>) = - (2 ^ 63)"
  by (simp add: bound_tokens_def sample_grant_def wrap64_def)

end
