(* ===== verification/PolicyUsage.thy ===== *)
theory PolicyUsage
  imports Focus
begin

text \<open>
  \<open>internal/policy\<close>, part one: the settings of costroid.yml and the usage one evaluation reads. A YAML
  document is modelled as the node tree \<open>yaml.v3\<close> builds of it, which is the parameter \<open>parse_yaml\<close>
  (None is a parse error, Some None an empty document); \<open>decode_int\<close> is its reading of an integer
  scalar. \<open>decode\<close> is \<open>encoding/json\<close>'s reading of one row.
\<close>

section \<open>Settings\<close>

datatype yaml =
    YScalar string string
  | YSequence string "yaml list"
  | YMapping string "(string \<times> yaml) list"
  | YAlias yaml

text \<open>A node's tag; an alias has none of its own.\<close>

fun y_tag :: "yaml \<Rightarrow> string" where
  "y_tag (YScalar tag _) = tag"
| "y_tag (YSequence tag _) = tag"
| "y_tag (YMapping tag _) = tag"
| "y_tag (YAlias _) = []"

record policy_settings =
  ps_Amounts :: "string \<rightharpoonup> decimal"
  ps_Models :: "string list"
  ps_Enforce :: bool

definition no_settings :: policy_settings where
  "no_settings = \<lparr>ps_Amounts = Map.empty, ps_Models = [], ps_Enforce = False\<rparr>"

datatype policy_error =
    BadYaml
  | NotMapping
  | BadAmount string
  | BadModels
  | BadEnforce
  | UnknownKey
  | BadAllowAuthor
  | BadExpiresDays
  | NoCommit
  | ReadFailed string
  | BadRow nat string
  | RowTooLong nat
  | CompareFailed
  | BadAnswer

abbreviation keyRunBudget :: string where "keyRunBudget \<equiv> ''run_budget_usd''"

abbreviation keyMaxRunCost :: string where "keyMaxRunCost \<equiv> ''max_run_cost_usd''"

abbreviation keyMaxIncrease :: string where "keyMaxIncrease \<equiv> ''max_increase_usd''"

abbreviation keyMaxIncreasePercent :: string where "keyMaxIncreasePercent \<equiv> ''max_increase_percent''"

abbreviation keyPullRequestBudget :: string where "keyPullRequestBudget \<equiv> ''pr_budget_usd''"

abbreviation keyMonthlyBudget :: string where "keyMonthlyBudget \<equiv> ''monthly_budget_usd''"

abbreviation keyModels :: string where "keyModels \<equiv> ''models''"

abbreviation keyEnforce :: string where "keyEnforce \<equiv> ''enforce''"

definition amountKeys :: "string list" where
  "amountKeys =
     [keyRunBudget, keyMaxRunCost, keyMaxIncrease, keyMaxIncreasePercent, keyPullRequestBudget, keyMonthlyBudget]"

definition maxModelLength :: nat where
  "maxModelLength = 128"

text \<open>\<open>^(0|[1-9][0-9]*)(\.[0-9]{1,12})?$\<close>.\<close>

definition amountPattern :: "string \<Rightarrow> bool" where
  "amountPattern t \<longleftrightarrow> literal t \<and> length (fst (snd (cut_str t ''.''))) \<le> 12"

definition model_id_char :: "char \<Rightarrow> bool" where
  "model_id_char c \<longleftrightarrow> is_alnum c \<or> c \<in> {CHR ''.'', CHR ''_'', CHR '':'', CHR ''/'', CHR ''+'', CHR ''-''}"

text \<open>\<open>^[A-Za-z0-9][A-Za-z0-9._:/+-]*$\<close>, and the same with one final star.\<close>

definition model_id :: "string \<Rightarrow> bool" where
  "model_id s = (case s of [] \<Rightarrow> False | c # cs \<Rightarrow> is_alnum c \<and> list_all model_id_char cs)"

definition modelEntryPattern :: "string \<Rightarrow> bool" where
  "modelEntryPattern s \<longleftrightarrow> model_id (fst (cut_suffix s ''*''))"

definition section_of :: "yaml option \<Rightarrow> string \<Rightarrow> yaml option" where
  "section_of doc key =
     (case doc of
        Some (YMapping _ kvs) \<Rightarrow>
          (case find (\<lambda>kv. fst kv = key) kvs of
             None \<Rightarrow> None
           | Some (_, YAlias v) \<Rightarrow> Some v
           | Some (_, v) \<Rightarrow> Some v)
      | _ \<Rightarrow> None)"

definition parseAmount :: "(string \<Rightarrow> nat option) \<Rightarrow> string \<Rightarrow> yaml \<Rightarrow> policy_error + decimal" where
  "parseAmount decode_int key value =
     (let quoted = (case value of
          YScalar tag t \<Rightarrow>
            if tag \<noteq> ''!!str'' \<or> \<not> amountPattern t then Inl (BadAmount key)
            else (case Parse t of Inl _ \<Rightarrow> Inl (BadAmount key) | Inr d \<Rightarrow> Inr d)
        | _ \<Rightarrow> Inl (BadAmount key))
      in case value of
           YScalar tag t \<Rightarrow>
             (if tag = ''!!int'' then
                (case decode_int t of
                   Some n \<Rightarrow> (case Parse (nat_string n) of Inl _ \<Rightarrow> Inl (BadAmount key) | Inr d \<Rightarrow> Inr d)
                 | None \<Rightarrow> quoted)
              else quoted)
         | _ \<Rightarrow> quoted)"

definition parse_model :: "string list \<Rightarrow> yaml \<Rightarrow> policy_error + string list" where
  "parse_model models entry =
     (case entry of
        YScalar tag t \<Rightarrow>
          if tag \<noteq> ''!!str'' \<or> maxModelLength < length t \<or> \<not> modelEntryPattern t \<or> t \<in> set models
          then Inl BadModels else Inr (models @ [t])
      | _ \<Rightarrow> Inl BadModels)"

definition parseModels :: "yaml \<Rightarrow> policy_error + string list" where
  "parseModels value =
     (case value of
        YSequence _ entries \<Rightarrow> if entries = [] then Inl BadModels else rfold parse_model [] entries
      | _ \<Rightarrow> Inl BadModels)"

definition parse_setting :: "(string \<Rightarrow> nat option) \<Rightarrow> policy_settings \<Rightarrow> string \<times> yaml \<Rightarrow> policy_error + policy_settings" where
  "parse_setting decode_int s kv =
     (let (key, value) = kv in
      if key \<in> set amountKeys
      then rmap (\<lambda>d. s\<lparr>ps_Amounts := (ps_Amounts s)(key \<mapsto> d)\<rparr>) (parseAmount decode_int key value)
      else if key = keyModels then rmap (\<lambda>ms. s\<lparr>ps_Models := ms\<rparr>) (parseModels value)
      else if key = keyEnforce
      then (case value of
              YScalar tag t \<Rightarrow>
                if tag \<noteq> ''!!bool'' then Inl BadEnforce else Inr (s\<lparr>ps_Enforce := (t = ''true'')\<rparr>)
            | _ \<Rightarrow> Inl BadEnforce)
      else Inl UnknownKey)"

definition ParseSettings :: "(string \<Rightarrow> yaml option option) \<Rightarrow> (string \<Rightarrow> nat option) \<Rightarrow> string \<Rightarrow> policy_error + policy_settings" where
  "ParseSettings parse_yaml decode_int data =
     (case parse_yaml data of
        None \<Rightarrow> Inl BadYaml
      | Some doc \<Rightarrow>
          (case section_of doc ''policy'' of
             None \<Rightarrow> Inr no_settings
           | Some mapping \<Rightarrow>
               if y_tag mapping = ''!!null'' then Inr no_settings
               else (case mapping of
                       YMapping _ kvs \<Rightarrow> rfold (parse_setting decode_int) no_settings kvs
                     | _ \<Rightarrow> Inl NotMapping)))"

record approval_settings =
  as_AllowAuthor :: bool
  as_ExpiresDays :: int

definition DefaultApprovalDays :: int where
  "DefaultApprovalDays = 7"

definition maxApprovalDays :: int where
  "maxApprovalDays = 90"

definition parse_approval_key :: "(string \<Rightarrow> int option) \<Rightarrow> approval_settings \<Rightarrow> string \<times> yaml \<Rightarrow> policy_error + approval_settings" where
  "parse_approval_key decode_days s kv =
     (let (key, value) = kv in
      if key = ''allow_author''
      then (case value of
              YScalar tag t \<Rightarrow>
                if tag \<noteq> ''!!bool'' then Inl BadAllowAuthor else Inr (s\<lparr>as_AllowAuthor := (t = ''true'')\<rparr>)
            | _ \<Rightarrow> Inl BadAllowAuthor)
      else if key = ''expires_days''
      then (case value of
              YScalar tag t \<Rightarrow>
                (if tag \<noteq> ''!!int'' then Inl BadExpiresDays
                 else (case decode_days t of
                         None \<Rightarrow> Inl BadExpiresDays
                       | Some days \<Rightarrow>
                           if days < 1 \<or> maxApprovalDays < days then Inl BadExpiresDays
                           else Inr (s\<lparr>as_ExpiresDays := days\<rparr>)))
            | _ \<Rightarrow> Inl BadExpiresDays)
      else Inl UnknownKey)"

definition ParseApproval :: "(string \<Rightarrow> yaml option option) \<Rightarrow> (string \<Rightarrow> int option) \<Rightarrow> string \<Rightarrow> policy_error + approval_settings" where
  "ParseApproval parse_yaml decode_days data =
     (case parse_yaml data of
        None \<Rightarrow> Inl BadYaml
      | Some doc \<Rightarrow>
          (let settings = \<lparr>as_AllowAuthor = False, as_ExpiresDays = DefaultApprovalDays\<rparr>
           in case section_of doc ''approval'' of
                None \<Rightarrow> Inr settings
              | Some mapping \<Rightarrow>
                  if y_tag mapping = ''!!null'' then Inr settings
                  else (case mapping of
                          YMapping _ kvs \<Rightarrow> rfold (parse_approval_key decode_days) settings kvs
                        | _ \<Rightarrow> Inl NotMapping)))"

definition allows :: "policy_settings \<Rightarrow> string \<Rightarrow> bool" where
  "allows s model =
     list_ex (\<lambda>entry. let (p, wildcard) = cut_suffix entry ''*'' in model = entry \<or> (wildcard \<and> prefix p model))
       (ps_Models s)"

section \<open>The settings file\<close>

record config_file =
  cf_Data :: string
  cf_Found :: bool
  cf_Ref :: string
  cf_FromBase :: bool
  cf_Unread :: "policy_error option"

definition config_settings :: "(string \<Rightarrow> yaml option option) \<Rightarrow> (string \<Rightarrow> nat option) \<Rightarrow> config_file \<Rightarrow> policy_error + policy_settings" where
  "config_settings parse_yaml decode_int c =
     (case cf_Unread c of Some e \<Rightarrow> Inl e | None \<Rightarrow> ParseSettings parse_yaml decode_int (cf_Data c))"

definition config_state :: "config_file \<Rightarrow> policy_error option \<Rightarrow> string" where
  "config_state c problem =
     (if cf_Unread c \<noteq> None then ''unread'' else if problem \<noteq> None then ''invalid''
      else if cf_Found c then ''found'' else ''absent'')"

record commits =
  co_Base :: string
  co_Head :: string
  co_PullRequest :: bool

definition policyCommitPattern :: "string \<Rightarrow> bool" where
  "policyCommitPattern s \<longleftrightarrow> of_class is_hex 40 40 s \<or> of_class is_hex 64 64 s"

text \<open>The host's answer: the file, that there is none, or that the read failed.\<close>

datatype file_answer = FileData string | FileNotFound | FileFailed string

definition ReadConfig :: "(string \<Rightarrow> file_answer) \<Rightarrow> commits \<Rightarrow> config_file" where
  "ReadConfig files c =
     (let ref = (if co_PullRequest c then co_Base c else co_Head c)
      in if \<not> policyCommitPattern ref
         then \<lparr>cf_Data = [], cf_Found = False, cf_Ref = [], cf_FromBase = co_PullRequest c, cf_Unread = Some NoCommit\<rparr>
         else (case files ref of
                 FileNotFound \<Rightarrow>
                   \<lparr>cf_Data = [], cf_Found = False, cf_Ref = ref, cf_FromBase = co_PullRequest c, cf_Unread = None\<rparr>
               | FileFailed e \<Rightarrow>
                   \<lparr>cf_Data = [], cf_Found = False, cf_Ref = ref, cf_FromBase = co_PullRequest c,
                    cf_Unread = Some (ReadFailed e)\<rparr>
               | FileData data \<Rightarrow>
                   \<lparr>cf_Data = data, cf_Found = True, cf_Ref = ref, cf_FromBase = co_PullRequest c, cf_Unread = None\<rparr>))"

section \<open>Usage\<close>

record currency_usage =
  cu_Currency :: string
  cu_ListCost :: decimal
  cu_Rows :: int
  cu_UnattributedRows :: int
  cu_JoinableRows :: int
  cu_Models :: "(string \<times> int) list"
  cu_UnreadableModels :: int

definition new_currency :: "string \<Rightarrow> currency_usage" where
  "new_currency c =
     \<lparr>cu_Currency = c, cu_ListCost = zero_decimal, cu_Rows = 0, cu_UnattributedRows = 0, cu_JoinableRows = 0,
      cu_Models = [], cu_UnreadableModels = 0\<rparr>"

record usage =
  us_Rows :: int
  us_Currencies :: "currency_usage list"

definition usage_usd :: "usage \<Rightarrow> decimal \<times> bool" where
  "usage_usd u =
     (case find (\<lambda>e. cu_Currency e = ''USD'') (us_Currencies u) of
        Some e \<Rightarrow> (cu_ListCost e, True) | None \<Rightarrow> (zero_decimal, False))"

definition usage_joinable :: "usage \<Rightarrow> int" where
  "usage_joinable u = sum_list (map cu_JoinableRows (us_Currencies u))"

definition maxNamedModels :: nat where
  "maxNamedModels = 10"

text \<open>The models the allowlist refuses, with their rows, over every currency.\<close>

definition refused_models :: "usage \<Rightarrow> policy_settings \<Rightarrow> (string \<times> int) list" where
  "refused_models u s =
     filter (\<lambda>mr. \<not> allows s (fst mr)) (concat (map cu_Models (us_Currencies u)))"

definition modelRows :: "usage \<Rightarrow> policy_settings \<Rightarrow> int \<times> int \<times> string list" where
  "modelRows u s =
     (sum_list (map snd (refused_models u s)),
      sum_list (map cu_UnreadableModels (us_Currencies u)),
      take maxNamedModels (sort (remdups (map fst (refused_models u s)))))"

record usage_row =
  ur_BillingCurrency :: string
  ur_ListCost :: string
  ur_SubAccountID :: "string option"
  ur_Tags :: "string \<rightharpoonup> json"

definition row_tag :: "usage_row \<Rightarrow> string \<Rightarrow> string" where
  "row_tag r key = (case ur_Tags r key of Some (JString s) \<Rightarrow> s | _ \<Rightarrow> [])"

definition row_joinable :: "usage_row \<Rightarrow> bool" where
  "row_joinable r =
     (let credential = (case ur_SubAccountID r of Some c \<Rightarrow> c | None \<Rightarrow> [])
      in credential \<noteq> [] \<and> credential \<noteq> row_tag r ''costroid/session_id'' \<and>
         row_tag r ''costroid/pr'' \<noteq> [] \<and> row_tag r ''costroid/commit_sha'' \<noteq> [])"

definition currencyPattern :: "string \<Rightarrow> bool" where
  "currencyPattern = of_class is_upper 3 3"

definition maxAmountLength :: nat where
  "maxAmountLength = 64"

definition readable_model :: "string \<Rightarrow> bool" where
  "readable_model m \<longleftrightarrow> length m \<le> maxModelLength \<and> model_id m"

definition count_model :: "string \<Rightarrow> int \<Rightarrow> currency_usage \<Rightarrow> currency_usage" where
  "count_model m n e =
     (if readable_model m then e\<lparr>cu_Models := upsert m 0 (\<lambda>k. k + n) (cu_Models e)\<rparr>
      else e\<lparr>cu_UnreadableModels := cu_UnreadableModels e + n\<rparr>)"

definition row_cost :: "usage_row \<Rightarrow> string + decimal" where
  "row_cost r =
     (if \<not> currencyPattern (ur_BillingCurrency r) then Inl ''BillingCurrency is not an ISO code''
      else if maxAmountLength < length (ur_ListCost r) then Inl ''ListCost is past 64 characters''
      else (case Parse (ur_ListCost r) of
              Inl _ \<Rightarrow> Inl ''ListCost''
            | Inr cost \<Rightarrow>
                if Scale cost > MaxScale then Inl ''ListCost has more than 12 fractional digits'' else Inr cost))"

definition add_usage :: "usage_row \<Rightarrow> decimal \<Rightarrow> currency_usage \<Rightarrow> currency_usage" where
  "add_usage r cost e =
     (count_model (row_tag r ''costroid/model'') 1 e)
       \<lparr>cu_ListCost := Add (cu_ListCost e) cost, cu_Rows := cu_Rows e + 1,
        cu_UnattributedRows := cu_UnattributedRows e + 1,
        cu_JoinableRows := cu_JoinableRows e + (if row_joinable r then 1 else 0)\<rparr>"

type_synonym usage_totals = "(string \<times> currency_usage) list"

definition add :: "(string \<Rightarrow> usage_row option) \<Rightarrow> usage_totals \<Rightarrow> string \<Rightarrow> string + usage_totals" where
  "add decode totals line =
     (case decode line of
        None \<Rightarrow> Inl ''not a row''
      | Some r \<Rightarrow>
          rmap (\<lambda>cost. upsert (ur_BillingCurrency r) (new_currency (ur_BillingCurrency r)) (add_usage r cost) totals)
            (row_cost r))"

definition maxRowBytes :: nat where
  "maxRowBytes = 1048576"

fun read_lines :: "(string \<Rightarrow> usage_row option) \<Rightarrow> nat \<Rightarrow> usage_totals \<Rightarrow> int \<Rightarrow> string list \<Rightarrow> policy_error + (usage_totals \<times> int)" where
  "read_lines decode n totals rows [] = Inr (totals, rows)"
| "read_lines decode n totals rows (raw # ls) =
     (if maxRowBytes \<le> length raw then Inl (RowTooLong n)
      else if drop_cr raw = [] then read_lines decode (n + 1) totals rows ls
      else (case add decode totals (drop_cr raw) of
              Inl e \<Rightarrow> Inl (BadRow n e)
            | Inr totals' \<Rightarrow> read_lines decode (n + 1) totals' (rows + 1) ls))"

definition usage_of :: "usage_totals \<Rightarrow> int \<Rightarrow> usage" where
  "usage_of totals rows = \<lparr>us_Rows = rows, us_Currencies = sort_key cu_Currency (map snd totals)\<rparr>"

definition ReadUsage :: "(string \<Rightarrow> usage_row option) \<Rightarrow> string \<Rightarrow> policy_error + usage" where
  "ReadUsage decode source =
     rmap (\<lambda>(totals, rows). usage_of totals rows) (read_lines decode 1 [] 0 (raw_lines source))"

section \<open>Lemmas\<close>

text \<open>The exact cost of a row the reader accepts.\<close>

definition cost_of :: "usage_row \<Rightarrow> decimal" where
  "cost_of r = (case row_cost r of Inl _ \<Rightarrow> zero_decimal | Inr d \<Rightarrow> d)"

definition sum_row :: "currency_usage \<Rightarrow> usage_row \<Rightarrow> currency_usage" where
  "sum_row e r = add_usage r (cost_of r) e"

lemma row_cost_wf [keeps_wf]: "row_cost r = Inr d \<Longrightarrow> wf_decimal d"
  by (auto simp: row_cost_def split: if_splits sum.splits dest!: Parse_canonical intro: canonical_wf)

lemma cost_of_wf [simp]: "wf_decimal (cost_of r)"
  by (auto simp: cost_of_def split: sum.split intro: row_cost_wf)

lemma read_lines_ok:
  "read_lines decode n totals rows ls = Inr (totals', rows') \<longleftrightarrow>
     list_all (\<lambda>l. length l < maxRowBytes) ls \<and>
     rfold (add decode) totals (filter (\<lambda>l. l \<noteq> []) (map drop_cr ls)) = Inr totals' \<and>
     rows' = rows + int (length (filter (\<lambda>l. l \<noteq> []) (map drop_cr ls)))"
  by (induction decode n totals rows ls rule: read_lines.induct) (auto split: sum.splits)

lemma add_ok:
  "add decode totals l = Inr totals' \<longleftrightarrow>
     (\<exists>r. decode l = Some r \<and> is_ok (row_cost r) \<and>
       totals' = upsert (ur_BillingCurrency r) (new_currency (ur_BillingCurrency r)) (\<lambda>e. sum_row e r) totals)"
  by (auto simp: add_def sum_row_def cost_of_def is_ok_def result_eqs split: option.splits sum.splits)

lemma add_all:
  "rfold (add decode) totals ls = Inr totals' \<longleftrightarrow>
     (\<exists>rs. map decode ls = map Some rs \<and> list_all (\<lambda>r. is_ok (row_cost r)) rs \<and>
       totals' = foldl (\<lambda>m r. upsert (ur_BillingCurrency r) (new_currency (ur_BillingCurrency r)) (\<lambda>e. sum_row e r) m)
         totals rs)"
proof (induction ls arbitrary: totals)
  case Nil
  show ?case by auto
next
  case (Cons l ls)
  show ?case
    by (auto simp: result_eqs Cons.IH add_ok Cons_eq_map_conv map_eq_Cons_conv)
qed

lemma readable_tag_counted:
  "cu_Models (sum_row e r) =
     (let m = row_tag r ''costroid/model''
      in if readable_model m then upsert m 0 (\<lambda>k. k + 1) (cu_Models e) else cu_Models e)"
  "cu_UnreadableModels (sum_row e r) =
     cu_UnreadableModels e + (if readable_model (row_tag r ''costroid/model'') then 0 else 1)"
  by (simp_all add: sum_row_def add_usage_def count_model_def Let_def)

lemma sum_rows:
  fixes rs :: "usage_row list"
  assumes "wf_decimal (cu_ListCost e)"
  defines "e' \<equiv> foldl sum_row e rs"
  shows "cu_Currency e' = cu_Currency e" "wf_decimal (cu_ListCost e')"
    and "dval (cu_ListCost e') = dval (cu_ListCost e) + sum_list (map (\<lambda>r. dval (cost_of r)) rs)"
    and "cu_Rows e' = cu_Rows e + int (length rs)"
    and "cu_UnattributedRows e' = cu_UnattributedRows e + int (length rs)"
    and "cu_JoinableRows e' = cu_JoinableRows e + int (length (filter row_joinable rs))"
    and "cu_UnreadableModels e' =
      cu_UnreadableModels e + int (length (filter (\<lambda>r. \<not> readable_model (row_tag r ''costroid/model'')) rs))"
    and "(case map_of (cu_Models e') m of None \<Rightarrow> 0 | Some k \<Rightarrow> k) =
      (case map_of (cu_Models e) m of None \<Rightarrow> 0 | Some k \<Rightarrow> k) +
      int (length (filter (\<lambda>r. readable_model (row_tag r ''costroid/model'') \<and> row_tag r ''costroid/model'' = m) rs))"
  using assms(1) unfolding e'_def
proof (induction rs arbitrary: e)
  case Nil
  {
    case 1
    then show ?case by simp
  next
    case 2
    then show ?case by simp
  next
    case 3
    then show ?case by simp
  next
    case 4
    then show ?case by simp
  next
    case 5
    then show ?case by simp
  next
    case 6
    then show ?case by simp
  next
    case 7
    then show ?case by simp
  next
    case 8
    then show ?case by simp
  }
next
  case (Cons r rs)
  have step: "cu_Currency (sum_row e r) = cu_Currency e" "cu_Rows (sum_row e r) = cu_Rows e + 1"
    "cu_UnattributedRows (sum_row e r) = cu_UnattributedRows e + 1"
    "cu_JoinableRows (sum_row e r) = cu_JoinableRows e + (if row_joinable r then 1 else 0)"
    "cu_ListCost (sum_row e r) = Add (cu_ListCost e) (cost_of r)" for e
    by (simp_all add: sum_row_def add_usage_def count_model_def)
  have wf: "wf_decimal (cu_ListCost e) \<Longrightarrow> wf_decimal (cu_ListCost (sum_row e r))" for e
    by (simp add: step)
  {
    case 1
    then show ?case using Cons.IH(1) [OF wf [OF 1]] 1 by (simp add: step)
  next
    case 2
    then show ?case using Cons.IH(2) [OF wf [OF 2]] 2 by simp
  next
    case 3
    then show ?case using Cons.IH(3) [OF wf [OF 3]] 3 by (simp add: step)
  next
    case 4
    then show ?case using Cons.IH(4) [OF wf [OF 4]] 4 by (simp add: step)
  next
    case 5
    then show ?case using Cons.IH(5) [OF wf [OF 5]] 5 by (simp add: step)
  next
    case 6
    then show ?case using Cons.IH(6) [OF wf [OF 6]] 6 by (simp add: step)
  next
    case 7
    then show ?case using Cons.IH(7) [OF wf [OF 7]] 7 by (simp add: readable_tag_counted)
  next
    case 8
    then show ?case using Cons.IH(8) [OF wf [OF 8]] 8
      by (auto simp: readable_tag_counted map_of_upsert Let_def split: option.splits)
  }
qed


lemma cost_of_nonneg: "0 \<le> dval (cost_of r)"
  by (auto simp: cost_of_def row_cost_def dest!: Parse_canonical split: sum.splits if_splits)

lemma read_usage_ok:
  "ReadUsage decode source = Inr u \<longleftrightarrow>
     list_all (\<lambda>l. length l < maxRowBytes) (raw_lines source) \<and>
     (\<exists>rs. map decode (row_lines source) = map Some rs \<and> list_all (\<lambda>r. is_ok (row_cost r)) rs \<and>
        u = usage_of (foldl (\<lambda>m r. upsert (ur_BillingCurrency r) (new_currency (ur_BillingCurrency r))
                        (\<lambda>e. sum_row e r) m) [] rs) (int (length rs)))"
proof -
  have len: "length rs = length (row_lines source)" if "map decode (row_lines source) = map Some rs" for rs
    using map_eq_imp_length_eq [OF that] by simp
  show ?thesis
    by (auto simp: ReadUsage_def result_eqs read_lines_ok add_all len simp flip: row_lines_def)
qed

text \<open>
  The usage of a table that groups items by currency: one entry per currency the items name, in
  order and once each, which is the fold of the items in that currency.
\<close>

lemma grouped_usage:
  fixes xs :: "'x list" and key :: "'x \<Rightarrow> string" and upd :: "'x \<Rightarrow> currency_usage \<Rightarrow> currency_usage"
  assumes cur: "\<And>x e. cu_Currency (upd x e) = cu_Currency e"
  defines "t \<equiv> foldl (\<lambda>m x. upsert (key x) (new_currency (key x)) (upd x) m) [] xs"
  shows "set (us_Currencies (usage_of t n)) =
      (\<lambda>c. foldl (\<lambda>e x. upd x e) (new_currency c) (filter (\<lambda>x. key x = c) xs)) ` key ` set xs"
    and "sorted (map cu_Currency (us_Currencies (usage_of t n)))"
    and "distinct (map cu_Currency (us_Currencies (usage_of t n)))"
proof -
  let ?of = "\<lambda>c. foldl (\<lambda>e x. upd x e) (new_currency c) (filter (\<lambda>x. key x = c) xs)"
  have dist: "distinct (map fst t)"
    unfolding t_def
    using distinct_keyed_fold [where key = key and fresh = new_currency and upd = upd and m = "[]"] by simp
  have keys: "fst ` set t = key ` set xs"
    unfolding t_def
    using keys_keyed_fold [where key = key and fresh = new_currency and upd = upd and m = "[]"] by simp
  have entry: "e = ?of c" if "(c, e) \<in> set t" for c e
  proof -
    have "c \<in> key ` set xs" using that keys by force
    then have "filter (\<lambda>x. key x = c) xs \<noteq> []" by (auto simp: filter_empty_conv)
    moreover have "map_of t c = Some e" using that dist by simp
    ultimately show ?thesis unfolding t_def
      by (simp add: map_of_keyed_fold [where key = key and fresh = new_currency and upd = upd])
  qed
  have fold_cur: "cu_Currency (foldl (\<lambda>e x. upd x e) e ys) = cu_Currency e" for e ys
    by (induction ys arbitrary: e) (simp_all add: cur)
  have of_cur: "cu_Currency (?of c) = c" for c
    by (simp add: fold_cur new_currency_def)
  have snds: "snd ` set t = ?of ` key ` set xs"
    using entry by (force simp flip: keys simp: image_iff)
  then show "set (us_Currencies (usage_of t n)) = ?of ` key ` set xs"
    by (simp add: usage_of_def)
  show "sorted (map cu_Currency (us_Currencies (usage_of t n)))"
    by (simp add: usage_of_def)
  have "map cu_Currency (map snd t) = map fst t"
    using entry of_cur unfolding map_map by (intro map_cong refl) (metis comp_apply prod.collapse)
  then have "distinct (map cu_Currency (map snd t))" using dist by metis
  moreover have "mset (map cu_Currency (us_Currencies (usage_of t n))) = mset (map cu_Currency (map snd t))"
    by (simp add: usage_of_def image_mset.compositionality)
  ultimately show "distinct (map cu_Currency (us_Currencies (usage_of t n)))"
    using mset_eq_imp_distinct_iff by blast
qed

lemma sum_row_currency: "cu_Currency (sum_row e r) = cu_Currency e"
  by (simp add: sum_row_def add_usage_def count_model_def)

lemmas usage_of_entries =
  grouped_usage [where key = ur_BillingCurrency and upd = "\<lambda>r e. sum_row e r", OF sum_row_currency]

section \<open>Properties\<close>

text \<open>
  The usage of a rows file states every row and nothing else: one entry per currency the rows
  name, in order and once each, whose cost is the exact sum of the costs of the rows in that
  currency, whose counts are those of its rows and of its joinable rows, and whose model table
  counts each readable model. Every row is unattributed, whatever its tags claim.
\<close>

theorem read_usage_states_every_row:
  assumes "ReadUsage decode source = Inr u"
  shows "\<exists>rs. map decode (row_lines source) = map Some rs \<and> us_Rows u = int (length rs) \<and>
    sorted (map cu_Currency (us_Currencies u)) \<and> distinct (map cu_Currency (us_Currencies u)) \<and>
    cu_Currency ` set (us_Currencies u) = ur_BillingCurrency ` set rs \<and>
    (\<forall>e\<in>set (us_Currencies u).
       let mine = filter (\<lambda>r. ur_BillingCurrency r = cu_Currency e) rs;
           model = (\<lambda>r. row_tag r ''costroid/model'')
       in dval (cu_ListCost e) = sum_list (map (\<lambda>r. dval (cost_of r)) mine) \<and>
          cu_Rows e = int (length mine) \<and> cu_UnattributedRows e = cu_Rows e \<and>
          cu_JoinableRows e = int (length (filter row_joinable mine)) \<and>
          cu_UnreadableModels e = int (length (filter (\<lambda>r. \<not> readable_model (model r)) mine)) \<and>
          (\<forall>m. (case map_of (cu_Models e) m of None \<Rightarrow> 0 | Some k \<Rightarrow> k) =
             int (length (filter (\<lambda>r. readable_model (model r) \<and> model r = m) mine))))"
proof -
  obtain rs where rs: "map decode (row_lines source) = map Some rs"
    and u: "u = usage_of (foldl (\<lambda>m r. upsert (ur_BillingCurrency r) (new_currency (ur_BillingCurrency r))
        (\<lambda>e. sum_row e r) m) [] rs) (int (length rs))"
    using assms by (auto simp: read_usage_ok)
  let ?mine = "\<lambda>c. filter (\<lambda>r. ur_BillingCurrency r = c) rs"
  have new: "cu_Currency (new_currency c) = c" "cu_ListCost (new_currency c) = zero_decimal"
    "cu_Rows (new_currency c) = 0" "cu_UnattributedRows (new_currency c) = 0" "cu_JoinableRows (new_currency c) = 0"
    "cu_Models (new_currency c) = []" "cu_UnreadableModels (new_currency c) = 0" for c
    by (simp_all add: new_currency_def)
  note of_rows = sum_rows [of "new_currency c" "?mine c" for c, unfolded new, OF zero_decimal_wf]
  have entries: "set (us_Currencies u) =
      (\<lambda>c. foldl sum_row (new_currency c) (?mine c)) ` ur_BillingCurrency ` set rs"
    "sorted (map cu_Currency (us_Currencies u))" "distinct (map cu_Currency (us_Currencies u))"
    unfolding u by (rule usage_of_entries)+
  have "us_Rows u = int (length rs)" by (simp add: u usage_of_def)
  moreover have "cu_Currency ` set (us_Currencies u) = ur_BillingCurrency ` set rs"
    unfolding entries(1) image_image of_rows(1) by simp
  moreover have "let mine = ?mine (cu_Currency e); model = (\<lambda>r. row_tag r ''costroid/model'')
       in dval (cu_ListCost e) = sum_list (map (\<lambda>r. dval (cost_of r)) mine) \<and>
          cu_Rows e = int (length mine) \<and> cu_UnattributedRows e = cu_Rows e \<and>
          cu_JoinableRows e = int (length (filter row_joinable mine)) \<and>
          cu_UnreadableModels e = int (length (filter (\<lambda>r. \<not> readable_model (model r)) mine)) \<and>
          (\<forall>m. (case map_of (cu_Models e) m of None \<Rightarrow> 0 | Some k \<Rightarrow> k) =
             int (length (filter (\<lambda>r. readable_model (model r) \<and> model r = m) mine)))"
    if e: "e \<in> set (us_Currencies u)" for e
  proof -
    obtain c where c: "e = foldl sum_row (new_currency c) (?mine c)"
      using e unfolding entries(1) by blast
    then have "cu_Currency e = c" using of_rows(1) by simp
    then show ?thesis
      unfolding Let_def c by (simp add: of_rows)
  qed
  ultimately show ?thesis using rs entries(2,3) by blast
qed

definition sample_usage_row :: "string \<Rightarrow> string \<Rightarrow> usage_row" where
  "sample_usage_row currency amount =
     \<lparr>ur_BillingCurrency = currency, ur_ListCost = amount, ur_SubAccountID = None,
      ur_Tags = [''costroid/model'' \<mapsto> JString ''m-1'']\<rparr>"

definition sample_decode :: "string \<Rightarrow> usage_row option" where
  "sample_decode line =
     (if line = ''a'' then Some (sample_usage_row ''USD'' ''0.25'')
      else if line = ''b'' then Some (sample_usage_row ''USD'' ''0.5'') else None)"

definition sample_rows_file :: string where
  "sample_rows_file = ''a'' @ [CHR 0x0A] @ ''b'' @ [CHR 0x0A]"

lemma sample_rows_read: "is_ok (ReadUsage sample_decode sample_rows_file)"
proof -
  have raw: "raw_lines sample_rows_file = [''a'', ''b'']" by code_simp
  have ok: "row_lines sample_rows_file = [''a'', ''b'']" by code_simp
  have cost: "is_ok (row_cost (sample_usage_row ''USD'' ''0.25''))" "is_ok (row_cost (sample_usage_row ''USD'' ''0.5''))"
    by code_simp+
  have "\<exists>u. ReadUsage sample_decode sample_rows_file = Inr u"
    unfolding read_usage_ok raw ok
    by (intro exI conjI refl exI [of _ "[sample_usage_row ''USD'' ''0.25'', sample_usage_row ''USD'' ''0.5'']"])
      (simp_all add: maxRowBytes_def sample_decode_def cost)
  then show ?thesis by (auto simp: is_ok_def)
qed

theorem read_usage_states_every_row_witness:
  "\<exists>u. ReadUsage sample_decode sample_rows_file = Inr u \<and> us_Rows u = 2 \<and> cu_Currency ` set (us_Currencies u) = {''USD''}"
proof -
  obtain u where u: "ReadUsage sample_decode sample_rows_file = Inr u"
    using sample_rows_read by (auto simp: is_ok_def split: sum.splits)
  obtain rs where rs: "map sample_decode (row_lines sample_rows_file) = map Some rs"
      "us_Rows u = int (length rs)" "cu_Currency ` set (us_Currencies u) = ur_BillingCurrency ` set rs"
    using read_usage_states_every_row [OF u] by blast
  have "row_lines sample_rows_file = [''a'', ''b'']" by code_simp
  then have "rs = [sample_usage_row ''USD'' ''0.25'', sample_usage_row ''USD'' ''0.5'']"
    using rs(1) by (auto simp: sample_decode_def Cons_eq_map_conv)
  then show ?thesis using u rs by (auto simp: sample_usage_row_def)
qed

lemma all_rows_read:
  "(\<exists>rs. map decode ls = map Some rs \<and> list_all P rs) \<longleftrightarrow>
     list_all (\<lambda>l. case decode l of None \<Rightarrow> False | Some r \<Rightarrow> P r) ls"
proof (induction ls)
  case Nil
  show ?case by simp
next
  case (Cons l ls)
  have "(\<exists>rs. map decode (l # ls) = map Some rs \<and> list_all P rs) \<longleftrightarrow>
      (\<exists>r rs. decode l = Some r \<and> P r \<and> map decode ls = map Some rs \<and> list_all P rs)"
    by (auto simp: Cons_eq_map_conv)
  then show ?case using Cons by (auto split: option.splits)
qed

text \<open>
  C13. One bad line refuses the whole file: a rows file has a usage exactly when no line fills the
  scanner's buffer and every line that is not empty is a row whose currency and cost can be read. A
  partial total, which would read as a smaller cost, is never returned.
\<close>

theorem one_bad_line_refuses_the_file:
  "is_ok (ReadUsage decode source) \<longleftrightarrow>
     list_all (\<lambda>l. length l < maxRowBytes) (raw_lines source) \<and>
     list_all (\<lambda>l. case decode l of None \<Rightarrow> False | Some r \<Rightarrow> is_ok (row_cost r)) (row_lines source)"
proof -
  have "is_ok (ReadUsage decode source) \<longleftrightarrow> (\<exists>u. ReadUsage decode source = Inr u)"
    by (auto simp: is_ok_def split: sum.splits)
  then show ?thesis by (auto simp: read_usage_ok simp flip: all_rows_read)
qed

text \<open>A pull request's settings are those of its base: nothing at its head, and no change to the head, moves them.\<close>

lemma config_read_at_base:
  assumes "co_PullRequest c" "files (co_Base c) = files' (co_Base c)"
  shows "ReadConfig files c = ReadConfig files' (c\<lparr>co_Head := h\<rparr>)"
  using assms by (simp add: ReadConfig_def Let_def split: file_answer.split)

text \<open>What the pack needs of a settings file and of a usage: amounts it can compare.\<close>

definition plain_amount :: "decimal \<Rightarrow> bool" where
  "plain_amount d \<longleftrightarrow> wf_decimal d \<and> 0 \<le> dval d"

lemma Parse_plain: "Parse t = Inr d \<Longrightarrow> plain_amount d"
  by (auto simp: plain_amount_def dest!: Parse_canonical intro: canonical_wf)

lemma parseAmount_plain: "parseAmount decode_int key v = Inr d \<Longrightarrow> plain_amount d"
  by (auto simp: parseAmount_def Let_def split: yaml.splits if_splits sum.splits option.splits dest: Parse_plain)

lemma parse_settings_plain:
  assumes "ParseSettings parse_yaml decode_int data = Inr s" "ps_Amounts s k = Some d"
  shows "plain_amount d"
proof -
  let ?I = "\<lambda>s. \<forall>k d. ps_Amounts s k = Some d \<longrightarrow> plain_amount d"
  have step: "?I t" if "?I s" "parse_setting decode_int s kv = Inr t" for s t kv
    using that
    by (cases kv)
      (auto simp: parse_setting_def result_eqs Let_def split: if_splits yaml.splits dest!: parseAmount_plain)
  have none: "?I no_settings" by (simp add: no_settings_def)
  have "?I s"
  proof (cases "\<exists>kvs. rfold (parse_setting decode_int) no_settings kvs = Inr s")
    case True
    then obtain kvs where "rfold (parse_setting decode_int) no_settings kvs = Inr s" by blast
    then show ?thesis using none by (rule rfold_invariant) (rule step)
  next
    case False
    then have "s = no_settings"
      using assms(1) by (auto simp: ParseSettings_def split: option.splits if_splits yaml.splits)
    then show ?thesis using none by simp
  qed
  then show ?thesis using assms(2) by blast
qed

definition plain_usage :: "usage \<Rightarrow> bool" where
  "plain_usage u \<longleftrightarrow>
     distinct (map cu_Currency (us_Currencies u)) \<and> (\<forall>e\<in>set (us_Currencies u). plain_amount (cu_ListCost e))"

lemma read_usage_plain: "ReadUsage decode source = Inr u \<Longrightarrow> plain_usage u"
proof -
  assume "ReadUsage decode source = Inr u"
  then obtain rs where u: "u = usage_of (foldl (\<lambda>m r. upsert (ur_BillingCurrency r)
      (new_currency (ur_BillingCurrency r)) (\<lambda>e. sum_row e r) m) [] rs) (int (length rs))"
    by (auto simp: read_usage_ok)
  have nonneg: "0 \<le> (\<Sum>r\<leftarrow>rows. dval (cost_of r))" for rows
    by (rule sum_list_nonneg) (auto simp: cost_of_nonneg)
  have "plain_amount (cu_ListCost (foldl sum_row (new_currency c) rows))" for c rows
    using sum_rows(2,3) [of "new_currency c" rows] nonneg [of rows]
    by (simp add: plain_amount_def new_currency_def)
  then show ?thesis
    unfolding plain_usage_def u usage_of_entries(1) using usage_of_entries(3) by blast
qed

lemma usage_usd_plain: "plain_usage u \<Longrightarrow> plain_amount (fst (usage_usd u))"
  by (auto simp: usage_usd_def plain_usage_def plain_amount_def find_Some_iff split: option.split)

text \<open>The one USD entry decides whether a usage is over a limit.\<close>

lemma usd_entry:
  assumes "plain_usage u" "e \<in> set (us_Currencies u)" "cu_Currency e = ''USD''"
  shows "usage_usd u = (cu_ListCost e, True)"
proof -
  have "find (\<lambda>e. cu_Currency e = ''USD'') (us_Currencies u) \<noteq> None"
    using assms(2,3) by (auto simp: find_None_iff)
  then obtain d where d: "find (\<lambda>e. cu_Currency e = ''USD'') (us_Currencies u) = Some d" by blast
  then have "d \<in> set (us_Currencies u)" "cu_Currency d = ''USD''"
    by (auto simp: find_Some_iff)
  then have "d = e" using assms unfolding plain_usage_def distinct_map by (metis inj_onD)
  then show ?thesis using d by (simp add: usage_usd_def)
qed

end
