(* ===== verification/PolicyPack.thy ===== *)
theory PolicyPack
  imports PolicyUsage
begin

text \<open>
  \<open>internal/policy\<close>, part two: the default pack and its input. The pack is Rego
  (\<open>default.rego\<close>); each of its rules is a function of the pack's input, an \<open>else\<close> chain is a chain
  of conditions, and the strict built-in \<open>costroid.compare_decimal\<close> stops the evaluation on a text
  that is no plain decimal. The pack's results are a set with at most one result per rule; the list
  here has them in the order the rules stand in the file.
\<close>

section \<open>The vocabulary\<close>

type_synonym trust = string

abbreviation Unverified :: trust where "Unverified \<equiv> ''unverified''"

abbreviation TokenVerified :: trust where "TokenVerified \<equiv> ''token_verified''"

abbreviation Success :: string where "Success \<equiv> ''success''"

abbreviation Neutral :: string where "Neutral \<equiv> ''neutral''"

abbreviation Failure :: string where "Failure \<equiv> ''failure''"

abbreviation RuleRunBudget :: string where "RuleRunBudget \<equiv> ''run_budget''"

abbreviation RuleRunCostThreshold :: string where "RuleRunCostThreshold \<equiv> ''run_cost_threshold''"

abbreviation RuleRunIncrease :: string where "RuleRunIncrease \<equiv> ''run_increase''"

abbreviation RuleRunIncreasePercent :: string where "RuleRunIncreasePercent \<equiv> ''run_increase_percent''"

abbreviation RulePullRequestBudget :: string where "RulePullRequestBudget \<equiv> ''pr_budget''"

abbreviation RuleMonthlyBudget :: string where "RuleMonthlyBudget \<equiv> ''monthly_budget''"

abbreviation RuleModelAllowlist :: string where "RuleModelAllowlist \<equiv> ''model_allowlist''"

abbreviation RuleAttribution :: string where "RuleAttribution \<equiv> ''attribution''"

definition ruleOrder :: "string list" where
  "ruleOrder =
     [RuleRunBudget, RuleRunCostThreshold, RuleRunIncrease, RuleRunIncreasePercent, RulePullRequestBudget,
      RuleMonthlyBudget, RuleModelAllowlist, RuleAttribution]"

abbreviation Pass :: string where "Pass \<equiv> ''pass''"

abbreviation Warn :: string where "Warn \<equiv> ''warn''"

abbreviation Fail :: string where "Fail \<equiv> ''fail''"

abbreviation Unproven :: string where "Unproven \<equiv> ''unproven''"

definition outcomes :: "string list" where
  "outcomes = [Pass, Warn, Fail, Unproven]"

abbreviation ReasonNoRows :: string where "ReasonNoRows \<equiv> ''no_rows''"

abbreviation ReasonNoBaseline :: string where "ReasonNoBaseline \<equiv> ''no_baseline''"

abbreviation ReasonNoLifetime :: string where "ReasonNoLifetime \<equiv> ''no_lifetime''"

abbreviation ReasonOutsideAllowlist :: string where "ReasonOutsideAllowlist \<equiv> ''model_outside_allowlist''"

definition reasons :: "string list" where
  "reasons =
     [''over_limit'', ''within_limit'', ReasonNoRows, ''unverified_rows'', ''unattributed_rows'', ''other_currency'',
      ''joinable_rows'', ''over_baseline'', ReasonNoBaseline, ReasonNoLifetime, ''repeat_possible'', ''no_ledger'',
      ReasonOutsideAllowlist, ''unreadable_model'', ''models_on_allowlist'']"

record result =
  re_Rule :: string
  re_Outcome :: string
  re_Reason :: string
  re_HeldByWarnOnly :: bool
  re_LimitUSD :: string
  re_LimitPercent :: string
  re_CostUSD :: string
  re_BaselineUSD :: string
  re_Models :: "string list"

section \<open>The pack's input\<close>

record pack_usage =
  pu_currency :: string
  pu_list_cost :: string
  pu_rows :: int
  pu_unattributed_rows :: int
  pu_joinable_rows :: int

record pack_baseline =
  pb_trust :: trust
  pb_limits :: "string \<rightharpoonup> string"

record pack_lifetime =
  pf_trust :: trust
  pf_total_usd :: string
  pf_may_repeat :: bool
  pf_other_currency :: bool

record pack_input =
  pi_trust :: trust
  pi_rows :: int
  pi_usage :: "pack_usage list"
  pi_settings :: "string \<rightharpoonup> string"
  pi_models :: bool
  pi_model_rows :: "int \<times> int"
  pi_baseline :: "pack_baseline option"
  pi_lifetime :: "pack_lifetime option"
  pi_warn_only :: bool

section \<open>The pack\<close>

definition compare_decimal :: "string \<Rightarrow> string \<Rightarrow> policy_error + int" where
  "compare_decimal a b =
     (case Parse a of
        Inl _ \<Rightarrow> Inl CompareFailed
      | Inr x \<Rightarrow> (case Parse b of Inl _ \<Rightarrow> Inl CompareFailed | Inr y \<Rightarrow> Inr (Cmp x y)))"

text \<open>An outcome with its reason, and whether the warn-only period held it.\<close>

type_synonym rule_outcome = "string \<times> string \<times> bool"

definition pack_total :: "(pack_usage \<Rightarrow> int) \<Rightarrow> pack_input \<Rightarrow> int" where
  "pack_total field inp = sum_list (map field (pi_usage inp))"

definition broken :: "pack_input \<Rightarrow> string \<Rightarrow> rule_outcome" where
  "broken inp reason = (if pi_warn_only inp then (Warn, reason, True) else (Fail, reason, False))"

fun over_usage :: "string \<Rightarrow> pack_usage list \<Rightarrow> policy_error + bool" where
  "over_usage limit [] = Inr False"
| "over_usage limit (u # us) =
     (if pu_currency u = ''USD''
      then rbind (compare_decimal (pu_list_cost u) limit) (\<lambda>c. if c > 0 then Inr True else over_usage limit us)
      else over_usage limit us)"

definition over :: "pack_input \<Rightarrow> string \<Rightarrow> policy_error + bool" where
  "over inp limit = over_usage limit (pi_usage inp)"

definition both :: "pack_input \<Rightarrow> trust \<Rightarrow> trust" where
  "both inp earlier = (if pi_trust inp = TokenVerified \<and> earlier = TokenVerified then TokenVerified else Unverified)"

definition kept :: "pack_input \<Rightarrow> trust \<Rightarrow> rule_outcome \<Rightarrow> rule_outcome" where
  "kept inp t oc =
     (if t \<noteq> TokenVerified then (Unproven, ''unverified_rows'', False)
      else if pack_total pu_unattributed_rows inp > 0 then (Unproven, ''unattributed_rows'', False)
      else oc)"

definition within_limit :: "pack_input \<Rightarrow> rule_outcome" where
  "within_limit inp =
     (if list_ex (\<lambda>u. pu_currency u \<noteq> ''USD'') (pi_usage inp) then (Unproven, ''other_currency'', False)
      else (Pass, ''within_limit'', False))"

definition run_held :: "pack_input \<Rightarrow> string \<Rightarrow> string \<Rightarrow> trust \<Rightarrow> policy_error + rule_outcome" where
  "run_held inp limit reason t =
     rbind (over inp limit) (\<lambda>o1.
       Inr (if o1 then broken inp reason
            else if pi_rows inp = 0 then (Unproven, ReasonNoRows, False)
            else kept inp t (within_limit inp)))"

definition increase :: "pack_input \<Rightarrow> string \<Rightarrow> policy_error + rule_outcome" where
  "increase inp setting =
     (case pi_baseline inp of
        None \<Rightarrow> Inr (Unproven, ReasonNoBaseline, False)
      | Some b \<Rightarrow>
          (case pb_limits b setting of
             None \<Rightarrow> Inr (Unproven, ReasonNoBaseline, False)
           | Some limit \<Rightarrow> run_held inp limit ''over_baseline'' (both inp (pb_trust b))))"

definition pull_request_within :: "pack_input \<Rightarrow> pack_lifetime \<Rightarrow> rule_outcome" where
  "pull_request_within inp l =
     (if pf_other_currency l then (Unproven, ''other_currency'', False) else within_limit inp)"

definition pull_request :: "pack_input \<Rightarrow> string \<Rightarrow> policy_error + rule_outcome" where
  "pull_request inp limit =
     (case pi_lifetime inp of
        None \<Rightarrow> Inr (Unproven, ReasonNoLifetime, False)
      | Some l \<Rightarrow>
          if pf_may_repeat l then Inr (Unproven, ''repeat_possible'', False)
          else rbind (compare_decimal (pf_total_usd l) limit) (\<lambda>c.
            Inr (if c > 0 then broken inp ''over_limit''
                 else if pi_rows inp = 0 then (Unproven, ReasonNoRows, False)
                 else kept inp (both inp (pf_trust l)) (pull_request_within inp l))))"

definition allowlist :: "pack_input \<Rightarrow> rule_outcome" where
  "allowlist inp =
     (if fst (pi_model_rows inp) > 0 then broken inp ReasonOutsideAllowlist
      else if pi_rows inp = 0 then (Unproven, ReasonNoRows, False)
      else if snd (pi_model_rows inp) > 0 then (Unproven, ''unreadable_model'', False)
      else kept inp (pi_trust inp) (Pass, ''models_on_allowlist'', False))"

text \<open>One result, with the limit it was held to in dollars or in percent.\<close>

definition pack_result :: "string \<Rightarrow> string \<Rightarrow> string \<Rightarrow> rule_outcome \<Rightarrow> result" where
  "pack_result rule usd percent oc =
     \<lparr>re_Rule = rule, re_Outcome = fst oc, re_Reason = fst (snd oc), re_HeldByWarnOnly = snd (snd oc),
      re_LimitUSD = usd, re_LimitPercent = percent, re_CostUSD = [], re_BaselineUSD = [], re_Models = []\<rparr>"

definition budget_result :: "pack_input \<Rightarrow> string \<Rightarrow> string \<Rightarrow> policy_error + result list" where
  "budget_result inp rule setting =
     (case pi_settings inp setting of
        None \<Rightarrow> Inr []
      | Some limit \<Rightarrow>
          rmap (\<lambda>oc. [pack_result rule limit [] oc]) (run_held inp limit ''over_limit'' (pi_trust inp)))"

definition increase_result :: "pack_input \<Rightarrow> policy_error + result list" where
  "increase_result inp =
     (case pi_settings inp keyMaxIncrease of
        None \<Rightarrow> Inr []
      | Some limit \<Rightarrow> rmap (\<lambda>oc. [pack_result RuleRunIncrease limit [] oc]) (increase inp keyMaxIncrease))"

definition percent_result :: "pack_input \<Rightarrow> policy_error + result list" where
  "percent_result inp =
     (case pi_settings inp keyMaxIncreasePercent of
        None \<Rightarrow> Inr []
      | Some limit \<Rightarrow>
          rmap (\<lambda>oc. [pack_result RuleRunIncreasePercent [] limit oc]) (increase inp keyMaxIncreasePercent))"

definition pull_request_result :: "pack_input \<Rightarrow> policy_error + result list" where
  "pull_request_result inp =
     (case pi_settings inp keyPullRequestBudget of
        None \<Rightarrow> Inr []
      | Some limit \<Rightarrow> rmap (\<lambda>oc. [pack_result RulePullRequestBudget limit [] oc]) (pull_request inp limit))"

definition monthly_result :: "pack_input \<Rightarrow> result list" where
  "monthly_result inp =
     (case pi_settings inp keyMonthlyBudget of
        None \<Rightarrow> []
      | Some limit \<Rightarrow> [pack_result RuleMonthlyBudget limit [] (Unproven, ''no_ledger'', False)])"

definition allowlist_result :: "pack_input \<Rightarrow> result list" where
  "allowlist_result inp = (if pi_models inp then [pack_result RuleModelAllowlist [] [] (allowlist inp)] else [])"

definition attribution_result :: "pack_input \<Rightarrow> result list" where
  "attribution_result inp =
     (if pack_total pu_joinable_rows inp > 0
      then [pack_result RuleAttribution [] [] (Warn, ''joinable_rows'', False)] else [])"

definition pack_results :: "pack_input \<Rightarrow> policy_error + result list" where
  "pack_results inp =
     rbind (budget_result inp RuleRunBudget keyRunBudget) (\<lambda>r1.
     rbind (budget_result inp RuleRunCostThreshold keyMaxRunCost) (\<lambda>r2.
     rbind (increase_result inp) (\<lambda>r3.
     rbind (percent_result inp) (\<lambda>r4.
     rbind (pull_request_result inp) (\<lambda>r5.
     Inr (r1 @ r2 @ r3 @ r4 @ r5 @ monthly_result inp @ allowlist_result inp @ attribution_result inp))))))"

definition pack_conclusion :: "result list \<Rightarrow> string" where
  "pack_conclusion rs =
     (if list_ex (\<lambda>r. re_Outcome r = Fail) rs then Failure
      else if rs \<noteq> [] \<and> list_all (\<lambda>r. re_Outcome r = Pass) rs then Success
      else Neutral)"

section \<open>Running the pack\<close>

record pack_answer =
  pa_Conclusion :: string
  pa_Results :: "result list"

definition answer_check :: "pack_answer \<Rightarrow> bool" where
  "answer_check a \<longleftrightarrow>
     pa_Conclusion a \<in> {Success, Neutral, Failure} \<and>
     list_all (\<lambda>r. re_Rule r \<in> set ruleOrder \<and> re_Outcome r \<in> set outcomes \<and> re_Reason r \<in> set reasons)
       (pa_Results a)"

definition evaluatePack :: "pack_input \<Rightarrow> policy_error + pack_answer" where
  "evaluatePack inp =
     rbind (pack_results inp) (\<lambda>rs.
       let answer = \<lparr>pa_Conclusion = pack_conclusion rs, pa_Results = rs\<rparr>
       in if answer_check answer then Inr answer else Inl BadAnswer)"

section \<open>Building the input\<close>

record baseline =
  bl_Runs :: int
  bl_MedianUSD :: decimal
  bl_Trust :: trust

record lifetime =
  lf_USD :: decimal
  lf_OtherCurrency :: bool
  lf_MayRepeat :: bool
  lf_Trust :: trust

definition MinBaselineRuns :: int where
  "MinBaselineRuns = 10"

definition trusted :: "trust \<Rightarrow> trust" where
  "trusted t = (if t \<noteq> TokenVerified then Unverified else t)"

definition baselineInput :: "baseline option \<Rightarrow> policy_settings \<Rightarrow> pack_baseline option" where
  "baselineInput bl settings =
     (case bl of
        None \<Rightarrow> None
      | Some b \<Rightarrow>
          if bl_Runs b < MinBaselineRuns \<or> Sign (bl_MedianUSD b) < 0 then None
          else (let median = bl_MedianUSD b;
                    l0 = Map.empty;
                    l1 = (case ps_Amounts settings keyMaxIncrease of
                            None \<Rightarrow> l0
                          | Some inc \<Rightarrow> l0(keyMaxIncrease \<mapsto> String (Add median inc)));
                    l2 = (case ps_Amounts settings keyMaxIncreasePercent of
                            None \<Rightarrow> l1
                          | Some percent \<Rightarrow>
                              l1(keyMaxIncreasePercent \<mapsto>
                                 String (DivPow10 (Mul median (Add (FromInt 100) percent)) 2)))
                in Some \<lparr>pb_trust = trusted (bl_Trust b), pb_limits = l2\<rparr>))"

definition lifetime_total :: "lifetime \<Rightarrow> usage \<Rightarrow> decimal" where
  "lifetime_total l u = Add (lf_USD l) (fst (usage_usd u))"

definition lifetimeInput :: "lifetime option \<Rightarrow> usage \<Rightarrow> pack_lifetime option" where
  "lifetimeInput lt u =
     (case lt of
        None \<Rightarrow> None
      | Some l \<Rightarrow>
          if Sign (lf_USD l) < 0 then None
          else Some \<lparr>pf_trust = trusted (lf_Trust l), pf_total_usd = String (lifetime_total l u),
                     pf_may_repeat = lf_MayRepeat l, pf_other_currency = lf_OtherCurrency l\<rparr>)"

definition usage_input :: "currency_usage \<Rightarrow> pack_usage" where
  "usage_input e =
     \<lparr>pu_currency = cu_Currency e, pu_list_cost = String (cu_ListCost e), pu_rows = cu_Rows e,
      pu_unattributed_rows = cu_UnattributedRows e, pu_joinable_rows = cu_JoinableRows e\<rparr>"

definition packInput :: "usage \<Rightarrow> trust \<Rightarrow> baseline option \<Rightarrow> lifetime option \<Rightarrow> policy_settings \<Rightarrow> bool \<Rightarrow> pack_input" where
  "packInput u t bl lt settings warn =
     \<lparr>pi_trust = t, pi_rows = us_Rows u, pi_usage = map usage_input (us_Currencies u),
      pi_settings = map_option String \<circ> ps_Amounts settings,
      pi_models = (ps_Models settings \<noteq> []),
      pi_model_rows = (let (refused, unreadable, outside) = modelRows u settings in (refused, unreadable)),
      pi_baseline = baselineInput bl settings,
      pi_lifetime = lifetimeInput lt u,
      pi_warn_only = warn\<rparr>"

section \<open>Lemmas\<close>

text \<open>Amounts travel as texts; comparing the texts compares the amounts.\<close>

lemma compare_decimal_exact:
  assumes "plain_amount a" "plain_amount b"
  shows "compare_decimal (String a) (String b) = Inr (Cmp (normal a) (normal b))"
  using assms by (simp add: compare_decimal_def plain_amount_def Parse_String)

lemma normal_over:
  assumes "plain_amount a" "plain_amount b"
  shows "0 < Cmp (normal a) (normal b) \<longleftrightarrow> dval b < dval a"
  using assms by (simp add: plain_amount_def normal_wf)

lemma over_usage_exact:
  assumes "\<forall>e\<in>set es. plain_amount (cu_ListCost e)" "plain_amount limit"
  shows "over_usage (String limit) (map usage_input es) =
     Inr (list_ex (\<lambda>e. cu_Currency e = ''USD'' \<and> dval limit < dval (cu_ListCost e)) es)"
  using assms(1)
  by (induction es) (simp_all add: usage_input_def compare_decimal_exact normal_over assms(2))

lemma over_usd:
  assumes u: "plain_usage u" and limit: "plain_amount limit"
  shows "list_ex (\<lambda>e. cu_Currency e = ''USD'' \<and> dval limit < dval (cu_ListCost e)) (us_Currencies u) \<longleftrightarrow>
     dval limit < dval (fst (usage_usd u))" (is "?l \<longleftrightarrow> ?r")
proof
  assume ?l
  then obtain e where "e \<in> set (us_Currencies u)" "cu_Currency e = ''USD''" "dval limit < dval (cu_ListCost e)"
    by (auto simp: list_ex_iff)
  then show ?r using usd_entry [OF u] by simp
next
  assume r: ?r
  then have "find (\<lambda>e. cu_Currency e = ''USD'') (us_Currencies u) \<noteq> None"
    using limit by (auto simp: usage_usd_def plain_amount_def split: option.splits)
  then obtain d where d: "find (\<lambda>e. cu_Currency e = ''USD'') (us_Currencies u) = Some d" by blast
  then have "usage_usd u = (cu_ListCost d, True)" by (simp add: usage_usd_def)
  moreover have "d \<in> set (us_Currencies u)" "cu_Currency d = ''USD''"
    using d by (auto simp: find_Some_iff)
  ultimately show ?l using r by (auto simp: list_ex_iff)
qed

lemma over_exact:
  assumes "plain_usage u" "plain_amount limit"
  shows "over (packInput u t bl lt s w) (String limit) = Inr (dval limit < dval (fst (usage_usd u)))"
  using assms over_usage_exact [of "us_Currencies u" limit] over_usd [of u limit]
  by (simp add: over_def packInput_def plain_usage_def)

lemma packInput_simps [simp]:
  "pi_trust (packInput u t bl lt s w) = t" "pi_rows (packInput u t bl lt s w) = us_Rows u"
  "pi_settings (packInput u t bl lt s w) k = map_option String (ps_Amounts s k)"
  "pi_baseline (packInput u t bl lt s w) = baselineInput bl s"
  "pi_lifetime (packInput u t bl lt s w) = lifetimeInput lt u"
  "pi_models (packInput u t bl lt s w) = (ps_Models s \<noteq> [])"
  "pi_warn_only (packInput u t bl lt s w) = w"
  by (simp_all add: packInput_def)

lemma run_held_exact:
  assumes "plain_usage u" "plain_amount limit"
  shows "run_held (packInput u t bl lt s w) (String limit) reason t' =
     Inr (if dval limit < dval (fst (usage_usd u)) then broken (packInput u t bl lt s w) reason
          else if us_Rows u = 0 then (Unproven, ReasonNoRows, False)
          else kept (packInput u t bl lt s w) t' (within_limit (packInput u t bl lt s w)))"
  using assms by (simp add: run_held_def over_exact)

text \<open>The most a run may cost under an increase rule, of a baseline the rule reads.\<close>

definition increase_limit :: "baseline \<Rightarrow> policy_settings \<Rightarrow> string \<Rightarrow> decimal option" where
  "increase_limit b s key =
     (if key = keyMaxIncrease then map_option (\<lambda>inc. Add (bl_MedianUSD b) inc) (ps_Amounts s keyMaxIncrease)
      else if key = keyMaxIncreasePercent
      then map_option (\<lambda>p. DivPow10 (Mul (bl_MedianUSD b) (Add (FromInt 100) p)) 2) (ps_Amounts s keyMaxIncreasePercent)
      else None)"

definition plain_settings :: "policy_settings \<Rightarrow> bool" where
  "plain_settings s \<longleftrightarrow> (\<forall>k d. ps_Amounts s k = Some d \<longrightarrow> plain_amount d)"

definition plain_baseline :: "baseline option \<Rightarrow> bool" where
  "plain_baseline bl \<longleftrightarrow> (\<forall>b. bl = Some b \<longrightarrow> wf_decimal (bl_MedianUSD b))"

definition plain_lifetime :: "lifetime option \<Rightarrow> bool" where
  "plain_lifetime lt \<longleftrightarrow> (\<forall>l. lt = Some l \<longrightarrow> wf_decimal (lf_USD l))"

definition usable_baseline :: "baseline \<Rightarrow> bool" where
  "usable_baseline b \<longleftrightarrow> MinBaselineRuns \<le> bl_Runs b \<and> 0 \<le> Sign (bl_MedianUSD b)"

lemma baselineInput_cases:
  "baselineInput bl s =
     (case bl of None \<Rightarrow> None
      | Some b \<Rightarrow> if usable_baseline b
          then Some \<lparr>pb_trust = trusted (bl_Trust b), pb_limits = (\<lambda>k. map_option String (increase_limit b s k))\<rparr>
          else None)"
proof -
  have keys: "keyMaxIncrease \<noteq> keyMaxIncreasePercent" by simp
  have two: "(case y of None \<Rightarrow> (case x of None \<Rightarrow> Map.empty | Some i \<Rightarrow> Map.empty(k1 \<mapsto> f i))
        | Some p \<Rightarrow> (case x of None \<Rightarrow> Map.empty | Some i \<Rightarrow> Map.empty(k1 \<mapsto> f i))(k2 \<mapsto> g p)) =
      (\<lambda>k. if k = k1 then map_option f x else if k = k2 then map_option g y else None)"
    if "k1 \<noteq> k2" for x y :: "decimal option" and f g :: "decimal \<Rightarrow> string" and k1 k2 :: string
    using that by (auto split: option.split)
  show ?thesis
    by (cases bl)
      (simp_all add: baselineInput_def usable_baseline_def Let_def two [OF keys] increase_limit_def
        option.map_comp comp_def fun_eq_iff not_less not_le)
qed

lemma increase_limit_plain:
  assumes "usable_baseline b" "wf_decimal (bl_MedianUSD b)" "plain_settings s" "increase_limit b s key = Some limit"
  shows "plain_amount limit"
proof -
  have "0 \<le> dval (bl_MedianUSD b)" using assms(1) by (simp add: usable_baseline_def)
  then show ?thesis
    using assms(2-4)
    by (auto simp: increase_limit_def plain_settings_def plain_amount_def split: if_splits)
qed

lemma increase_exact:
  assumes u: "plain_usage u" and s: "plain_settings s" and b: "plain_baseline bl"
  shows "increase (packInput u t bl lt s w) key =
     (case bl of None \<Rightarrow> Inr (Unproven, ReasonNoBaseline, False)
      | Some b \<Rightarrow>
          (case if usable_baseline b then increase_limit b s key else None of
             None \<Rightarrow> Inr (Unproven, ReasonNoBaseline, False)
           | Some limit \<Rightarrow> run_held (packInput u t bl lt s w) (String limit) ''over_baseline''
                            (both (packInput u t bl lt s w) (trusted (bl_Trust b)))))"
  by (simp add: increase_def baselineInput_cases split: option.split)

lemma increase_ok:
  assumes u: "plain_usage u" and s: "plain_settings s" and b: "plain_baseline bl"
  shows "is_ok (increase (packInput u t bl lt s w) key)"
  using assms increase_limit_plain
  by (auto simp: increase_exact run_held_exact plain_baseline_def split: option.splits if_splits)

lemma lifetime_total_plain:
  assumes "plain_usage u" "wf_decimal (lf_USD l)" "\<not> Sign (lf_USD l) < 0"
  shows "plain_amount (lifetime_total l u)"
  using assms usage_usd_plain [OF assms(1)] by (simp add: lifetime_total_def plain_amount_def)

lemma pull_request_exact:
  assumes u: "plain_usage u" and l: "plain_lifetime lt" and limit: "plain_amount limit"
  shows "pull_request (packInput u t bl lt s w) (String limit) =
     Inr (case lt of None \<Rightarrow> (Unproven, ReasonNoLifetime, False)
          | Some l \<Rightarrow>
              if Sign (lf_USD l) < 0 then (Unproven, ReasonNoLifetime, False)
              else if lf_MayRepeat l then (Unproven, ''repeat_possible'', False)
              else if dval limit < dval (lifetime_total l u) then broken (packInput u t bl lt s w) ''over_limit''
              else if us_Rows u = 0 then (Unproven, ReasonNoRows, False)
              else kept (packInput u t bl lt s w) (both (packInput u t bl lt s w) (trusted (lf_Trust l)))
                     (if lf_OtherCurrency l then (Unproven, ''other_currency'', False)
                      else within_limit (packInput u t bl lt s w)))"
proof (cases lt)
  case None
  then show ?thesis by (simp add: pull_request_def lifetimeInput_def)
next
  case (Some l)
  show ?thesis
  proof (cases "Sign (lf_USD l) < 0")
    case True
    then show ?thesis using Some by (simp add: pull_request_def lifetimeInput_def)
  next
    case False
    have "plain_amount (lifetime_total l u)"
      using Some False l u lifetime_total_plain by (simp add: plain_lifetime_def)
    then show ?thesis using Some False limit
      by (simp add: pull_request_def lifetimeInput_def compare_decimal_exact normal_over pull_request_within_def)
  qed
qed

end
