(* ===== verification/Policy.thy ===== *)
theory Policy
  imports PolicyPack Instant
begin

text \<open>
  \<open>internal/policy\<close>, part three: the warn-only period, the evaluation of one run (\<open>Evaluate\<close>) and of a
  pull request's rows in a ledger (\<open>EvaluateLedger\<close>), and where the settings are read. What the
  evaluation takes from outside is the record \<open>policy_env\<close>: SHA-256 in hex, the pack's source, and
  the YAML reader. Row counts are unbounded integers: they count rows that were read or stored.
\<close>

section \<open>The warn-only period\<close>

definition WarnOnlyPeriod :: int where
  "WarnOnlyPeriod = 7 * day_ns"

abbreviation PeriodRunning :: string where "PeriodRunning \<equiv> ''in_period''"

abbreviation PeriodEnded :: string where "PeriodEnded \<equiv> ''ended''"

abbreviation PeriodEnforced :: string where "PeriodEnforced \<equiv> ''enforced''"

abbreviation PeriodNotOnBase :: string where "PeriodNotOnBase \<equiv> ''not_on_base''"

abbreviation PeriodStartUnknown :: string where "PeriodStartUnknown \<equiv> ''start_unknown''"

record period_start =
  st_At :: instant
  st_NotOnBase :: bool

record warn_only =
  wo_Active :: bool
  wo_Reason :: string
  wo_Started :: string
  wo_Ends :: string

definition warnOnly :: "bool \<Rightarrow> period_start \<Rightarrow> instant \<Rightarrow> warn_only" where
  "warnOnly enforce start now =
     (if enforce then \<lparr>wo_Active = False, wo_Reason = PeriodEnforced, wo_Started = [], wo_Ends = []\<rparr>
      else if st_NotOnBase start then \<lparr>wo_Active = True, wo_Reason = PeriodNotOnBase, wo_Started = [], wo_Ends = []\<rparr>
      else if st_At start = zero_time
      then \<lparr>wo_Active = True, wo_Reason = PeriodStartUnknown, wo_Started = [], wo_Ends = []\<rparr>
      else (let ends = st_At start + WarnOnlyPeriod;
                period = \<lparr>wo_Active = False, wo_Reason = PeriodEnded, wo_Started = format_instant (st_At start),
                          wo_Ends = format_instant ends\<rparr>
            in if now < ends then period\<lparr>wo_Active := True, wo_Reason := PeriodRunning\<rparr> else period))"

definition WarnOnlyPullRequests :: int where
  "WarnOnlyPullRequests = 20"

definition endAtPullRequests :: "warn_only \<Rightarrow> int \<Rightarrow> warn_only" where
  "endAtPullRequests period counted =
     (if \<not> wo_Active period \<or> counted < WarnOnlyPullRequests then period
      else \<lparr>wo_Active = False, wo_Reason = PeriodEnded, wo_Started = wo_Started period, wo_Ends = []\<rparr>)"

section \<open>Evidence\<close>

type_synonym evidence = string

abbreviation AgentCounts :: evidence where "AgentCounts \<equiv> ''agent_counts''"

abbreviation GatewayMeasured :: evidence where "GatewayMeasured \<equiv> ''gateway_measured''"

abbreviation Reconciled :: evidence where "Reconciled \<equiv> ''reconciled''"

definition measured :: "evidence \<Rightarrow> evidence" where
  "measured e = (if e = GatewayMeasured \<or> e = Reconciled then e else AgentCounts)"

definition runCostRules :: "string list" where
  "runCostRules = [RuleRunBudget, RuleRunCostThreshold, RuleRunIncrease, RuleRunIncreasePercent]"

definition measuredRules :: "string list" where
  "measuredRules = runCostRules @ [RulePullRequestBudget, RuleMonthlyBudget, RuleModelAllowlist]"

definition demoted :: "result \<Rightarrow> bool" where
  "demoted r \<longleftrightarrow> re_Outcome r = Pass \<and> re_Rule r \<in> set measuredRules"

definition demoteUnmeasured :: "result list \<Rightarrow> bool \<times> result list" where
  "demoteUnmeasured rs =
     (list_ex demoted rs,
      map (\<lambda>r. if demoted r then r\<lparr>re_Outcome := Unproven, re_Reason := ''unmeasured_spend''\<rparr> else r) rs)"

section \<open>Rules a ledger cannot run\<close>

definition runRuleKeys :: "(string \<times> string) list" where
  "runRuleKeys =
     [(RuleRunBudget, keyRunBudget), (RuleRunCostThreshold, keyMaxRunCost), (RuleRunIncrease, keyMaxIncrease),
      (RuleRunIncreasePercent, keyMaxIncreasePercent)]"

definition withheld_result :: "string \<Rightarrow> decimal \<Rightarrow> result" where
  "withheld_result rule limit =
     \<lparr>re_Rule = rule, re_Outcome = Unproven, re_Reason = ''no_run_rows'', re_HeldByWarnOnly = False,
      re_LimitUSD = (if rule = RuleRunIncreasePercent then [] else String limit),
      re_LimitPercent = (if rule = RuleRunIncreasePercent then String limit else []),
      re_CostUSD = [], re_BaselineUSD = [], re_Models = []\<rparr>"

fun withhold :: "policy_settings \<Rightarrow> (string \<times> string) list \<Rightarrow> policy_settings \<times> result list" where
  "withhold s [] = (s, [])"
| "withhold s ((rule, key) # rks) =
     (case ps_Amounts s key of
        None \<Rightarrow> withhold s rks
      | Some limit \<Rightarrow>
          (let (s', rs) = withhold (s\<lparr>ps_Amounts := (ps_Amounts s)(key := None)\<rparr>) rks
           in (s', withheld_result rule limit # rs)))"

definition withoutRunRules :: "policy_settings \<Rightarrow> policy_settings \<times> result list" where
  "withoutRunRules s = withhold s runRuleKeys"

section \<open>The evaluation\<close>

record policy_env =
  pe_sha256 :: "string \<Rightarrow> string"
  pe_pack :: string
  pe_parse_yaml :: "string \<Rightarrow> yaml option option"
  pe_decode_int :: "string \<Rightarrow> nat option"

record policy_request =
  pq_Usage :: usage
  pq_Trust :: trust
  pq_Config :: config_file
  pq_Start :: period_start
  pq_At :: instant
  pq_Baseline :: "baseline option"
  pq_Lifetime :: "lifetime option"
  pq_MeasuredPullRequests :: int
  pq_Evidence :: evidence

record verdict =
  ve_Conclusion :: string
  ve_Trust :: trust
  ve_PackSHA256 :: string
  ve_ConfigSHA256 :: string
  ve_ConfigRef :: string
  ve_Config :: string
  ve_ConfigFromBase :: bool
  ve_EvaluatedAt :: string
  ve_WarnOnly :: warn_only
  ve_Results :: "result list"
  ve_JoinableRows :: int
  ve_Evidence :: evidence
  ve_problem :: "policy_error option"

definition WithoutAmounts :: "verdict \<Rightarrow> verdict" where
  "WithoutAmounts v =
     v\<lparr>ve_Results := map (\<lambda>r. r\<lparr>re_LimitUSD := [], re_CostUSD := [], re_BaselineUSD := []\<rparr>) (ve_Results v)\<rparr>"

definition rule_index :: "string \<Rightarrow> nat" where
  "rule_index rule = length (takeWhile (\<lambda>r. r \<noteq> rule) ruleOrder)"

definition annotate_cost :: "policy_request \<Rightarrow> policy_settings \<Rightarrow> result \<Rightarrow> result" where
  "annotate_cost q settings r =
     (let (cost, found) = usage_usd (pq_Usage q) in
      if re_Reason r = ReasonNoBaseline \<or> re_Reason r = ReasonNoLifetime \<or> re_Reason r = ''no_run_rows'' then r
      else if re_Rule r \<in> set runCostRules \<and> found then r\<lparr>re_CostUSD := String cost\<rparr>
      else if re_Rule r = RulePullRequestBudget \<and> pq_Lifetime q \<noteq> None
      then (case pq_Lifetime q of
              None \<Rightarrow> r | Some l \<Rightarrow> r\<lparr>re_CostUSD := String (lifetime_total l (pq_Usage q))\<rparr>)
      else if re_Rule r = RuleModelAllowlist \<and> re_Reason r = ReasonOutsideAllowlist
      then r\<lparr>re_Models := snd (snd (modelRows (pq_Usage q) settings))\<rparr>
      else r)"

definition annotate_baseline :: "policy_request \<Rightarrow> result \<Rightarrow> result" where
  "annotate_baseline q r =
     (if (re_Rule r = RuleRunIncrease \<or> re_Rule r = RuleRunIncreasePercent) \<and> re_Reason r \<noteq> ReasonNoBaseline
      then (case pq_Baseline q of None \<Rightarrow> r | Some b \<Rightarrow> r\<lparr>re_BaselineUSD := String (bl_MedianUSD b)\<rparr>)
      else r)"

definition annotate :: "result list \<Rightarrow> policy_request \<Rightarrow> policy_settings \<Rightarrow> result list" where
  "annotate rs q settings =
     map (\<lambda>r. annotate_baseline q (annotate_cost q settings r)) (sort_key (\<lambda>r. rule_index (re_Rule r)) rs)"

text \<open>The verdict before any rule has run.\<close>

definition base_verdict :: "policy_env \<Rightarrow> policy_request \<Rightarrow> bool \<Rightarrow> policy_error + policy_settings \<Rightarrow> verdict" where
  "base_verdict env q ledger read =
     (let problem = (case read of Inl e \<Rightarrow> Some e | Inr _ \<Rightarrow> None);
          settings = (case read of Inl _ \<Rightarrow> no_settings | Inr s \<Rightarrow> s)
      in \<lparr>ve_Conclusion = Neutral, ve_Trust = pq_Trust q, ve_PackSHA256 = pe_sha256 env (pe_pack env),
          ve_ConfigSHA256 = pe_sha256 env (cf_Data (pq_Config q)), ve_ConfigRef = cf_Ref (pq_Config q),
          ve_Config = config_state (pq_Config q) problem, ve_ConfigFromBase = cf_FromBase (pq_Config q),
          ve_EvaluatedAt = format_instant (pq_At q),
          ve_WarnOnly = endAtPullRequests (warnOnly (ps_Enforce settings) (pq_Start q) (pq_At q))
                          (pq_MeasuredPullRequests q),
          ve_Results = [], ve_JoinableRows = usage_joinable (pq_Usage q),
          ve_Evidence = (if ledger \<and> pq_Trust q = TokenVerified then measured (pq_Evidence q) else []),
          ve_problem = problem\<rparr>)"

text \<open>The pack's answer with the withheld rules, and the passes that unmeasured spend cannot carry taken back.\<close>

definition conclude :: "policy_request \<Rightarrow> policy_settings \<Rightarrow> result list \<Rightarrow> verdict \<Rightarrow> pack_answer \<Rightarrow> verdict" where
  "conclude q settings withheld v answer =
     (let results = pa_Results answer @ withheld;
          conclusion = pa_Conclusion answer;
          unmeasured = (pq_Trust q = TokenVerified \<and> measured (pq_Evidence q) = AgentCounts);
          dropped = (unmeasured \<and> fst (demoteUnmeasured results));
          results' = (if unmeasured then snd (demoteUnmeasured results) else results);
          conclusion' = (if dropped \<and> conclusion = Success then Neutral else conclusion);
          conclusion'' = (if withheld \<noteq> [] \<and> conclusion' = Success then Neutral else conclusion')
      in v\<lparr>ve_Conclusion := conclusion'', ve_Results := annotate results' q settings\<rparr>)"

definition evaluateScoped :: "policy_env \<Rightarrow> policy_request \<Rightarrow> bool \<Rightarrow> policy_error + verdict" where
  "evaluateScoped env q0 ledger =
     (let q = q0\<lparr>pq_Trust := trusted (pq_Trust q0)\<rparr>;
          read = config_settings (pe_parse_yaml env) (pe_decode_int env) (pq_Config q);
          v = base_verdict env q ledger read
      in case read of
           Inl _ \<Rightarrow> Inr v
         | Inr s \<Rightarrow>
             (let (settings, withheld) = (if ledger then withoutRunRules s else (s, []))
              in rmap (conclude q settings withheld v)
                   (evaluatePack (packInput (pq_Usage q) (pq_Trust q) (pq_Baseline q) (pq_Lifetime q) settings
                      (wo_Active (ve_WarnOnly v))))))"

definition Evaluate :: "policy_env \<Rightarrow> policy_request \<Rightarrow> policy_error + verdict" where
  "Evaluate env q = evaluateScoped env q False"

section \<open>A pull request's rows in a ledger\<close>

record ledger_line =
  ll_Currency :: string
  ll_ListCost :: decimal
  ll_Rows :: int
  ll_Model :: string
  ll_Verified :: bool
  ll_Attributed :: bool

definition add_line :: "ledger_line \<Rightarrow> currency_usage \<Rightarrow> currency_usage" where
  "add_line l e =
     (count_model (ll_Model l) (ll_Rows l) e)
       \<lparr>cu_Rows := cu_Rows e + ll_Rows l, cu_ListCost := Add (cu_ListCost e) (ll_ListCost l),
        cu_UnattributedRows := cu_UnattributedRows e + (if ll_Attributed l then 0 else ll_Rows l)\<rparr>"

definition ledgerUsage :: "ledger_line list \<Rightarrow> usage" where
  "ledgerUsage ls =
     usage_of (foldl (\<lambda>m l. upsert (ll_Currency l) (new_currency (ll_Currency l)) (add_line l) m) [] ls)
       (sum_list (map ll_Rows ls))"

record ledger_request =
  lq_Lines :: "ledger_line list"
  lq_Evidence :: evidence
  lq_MeasuredUSD :: decimal
  lq_Config :: config_file
  lq_Start :: period_start
  lq_MeasuredPullRequests :: int
  lq_At :: instant

definition EvaluateLedger :: "policy_env \<Rightarrow> ledger_request \<Rightarrow> policy_error + verdict" where
  "EvaluateLedger env lq =
     (let u = ledgerUsage (lq_Lines lq);
          t = (if lq_Lines lq \<noteq> [] \<and> list_all ll_Verified (lq_Lines lq) then TokenVerified else Unverified);
          rowsUSD = fst (usage_usd u);
          usd = (if lq_Evidence lq = GatewayMeasured \<and> Cmp (lq_MeasuredUSD lq) rowsUSD > 0
                 then Sub (lq_MeasuredUSD lq) rowsUSD else zero_decimal);
          lt = \<lparr>lf_USD = usd, lf_OtherCurrency = list_ex (\<lambda>e. cu_Currency e \<noteq> ''USD'') (us_Currencies u),
                lf_MayRepeat = False, lf_Trust = t\<rparr>
      in evaluateScoped env
           \<lparr>pq_Usage = u, pq_Trust = t, pq_Config = lq_Config lq, pq_Start = lq_Start lq, pq_At = lq_At lq,
            pq_Baseline = None, pq_Lifetime = Some lt, pq_MeasuredPullRequests = lq_MeasuredPullRequests lq,
            pq_Evidence = lq_Evidence lq\<rparr> True)"

section \<open>Where the settings and the period are read\<close>

definition branch_char :: "char \<Rightarrow> bool" where
  "branch_char c \<longleftrightarrow> is_alnum c \<or> c \<in> {CHR ''.'', CHR ''_'', CHR ''/'', CHR ''+'', CHR ''-''}"

definition branchPattern :: "string \<Rightarrow> bool" where
  "branchPattern s =
     (case s of [] \<Rightarrow> False | c # cs \<Rightarrow> is_alnum c \<and> length cs \<le> 254 \<and> list_all branch_char cs)"

datatype base_error = NoBranch | HeadUnread string | HeadNoCommit

definition BaseHead :: "(string \<Rightarrow> string + string) \<Rightarrow> string \<Rightarrow> base_error + string" where
  "BaseHead branch_head branch =
     (if \<not> branchPattern branch \<or> contains_str branch ''..'' then Inl NoBranch
      else (case branch_head branch of
              Inl e \<Rightarrow> Inl (HeadUnread e)
            | Inr head \<Rightarrow> if \<not> policyCommitPattern head then Inl HeadNoCommit else Inr head))"

definition workflow_char :: "char \<Rightarrow> bool" where
  "workflow_char c \<longleftrightarrow> is_alnum c \<or> c \<in> {CHR ''_'', CHR ''.'', CHR ''-''}"

definition workflowPattern :: "string \<Rightarrow> bool" where
  "workflowPattern path =
     (let (rest, found) = cut_prefix path ''.github/workflows/''
      in found \<and>
         list_ex (\<lambda>suffix. let (stem, ends) = cut_suffix rest suffix in ends \<and> of_class workflow_char 1 200 stem)
           [''.yml'', ''.yaml''])"

definition WorkflowPath :: "string \<Rightarrow> string \<Rightarrow> string option" where
  "WorkflowPath workflowRef repository =
     (let (trimmed, _, found) = cut_str workflowRef ''@'';
          (path, inRepository) = cut_prefix trimmed (repository @ ''/'')
      in if \<not> found \<or> \<not> inRepository \<or> \<not> workflowPattern path then None else Some path)"

datatype first_commit = FirstAt instant | NoCommitYet | HistoryFailed string

datatype start_error = NoBaseCommit | StartUnread string

definition ReadStart :: "(string \<Rightarrow> string \<Rightarrow> first_commit) \<Rightarrow> string \<Rightarrow> string \<Rightarrow> period_start \<times> start_error option" where
  "ReadStart history path base =
     (if \<not> policyCommitPattern base
      then (\<lparr>st_At = zero_time, st_NotOnBase = False\<rparr>, Some NoBaseCommit)
      else (case history path base of
              NoCommitYet \<Rightarrow> (\<lparr>st_At = zero_time, st_NotOnBase = True\<rparr>, None)
            | HistoryFailed e \<Rightarrow> (\<lparr>st_At = zero_time, st_NotOnBase = False\<rparr>, Some (StartUnread e))
            | FirstAt added \<Rightarrow> (\<lparr>st_At = added, st_NotOnBase = False\<rparr>, None)))"

section \<open>Lemmas\<close>

text \<open>Every outcome the pack states is in the vocabulary a comment renders.\<close>

definition worded :: "rule_outcome \<Rightarrow> bool" where
  "worded oc \<longleftrightarrow> fst oc \<in> set outcomes \<and> fst (snd oc) \<in> set reasons"

lemma broken_worded: "reason \<in> set reasons \<Longrightarrow> worded (broken inp reason)"
  by (simp add: worded_def broken_def outcomes_def)

lemma kept_worded: "worded oc \<Longrightarrow> worded (kept inp t oc)"
  by (simp add: worded_def kept_def outcomes_def reasons_def)

lemma within_limit_worded: "worded (within_limit inp)"
  by (simp add: worded_def within_limit_def outcomes_def reasons_def)

lemma unproven_worded: "reason \<in> set reasons \<Longrightarrow> worded (Unproven, reason, False)"
  by (simp add: worded_def outcomes_def)

lemma reasons_listed:
  "''over_limit'' \<in> set reasons" "''over_baseline'' \<in> set reasons" "ReasonNoRows \<in> set reasons"
  "ReasonNoBaseline \<in> set reasons" "ReasonNoLifetime \<in> set reasons" "''repeat_possible'' \<in> set reasons"
  "''other_currency'' \<in> set reasons" "''no_ledger'' \<in> set reasons" "ReasonOutsideAllowlist \<in> set reasons"
  "''unreadable_model'' \<in> set reasons"
  by (simp_all add: reasons_def)

lemmas worded_intros =
  broken_worded kept_worded within_limit_worded unproven_worded reasons_listed

lemma run_held_worded: "run_held inp limit reason t = Inr oc \<Longrightarrow> reason \<in> set reasons \<Longrightarrow> worded oc"
  by (auto simp: run_held_def result_eqs intro!: worded_intros)

lemma increase_worded: "increase inp key = Inr oc \<Longrightarrow> worded oc"
  by (auto simp: increase_def split: option.splits intro!: worded_intros dest!: run_held_worded)

lemma pull_request_worded: "pull_request inp limit = Inr oc \<Longrightarrow> worded oc"
  by (auto simp: pull_request_def pull_request_within_def result_eqs
      split: option.splits if_splits intro!: worded_intros)

lemma allowlist_worded: "worded (allowlist inp)"
  by (auto simp: allowlist_def worded_def [of "(Pass, ''models_on_allowlist'', False)"] outcomes_def reasons_def
      intro!: worded_intros)


definition ruled :: "result \<Rightarrow> bool" where
  "ruled r \<longleftrightarrow> re_Rule r \<in> set ruleOrder \<and> re_Outcome r \<in> set outcomes \<and> re_Reason r \<in> set reasons"

lemma pack_result_ruled: "rule \<in> set ruleOrder \<Longrightarrow> worded oc \<Longrightarrow> ruled (pack_result rule usd percent oc)"
  by (simp add: ruled_def pack_result_def worded_def)

lemma rules_listed:
  "RuleRunBudget \<in> set ruleOrder" "RuleRunCostThreshold \<in> set ruleOrder" "RuleRunIncrease \<in> set ruleOrder"
  "RuleRunIncreasePercent \<in> set ruleOrder" "RulePullRequestBudget \<in> set ruleOrder"
  "RuleMonthlyBudget \<in> set ruleOrder" "RuleModelAllowlist \<in> set ruleOrder" "RuleAttribution \<in> set ruleOrder"
  by (simp_all add: ruleOrder_def)

lemma budget_result_ruled:
  "budget_result inp rule key = Inr rs \<Longrightarrow> rule \<in> set ruleOrder \<Longrightarrow> list_all ruled rs"
  by (auto simp: budget_result_def result_eqs split: option.splits
      intro!: pack_result_ruled dest!: run_held_worded [OF _ reasons_listed(1)])

lemma increase_result_ruled: "increase_result inp = Inr rs \<Longrightarrow> list_all ruled rs"
  by (auto simp: increase_result_def result_eqs split: option.splits
      intro!: pack_result_ruled rules_listed dest!: increase_worded)

lemma percent_result_ruled: "percent_result inp = Inr rs \<Longrightarrow> list_all ruled rs"
  by (auto simp: percent_result_def result_eqs split: option.splits
      intro!: pack_result_ruled rules_listed dest!: increase_worded)

lemma pull_request_result_ruled: "pull_request_result inp = Inr rs \<Longrightarrow> list_all ruled rs"
  by (auto simp: pull_request_result_def result_eqs split: option.splits
      intro!: pack_result_ruled rules_listed dest!: pull_request_worded)

lemma monthly_result_ruled: "list_all ruled (monthly_result inp)"
  by (auto simp: monthly_result_def split: option.splits
      intro!: pack_result_ruled rules_listed unproven_worded reasons_listed)

lemma allowlist_result_ruled: "list_all ruled (allowlist_result inp)"
  by (auto simp: allowlist_result_def intro!: pack_result_ruled rules_listed allowlist_worded)

lemma attribution_result_ruled: "list_all ruled (attribution_result inp)"
proof -
  have "worded (Warn, ''joinable_rows'', False)" by (simp add: worded_def outcomes_def reasons_def)
  then show ?thesis by (auto simp: attribution_result_def intro!: pack_result_ruled rules_listed)
qed

lemma pack_results_ruled: "pack_results inp = Inr rs \<Longrightarrow> list_all ruled rs"
  by (auto simp: pack_results_def result_eqs monthly_result_ruled allowlist_result_ruled attribution_result_ruled
      budget_result_ruled rules_listed increase_result_ruled percent_result_ruled pull_request_result_ruled)

lemma answer_check_ruled: "list_all ruled rs \<Longrightarrow> answer_check \<lparr>pa_Conclusion = pack_conclusion rs, pa_Results = rs\<rparr>"
  by (simp add: answer_check_def pack_conclusion_def ruled_def [abs_def])

text \<open>So the pack's answer is never refused, and running the pack fails only where comparing fails.\<close>

lemma evaluatePack_eq:
  "evaluatePack inp = rmap (\<lambda>rs. \<lparr>pa_Conclusion = pack_conclusion rs, pa_Results = rs\<rparr>) (pack_results inp)"
  by (cases "pack_results inp") (simp_all add: evaluatePack_def answer_check_ruled pack_results_ruled)

section \<open>The pack always answers a request whose amounts are plain\<close>

lemma rmap_ok [simp]: "is_ok (rmap f r) = is_ok r"
  by (cases r) simp_all

lemma rbind_ok: "is_ok (rbind r f) \<longleftrightarrow> (\<exists>x. r = Inr x \<and> is_ok (f x))"
  by (cases r) simp_all

lemma plain_setting: "plain_settings s \<Longrightarrow> ps_Amounts s k = Some d \<Longrightarrow> plain_amount d"
  by (simp add: plain_settings_def)

lemma pack_results_total:
  assumes "plain_usage u" "plain_settings s" "plain_baseline bl" "plain_lifetime lt"
  shows "is_ok (pack_results (packInput u t bl lt s w))"
proof -
  let ?inp = "packInput u t bl lt s w"
  have budget: "is_ok (budget_result ?inp rule key)" for rule key
    using assms by (auto simp: budget_result_def run_held_exact plain_setting split: option.split)
  have inc: "is_ok (increase_result ?inp)" "is_ok (percent_result ?inp)"
    using assms by (auto simp: increase_result_def percent_result_def increase_ok split: option.split)
  have pr: "is_ok (pull_request_result ?inp)"
    using assms by (auto simp: pull_request_result_def pull_request_exact plain_setting split: option.split)
  show ?thesis
    using budget [of RuleRunBudget keyRunBudget] budget [of RuleRunCostThreshold keyMaxRunCost] inc pr
    by (auto simp: pack_results_def rbind_ok is_ok_def split: sum.splits)
qed

section \<open>What a pass needs\<close>

definition backed :: "pack_input \<Rightarrow> bool" where
  "backed inp \<longleftrightarrow> pi_trust inp = TokenVerified \<and> pi_rows inp \<noteq> 0 \<and> pack_total pu_unattributed_rows inp \<le> 0"

lemma broken_no_pass: "fst (broken inp reason) \<noteq> Pass"
  by (simp add: broken_def)

lemma kept_pass: "fst (kept inp t oc) = Pass \<Longrightarrow> t = TokenVerified \<and> pack_total pu_unattributed_rows inp \<le> 0 \<and> fst oc = Pass"
  by (auto simp: kept_def split: if_splits)

lemma within_limit_pass: "fst (within_limit inp) = Pass \<longleftrightarrow> list_all (\<lambda>u. pu_currency u = ''USD'') (pi_usage inp)"
  by (auto simp: within_limit_def list_ex_iff list_all_iff)

lemma both_verified: "both inp t = TokenVerified \<Longrightarrow> pi_trust inp = TokenVerified"
  by (simp add: both_def split: if_splits)

lemma run_held_pass:
  assumes "run_held inp limit reason t = Inr oc" "fst oc = Pass"
  shows "t = TokenVerified \<and> pi_rows inp \<noteq> 0 \<and> pack_total pu_unattributed_rows inp \<le> 0 \<and>
    over inp limit = Inr False \<and> list_all (\<lambda>u. pu_currency u = ''USD'') (pi_usage inp)"
proof -
  obtain x where x: "over inp limit = Inr x"
    and oc: "oc = (if x then broken inp reason else if pi_rows inp = 0 then (Unproven, ReasonNoRows, False)
                   else kept inp t (within_limit inp))"
    using assms(1) by (auto simp: run_held_def result_eqs)
  have "\<not> x" using assms(2) oc by (auto simp: broken_no_pass)
  then show ?thesis using assms(2) oc x
    by (auto simp: within_limit_pass split: if_splits dest: kept_pass)
qed

lemma increase_pass: "increase inp key = Inr oc \<Longrightarrow> fst oc = Pass \<Longrightarrow> backed inp"
  by (auto simp: increase_def backed_def split: option.splits dest!: run_held_pass dest: both_verified)

lemma pull_request_pass:
  assumes "pull_request inp limit = Inr oc" "fst oc = Pass"
  shows "backed inp"
  using assms
  by (auto simp: pull_request_def backed_def result_eqs broken_no_pass split: option.splits if_splits
      dest!: kept_pass dest: both_verified)

lemma allowlist_pass:
  assumes "fst (allowlist inp) = Pass"
  shows "backed inp \<and> fst (pi_model_rows inp) \<le> 0 \<and> snd (pi_model_rows inp) \<le> 0"
  using assms
  by (auto simp: allowlist_def backed_def broken_no_pass split: if_splits dest!: kept_pass)

definition pass_backed :: "pack_input \<Rightarrow> result \<Rightarrow> bool" where
  "pass_backed inp r \<longleftrightarrow> (re_Outcome r = Pass \<longrightarrow> backed inp \<and> re_Rule r \<in> set measuredRules)"

lemma rules_measured:
  "RuleRunBudget \<in> set measuredRules" "RuleRunCostThreshold \<in> set measuredRules" "RuleRunIncrease \<in> set measuredRules"
  "RuleRunIncreasePercent \<in> set measuredRules" "RulePullRequestBudget \<in> set measuredRules"
  "RuleModelAllowlist \<in> set measuredRules"
  by (simp_all add: measuredRules_def runCostRules_def)

lemma pack_result_fields [simp]:
  "re_Rule (pack_result rule usd p oc) = rule" "re_Outcome (pack_result rule usd p oc) = fst oc"
  "re_Reason (pack_result rule usd p oc) = fst (snd oc)" "re_HeldByWarnOnly (pack_result rule usd p oc) = snd (snd oc)"
  by (simp_all add: pack_result_def)

lemma budget_result_backed:
  assumes "budget_result inp rule key = Inr rs" "rule \<in> set measuredRules"
  shows "list_all (pass_backed inp) rs"
  using assms
  by (auto simp: budget_result_def pass_backed_def backed_def result_eqs split: option.splits dest!: run_held_pass)

lemma increase_results_backed:
  "increase_result inp = Inr rs \<Longrightarrow> list_all (pass_backed inp) rs"
  "percent_result inp = Inr rs \<Longrightarrow> list_all (pass_backed inp) rs"
  by (auto simp: increase_result_def percent_result_def pass_backed_def rules_measured result_eqs
      split: option.splits dest: increase_pass)

lemma pull_request_result_backed: "pull_request_result inp = Inr rs \<Longrightarrow> list_all (pass_backed inp) rs"
  by (auto simp: pull_request_result_def pass_backed_def rules_measured result_eqs
      split: option.splits dest: pull_request_pass)

lemma other_results_backed:
  "list_all (pass_backed inp) (monthly_result inp)" "list_all (pass_backed inp) (allowlist_result inp)"
  "list_all (pass_backed inp) (attribution_result inp)"
  using allowlist_pass [of inp]
  by (auto simp: monthly_result_def allowlist_result_def attribution_result_def pass_backed_def rules_measured
      split: option.splits)

lemma pack_results_backed: "pack_results inp = Inr rs \<Longrightarrow> list_all (pass_backed inp) rs"
  by (auto simp: pack_results_def result_eqs other_results_backed budget_result_backed increase_results_backed
      pull_request_result_backed rules_measured)

section \<open>One evaluation\<close>

text \<open>The settings the pack reads, and the results of the rules it was not asked.\<close>

definition scoped :: "bool \<Rightarrow> policy_settings \<Rightarrow> policy_settings \<times> result list" where
  "scoped ledger s = (if ledger then withoutRunRules s else (s, []))"

definition period_of :: "policy_settings \<Rightarrow> policy_request \<Rightarrow> warn_only" where
  "period_of s q = endAtPullRequests (warnOnly (ps_Enforce s) (pq_Start q) (pq_At q)) (pq_MeasuredPullRequests q)"

definition input_of :: "bool \<Rightarrow> policy_settings \<Rightarrow> policy_request \<Rightarrow> pack_input" where
  "input_of ledger s q =
     packInput (pq_Usage q) (trusted (pq_Trust q)) (pq_Baseline q) (pq_Lifetime q) (fst (scoped ledger s))
       (wo_Active (period_of s q))"

definition unmeasured :: "policy_request \<Rightarrow> bool" where
  "unmeasured q \<longleftrightarrow> trusted (pq_Trust q) = TokenVerified \<and> measured (pq_Evidence q) = AgentCounts"

definition final_results :: "policy_request \<Rightarrow> result list \<Rightarrow> result list" where
  "final_results q rs = (if unmeasured q then snd (demoteUnmeasured rs) else rs)"

definition final_conclusion :: "policy_request \<Rightarrow> result list \<Rightarrow> result list \<Rightarrow> string" where
  "final_conclusion q rs withheld =
     (if pack_conclusion rs = Success \<and> (unmeasured q \<and> fst (demoteUnmeasured (rs @ withheld)) \<or> withheld \<noteq> [])
      then Neutral else pack_conclusion rs)"

lemma evaluation_read:
  assumes settings: "config_settings (pe_parse_yaml env) (pe_decode_int env) (pq_Config q) = Inr s"
    and ok: "evaluateScoped env q ledger = Inr v"
  obtains rs where "pack_results (input_of ledger s q) = Inr rs"
    and "ve_WarnOnly v = period_of s q" and "ve_problem v = None"
    and "ve_Results v = annotate (final_results q (rs @ snd (scoped ledger s)))
      (q\<lparr>pq_Trust := trusted (pq_Trust q)\<rparr>) (fst (scoped ledger s))"
    and "ve_Conclusion v = final_conclusion q rs (snd (scoped ledger s))"
proof -
  let ?q = "q\<lparr>pq_Trust := trusted (pq_Trust q)\<rparr>"
  let ?v = "base_verdict env ?q ledger (Inr s)"
  have base: "ve_WarnOnly ?v = period_of s q" "ve_problem ?v = None"
    by (simp_all add: base_verdict_def period_of_def)
  have eq: "evaluateScoped env q ledger =
      rmap (conclude ?q (fst (scoped ledger s)) (snd (scoped ledger s)) ?v) (evaluatePack (input_of ledger s q))"
    using settings
    by (simp add: evaluateScoped_def Let_def case_prod_beta scoped_def [symmetric] input_of_def base)
  obtain rs where rs: "pack_results (input_of ledger s q) = Inr rs"
    and v: "v = conclude ?q (fst (scoped ledger s)) (snd (scoped ledger s)) ?v
      \<lparr>pa_Conclusion = pack_conclusion rs, pa_Results = rs\<rparr>"
    using ok by (auto simp: eq evaluatePack_eq result_eqs)
  have "ve_WarnOnly v = period_of s q" "ve_problem v = None"
    unfolding v conclude_def by (simp_all add: base Let_def)
  moreover have "ve_Results v = annotate (final_results q (rs @ snd (scoped ledger s))) ?q (fst (scoped ledger s))"
    unfolding v conclude_def by (simp add: final_results_def unmeasured_def Let_def)
  moreover have "ve_Conclusion v = final_conclusion q rs (snd (scoped ledger s))"
    unfolding v conclude_def by (auto simp: final_conclusion_def unmeasured_def Let_def)
  ultimately show ?thesis using rs that by blast
qed

lemma evaluation_unread:
  assumes "config_settings (pe_parse_yaml env) (pe_decode_int env) (pq_Config q) = Inl e"
    and "evaluateScoped env q ledger = Inr v"
  shows "ve_Conclusion v = Neutral \<and> ve_Results v = [] \<and> ve_problem v = Some e"
  using assms by (auto simp: evaluateScoped_def base_verdict_def Let_def)

text \<open>Ordering and annotating results keeps their rules and outcomes.\<close>

definition stated :: "result \<Rightarrow> string \<times> string \<times> string \<times> bool" where
  "stated r = (re_Rule r, re_Outcome r, re_Reason r, re_HeldByWarnOnly r)"

lemma annotate_one: "stated (annotate_baseline q (annotate_cost q s r)) = stated r"
  by (simp add: stated_def annotate_baseline_def annotate_cost_def case_prod_beta Let_def split: option.split)

lemma annotate_mset: "mset (map stated (annotate rs q s)) = mset (map stated rs)"
proof -
  have "map stated (annotate rs q s) = map stated (sort_key (\<lambda>r. rule_index (re_Rule r)) rs)"
    by (simp add: annotate_def annotate_one)
  then show ?thesis by simp
qed

lemma annotate_set: "stated ` set (annotate rs q s) = stated ` set rs"
  using arg_cong [OF annotate_mset, of set_mset] by simp

lemma annotate_Nil [simp]: "annotate rs q s = [] \<longleftrightarrow> rs = []"
  using annotate_set [of rs q s] by auto

lemma annotate_all:
  "list_all P (map stated (annotate rs q s)) \<longleftrightarrow> list_all P (map stated rs)"
  using annotate_set [of rs q s] by (simp add: list_all_iff)

lemma annotate_in: "r \<in> set rs \<Longrightarrow> \<exists>r'\<in>set (annotate rs q s). stated r' = stated r"
proof -
  assume "r \<in> set rs"
  then have "stated r \<in> stated ` set (annotate rs q s)" unfolding annotate_set by blast
  then show ?thesis by auto
qed

lemma annotate_sorted: "sorted (map (\<lambda>r. rule_index (re_Rule r)) (annotate rs q s))"
proof -
  have "re_Rule (annotate_baseline q (annotate_cost q s r)) = re_Rule r" for r
    using annotate_one [of q s r] by (simp add: stated_def)
  then have "map (\<lambda>r. rule_index (re_Rule r)) (annotate rs q s) =
      map (\<lambda>r. rule_index (re_Rule r)) (sort_key (\<lambda>r. rule_index (re_Rule r)) rs)"
    by (simp add: annotate_def)
  then show ?thesis by simp
qed

text \<open>The amounts a request carries.\<close>

definition plain_request :: "policy_request \<Rightarrow> bool" where
  "plain_request q \<longleftrightarrow> plain_usage (pq_Usage q) \<and> plain_baseline (pq_Baseline q) \<and> plain_lifetime (pq_Lifetime q)"

lemma config_plain:
  "config_settings parse_yaml decode_int c = Inr s \<Longrightarrow> plain_settings s"
  by (auto simp: config_settings_def plain_settings_def split: option.splits dest: parse_settings_plain)

lemma withhold_amounts: "ps_Amounts (fst (withhold s rks)) k = Some d \<Longrightarrow> ps_Amounts s k = Some d"
proof (induction s rks rule: withhold.induct)
  case (1 s)
  then show ?case by simp
next
  case (2 s rule key rks)
  then show ?case by (cases "ps_Amounts s key") (auto simp: case_prod_beta split: if_splits)
qed

lemma withhold_frame:
  "ps_Models (fst (withhold s rks)) = ps_Models s"
  "k \<notin> snd ` set rks \<Longrightarrow> ps_Amounts (fst (withhold s rks)) k = ps_Amounts s k"
proof (induction s rks rule: withhold.induct)
  case (1 s)
  {
    case 1
    then show ?case by simp
  next
    case 2
    then show ?case by simp
  }
next
  case (2 s rule key rks)
  {
    case 1
    then show ?case using 2 by (cases "ps_Amounts s key") (simp_all add: case_prod_beta)
  next
    case 2
    then show ?case using "2.IH" by (cases "ps_Amounts s key") (simp_all add: case_prod_beta)
  }
qed

lemma scoped_plain: "plain_settings s \<Longrightarrow> plain_settings (fst (scoped ledger s))"
  by (auto simp: plain_settings_def scoped_def withoutRunRules_def dest: withhold_amounts)

lemma pack_conclusion_cases:
  "pack_conclusion rs = Failure \<longleftrightarrow> list_ex (\<lambda>r. re_Outcome r = Fail) rs"
  "pack_conclusion rs = Success \<longleftrightarrow> rs \<noteq> [] \<and> list_all (\<lambda>r. re_Outcome r = Pass) rs"
  by (auto simp: pack_conclusion_def list_ex_iff list_all_iff)

lemma final_conclusion_success:
  assumes "final_conclusion q rs withheld = Success" "pack_results inp = Inr rs"
  shows "\<not> unmeasured q \<and> withheld = [] \<and> rs \<noteq> [] \<and> list_all (\<lambda>r. re_Outcome r = Pass) rs"
proof -
  have rs: "pack_conclusion rs = Success" "\<not> (unmeasured q \<and> fst (demoteUnmeasured (rs @ withheld)))" "withheld = []"
    using assms(1) by (auto simp: final_conclusion_def split: if_splits)
  then have pass: "rs \<noteq> []" "list_all (\<lambda>r. re_Outcome r = Pass) rs"
    by (simp_all add: pack_conclusion_cases)
  then have "list_ex demoted rs"
    using pack_results_backed [OF assms(2)]
    by (cases rs) (simp_all add: pass_backed_def demoted_def)
  then have "fst (demoteUnmeasured (rs @ withheld))" by (simp add: demoteUnmeasured_def)
  then show ?thesis using rs pass by blast
qed

lemma trusted_verified: "trusted t = TokenVerified \<longleftrightarrow> t = TokenVerified"
  by (simp add: trusted_def)

lemma measured_counted: "measured e = AgentCounts \<longleftrightarrow> e \<notin> {GatewayMeasured, Reconciled}"
  by (auto simp: measured_def)

section \<open>What a passing rule proves\<close>

lemma in_pack_results:
  assumes "pack_results inp = Inr rs"
  shows "\<exists>r1 r2 r3 r4 r5. budget_result inp RuleRunBudget keyRunBudget = Inr r1 \<and>
    budget_result inp RuleRunCostThreshold keyMaxRunCost = Inr r2 \<and> increase_result inp = Inr r3 \<and>
    percent_result inp = Inr r4 \<and> pull_request_result inp = Inr r5 \<and>
    rs = r1 @ r2 @ r3 @ r4 @ r5 @ monthly_result inp @ allowlist_result inp @ attribution_result inp"
  using assms by (auto simp: pack_results_def result_eqs)

definition budget_rules :: "(string \<times> string) list" where
  "budget_rules = [(RuleRunBudget, keyRunBudget), (RuleRunCostThreshold, keyMaxRunCost)]"

lemma budget_in_results:
  assumes "pack_results inp = Inr rs" "(rule, key) \<in> set budget_rules" "pi_settings inp key = Some limit"
  shows "\<exists>oc. run_held inp limit ''over_limit'' (pi_trust inp) = Inr oc \<and> pack_result rule limit [] oc \<in> set rs"
proof -
  have "\<exists>b. budget_result inp rule key = Inr b \<and> set b \<subseteq> set rs"
    using in_pack_results [OF assms(1)] assms(2) by (auto simp: budget_rules_def)
  then show ?thesis using assms(3) by (auto simp: budget_result_def result_eqs)
qed

lemma increase_in_results:
  assumes "pack_results inp = Inr rs" "pi_settings inp keyMaxIncrease = Some limit"
  shows "\<exists>oc. increase inp keyMaxIncrease = Inr oc \<and> pack_result RuleRunIncrease limit [] oc \<in> set rs"
  using in_pack_results [OF assms(1)] assms(2) by (auto simp: increase_result_def result_eqs)

lemma percent_in_results:
  assumes "pack_results inp = Inr rs" "pi_settings inp keyMaxIncreasePercent = Some limit"
  shows "\<exists>oc. increase inp keyMaxIncreasePercent = Inr oc \<and> pack_result RuleRunIncreasePercent [] limit oc \<in> set rs"
  using in_pack_results [OF assms(1)] assms(2) by (auto simp: percent_result_def result_eqs)

lemma pull_request_in_results:
  assumes "pack_results inp = Inr rs" "pi_settings inp keyPullRequestBudget = Some limit"
  shows "\<exists>oc. pull_request inp limit = Inr oc \<and> pack_result RulePullRequestBudget limit [] oc \<in> set rs"
  using in_pack_results [OF assms(1)] assms(2) by (auto simp: pull_request_result_def result_eqs)

lemma allowlist_in_results:
  assumes "pack_results inp = Inr rs" "pi_models inp"
  shows "pack_result RuleModelAllowlist [] [] (allowlist inp) \<in> set rs"
  using in_pack_results [OF assms(1)] assms(2) by (auto simp: allowlist_result_def)

text \<open>The largest cost each rule allows, as the settings and the baseline state it.\<close>

definition held_to :: "policy_request \<Rightarrow> policy_settings \<Rightarrow> bool" where
  "held_to q s \<longleftrightarrow>
     (\<forall>rule key limit. (rule, key) \<in> set budget_rules \<longrightarrow> ps_Amounts s key = Some limit \<longrightarrow>
        dval (fst (usage_usd (pq_Usage q))) \<le> dval limit) \<and>
     (\<forall>key. key \<in> {keyMaxIncrease, keyMaxIncreasePercent} \<longrightarrow> ps_Amounts s key \<noteq> None \<longrightarrow>
        (\<exists>b limit. pq_Baseline q = Some b \<and> usable_baseline b \<and> bl_Trust b = TokenVerified \<and>
           increase_limit b s key = Some limit \<and> dval (fst (usage_usd (pq_Usage q))) \<le> dval limit)) \<and>
     (\<forall>limit. ps_Amounts s keyPullRequestBudget = Some limit \<longrightarrow>
        (\<exists>l. pq_Lifetime q = Some l \<and> \<not> lf_MayRepeat l \<and> \<not> lf_OtherCurrency l \<and> lf_Trust l = TokenVerified \<and>
           dval (lifetime_total l (pq_Usage q)) \<le> dval limit)) \<and>
     (ps_Models s \<noteq> [] \<longrightarrow>
        fst (modelRows (pq_Usage q) s) \<le> 0 \<and> fst (snd (modelRows (pq_Usage q) s)) \<le> 0)"

lemma both_all_verified: "both inp (trusted t) = TokenVerified \<Longrightarrow> t = TokenVerified"
  by (simp add: both_def trusted_def split: if_splits)

lemma all_pass_held:
  assumes rs: "pack_results (packInput (pq_Usage q) t (pq_Baseline q) (pq_Lifetime q) s w) = Inr rs"
    and pass: "list_all (\<lambda>r. re_Outcome r = Pass) rs"
    and plain: "plain_request q" "plain_settings s"
  shows "held_to q s"
proof -
  let ?inp = "packInput (pq_Usage q) t (pq_Baseline q) (pq_Lifetime q) s w"
  let ?u = "pq_Usage q"
  have u: "plain_usage ?u" "plain_baseline (pq_Baseline q)" "plain_lifetime (pq_Lifetime q)"
    using plain by (simp_all add: plain_request_def)
  have passed: "fst oc = Pass" if "pack_result rule usd p oc \<in> set rs" for rule usd p oc
    using pass that by (auto simp: list_all_iff)
  have under: "dval (fst (usage_usd ?u)) \<le> dval limit \<and> t' = TokenVerified"
    if "run_held ?inp (String limit) reason t' = Inr oc" "fst oc = Pass" "plain_amount limit" for limit reason t' oc
    using run_held_pass [OF that(1,2)] over_exact [OF u(1) that(3)] by auto
  have budgets: "dval (fst (usage_usd ?u)) \<le> dval limit"
    if "(rule, key) \<in> set budget_rules" "ps_Amounts s key = Some limit" for rule key limit
  proof -
    have "pi_settings ?inp key = Some (String limit)" using that(2) by simp
    from budget_in_results [OF rs that(1) this] obtain oc
      where "run_held ?inp (String limit) ''over_limit'' (pi_trust ?inp) = Inr oc" "fst oc = Pass"
      using passed by blast
    then show ?thesis using under plain_setting [OF plain(2) that(2)] by blast
  qed
  have increased: "\<exists>b limit. pq_Baseline q = Some b \<and> usable_baseline b \<and> bl_Trust b = TokenVerified \<and>
      increase_limit b s key = Some limit \<and> dval (fst (usage_usd ?u)) \<le> dval limit"
    if oc: "increase ?inp key = Inr oc" "fst oc = Pass" for key oc
  proof -
    note exact = increase_exact [OF u(1) plain(2) u(2), of t "pq_Lifetime q" w key]
    obtain b where b: "pq_Baseline q = Some b" "usable_baseline b"
      using oc by (auto simp: increase_exact [OF u(1) plain(2) u(2)] split: option.splits if_splits)
    then obtain limit where limit: "increase_limit b s key = Some limit"
      and held: "run_held ?inp (String limit) ''over_baseline'' (both ?inp (trusted (bl_Trust b))) = Inr oc"
      using oc exact by (auto split: option.splits)
    have "wf_decimal (bl_MedianUSD b)" using u(2) b(1) by (simp add: plain_baseline_def)
    then have "plain_amount limit" using increase_limit_plain [OF b(2) _ plain(2) limit] by simp
    then show ?thesis using under [OF held oc(2)] b limit both_all_verified by blast
  qed
  have pr: "\<exists>l. pq_Lifetime q = Some l \<and> \<not> lf_MayRepeat l \<and> \<not> lf_OtherCurrency l \<and> lf_Trust l = TokenVerified \<and>
      dval (lifetime_total l ?u) \<le> dval limit"
    if limit: "ps_Amounts s keyPullRequestBudget = Some limit" for limit
  proof -
    have "pi_settings ?inp keyPullRequestBudget = Some (String limit)" using limit by simp
    from pull_request_in_results [OF rs this] obtain oc
      where oc: "pull_request ?inp (String limit) = Inr oc" "fst oc = Pass"
      using passed by blast
    note exact = pull_request_exact [OF u(1,3) plain_setting [OF plain(2) limit], of t "pq_Baseline q" s w]
    obtain l where l: "pq_Lifetime q = Some l" "\<not> lf_MayRepeat l" "\<not> dval limit < dval (lifetime_total l ?u)"
      and k: "fst (kept ?inp (both ?inp (trusted (lf_Trust l)))
        (if lf_OtherCurrency l then (Unproven, ''other_currency'', False) else within_limit ?inp)) = Pass"
      using oc exact by (auto simp: broken_no_pass split: option.splits if_splits)
    then show ?thesis using kept_pass [OF k] both_all_verified by (auto simp: not_less split: if_splits)
  qed
  have models: "fst (modelRows ?u s) \<le> 0 \<and> fst (snd (modelRows ?u s)) \<le> 0" if "ps_Models s \<noteq> []"
  proof -
    have "pi_models ?inp" using that by simp
    from passed [OF allowlist_in_results [OF rs this]] have "fst (allowlist ?inp) = Pass" by simp
    from allowlist_pass [OF this] show ?thesis by (simp add: packInput_def case_prod_beta)
  qed
  show ?thesis
    unfolding held_to_def
  proof (intro conjI allI impI)
    fix key assume key: "key \<in> {keyMaxIncrease, keyMaxIncreasePercent}" "ps_Amounts s key \<noteq> None"
    then obtain limit where "pi_settings ?inp key = Some (String limit)" by auto
    then have "\<exists>oc. increase ?inp key = Inr oc \<and> fst oc = Pass"
      using key(1) increase_in_results [OF rs] percent_in_results [OF rs] passed by blast
    then show "\<exists>b limit. pq_Baseline q = Some b \<and> usable_baseline b \<and> bl_Trust b = TokenVerified \<and>
        increase_limit b s key = Some limit \<and> dval (fst (usage_usd ?u)) \<le> dval limit"
      using increased by blast
  qed (use budgets pr models in blast)+
qed

section \<open>Properties\<close>

text \<open>
  C11. Success is earned. A check concludes success only on rows a ledger verified against the job's
  token, whose spend a gateway or a provider measured, with every row attributed, with settings that
  could be read, and with every limit those settings state kept exactly: the run's USD cost within
  each run budget and within the baseline's increase, the pull request's total within its budget on
  an unrepeated verified lifetime in dollars only, and no row outside the model allowlist.
\<close>

theorem success_is_earned:
  assumes "Evaluate env q = Inr v" and "ve_Conclusion v = Success" and "plain_request q"
  shows "pq_Trust q = TokenVerified \<and> pq_Evidence q \<in> {GatewayMeasured, Reconciled} \<and>
    us_Rows (pq_Usage q) \<noteq> 0 \<and> sum_list (map cu_UnattributedRows (us_Currencies (pq_Usage q))) \<le> 0 \<and>
    ve_Results v \<noteq> [] \<and> list_all (\<lambda>r. re_Outcome r = Pass) (ve_Results v) \<and>
    (\<exists>s. config_settings (pe_parse_yaml env) (pe_decode_int env) (pq_Config q) = Inr s \<and> held_to q s)"
proof (cases "config_settings (pe_parse_yaml env) (pe_decode_int env) (pq_Config q)")
  case (Inl e)
  then show ?thesis
    using evaluation_unread [where q = q and ledger = False and v = v, OF Inl] assms(1,2) by (simp add: Evaluate_def)
next
  case (Inr s)
  obtain rs where rs: "pack_results (input_of False s q) = Inr rs"
    and results: "ve_Results v = annotate (final_results q (rs @ [])) (q\<lparr>pq_Trust := trusted (pq_Trust q)\<rparr>) s"
    and "ve_Conclusion v = final_conclusion q rs []"
    using evaluation_read [where q = q and ledger = False and v = v, OF Inr] assms(1) by (auto simp: Evaluate_def scoped_def)
  then have "final_conclusion q rs [] = Success" using assms(2) by simp
  from final_conclusion_success [OF this rs]
  have pass: "\<not> unmeasured q" "rs \<noteq> []" "list_all (\<lambda>r. re_Outcome r = Pass) rs" by simp_all
  have inp: "input_of False s q = packInput (pq_Usage q) (trusted (pq_Trust q)) (pq_Baseline q) (pq_Lifetime q) s
      (wo_Active (period_of s q))"
    by (simp add: input_of_def scoped_def)
  have "backed (input_of False s q)"
    using pack_results_backed [OF rs] pass(2,3) by (cases rs) (simp_all add: pass_backed_def)
  then have backed: "pq_Trust q = TokenVerified" "us_Rows (pq_Usage q) \<noteq> 0"
    "sum_list (map cu_UnattributedRows (us_Currencies (pq_Usage q))) \<le> 0"
    by (simp_all add: backed_def inp trusted_verified pack_total_def packInput_def comp_def usage_input_def)
  have "pq_Evidence q \<in> {GatewayMeasured, Reconciled}"
    using pass(1) backed(1) measured_counted [of "pq_Evidence q"] by (auto simp: unmeasured_def trusted_verified)
  moreover have "ve_Results v = annotate rs (q\<lparr>pq_Trust := trusted (pq_Trust q)\<rparr>) s"
    using results pass(1) by (simp add: final_results_def)
  moreover have "list_all (\<lambda>r. re_Outcome r = Pass) (annotate rs q' s)" for q'
    using annotate_all [of "\<lambda>x. fst (snd x) = Pass" rs q' s] pass(3) by (simp add: stated_def list.pred_map comp_def)
  moreover have "held_to q s"
    using all_pass_held [OF rs [unfolded inp] pass(3) assms(3) config_plain [OF Inr]] .
  ultimately show ?thesis using backed pass(2) Inr by simp
qed

text \<open>
  A cost over a budget always shows. Whoever vouches for the rows and whatever stands behind
  their spend, a run whose USD cost is over a run budget or the run cost threshold has that rule's
  result read over the limit: a failure, or a warning held by the warn-only period while it runs.
  The check then fails, or at the least does not succeed.
\<close>

theorem over_budget_always_shows:
  assumes "Evaluate env q = Inr v" and "plain_request q"
    and "config_settings (pe_parse_yaml env) (pe_decode_int env) (pq_Config q) = Inr s"
    and "(rule, key) \<in> set budget_rules" and "ps_Amounts s key = Some limit"
    and "dval limit < dval (fst (usage_usd (pq_Usage q)))"
  shows "(\<exists>r\<in>set (ve_Results v). re_Rule r = rule \<and> re_Reason r = ''over_limit'' \<and>
      re_Outcome r = (if wo_Active (ve_WarnOnly v) then Warn else Fail) \<and>
      re_HeldByWarnOnly r = wo_Active (ve_WarnOnly v)) \<and>
    ve_Conclusion v \<noteq> Success \<and> (\<not> wo_Active (ve_WarnOnly v) \<longrightarrow> ve_Conclusion v = Failure)"
proof -
  obtain rs where rs: "pack_results (input_of False s q) = Inr rs"
    and period: "ve_WarnOnly v = period_of s q"
    and results: "ve_Results v = annotate (final_results q (rs @ [])) (q\<lparr>pq_Trust := trusted (pq_Trust q)\<rparr>) s"
    and concl: "ve_Conclusion v = final_conclusion q rs []"
    using evaluation_read [where q = q and ledger = False and v = v, OF assms(3)] assms(1) by (auto simp: Evaluate_def scoped_def)
  let ?inp = "input_of False s q"
  let ?oc = "broken ?inp ''over_limit''"
  have inp: "?inp = packInput (pq_Usage q) (trusted (pq_Trust q)) (pq_Baseline q) (pq_Lifetime q) s
      (wo_Active (period_of s q))"
    by (simp add: input_of_def scoped_def)
  have plain: "plain_usage (pq_Usage q)" "plain_amount limit"
    using assms(2) plain_setting [OF config_plain [OF assms(3)] assms(5)] by (simp_all add: plain_request_def)
  have oc: "?oc = (if wo_Active (ve_WarnOnly v) then (Warn, ''over_limit'', True) else (Fail, ''over_limit'', False))"
    by (simp add: broken_def inp period)
  have "pi_settings ?inp key = Some (String limit)" using assms(5) by (simp add: inp)
  from budget_in_results [OF rs assms(4) this]
  have r: "pack_result rule (String limit) [] ?oc \<in> set rs"
    unfolding inp using run_held_exact [OF plain] assms(6) by auto
  have no_pass: "fst ?oc \<noteq> Pass" by (rule broken_no_pass)
  have "pack_result rule (String limit) [] ?oc \<in> set (final_results q (rs @ []))"
    using r no_pass by (auto simp: final_results_def demoteUnmeasured_def demoted_def image_iff)
  from annotate_in [OF this]
  obtain r' where r': "r' \<in> set (ve_Results v)" "stated r' = stated (pack_result rule (String limit) [] ?oc)"
    unfolding results by blast
  have "re_Rule r' = rule \<and> re_Reason r' = ''over_limit'' \<and>
      re_Outcome r' = (if wo_Active (ve_WarnOnly v) then Warn else Fail) \<and>
      re_HeldByWarnOnly r' = wo_Active (ve_WarnOnly v)"
    using r'(2) by (simp add: stated_def oc split: if_splits)
  moreover have "ve_Conclusion v \<noteq> Success"
  proof
    assume "ve_Conclusion v = Success"
    then have "list_all (\<lambda>r. re_Outcome r = Pass) rs"
      using final_conclusion_success [OF _ rs] concl by simp
    then show False using r no_pass by (auto simp: list_all_iff)
  qed
  moreover have "ve_Conclusion v = Failure" if "\<not> wo_Active (ve_WarnOnly v)"
  proof -
    have "list_ex (\<lambda>r. re_Outcome r = Fail) rs"
      using r that oc by (auto simp: list_ex_iff intro!: bexI [of _ "pack_result rule (String limit) [] ?oc"])
    then have "pack_conclusion rs = Failure" by (simp add: pack_conclusion_cases)
    then show ?thesis by (simp add: concl final_conclusion_def)
  qed
  ultimately show ?thesis using r'(1) by blast
qed

text \<open>The two reasons a ledger's answer adds to the pack's.\<close>

definition ledger_reasons :: "string list" where
  "ledger_reasons = reasons @ [''unmeasured_spend'', ''no_run_rows'']"

definition in_words :: "string \<times> string \<times> string \<times> bool \<Rightarrow> bool" where
  "in_words x \<longleftrightarrow>
     fst x \<in> set ruleOrder \<and> fst (snd x) \<in> set outcomes \<and> fst (snd (snd x)) \<in> set ledger_reasons"

lemma ruled_in_words: "ruled r \<Longrightarrow> in_words (stated r)"
  by (simp add: ruled_def in_words_def stated_def ledger_reasons_def)

lemma withheld_in_words:
  "fst ` set rks \<subseteq> set ruleOrder \<Longrightarrow> list_all (\<lambda>r. in_words (stated r) \<and> re_Outcome r = Unproven) (snd (withhold s rks))"
proof (induction s rks rule: withhold.induct)
  case (1 s)
  then show ?case by simp
next
  case (2 s rule key rks)
  have "in_words (stated (withheld_result rule d)) \<and> re_Outcome (withheld_result rule d) = Unproven" for d
    using "2.prems" by (simp add: in_words_def stated_def withheld_result_def outcomes_def ledger_reasons_def)
  then show ?case using 2 by (cases "ps_Amounts s key") (simp_all add: case_prod_beta)
qed

lemma scoped_in_words: "list_all (\<lambda>r. in_words (stated r) \<and> re_Outcome r = Unproven) (snd (scoped ledger s))"
proof -
  have "fst ` set runRuleKeys \<subseteq> set ruleOrder" by (simp add: runRuleKeys_def ruleOrder_def)
  then show ?thesis by (simp add: scoped_def withoutRunRules_def withheld_in_words)
qed

lemma final_results_in_words:
  "list_all (\<lambda>r. in_words (stated r)) rs \<Longrightarrow> list_all (\<lambda>r. in_words (stated r)) (final_results q rs)"
proof -
  have "in_words (stated r) \<Longrightarrow> in_words (stated (r\<lparr>re_Outcome := Unproven, re_Reason := ''unmeasured_spend''\<rparr>))" for r
    by (simp add: in_words_def stated_def outcomes_def ledger_reasons_def)
  then show "list_all (\<lambda>r. in_words (stated r)) rs \<Longrightarrow> list_all (\<lambda>r. in_words (stated r)) (final_results q rs)"
    by (auto simp: final_results_def demoteUnmeasured_def list_all_iff)
qed

lemma final_results_fail:
  "list_ex (\<lambda>r. re_Outcome r = Fail) (final_results q rs) \<longleftrightarrow> list_ex (\<lambda>r. re_Outcome r = Fail) rs"
  by (auto simp: final_results_def demoteUnmeasured_def demoted_def list_ex_iff split: if_splits)

lemma warn_only_no_fail:
  assumes "pack_results inp = Inr rs" "pi_warn_only inp"
  shows "list_all (\<lambda>r. re_Outcome r \<noteq> Fail) rs"
proof -
  have b: "fst (broken inp reason) \<noteq> Fail" for reason
    using assms(2) by (simp add: broken_def)
  have k: "fst (kept inp t oc) \<noteq> Fail" if "fst oc \<noteq> Fail" for t oc
    using that by (simp add: kept_def)
  have w: "fst (within_limit inp) \<noteq> Fail" by (simp add: within_limit_def)
  have held: "fst oc \<noteq> Fail" if "run_held inp limit reason t = Inr oc" for limit reason t oc
    using that b k [OF w] by (auto simp: run_held_def result_eqs split: if_splits)
  have inc: "fst oc \<noteq> Fail" if "increase inp key = Inr oc" for key oc
    using that held by (auto simp: increase_def split: option.splits)
  have pr: "fst oc \<noteq> Fail" if "pull_request inp limit = Inr oc" for limit oc
    using that b k k [OF w] by (auto simp: pull_request_def pull_request_within_def result_eqs split: option.splits if_splits)
  have al: "fst (allowlist inp) \<noteq> Fail" using b k by (simp add: allowlist_def)
  have "list_all (\<lambda>r. re_Outcome r \<noteq> Fail) rs1" if "budget_result inp rule key = Inr rs1" for rule key rs1
    using that held by (auto simp: budget_result_def result_eqs split: option.splits)
  moreover have "list_all (\<lambda>r. re_Outcome r \<noteq> Fail) rs1"
    if "increase_result inp = Inr rs1 \<or> percent_result inp = Inr rs1 \<or> pull_request_result inp = Inr rs1" for rs1
    using that inc pr
    by (auto simp: increase_result_def percent_result_def pull_request_result_def result_eqs split: option.splits)
  moreover have "list_all (\<lambda>r. re_Outcome r \<noteq> Fail) (monthly_result inp)"
      "list_all (\<lambda>r. re_Outcome r \<noteq> Fail) (allowlist_result inp)"
      "list_all (\<lambda>r. re_Outcome r \<noteq> Fail) (attribution_result inp)"
    using al by (auto simp: monthly_result_def allowlist_result_def attribution_result_def split: option.split)
  ultimately show ?thesis
    using in_pack_results [OF assms(1)] by auto
qed

text \<open>
  C12. An evaluation always answers, in the words a comment renders. On a request whose amounts are
  plain decimals the pack never stops on an error and its answer is never refused: there is a
  verdict, its results stand in the rule order with a known rule, outcome and reason each, it fails
  exactly when some rule fails, and no rule fails while the warn-only period runs.
\<close>

theorem evaluation_answers_in_its_words:
  assumes "plain_request q"
  shows "\<exists>v. evaluateScoped env q ledger = Inr v \<and>
    ve_Conclusion v \<in> {Success, Neutral, Failure} \<and>
    sorted (map (\<lambda>r. rule_index (re_Rule r)) (ve_Results v)) \<and>
    list_all (\<lambda>r. re_Rule r \<in> set ruleOrder \<and> re_Outcome r \<in> set outcomes \<and> re_Reason r \<in> set ledger_reasons)
      (ve_Results v) \<and>
    (ve_Conclusion v = Failure \<longleftrightarrow> list_ex (\<lambda>r. re_Outcome r = Fail) (ve_Results v)) \<and>
    (ve_Conclusion v = Failure \<longrightarrow> \<not> wo_Active (ve_WarnOnly v))"
proof (cases "config_settings (pe_parse_yaml env) (pe_decode_int env) (pq_Config q)")
  case (Inl e)
  then obtain v where v: "evaluateScoped env q ledger = Inr v" by (simp add: evaluateScoped_def Let_def)
  then show ?thesis using evaluation_unread [OF Inl v] by simp
next
  case (Inr s)
  have plain: "plain_usage (pq_Usage q)" "plain_baseline (pq_Baseline q)" "plain_lifetime (pq_Lifetime q)"
    using assms by (simp_all add: plain_request_def)
  have "is_ok (pack_results (input_of ledger s q))"
    unfolding input_of_def
    using pack_results_total [OF plain(1) scoped_plain [OF config_plain [OF Inr]] plain(2,3)] .
  then have "\<exists>v. evaluateScoped env q ledger = Inr v"
    using Inr by (auto simp: evaluateScoped_def Let_def case_prod_beta evaluatePack_eq input_of_def scoped_def
        base_verdict_def period_of_def is_ok_def split: sum.splits if_splits)
  then obtain v where v: "evaluateScoped env q ledger = Inr v" by blast
  obtain rs where rs: "pack_results (input_of ledger s q) = Inr rs"
    and period: "ve_WarnOnly v = period_of s q"
    and results: "ve_Results v = annotate (final_results q (rs @ snd (scoped ledger s)))
      (q\<lparr>pq_Trust := trusted (pq_Trust q)\<rparr>) (fst (scoped ledger s))"
    and concl: "ve_Conclusion v = final_conclusion q rs (snd (scoped ledger s))"
    using evaluation_read [OF Inr v] by blast
  let ?all = "final_results q (rs @ snd (scoped ledger s))"
  have "list_all (\<lambda>r. in_words (stated r)) (rs @ snd (scoped ledger s))"
    using pack_results_ruled [OF rs] scoped_in_words [of ledger s] by (auto simp: list_all_iff ruled_in_words)
  then have "list_all in_words (map stated ?all)"
    using final_results_in_words by (simp add: list.pred_map comp_def)
  then have "list_all in_words (map stated (ve_Results v))"
    unfolding results annotate_all .
  then have words: "list_all (\<lambda>r. re_Rule r \<in> set ruleOrder \<and> re_Outcome r \<in> set outcomes \<and>
      re_Reason r \<in> set ledger_reasons) (ve_Results v)"
    by (simp add: list.pred_map comp_def in_words_def stated_def)
  have fails: "list_ex (\<lambda>r. re_Outcome r = Fail) (ve_Results v) \<longleftrightarrow> list_ex (\<lambda>r. re_Outcome r = Fail) rs"
  proof -
    have ex: "list_ex (\<lambda>r. re_Outcome r = Fail) xs \<longleftrightarrow> (\<exists>x\<in>stated ` set xs. fst (snd x) = Fail)" for xs
      by (auto simp: list_ex_iff stated_def)
    have "list_ex (\<lambda>r. re_Outcome r = Fail) (ve_Results v) \<longleftrightarrow> list_ex (\<lambda>r. re_Outcome r = Fail) ?all"
      unfolding ex results annotate_set ..
    also have "\<dots> \<longleftrightarrow> list_ex (\<lambda>r. re_Outcome r = Fail) rs"
      unfolding final_results_fail using scoped_in_words [of ledger s] by (auto simp: list_ex_iff list_all_iff)
    finally show ?thesis .
  qed
  have failure: "ve_Conclusion v = Failure \<longleftrightarrow> list_ex (\<lambda>r. re_Outcome r = Fail) rs"
    by (auto simp: concl final_conclusion_def simp flip: pack_conclusion_cases(1))
  have "ve_Conclusion v \<in> {Success, Neutral, Failure}"
    by (simp add: concl final_conclusion_def pack_conclusion_def)
  moreover have "\<not> wo_Active (ve_WarnOnly v)" if "ve_Conclusion v = Failure"
  proof
    assume "wo_Active (ve_WarnOnly v)"
    then have "pi_warn_only (input_of ledger s q)" by (simp add: period input_of_def)
    from warn_only_no_fail [OF rs this] show False
      using that failure by (auto simp: list_all_iff list_ex_iff)
  qed
  ultimately show ?thesis
    using v words fails failure annotate_sorted unfolding results [symmetric]
    by (intro exI [of _ v] conjI impI) (simp_all add: results annotate_sorted)
qed

section \<open>Samples\<close>

text \<open>A run that cost 0.25 USD, held to a run budget of 1.50 USD or of 0.10 USD.\<close>

definition sample_env :: "string \<Rightarrow> policy_env" where
  "sample_env budget =
     \<lparr>pe_sha256 = (\<lambda>s. s), pe_pack = ''pack'',
      pe_parse_yaml = (\<lambda>_. Some (Some (YMapping ''!!map'' [(''policy'', YMapping ''!!map''
        [(keyRunBudget, YScalar ''!!str'' budget), (keyEnforce, YScalar ''!!bool'' ''true'')])]))),
      pe_decode_int = (\<lambda>_. None)\<rparr>"

definition sample_usage :: usage where
  "sample_usage =
     \<lparr>us_Rows = 1, us_Currencies =
        [\<lparr>cu_Currency = ''USD'', cu_ListCost = \<lparr>coefficient = Some 25, scale = 2\<rparr>, cu_Rows = 1,
          cu_UnattributedRows = 0, cu_JoinableRows = 0, cu_Models = [], cu_UnreadableModels = 0\<rparr>]\<rparr>"

definition sample_request :: policy_request where
  "sample_request =
     \<lparr>pq_Usage = sample_usage, pq_Trust = TokenVerified,
      pq_Config = \<lparr>cf_Data = ''data'', cf_Found = True, cf_Ref = [], cf_FromBase = True, cf_Unread = None\<rparr>,
      pq_Start = \<lparr>st_At = 0, st_NotOnBase = False\<rparr>, pq_At = 0, pq_Baseline = None, pq_Lifetime = None,
      pq_MeasuredPullRequests = 0, pq_Evidence = GatewayMeasured\<rparr>"

lemma sample_plain: "plain_request sample_request"
  by (simp add: plain_request_def sample_request_def sample_usage_def plain_usage_def plain_amount_def
      plain_baseline_def plain_lifetime_def wf_decimal_def dval_def)

definition concludes :: "policy_error + verdict \<Rightarrow> string \<Rightarrow> bool" where
  "concludes r c = (case r of Inl _ \<Rightarrow> False | Inr v \<Rightarrow> ve_Conclusion v = c)"

lemma sample_passes: "concludes (Evaluate (sample_env ''1.50'') sample_request) Success"
  by code_simp

lemma sample_over: "concludes (Evaluate (sample_env ''0.10'') sample_request) Failure"
  by code_simp

lemma sample_settings:
  "map_sum (\<lambda>_. ()) (\<lambda>s. ps_Amounts s keyRunBudget)
     (config_settings (pe_parse_yaml (sample_env ''0.10'')) (pe_decode_int (sample_env ''0.10'')) (pq_Config sample_request)) =
   Inr (Some \<lparr>coefficient = Some 1, scale = 1\<rparr>)"
  by code_simp

lemma concludes_eq: "concludes r c \<longleftrightarrow> (\<exists>v. r = Inr v \<and> ve_Conclusion v = c)"
  by (simp add: concludes_def split: sum.split)

theorem success_is_earned_witness:
  "\<exists>s. config_settings (pe_parse_yaml (sample_env ''1.50'')) (pe_decode_int (sample_env ''1.50''))
     (pq_Config sample_request) = Inr s \<and> held_to sample_request s"
proof -
  obtain v where "Evaluate (sample_env ''1.50'') sample_request = Inr v" "ve_Conclusion v = Success"
    using sample_passes unfolding concludes_eq by blast
  from success_is_earned [OF this sample_plain] show ?thesis by blast
qed

theorem over_budget_always_shows_witness:
  "\<exists>v. Evaluate (sample_env ''0.10'') sample_request = Inr v \<and>
     (\<exists>r\<in>set (ve_Results v). re_Rule r = RuleRunBudget \<and> re_Reason r = ''over_limit'')"
proof -
  obtain v where v: "Evaluate (sample_env ''0.10'') sample_request = Inr v"
    using sample_over unfolding concludes_eq by blast
  obtain s where s: "config_settings (pe_parse_yaml (sample_env ''0.10'')) (pe_decode_int (sample_env ''0.10''))
      (pq_Config sample_request) = Inr s"
    "ps_Amounts s keyRunBudget = Some \<lparr>coefficient = Some 1, scale = 1\<rparr>"
    using sample_settings
    by (cases "config_settings (pe_parse_yaml (sample_env ''0.10'')) (pe_decode_int (sample_env ''0.10''))
      (pq_Config sample_request)") simp_all
  have "(RuleRunBudget, keyRunBudget) \<in> set budget_rules" by (simp add: budget_rules_def)
  moreover have "dval \<lparr>coefficient = Some 1, scale = 1\<rparr> < dval (fst (usage_usd (pq_Usage sample_request)))"
    by (simp add: sample_request_def sample_usage_def usage_usd_def dval_def)
  ultimately show ?thesis
    using over_budget_always_shows [OF v sample_plain s(1) _ s(2)] v by blast
qed

theorem evaluation_answers_in_its_words_witness:
  "\<exists>v. evaluateScoped (sample_env ''1.50'') sample_request True = Inr v \<and>
     ve_Conclusion v \<in> {Success, Neutral, Failure}"
  using evaluation_answers_in_its_words [OF sample_plain, of "sample_env ''1.50''" True] by blast

section \<open>A pull request's rows in a ledger\<close>

lemma add_line_fields:
  "cu_Currency (add_line l e) = cu_Currency e"
  "cu_ListCost (add_line l e) = Add (cu_ListCost e) (ll_ListCost l)"
  by (simp_all add: add_line_def count_model_def)

lemmas ledger_entries =
  grouped_usage [where key = ll_Currency and upd = add_line, OF add_line_fields(1)]

lemma add_lines:
  assumes "plain_amount (cu_ListCost e)" "list_all (\<lambda>l. plain_amount (ll_ListCost l)) ls"
  shows "plain_amount (cu_ListCost (foldl (\<lambda>e l. add_line l e) e ls)) \<and>
    dval (cu_ListCost (foldl (\<lambda>e l. add_line l e) e ls)) =
      dval (cu_ListCost e) + sum_list (map (\<lambda>l. dval (ll_ListCost l)) ls) \<and>
    cu_Currency (foldl (\<lambda>e l. add_line l e) e ls) = cu_Currency e"
  using assms
proof (induction ls arbitrary: e)
  case Nil
  then show ?case by simp
next
  case (Cons l ls)
  have "plain_amount (cu_ListCost (add_line l e))"
    using Cons.prems by (simp add: add_line_fields plain_amount_def)
  from Cons.IH [OF this] show ?case
    using Cons.prems by (simp add: add_line_fields plain_amount_def)
qed

definition rows_usd :: "ledger_line list \<Rightarrow> rat" where
  "rows_usd ls = sum_list (map (\<lambda>l. dval (ll_ListCost l)) (filter (\<lambda>l. ll_Currency l = ''USD'') ls))"

lemma ledgerUsage_plain:
  assumes "list_all (\<lambda>l. plain_amount (ll_ListCost l)) ls"
  shows "plain_usage (ledgerUsage ls)" "dval (fst (usage_usd (ledgerUsage ls))) = rows_usd ls"
proof -
  let ?of = "\<lambda>c. foldl (\<lambda>e l. add_line l e) (new_currency c) (filter (\<lambda>l. ll_Currency l = c) ls)"
  have new: "plain_amount (cu_ListCost (new_currency c))" "cu_Currency (new_currency c) = c"
    "cu_ListCost (new_currency c) = zero_decimal" for c
    by (simp_all add: new_currency_def plain_amount_def)
  have part: "list_all (\<lambda>l. plain_amount (ll_ListCost l)) (filter P ls)" for P
    using assms by (simp add: list_all_iff)
  note of = add_lines [OF new(1) part, unfolded new(2,3) zero_decimal_val add_0]
  have entries: "set (us_Currencies (ledgerUsage ls)) = ?of ` ll_Currency ` set ls"
    "distinct (map cu_Currency (us_Currencies (ledgerUsage ls)))"
    unfolding ledgerUsage_def by (rule ledger_entries(1,3))+
  show plain: "plain_usage (ledgerUsage ls)"
    unfolding plain_usage_def using entries of by auto
  show "dval (fst (usage_usd (ledgerUsage ls))) = rows_usd ls"
  proof (cases "''USD'' \<in> ll_Currency ` set ls")
    case True
    then have "?of ''USD'' \<in> set (us_Currencies (ledgerUsage ls))" using entries(1) by blast
    from usd_entry [OF plain this] show ?thesis using of by (simp add: rows_usd_def)
  next
    case False
    have "find (\<lambda>e. cu_Currency e = ''USD'') (us_Currencies (ledgerUsage ls)) = None"
      unfolding find_None_iff entries(1) using False of by auto
    moreover have "filter (\<lambda>l. ll_Currency l = ''USD'') ls = []"
      using False by (force simp: filter_empty_conv)
    ultimately show ?thesis by (simp add: usage_usd_def rows_usd_def)
  qed
qed

text \<open>The pull request budget's own result: no other rule carries its name.\<close>

lemma pull_request_result_only:
  assumes "pack_results inp = Inr rs" "r \<in> set rs" "re_Rule r = RulePullRequestBudget"
  shows "\<exists>r5. pull_request_result inp = Inr r5 \<and> r \<in> set r5"
proof -
  obtain r1 r2 r3 r4 r5 where parts: "budget_result inp RuleRunBudget keyRunBudget = Inr r1"
    "budget_result inp RuleRunCostThreshold keyMaxRunCost = Inr r2" "increase_result inp = Inr r3"
    "percent_result inp = Inr r4" "pull_request_result inp = Inr r5"
    "rs = r1 @ r2 @ r3 @ r4 @ r5 @ monthly_result inp @ allowlist_result inp @ attribution_result inp"
    using in_pack_results [OF assms(1)] by blast
  have "\<forall>x\<in>set r1. re_Rule x = RuleRunBudget" "\<forall>x\<in>set r2. re_Rule x = RuleRunCostThreshold"
    using parts(1,2) by (auto simp: budget_result_def result_eqs split: option.splits)
  moreover have "\<forall>x\<in>set r3. re_Rule x = RuleRunIncrease" "\<forall>x\<in>set r4. re_Rule x = RuleRunIncreasePercent"
    using parts(3,4) by (auto simp: increase_result_def percent_result_def result_eqs split: option.splits)
  moreover have "\<forall>x\<in>set (monthly_result inp). re_Rule x = RuleMonthlyBudget"
      "\<forall>x\<in>set (allowlist_result inp). re_Rule x = RuleModelAllowlist"
      "\<forall>x\<in>set (attribution_result inp). re_Rule x = RuleAttribution"
    by (auto simp: monthly_result_def allowlist_result_def attribution_result_def split: option.splits)
  ultimately have "r \<in> set r5"
    using assms(2,3) unfolding parts(6) by auto
  then show ?thesis using parts(5) by blast
qed

lemma over_limit_kept:
  "(\<exists>r\<in>set (final_results q rs). re_Rule r = rule \<and> re_Reason r = ''over_limit'' \<and> re_Outcome r \<noteq> Pass) \<longleftrightarrow>
   (\<exists>r\<in>set rs. re_Rule r = rule \<and> re_Reason r = ''over_limit'' \<and> re_Outcome r \<noteq> Pass)"
  by (auto simp: final_results_def demoteUnmeasured_def demoted_def image_iff split: if_splits)

lemma withheld_no_limit: "r \<in> set (snd (withhold s rks)) \<Longrightarrow> re_Reason r = ''no_run_rows''"
proof (induction s rks rule: withhold.induct)
  case (1 s)
  then show ?case by simp
next
  case (2 s rule key rks)
  then show ?case by (cases "ps_Amounts s key") (auto simp: case_prod_beta withheld_result_def)
qed

definition ledger_total :: "ledger_request \<Rightarrow> rat" where
  "ledger_total lq =
     (if lq_Evidence lq = GatewayMeasured then max (dval (lq_MeasuredUSD lq)) (rows_usd (lq_Lines lq))
      else rows_usd (lq_Lines lq))"

text \<open>The pull request budget over a ledger's lines.\<close>

lemma pull_request_budget_held:
  assumes v: "EvaluateLedger env lq = Inr v"
    and lines: "list_all (\<lambda>l. plain_amount (ll_ListCost l)) (lq_Lines lq)" "wf_decimal (lq_MeasuredUSD lq)"
    and s: "config_settings (pe_parse_yaml env) (pe_decode_int env) (lq_Config lq) = Inr s"
    and limit: "ps_Amounts s keyPullRequestBudget = Some limit"
  shows "((\<exists>r\<in>set (ve_Results v). re_Rule r = RulePullRequestBudget \<and> re_Reason r = ''over_limit'' \<and>
        re_Outcome r \<noteq> Pass) \<longleftrightarrow> dval limit < ledger_total lq) \<and>
    (ve_Conclusion v = Success \<longrightarrow> ledger_total lq \<le> dval limit)"
proof -
  let ?u = "ledgerUsage (lq_Lines lq)"
  note u = ledgerUsage_plain [OF lines(1)]
  define usd where "usd = (if lq_Evidence lq = GatewayMeasured \<and> 0 < Cmp (lq_MeasuredUSD lq) (fst (usage_usd ?u))
      then Sub (lq_MeasuredUSD lq) (fst (usage_usd ?u)) else zero_decimal)"
  define t where "t = (if lq_Lines lq \<noteq> [] \<and> list_all ll_Verified (lq_Lines lq) then TokenVerified else Unverified)"
  define lt where "lt = \<lparr>lf_USD = usd, lf_OtherCurrency = list_ex (\<lambda>e. cu_Currency e \<noteq> ''USD'') (us_Currencies ?u),
      lf_MayRepeat = False, lf_Trust = t\<rparr>"
  define q where "q = \<lparr>pq_Usage = ?u, pq_Trust = t, pq_Config = lq_Config lq, pq_Start = lq_Start lq, pq_At = lq_At lq,
      pq_Baseline = None, pq_Lifetime = Some lt, pq_MeasuredPullRequests = lq_MeasuredPullRequests lq,
      pq_Evidence = lq_Evidence lq\<rparr>"
  have v': "evaluateScoped env q True = Inr v"
    using v by (simp add: EvaluateLedger_def q_def lt_def t_def usd_def Let_def)
  have rows: "wf_decimal (fst (usage_usd ?u))" using usage_usd_plain [OF u(1)] by (simp add: plain_amount_def)
  have usd: "wf_decimal usd" "0 \<le> dval usd"
    using rows lines(2) by (simp_all add: usd_def)
  have total: "dval (lifetime_total lt ?u) = ledger_total lq"
    using rows lines(2) usd(1) u(2) by (auto simp: lifetime_total_def lt_def usd_def ledger_total_def max_def not_le)
  have plain: "plain_lifetime (Some lt)" using usd by (simp add: plain_lifetime_def lt_def)
  obtain rs where rs: "pack_results (input_of True s q) = Inr rs"
    and results: "ve_Results v = annotate (final_results q (rs @ snd (scoped True s)))
      (q\<lparr>pq_Trust := trusted (pq_Trust q)\<rparr>) (fst (scoped True s))"
    and concl: "ve_Conclusion v = final_conclusion q rs (snd (scoped True s))"
    using evaluation_read [OF _ v'] s by (auto simp: q_def)
  let ?s = "fst (scoped True s)"
  let ?inp = "input_of True s q"
  have inp: "?inp = packInput ?u (trusted t) None (Some lt) ?s (wo_Active (period_of s q))"
    by (simp add: input_of_def q_def)
  have other: "keyPullRequestBudget \<notin> snd ` set runRuleKeys" by (simp add: runRuleKeys_def)
  have kept_limit: "ps_Amounts ?s keyPullRequestBudget = Some limit"
    using limit by (simp add: scoped_def withoutRunRules_def withhold_frame(2) [OF other])
  have limit_plain: "plain_amount limit" using plain_setting [OF config_plain [OF s] limit] .
  obtain oc where oc: "pull_request ?inp (String limit) = Inr oc"
    and only: "pull_request_result ?inp = Inr [pack_result RulePullRequestBudget (String limit) [] oc]"
    and inside: "pack_result RulePullRequestBudget (String limit) [] oc \<in> set rs"
    using pull_request_in_results [OF rs, of "String limit"] kept_limit
    by (auto simp: pull_request_result_def inp)
  have sign: "\<not> Sign (lf_USD lt) < 0" "\<not> lf_MayRepeat lt" using usd by (simp_all add: lt_def)
  have outcome: "fst (snd oc) = ''over_limit'' \<and> fst oc \<noteq> Pass \<longleftrightarrow> dval limit < ledger_total lq"
    using oc pull_request_exact [OF u(1) plain limit_plain, of "trusted t" None ?s "wo_Active (period_of s q)"] sign
    by (auto simp: inp total broken_def kept_def within_limit_def split: if_splits)
  have uniq: "r = pack_result RulePullRequestBudget (String limit) [] oc"
    if "r \<in> set rs" "re_Rule r = RulePullRequestBudget" for r
    using pull_request_result_only [OF rs that] only by auto
  have ex: "(\<exists>r\<in>set xs. re_Rule r = RulePullRequestBudget \<and> re_Reason r = ''over_limit'' \<and> re_Outcome r \<noteq> Pass) \<longleftrightarrow>
      (\<exists>x\<in>stated ` set xs. fst x = RulePullRequestBudget \<and> fst (snd (snd x)) = ''over_limit'' \<and> fst (snd x) \<noteq> Pass)" for xs
    by (auto simp: stated_def)
  have "(\<exists>r\<in>set (ve_Results v). re_Rule r = RulePullRequestBudget \<and> re_Reason r = ''over_limit'' \<and> re_Outcome r \<noteq> Pass) \<longleftrightarrow>
      (\<exists>r\<in>set (rs @ snd (scoped True s)). re_Rule r = RulePullRequestBudget \<and> re_Reason r = ''over_limit'' \<and> re_Outcome r \<noteq> Pass)"
    unfolding ex results annotate_set unfolding ex [symmetric] by (rule over_limit_kept)
  also have "\<dots> \<longleftrightarrow> (\<exists>r\<in>set rs. re_Rule r = RulePullRequestBudget \<and> re_Reason r = ''over_limit'' \<and> re_Outcome r \<noteq> Pass)"
    using withheld_no_limit by (auto simp: scoped_def withoutRunRules_def)
  also have "\<dots> \<longleftrightarrow> fst (snd oc) = ''over_limit'' \<and> fst oc \<noteq> Pass"
  proof
    assume "\<exists>r\<in>set rs. re_Rule r = RulePullRequestBudget \<and> re_Reason r = ''over_limit'' \<and> re_Outcome r \<noteq> Pass"
    then show "fst (snd oc) = ''over_limit'' \<and> fst oc \<noteq> Pass" using uniq by (metis pack_result_fields(2,3))
  next
    assume "fst (snd oc) = ''over_limit'' \<and> fst oc \<noteq> Pass"
    then show "\<exists>r\<in>set rs. re_Rule r = RulePullRequestBudget \<and> re_Reason r = ''over_limit'' \<and> re_Outcome r \<noteq> Pass"
      by (intro bexI [OF _ inside]) simp
  qed
  finally have first: "(\<exists>r\<in>set (ve_Results v). re_Rule r = RulePullRequestBudget \<and> re_Reason r = ''over_limit'' \<and>
      re_Outcome r \<noteq> Pass) \<longleftrightarrow> dval limit < ledger_total lq"
    unfolding outcome .
  have "ledger_total lq \<le> dval limit" if "ve_Conclusion v = Success"
  proof -
    have "list_all (\<lambda>r. re_Outcome r = Pass) rs" using final_conclusion_success [OF _ rs] that concl by simp
    then have "fst oc = Pass" using inside by (auto simp: list_all_iff)
    then have "fst (snd oc) \<noteq> ''over_limit''"
      using oc pull_request_exact [OF u(1) plain limit_plain, of "trusted t" None ?s "wo_Active (period_of s q)"] sign
      by (auto simp: inp broken_def kept_def within_limit_def split: if_splits)
    moreover have "fst oc \<noteq> Pass" if "dval limit < ledger_total lq" using outcome that by blast
    ultimately show ?thesis using \<open>fst oc = Pass\<close> by (force simp: not_le [symmetric])
  qed
  then show ?thesis using first by blast
qed

text \<open>What a check over a ledger needs to succeed.\<close>

lemma ledger_success:
  assumes v: "EvaluateLedger env lq = Inr v" and success: "ve_Conclusion v = Success"
  shows "lq_Lines lq \<noteq> [] \<and> list_all ll_Verified (lq_Lines lq) \<and> lq_Evidence lq \<in> {GatewayMeasured, Reconciled} \<and>
    (\<exists>s. config_settings (pe_parse_yaml env) (pe_decode_int env) (lq_Config lq) = Inr s)"
proof -
  obtain q where v': "evaluateScoped env q True = Inr v" and config: "pq_Config q = lq_Config lq"
    and evidence: "pq_Evidence q = lq_Evidence lq"
    and verified: "pq_Trust q = (if lq_Lines lq \<noteq> [] \<and> list_all ll_Verified (lq_Lines lq) then TokenVerified else Unverified)"
    using v by (fastforce simp: EvaluateLedger_def Let_def)
  show ?thesis
  proof (cases "config_settings (pe_parse_yaml env) (pe_decode_int env) (pq_Config q)")
    case (Inl e)
    then show ?thesis using evaluation_unread [where q = q and ledger = True and v = v, OF Inl] v' success by simp
  next
    case (Inr s)
    obtain rs where rs: "pack_results (input_of True s q) = Inr rs"
      and "ve_Conclusion v = final_conclusion q rs (snd (scoped True s))"
      using evaluation_read [OF Inr v'] .
    from final_conclusion_success [OF this(2) [symmetric, unfolded success] this(1)]
    have pass: "\<not> unmeasured q" "rs \<noteq> []" "list_all (\<lambda>r. re_Outcome r = Pass) rs" by simp_all
    have "backed (input_of True s q)"
      using pack_results_backed [OF rs] pass(2,3) by (cases rs) (simp_all add: pass_backed_def)
    then have trust: "pq_Trust q = TokenVerified"
      by (simp add: backed_def input_of_def packInput_def trusted_verified)
    then have "lq_Evidence lq \<in> {GatewayMeasured, Reconciled}"
      using pass(1) measured_counted [of "pq_Evidence q"] evidence by (auto simp: unmeasured_def trusted_verified)
    then show ?thesis using trust verified Inr config by (auto split: if_splits)
  qed
qed

text \<open>
  A ledger holds \<open>pr_budget\<close> to the larger count. Where the gateway measured the pull request's keys,
  the budget is compared with the larger of its count and the rows' exact USD list cost, and with
  the rows alone otherwise. The rule reads over the limit exactly when that total is over it, and an
  answer that succeeds had it within.
\<close>

theorem ledger_budget_holds_the_larger_count:
  assumes v: "EvaluateLedger env lq = Inr v"
    and lines: "list_all (\<lambda>l. plain_amount (ll_ListCost l)) (lq_Lines lq)" "wf_decimal (lq_MeasuredUSD lq)"
    and s: "config_settings (pe_parse_yaml env) (pe_decode_int env) (lq_Config lq) = Inr s"
    and limit: "ps_Amounts s keyPullRequestBudget = Some limit"
  shows "((\<exists>r\<in>set (ve_Results v). re_Rule r = RulePullRequestBudget \<and> re_Reason r = ''over_limit'' \<and>
        re_Outcome r \<noteq> Pass) \<longleftrightarrow> dval limit < ledger_total lq) \<and>
    (ve_Conclusion v = Success \<longrightarrow> ledger_total lq \<le> dval limit)"
  by (rule pull_request_budget_held [OF assms])

definition sample_ledger :: ledger_request where
  "sample_ledger =
     \<lparr>lq_Lines = [\<lparr>ll_Currency = ''USD'', ll_ListCost = \<lparr>coefficient = Some 25, scale = 2\<rparr>, ll_Rows = 1,
                   ll_Model = ''m-1'', ll_Verified = True, ll_Attributed = True\<rparr>],
      lq_Evidence = GatewayMeasured, lq_MeasuredUSD = \<lparr>coefficient = Some 75, scale = 2\<rparr>,
      lq_Config = pq_Config sample_request, lq_Start = \<lparr>st_At = 0, st_NotOnBase = False\<rparr>,
      lq_MeasuredPullRequests = 0, lq_At = 0\<rparr>"

definition pull_request_env :: policy_env where
  "pull_request_env = (sample_env [])\<lparr>pe_parse_yaml := (\<lambda>_. Some (Some (YMapping ''!!map'' [(''policy'',
     YMapping ''!!map'' [(keyPullRequestBudget, YScalar ''!!str'' ''0.50'')])])))\<rparr>"

lemma sample_ledger_settings:
  "map_sum (\<lambda>_. ()) (\<lambda>s. ps_Amounts s keyPullRequestBudget)
     (config_settings (pe_parse_yaml pull_request_env) (pe_decode_int pull_request_env) (lq_Config sample_ledger)) =
   Inr (Some \<lparr>coefficient = Some 5, scale = 1\<rparr>)"
  by code_simp

lemma sample_ledger_answers: "is_ok (EvaluateLedger pull_request_env sample_ledger)"
  by code_simp

theorem ledger_budget_holds_the_larger_count_witness:
  "\<exists>v. EvaluateLedger pull_request_env sample_ledger = Inr v \<and>
     (\<exists>r\<in>set (ve_Results v). re_Rule r = RulePullRequestBudget \<and> re_Reason r = ''over_limit'')"
proof -
  obtain v where v: "EvaluateLedger pull_request_env sample_ledger = Inr v"
    using sample_ledger_answers by (auto simp: is_ok_def split: sum.splits)
  obtain s where s: "config_settings (pe_parse_yaml pull_request_env) (pe_decode_int pull_request_env)
      (lq_Config sample_ledger) = Inr s"
    "ps_Amounts s keyPullRequestBudget = Some \<lparr>coefficient = Some 5, scale = 1\<rparr>"
    using sample_ledger_settings
    by (cases "config_settings (pe_parse_yaml pull_request_env) (pe_decode_int pull_request_env)
      (lq_Config sample_ledger)") simp_all
  have lines: "list_all (\<lambda>l. plain_amount (ll_ListCost l)) (lq_Lines sample_ledger)" "wf_decimal (lq_MeasuredUSD sample_ledger)"
    by (simp_all add: sample_ledger_def plain_amount_def wf_decimal_def dval_def)
  have "dval \<lparr>coefficient = Some 5, scale = 1\<rparr> < ledger_total sample_ledger"
    by (simp add: ledger_total_def sample_ledger_def rows_usd_def dval_def)
  then show ?thesis
    using ledger_budget_holds_the_larger_count [OF v lines s] v by blast
qed

section \<open>The period\<close>


text \<open>Dropping the amounts keeps what every rule concluded.\<close>

lemma WithoutAmounts_keeps:
  "map stated (ve_Results (WithoutAmounts v)) = map stated (ve_Results v)"
  "ve_Conclusion (WithoutAmounts v) = ve_Conclusion v"
  "list_all (\<lambda>r. re_LimitUSD r = [] \<and> re_CostUSD r = [] \<and> re_BaselineUSD r = []) (ve_Results (WithoutAmounts v))"
  by (simp_all add: WithoutAmounts_def stated_def list_all_iff)

end
