(* ===== verification/Store.thy ===== *)
theory Store
  imports Focus "HOL-Library.Word"
begin

text \<open>
  \<open>internal/store\<close>: the ledger. The database is the state: each tenant's tables, the owners bound to
  tenants and the ingest keys. A statement of the package is a function of the tables it names, with
  Postgres's meaning of \<open>ON CONFLICT\<close>, of the primary keys and of \<open>GROUP BY\<close>; the row level security
  that filters every query to one tenant is \<open>inTenant\<close>, which hands a function one tenant's tables. A
  numeric column is exact, so it holds the decimal. A failing connection is not modelled, and where
  Postgres orders text by the database's collation the model keeps the order rows were stored in.
\<close>

section \<open>The tables\<close>

record store_record =
  rd_Row :: focus_row
  rd_RunAttempt :: string
  rd_Actor :: string
  rd_Event :: string
  rd_TokenCommitSHA :: string
  rd_HeadBasis :: string
  rd_CredentialBasis :: string

abbreviation HeadFromToken :: string where "HeadFromToken \<equiv> ''token''"

abbreviation HeadStated :: string where "HeadStated \<equiv> ''stated''"

abbreviation CredentialMinted :: string where "CredentialMinted \<equiv> ''minted''"

abbreviation CredentialStated :: string where "CredentialStated \<equiv> ''stated''"

text \<open>One row of \<open>focus_rows\<close>; an empty text column that \<open>NULLIF\<close> clears is None.\<close>

record stored_row =
  sw_id :: string
  sw_currency :: string
  sw_category :: string
  sw_meter :: string
  sw_unit :: string
  sw_quantity :: decimal
  sw_list_cost :: decimal
  sw_effective_cost :: decimal
  sw_start :: instant
  sw_end :: instant
  sw_basis :: string
  sw_source :: string
  sw_grade :: string
  sw_enforcement :: string
  sw_identity :: string
  sw_agent :: "string option"
  sw_model :: "string option"
  sw_repo :: "string option"
  sw_pr :: "string option"
  sw_sha :: "string option"
  sw_run :: "string option"
  sw_attempt :: "string option"
  sw_actor :: "string option"
  sw_event :: "string option"
  sw_catalog :: "string option"
  sw_document :: focus_row
  sw_token_commit :: "string option"
  sw_head_basis :: "string option"
  sw_account :: string
  sw_credential_basis :: "string option"

text \<open>The generated column \<open>budget_eligible\<close>.\<close>

definition budget_eligible :: "stored_row \<Rightarrow> bool" where
  "budget_eligible r \<longleftrightarrow> sw_identity r = ''token_verified'' \<and> sw_grade r \<noteq> ''unattributed''"

record minted_credential =
  mc_KeySHA256 :: string
  mc_Repository :: string
  mc_RunID :: string
  mc_RunAttempt :: string
  mc_Environment :: string

record ledger =
  lg_rows :: "stored_row list"
  lg_drops :: "((string \<times> string) \<times> int) list"
  lg_minted :: "string \<rightharpoonup> minted_credential"
  lg_spend :: "(string \<times> decimal) list"

datatype store_error =
    BadInstant string
  | AttestedElsewhere
  | NotMinted
  | NegativeSpend
  | NotFound
  | NoTenant
  | BadTenantID string
  | KeyTaken
  | OwnerTaken

section \<open>Writing a batch\<close>

record batch =
  ba_Records :: "store_record list"
  ba_Drops :: "(string \<times> int) list"
  ba_Day :: instant

record receipt =
  rc_Inserted :: nat
  rc_Duplicates :: nat

definition tag_of :: "focus_row \<Rightarrow> string \<Rightarrow> string" where
  "tag_of row key = (case Tags row key of None \<Rightarrow> [] | Some v \<Rightarrow> v)"

text \<open>The columns of one record, with the casts the statement makes of them.\<close>

definition columns_add :: "store_record \<Rightarrow> store_error + stored_row" where
  "columns_add rec =
     (let row = rd_Row rec
      in case (parse_rfc3339 (ChargePeriodStart row), parse_rfc3339 (ChargePeriodEnd row)) of
           (Some start, Some stop) \<Rightarrow>
             Inr \<lparr>sw_id = RowID row, sw_currency = BillingCurrency row, sw_category = ServiceCategory row,
                  sw_meter = SkuMeter row, sw_unit = ConsumedUnit row, sw_quantity = ConsumedQuantity row,
                  sw_list_cost = ListCost row, sw_effective_cost = EffectiveCost row, sw_start = start, sw_end = stop,
                  sw_basis = tag_of row ''costroid/cost_basis'', sw_source = tag_of row ''costroid/cost_source'',
                  sw_grade = tag_of row ''costroid/attribution_grade'',
                  sw_enforcement = tag_of row ''costroid/enforcement_grade'',
                  sw_identity = tag_of row ''costroid/run_identity'', sw_agent = optional (tag_of row ''costroid/agent''),
                  sw_model = optional (tag_of row ''costroid/model''), sw_repo = optional (tag_of row ''costroid/repo''),
                  sw_pr = optional (tag_of row ''costroid/pr''), sw_sha = optional (tag_of row ''costroid/commit_sha''),
                  sw_run = optional (tag_of row ''costroid/workflow_run_id''), sw_attempt = optional (rd_RunAttempt rec),
                  sw_actor = optional (rd_Actor rec), sw_event = optional (rd_Event rec),
                  sw_catalog = (case CatalogVersion row of None \<Rightarrow> None | Some v \<Rightarrow> optional v), sw_document = row,
                  sw_token_commit = optional (rd_TokenCommitSHA rec), sw_head_basis = optional (rd_HeadBasis rec),
                  sw_account = BillingAccountID row, sw_credential_basis = optional (rd_CredentialBasis rec)\<rparr>
         | _ \<Rightarrow> Inl (BadInstant (RowID row)))"

definition columnsOf :: "store_record list \<Rightarrow> store_error + stored_row list" where
  "columnsOf = rtraverse columns_add"

definition ids :: "stored_row list \<Rightarrow> string list" where
  "ids rows = map sw_id rows"

text \<open>
  \<open>insertNewRows\<close>: the rows whose id the table does not hold are inserted together, and a repeat among
  them breaks the unique index (None).
\<close>

definition insertNewRows :: "stored_row list \<Rightarrow> stored_row list \<Rightarrow> stored_row list option" where
  "insertNewRows table rows =
     (let new = filter (\<lambda>r. sw_id r \<notin> set (ids table)) rows
      in if distinct (ids new) then Some (table @ new) else None)"

text \<open>\<open>insertRows\<close>: \<open>ON CONFLICT DO NOTHING\<close>, one row after the other.\<close>

fun insertRows :: "stored_row list \<Rightarrow> stored_row list \<Rightarrow> stored_row list" where
  "insertRows table [] = table"
| "insertRows table (r # rs) = insertRows (if sw_id r \<in> set (ids table) then table else table @ [r]) rs"

definition writeDrops :: "ledger \<Rightarrow> batch \<Rightarrow> ledger" where
  "writeDrops s b =
     s\<lparr>lg_drops := foldl (\<lambda>m d. upsert (format_day (ba_Day b), fst d) 0 (\<lambda>n. n + snd d) m) (lg_drops s) (ba_Drops b)\<rparr>"

definition writeBatch :: "ledger \<Rightarrow> batch \<Rightarrow> stored_row list \<Rightarrow> ledger \<times> receipt" where
  "writeBatch s b table =
     (let inserted = length table - length (lg_rows s)
      in (writeDrops (s\<lparr>lg_rows := table\<rparr>) b,
          \<lparr>rc_Inserted = inserted, rc_Duplicates = length (ba_Records b) - inserted\<rparr>))"

definition Ingest :: "ledger \<Rightarrow> batch \<Rightarrow> store_error + (ledger \<times> receipt)" where
  "Ingest s b =
     rmap (\<lambda>rows.
       case insertNewRows (lg_rows s) rows of
         Some table \<Rightarrow> writeBatch s b table
       | None \<Rightarrow> writeBatch s b (insertRows (lg_rows s) rows))
       (columnsOf (ba_Records b))"

section \<open>Reading a pull request\<close>

record store_line =
  li_Currency :: string
  li_BillingAccountID :: string
  li_ServiceCategory :: string
  li_Agent :: string
  li_Model :: string
  li_SkuMeter :: string
  li_ConsumedUnit :: string
  li_CostBasis :: string
  li_CostSource :: string
  li_AttributionGrade :: string
  li_RunIdentity :: string
  li_BudgetEligible :: bool
  li_Rows :: int
  li_ConsumedQuantity :: decimal
  li_ListCost :: decimal
  li_EffectiveCost :: decimal
  li_FirstCharge :: instant
  li_LastCharge :: instant

definition coalesce :: "string option \<Rightarrow> string" where
  "coalesce v = (case v of None \<Rightarrow> [] | Some s \<Rightarrow> s)"

text \<open>The columns of the \<open>GROUP BY\<close>, texts and the one flag.\<close>

definition group_of :: "stored_row \<Rightarrow> string list \<times> bool" where
  "group_of r =
     ([sw_currency r, sw_account r, sw_category r, coalesce (sw_agent r), coalesce (sw_model r), sw_meter r, sw_unit r,
       sw_basis r, sw_source r, sw_grade r, sw_identity r], budget_eligible r)"

definition exact_sum :: "decimal list \<Rightarrow> decimal" where
  "exact_sum ds = foldl Add zero_decimal ds"

definition line_of :: "stored_row \<Rightarrow> stored_row list \<Rightarrow> store_line" where
  "line_of r rows =
     \<lparr>li_Currency = sw_currency r, li_BillingAccountID = sw_account r, li_ServiceCategory = sw_category r,
      li_Agent = coalesce (sw_agent r), li_Model = coalesce (sw_model r), li_SkuMeter = sw_meter r,
      li_ConsumedUnit = sw_unit r, li_CostBasis = sw_basis r, li_CostSource = sw_source r,
      li_AttributionGrade = sw_grade r, li_RunIdentity = sw_identity r, li_BudgetEligible = budget_eligible r,
      li_Rows = int (length rows), li_ConsumedQuantity = exact_sum (map sw_quantity rows),
      li_ListCost = exact_sum (map sw_list_cost rows), li_EffectiveCost = exact_sum (map sw_effective_cost rows),
      li_FirstCharge = foldl min (sw_start r) (map sw_start rows), li_LastCharge = foldl max (sw_end r) (map sw_end rows)\<rparr>"

fun group_lines :: "stored_row list \<Rightarrow> store_line list" where
  "group_lines [] = []"
| "group_lines (r # rs) =
     line_of r (r # filter (\<lambda>x. group_of x = group_of r) rs) # group_lines (filter (\<lambda>x. group_of x \<noteq> group_of r) rs)"

definition pull_request_rows :: "ledger \<Rightarrow> string \<Rightarrow> string \<Rightarrow> stored_row list" where
  "pull_request_rows s repo pr = filter (\<lambda>r. sw_repo r = Some repo \<and> sw_pr r = Some pr) (lg_rows s)"

definition PullRequest :: "ledger \<Rightarrow> string \<Rightarrow> string \<Rightarrow> store_line list" where
  "PullRequest s repo pr = group_lines (pull_request_rows s repo pr)"

section \<open>Attestations\<close>

definition SameRun :: "minted_credential \<Rightarrow> minted_credential \<Rightarrow> bool" where
  "SameRun m other \<longleftrightarrow>
     mc_Repository m = mc_Repository other \<and> mc_RunID m = mc_RunID other \<and> mc_RunAttempt m = mc_RunAttempt other"

definition Attest :: "ledger \<Rightarrow> minted_credential \<Rightarrow> store_error + ledger" where
  "Attest s m =
     (case lg_minted s (mc_KeySHA256 m) of
        None \<Rightarrow> Inr (s\<lparr>lg_minted := (lg_minted s)(mc_KeySHA256 m \<mapsto> m)\<rparr>)
      | Some stored \<Rightarrow> if SameRun stored m then Inr s else Inl AttestedElsewhere)"

definition MintedCredentials :: "ledger \<Rightarrow> string list \<Rightarrow> (string \<rightharpoonup> minted_credential)" where
  "MintedCredentials s keys = (\<lambda>k. if k \<in> set keys then lg_minted s k else None)"

text \<open>\<open>keepSpend\<close>: the larger of a key's stored figure and the new one.\<close>

fun keepSpend :: "(string \<times> decimal) list \<Rightarrow> string \<Rightarrow> decimal \<Rightarrow> (string \<times> decimal) list" where
  "keepSpend [] key usd = [(key, usd)]"
| "keepSpend ((k, old) # rest) key usd =
     (if k = key then (k, if Cmp usd old > 0 then usd else old) # rest else (k, old) # keepSpend rest key usd)"

definition AttestSpend :: "ledger \<Rightarrow> minted_credential \<Rightarrow> decimal \<Rightarrow> store_error + ledger" where
  "AttestSpend s key usd =
     (if Sign usd < 0 then Inl NegativeSpend
      else (case lg_minted s (mc_KeySHA256 key) of
              None \<Rightarrow> Inl NotMinted
            | Some minted \<Rightarrow>
                if \<not> SameRun minted key then Inl AttestedElsewhere
                else Inr (s\<lparr>lg_spend := keepSpend (lg_spend s) (mc_KeySHA256 key) usd\<rparr>)))"

text \<open>The key whose attested spend stands behind a row: the join of \<open>pullRequestSpend\<close>.\<close>

definition spend_key :: "ledger \<Rightarrow> stored_row \<Rightarrow> string option" where
  "spend_key s r =
     (case SubAccountID (sw_document r) of
        None \<Rightarrow> None
      | Some key \<Rightarrow>
          (case lg_minted s key of
             None \<Rightarrow> None
           | Some m \<Rightarrow>
               if sw_repo r = Some (mc_Repository m) \<and> sw_run r = Some (mc_RunID m) \<and>
                  sw_attempt r = Some (mc_RunAttempt m) \<and> map_of (lg_spend s) key \<noteq> None \<and>
                  budget_eligible r \<and> sw_credential_basis r = Some CredentialMinted
               then Some key else None))"

definition counted :: "ledger \<Rightarrow> string \<Rightarrow> string \<Rightarrow> string list" where
  "counted s repo pr = List.map_filter (spend_key s) (pull_request_rows s repo pr)"

definition GatewaySpend :: "ledger \<Rightarrow> string \<Rightarrow> string \<Rightarrow> int \<times> decimal" where
  "GatewaySpend s repo pr =
     (let keys = counted s repo pr
      in (int (length keys), exact_sum (map snd (filter (\<lambda>ku. fst ku \<in> set keys) (lg_spend s)))))"

section \<open>Tenants and keys\<close>

record database =
  db_tenants :: "string \<rightharpoonup> ledger"
  db_owners :: "string \<rightharpoonup> string"
  db_keys :: "string \<rightharpoonup> string \<times> bool"

definition uuidPattern :: "string \<Rightarrow> bool" where
  "uuidPattern s =
     (case split_at s (CHR ''-'') of
        [a, b, c, d, e] \<Rightarrow>
          of_class is_hex 8 8 a \<and> of_class is_hex 4 4 b \<and> of_class is_hex 4 4 c \<and> of_class is_hex 4 4 d \<and>
          of_class is_hex 12 12 e
      | _ \<Rightarrow> False)"

definition ParseTenantID :: "string \<Rightarrow> store_error + string" where
  "ParseTenantID s = (if uuidPattern s then Inr s else Inl (BadTenantID s))"

definition hex_byte :: "8 word \<Rightarrow> string" where
  "hex_byte w = [hex_digit (unat w div 16), hex_digit (unat w mod 16)]"

text \<open>\<open>NewTenantID\<close> of the sixteen random bytes it read.\<close>

definition NewTenantID :: "8 word list \<Rightarrow> store_error + string" where
  "NewTenantID bytes =
     (let b1 = bytes[6 := or (and (bytes ! 6) 0x0F) 0x40];
          b = b1[8 := or (and (b1 ! 8) 0x3F) 0x80];
          hex = (\<lambda>lo hi. concat (map hex_byte (drop lo (take hi b))))
      in ParseTenantID (hex 0 4 @ ''-'' @ hex 4 6 @ ''-'' @ hex 6 8 @ ''-'' @ hex 8 10 @ ''-'' @ hex 10 16))"

definition ownerKey :: "string \<Rightarrow> string \<Rightarrow> string" where
  "ownerKey host owner = to_lower host @ '':'' @ to_lower owner"

definition resolveTenant :: "string option \<Rightarrow> store_error + string" where
  "resolveTenant found = (case found of None \<Rightarrow> Inl NotFound | Some t \<Rightarrow> ParseTenantID t)"

definition TenantForOwner :: "database \<Rightarrow> string \<Rightarrow> string \<Rightarrow> store_error + string" where
  "TenantForOwner db host owner = resolveTenant (db_owners db (ownerKey host owner))"

definition TenantForKey :: "database \<Rightarrow> string \<Rightarrow> store_error + string" where
  "TenantForKey db sha =
     resolveTenant (case db_keys db sha of Some (t, revoked) \<Rightarrow> if revoked then None else Some t | None \<Rightarrow> None)"

definition tenant_tables :: "database \<Rightarrow> string \<Rightarrow> ledger" where
  "tenant_tables db t =
     (case db_tenants db t of
        Some l \<Rightarrow> l | None \<Rightarrow> \<lparr>lg_rows = [], lg_drops = [], lg_minted = Map.empty, lg_spend = []\<rparr>)"

definition inTenant :: "database \<Rightarrow> string \<Rightarrow> (ledger \<Rightarrow> store_error + (ledger \<times> 'a)) \<Rightarrow> store_error + (database \<times> 'a)" where
  "inTenant db t f =
     (if t = [] then Inl NoTenant
      else rmap (\<lambda>(l, x). (db\<lparr>db_tenants := (db_tenants db)(t \<mapsto> l)\<rparr>, x)) (f (tenant_tables db t)))"

definition KeyDigest :: "(string \<Rightarrow> string) \<Rightarrow> string \<Rightarrow> string" where
  "KeyDigest sha256 key = sha256 key"

abbreviation KeyPrefix :: string where "KeyPrefix \<equiv> ''costroid_ik_''"

definition AddKey :: "database \<Rightarrow> string \<times> string \<Rightarrow> string \<Rightarrow> store_error + database" where
  "AddKey db owner digest =
     rbind (resolveTenant (db_owners db (ownerKey (fst owner) (snd owner)))) (\<lambda>t.
       if db_keys db digest \<noteq> None then Inl KeyTaken
       else Inr (db\<lparr>db_keys := (db_keys db)(digest \<mapsto> (t, False))\<rparr>))"

definition RevokeKey :: "database \<Rightarrow> string \<Rightarrow> store_error + database" where
  "RevokeKey db digest =
     rbind (resolveTenant (map_option fst (db_keys db digest))) (\<lambda>t.
       Inr (db\<lparr>db_keys := (db_keys db)(digest \<mapsto> (t, True))\<rparr>))"

section \<open>Lemmas\<close>

text \<open>A table as the map its primary key makes it: the first row stored under an id is the one it holds.\<close>

definition row_map :: "stored_row list \<Rightarrow> (string \<rightharpoonup> stored_row)" where
  "row_map rows = map_of (map (\<lambda>r. (sw_id r, r)) rows)"

lemma row_map_simps [simp]:
  "row_map [] = Map.empty"
  "row_map (r # rs) = (row_map rs)(sw_id r \<mapsto> r)"
  "row_map (xs @ ys) = row_map ys ++ row_map xs"
  by (simp_all add: row_map_def)

lemma ids_simps [simp]:
  "ids [] = []" "ids (r # rs) = sw_id r # ids rs" "ids (xs @ ys) = ids xs @ ids ys"
  by (simp_all add: ids_def)

lemma dom_row_map [simp]: "dom (row_map rows) = set (ids rows)"
  by (simp add: row_map_def ids_def dom_map_of_conv_image_fst image_image)

lemma row_map_in: "sw_id r \<in> set (ids t) \<Longrightarrow> \<exists>x. row_map t (sw_id r) = Some x"
  using dom_row_map [of t] by (metis domD)

lemma insertRows_map: "row_map (insertRows t rs) = row_map rs ++ row_map t"
proof (induction t rs rule: insertRows.induct)
  case (1 t)
  then show ?case by simp
next
  case (2 t r rs)
  show ?case
  proof (cases "sw_id r \<in> set (ids t)")
    case True
    then show ?thesis using 2 row_map_in [OF True]
      by (auto simp: fun_eq_iff map_add_def split: option.splits)
  next
    case False
    then have "row_map t (sw_id r) = None" using dom_row_map [of t] by blast
    then show ?thesis using 2 False
      by (auto simp: fun_eq_iff map_add_def split: option.splits)
  qed
qed

lemma insertRows_ids: "set (ids (insertRows t rs)) = set (ids t) \<union> set (ids rs)"
  by (induction t rs rule: insertRows.induct) auto

lemma insertRows_distinct [keeps_wf]: "distinct (ids t) \<Longrightarrow> distinct (ids (insertRows t rs))"
  by (induction t rs rule: insertRows.induct) (auto split: if_splits)

lemma insertRows_extends: "\<exists>new. insertRows t rs = t @ new"
proof (induction t rs rule: insertRows.induct)
  case (1 t)
  then show ?case by simp
next
  case (2 t r rs)
  then show ?case by (cases "sw_id r \<in> set (ids t)") (auto simp: append_assoc)
qed

lemma insertRows_again: "set (ids rs) \<subseteq> set (ids t) \<Longrightarrow> insertRows t rs = t"
  by (induction t rs rule: insertRows.induct) auto

lemma insertRows_length:
  assumes "distinct (ids t)"
  shows "length (insertRows t rs) = length t + card (set (ids rs) - set (ids t))"
proof -
  have "length (insertRows t rs) = card (set (ids (insertRows t rs)))"
    using distinct_card [OF insertRows_distinct [OF assms, of rs]] by (simp add: ids_def)
  also have "\<dots> = card (set (ids t) \<union> (set (ids rs) - set (ids t)))"
    by (simp add: insertRows_ids Un_Diff_cancel)
  also have "\<dots> = card (set (ids t)) + card (set (ids rs) - set (ids t))"
    by (rule card_Un_disjoint) auto
  also have "card (set (ids t)) = length t"
    using distinct_card [OF assms] by (simp add: ids_def)
  finally show ?thesis .
qed

text \<open>The statement that reads the primary key first and the one that takes conflicts agree.\<close>

lemma insertNewRows_agrees: "insertNewRows t rs = Some t' \<Longrightarrow> t' = insertRows t rs"
proof (induction rs arbitrary: t)
  case Nil
  then show ?case by (simp add: insertNewRows_def)
next
  case (Cons r rs)
  show ?case
  proof (cases "sw_id r \<in> set (ids t)")
    case True
    then show ?thesis using Cons by (simp add: insertNewRows_def)
  next
    case False
    let ?new = "filter (\<lambda>x. sw_id x \<notin> set (ids t)) rs"
    have d: "distinct (ids ?new)" "sw_id r \<notin> set (ids ?new)" and t': "t' = t @ r # ?new"
      using Cons.prems False by (auto simp: insertNewRows_def Let_def split: if_splits)
    have "\<forall>x\<in>set rs. sw_id x \<noteq> sw_id r"
      using d(2) False by (auto simp: ids_def image_iff) (metis (no_types))
    then have "filter (\<lambda>x. sw_id x \<notin> set (ids (t @ [r]))) rs = ?new"
      by (intro filter_cong refl) auto
    then have "insertNewRows (t @ [r]) rs = Some t'"
      using d(1) t' by (simp add: insertNewRows_def)
    then show ?thesis using Cons.IH [of "t @ [r]"] False by simp
  qed
qed

lemma Ingest_eq:
  "Ingest s b = rmap (\<lambda>rows. writeBatch s b (insertRows (lg_rows s) rows)) (columnsOf (ba_Records b))"
  by (cases "columnsOf (ba_Records b)")
    (auto simp: Ingest_def dest: insertNewRows_agrees split: option.split)

lemma writeBatch_fields [simp]:
  "lg_rows (fst (writeBatch s b t)) = t" "lg_minted (fst (writeBatch s b t)) = lg_minted s"
  "lg_spend (fst (writeBatch s b t)) = lg_spend s"
  "rc_Inserted (snd (writeBatch s b t)) = length t - length (lg_rows s)"
  by (simp_all add: writeBatch_def writeDrops_def Let_def)

lemma columnsOf_length: "columnsOf recs = Inr rows \<Longrightarrow> length rows = length recs"
  unfolding columnsOf_def by (rule rtraverse_length)

section \<open>The ledger as a client sees it\<close>

text \<open>
  What the ingest service relies on of its ledger: rows are kept under their id, the first write of an
  id stays, and the receipt counts the ids that were new. The laws are stated over the operations
  alone; the tables above are one provider.
\<close>

locale row_ledger =
  fixes put :: "'s \<Rightarrow> 'r list \<Rightarrow> 's \<times> nat" and look :: "'s \<Rightarrow> 'k \<Rightarrow> 'r option" and key :: "'r \<Rightarrow> 'k"
    and ok :: "'s \<Rightarrow> bool"
  assumes put_look: "ok s \<Longrightarrow> look (fst (put s rs)) = map_of (map (\<lambda>r. (key r, r)) rs) ++ look s"
    and put_count: "ok s \<Longrightarrow> snd (put s rs) = card (key ` set rs - dom (look s))"
    and put_ok: "ok s \<Longrightarrow> ok (fst (put s rs))"
begin

lemma first_write_stays: "ok s \<Longrightarrow> look s k = Some r \<Longrightarrow> look (fst (put s rs)) k = Some r"
  by (simp add: put_look)

lemma stored_is_sent:
  assumes "ok s" "look s k = None" "look (fst (put s rs)) k = Some r"
  shows "r \<in> set rs"
  using assms by (auto simp: put_look map_add_def dest: map_of_SomeD split: option.splits)

lemma dom_put: "ok s \<Longrightarrow> dom (look (fst (put s rs))) = dom (look s) \<union> key ` set rs"
  by (auto simp: put_look dom_map_of_conv_image_fst image_image)

text \<open>A sender that retries a batch it does not know the fate of changes nothing.\<close>

lemma retry_changes_nothing:
  assumes "ok s"
  shows "look (fst (put (fst (put s rs)) rs)) = look (fst (put s rs))"
    and "snd (put (fst (put s rs)) rs) = 0"
proof -
  have ok: "ok (fst (put s rs))" using assms by (rule put_ok)
  show "look (fst (put (fst (put s rs)) rs)) = look (fst (put s rs))"
    unfolding put_look [OF ok] put_look [OF assms]
    by (auto simp: fun_eq_iff map_add_def split: option.split)
  have "key ` set rs \<subseteq> dom (look (fst (put s rs)))" using dom_put [OF assms] by blast
  then show "snd (put (fst (put s rs)) rs) = 0" using put_count [OF ok] by (simp add: Diff_eq_empty_iff [THEN iffD2])
qed

text \<open>Batches that share no id may come in either order.\<close>

lemma disjoint_batches_commute:
  assumes "ok s" "key ` set rs \<inter> key ` set ts = {}"
  shows "look (fst (put (fst (put s rs)) ts)) = look (fst (put (fst (put s ts)) rs))"
proof -
  let ?m = "\<lambda>rs. map_of (map (\<lambda>r. (key r, r)) rs)"
  have "dom (?m rs) \<inter> dom (?m ts) = {}"
    using assms(2) by (simp add: dom_map_of_conv_image_fst image_image)
  then have "?m ts ++ ?m rs = ?m rs ++ ?m ts" by (rule map_add_comm [OF Int_commute [THEN trans]])
  then show ?thesis
    unfolding put_look [OF put_ok [OF assms(1)]] put_look [OF assms(1)] by (simp add: map_add_assoc)
qed

end

definition put_rows :: "stored_row list \<Rightarrow> stored_row list \<Rightarrow> stored_row list \<times> nat" where
  "put_rows t rs = (insertRows t rs, length (insertRows t rs) - length t)"

interpretation pg: row_ledger put_rows row_map sw_id "\<lambda>t. distinct (ids t)"
  by unfold_locales
    (simp_all add: put_rows_def insertRows_map insertRows_length insertRows_distinct, simp_all add: row_map_def ids_def)

section \<open>Lines\<close>

text \<open>
  A figure that is additive over rows adds up over the lines to what it is over the rows, for any
  choice of lines by the columns they are grouped by.
\<close>

lemma group_lines_total:
  fixes f :: "store_line \<Rightarrow> 'v::comm_monoid_add" and g :: "stored_row \<Rightarrow> 'v"
  assumes line: "\<forall>r rows. set rows \<subseteq> set all \<longrightarrow> f (line_of r rows) = sum_list (map g rows)"
    and chosen: "\<forall>r rows. P (line_of r rows) = Q r"
    and grouped: "\<forall>r x. group_of x = group_of r \<longrightarrow> Q x = Q r"
    and part: "set rs \<subseteq> set all"
  shows "sum_list (map f (filter P (group_lines rs))) = sum_list (map g (filter Q rs))"
  using part
proof (induction rs rule: group_lines.induct)
  case 1
  then show ?case by simp
next
  case (2 r rs)
  let ?same = "\<lambda>x. group_of x = group_of r"
  have part: "set (filter (\<lambda>x. \<not> ?same x) rs) \<subseteq> set all" "set (r # filter ?same rs) \<subseteq> set all"
    using "2.prems" by auto
  have IH: "sum_list (map f (filter P (group_lines (filter (\<lambda>x. \<not> ?same x) rs)))) =
      sum_list (map g (filter Q (filter (\<lambda>x. \<not> ?same x) rs)))"
    using "2.IH" [OF part(1)] .
  have split: "sum_list (map g (filter Q rs)) =
      sum_list (map g (filter Q (filter ?same rs))) + sum_list (map g (filter Q (filter (\<lambda>x. \<not> ?same x) rs)))"
    by (induction rs) (auto simp: add.assoc add.left_commute)
  have same: "filter Q (filter ?same rs) = (if Q r then filter ?same rs else [])"
  proof -
    have q: "Q x = Q r" if "?same x" for x using grouped that by blast
    show ?thesis
    proof (cases "Q r")
      case True
      then have "filter Q (filter ?same rs) = filter ?same rs" 
        by (intro filter_True) (use q in \<open>unfold set_filter, blast\<close>)
      then show ?thesis using True by simp
    next
      case False
      then have "filter Q (filter ?same rs) = []" unfolding filter_empty_conv set_filter using q by blast
      then show ?thesis using False by simp
    qed
  qed
  have f: "f (line_of r (r # filter ?same rs)) = g r + sum_list (map g (filter ?same rs))"
    using line part(2) by simp
  show ?case
  proof (cases "Q r")
    case True
    then show ?thesis using IH split same f chosen by (simp add: add.assoc)
  next
    case False
    then show ?thesis using IH split same chosen by simp
  qed
qed

lemma exact_sum_val:
  "list_all wf_decimal ds \<Longrightarrow> dval (exact_sum ds) = sum_list (map dval ds) \<and> wf_decimal (exact_sum ds)"
  unfolding exact_sum_def using dec.val_total [of ds] dec.ok_total [of ds] by (simp add: list_all_iff)

definition plain_rows :: "stored_row list \<Rightarrow> bool" where
  "plain_rows rows \<longleftrightarrow> (\<forall>r\<in>set rows. wf_decimal (sw_list_cost r) \<and> 0 \<le> dval (sw_list_cost r))"

lemma line_cost:
  assumes "plain_rows rows"
  shows "dval (li_ListCost (line_of r rows)) = sum_list (map (\<lambda>r. dval (sw_list_cost r)) rows) \<and>
    wf_decimal (li_ListCost (line_of r rows)) \<and> 0 \<le> dval (li_ListCost (line_of r rows))"
proof -
  have "list_all wf_decimal (map sw_list_cost rows)" using assms by (simp add: plain_rows_def list_all_iff)
  note sum = exact_sum_val [OF this]
  have "0 \<le> sum_list (map (\<lambda>r. dval (sw_list_cost r)) rows)"
    using assms by (intro sum_list_nonneg) (auto simp: plain_rows_def)
  then show ?thesis using sum by (simp add: line_of_def comp_def)
qed

lemma plain_rows_subset: "plain_rows all \<Longrightarrow> set rows \<subseteq> set all \<Longrightarrow> plain_rows rows"
  by (auto simp: plain_rows_def)

lemma in_group_lines: "l \<in> set (group_lines rs) \<Longrightarrow> \<exists>r rows. l = line_of r rows \<and> r \<in> set rs \<and> set rows \<subseteq> set rs \<and> rows \<noteq> []"
proof (induction rs rule: group_lines.induct)
  case 1
  then show ?case by simp
next
  case (2 r rs)
  show ?case
  proof (cases "l = line_of r (r # filter (\<lambda>x. group_of x = group_of r) rs)")
    case True
    then show ?thesis by (intro exI [of _ r] exI [of _ "r # filter (\<lambda>x. group_of x = group_of r) rs"]) auto
  next
    case False
    then have "l \<in> set (group_lines (filter (\<lambda>x. group_of x \<noteq> group_of r) rs))" using "2.prems" by simp
    from "2.IH" [OF this] show ?thesis by (elim exE conjE) (intro exI conjI, auto)
  qed
qed

section \<open>Attested spend\<close>

text \<open>The figure a key's attestations leave: the largest of them.\<close>

lemma keepSpend_map:
  "map_of (keepSpend m key usd) k =
     (if k = key then Some (case map_of m key of None \<Rightarrow> usd | Some old \<Rightarrow> if Cmp usd old > 0 then usd else old)
      else map_of m k)"
  by (induction m key usd rule: keepSpend.induct) auto

lemma keepSpend_keys: "distinct (map fst m) \<Longrightarrow> distinct (map fst (keepSpend m key usd))"
proof -
  have keys: "fst ` set (keepSpend m key usd) = insert key (fst ` set m)" for m key usd
    by (induction m key usd rule: keepSpend.induct) auto
  show "distinct (map fst m) \<Longrightarrow> distinct (map fst (keepSpend m key usd))"
    by (induction m key usd rule: keepSpend.induct) (simp_all add: keys, blast)
qed

text \<open>A row counts only through a key minted for the row's own run whose spend was attested.\<close>

lemma spend_key_iff:
  "spend_key s r = Some key \<longleftrightarrow>
     (\<exists>m. SubAccountID (sw_document r) = Some key \<and> lg_minted s key = Some m \<and>
       sw_repo r = Some (mc_Repository m) \<and> sw_run r = Some (mc_RunID m) \<and> sw_attempt r = Some (mc_RunAttempt m) \<and>
       map_of (lg_spend s) key \<noteq> None \<and> budget_eligible r \<and> sw_credential_basis r = Some CredentialMinted)"
  by (auto simp: spend_key_def split: option.splits if_splits)

lemma map_filter_length: "length (List.map_filter f xs) = length (filter (\<lambda>x. f x \<noteq> None) xs)"
  by (induction xs) (auto simp: List.map_filter_simps split: option.split)

lemma counted_length: "length (counted s repo pr) = length (filter (\<lambda>r. spend_key s r \<noteq> None) (pull_request_rows s repo pr))"
  unfolding counted_def by (rule map_filter_length)

section \<open>Properties\<close>

text \<open>
  C14. Ingesting refines a first-write map. Seen through its primary key, a ledger that takes a batch
  is the map it was, extended with the first row of the batch under each id it did not hold; no
  stored row changes, ids stay unique, and the receipt counts the new ids and, with the duplicates,
  every record sent. A batch sent again, as after a lost answer, inserts nothing and leaves the rows
  as they are. Reading the primary key first, as the first attempt does, is only faster.
\<close>

theorem ingest_refines_first_write:
  assumes "distinct (ids (lg_rows s))" and "Ingest s b = Inr (s', rc)"
  shows "\<exists>rows. columnsOf (ba_Records b) = Inr rows \<and>
    row_map (lg_rows s') = row_map rows ++ row_map (lg_rows s) \<and> distinct (ids (lg_rows s')) \<and>
    (\<exists>new. lg_rows s' = lg_rows s @ new) \<and>
    rc_Inserted rc = card (set (ids rows) - set (ids (lg_rows s))) \<and>
    rc_Inserted rc + rc_Duplicates rc = length (ba_Records b) \<and>
    (\<exists>s2 rc2. Ingest s' b = Inr (s2, rc2) \<and> lg_rows s2 = lg_rows s' \<and> rc_Inserted rc2 = 0)"
proof -
  obtain rows where rows: "columnsOf (ba_Records b) = Inr rows"
    and w: "(s', rc) = writeBatch s b (insertRows (lg_rows s) rows)"
    using assms(2) by (auto simp: Ingest_eq result_eqs)
  have s': "lg_rows s' = insertRows (lg_rows s) rows" and rc: "rc = snd (writeBatch s b (insertRows (lg_rows s) rows))"
    using arg_cong [OF w, of fst] arg_cong [OF w, of snd] by simp_all
  note len = insertRows_length [OF assms(1), of rows]
  have "card (set (ids rows) - set (ids (lg_rows s))) \<le> length rows"
    using card_length [of "ids rows"] card_mono [of "set (ids rows)" "set (ids rows) - set (ids (lg_rows s))"]
    by (simp add: ids_def)
  then have count: "rc_Inserted rc + rc_Duplicates rc = length (ba_Records b)"
    using columnsOf_length [OF rows] len by (simp add: rc writeBatch_def Let_def)
  have again: "insertRows (lg_rows s') rows = lg_rows s'"
    unfolding s' by (rule insertRows_again) (simp add: insertRows_ids)
  have "Ingest s' b = Inr (writeBatch s' b (lg_rows s'))" by (simp add: Ingest_eq rows again)
  then have "\<exists>s2 rc2. Ingest s' b = Inr (s2, rc2) \<and> lg_rows s2 = lg_rows s' \<and> rc_Inserted rc2 = 0"
    by (intro exI [of _ "fst (writeBatch s' b (lg_rows s'))"] exI [of _ "snd (writeBatch s' b (lg_rows s'))"]) simp
  moreover have "row_map (lg_rows s') = row_map rows ++ row_map (lg_rows s)"
    unfolding s' using pg.put_look [OF assms(1), of rows] by (simp add: put_rows_def row_map_def)
  moreover have "distinct (ids (lg_rows s'))"
    unfolding s' using pg.put_ok [OF assms(1), of rows] by (simp add: put_rows_def)
  moreover have "rc_Inserted rc = card (set (ids rows) - set (ids (lg_rows s)))"
    using len by (simp add: rc)
  ultimately show ?thesis using rows count insertRows_extends [of "lg_rows s" rows] unfolding s' by blast
qed

definition sample_record :: "string \<Rightarrow> store_record" where
  "sample_record i =
     \<lparr>rd_Row = zero_row\<lparr>RowID := i, ChargePeriodStart := ''2026-01-02T03:04:05Z'', ChargePeriodEnd := ''2026-01-02T03:04:06Z''\<rparr>,
      rd_RunAttempt = ''1'', rd_Actor = [], rd_Event = [], rd_TokenCommitSHA = [], rd_HeadBasis = [], rd_CredentialBasis = []\<rparr>"

definition empty_ledger :: ledger where
  "empty_ledger = \<lparr>lg_rows = [], lg_drops = [], lg_minted = Map.empty, lg_spend = []\<rparr>"

definition sample_batch :: batch where
  "sample_batch = \<lparr>ba_Records = [sample_record ''a'', sample_record ''b'', sample_record ''a''], ba_Drops = [], ba_Day = 0\<rparr>"

lemma sample_ingest:
  "map_sum (\<lambda>_. ()) (\<lambda>(s, rc). (ids (lg_rows s), rc_Inserted rc, rc_Duplicates rc)) (Ingest empty_ledger sample_batch) =
     Inr ([''a'', ''b''], 2, 1)"
  by code_simp

theorem ingest_refines_first_write_witness:
  "\<exists>s rc s2 rc2. Ingest empty_ledger sample_batch = Inr (s, rc) \<and> rc_Inserted rc = 2 \<and> rc_Duplicates rc = 1 \<and>
     Ingest s sample_batch = Inr (s2, rc2) \<and> lg_rows s2 = lg_rows s \<and> rc_Inserted rc2 = 0"
proof -
  obtain s rc where s: "Ingest empty_ledger sample_batch = Inr (s, rc)" "rc_Inserted rc = 2" "rc_Duplicates rc = 1"
    using sample_ingest by (cases "Ingest empty_ledger sample_batch") auto
  have "distinct (ids (lg_rows empty_ledger))" by (simp add: empty_ledger_def)
  from ingest_refines_first_write [OF this s(1)] s show ?thesis by blast
qed

text \<open>
  A key's attested spend only grows, and only through its own run. Attesting keeps the larger of
  the stored figure and the new one, touches no other key's figure, and is refused for a key that was
  never minted or was minted for another run; a refused or repeated attestation of a mint changes
  nothing either, so no two runs share a key.
\<close>

theorem attested_spend_grows:
  "AttestSpend s key usd = Inr s' \<longleftrightarrow>
     0 \<le> dval usd \<and> (\<exists>m. lg_minted s (mc_KeySHA256 key) = Some m \<and> SameRun m key) \<and>
     s' = s\<lparr>lg_spend := keepSpend (lg_spend s) (mc_KeySHA256 key) usd\<rparr> \<and>
     (\<forall>k. map_of (lg_spend s') k =
        (if k = mc_KeySHA256 key
         then Some (case map_of (lg_spend s) k of None \<Rightarrow> usd | Some old \<Rightarrow> if Cmp usd old > 0 then usd else old)
         else map_of (lg_spend s) k))"
  by (auto simp: AttestSpend_def keepSpend_map not_less split: option.splits if_splits)

lemma attest_first_run_stays:
  assumes "Attest s m = Inr s'"
  shows "\<exists>stored. lg_minted s' (mc_KeySHA256 m) = Some stored \<and> SameRun stored m"
    and "lg_minted s k = Some x \<Longrightarrow> lg_minted s' k = Some x"
  using assms by (auto simp: Attest_def SameRun_def split: option.splits if_splits)

lemma inTenant_isolated:
  assumes "inTenant db t f = Inr (db', x)" "u \<noteq> t"
  shows "db_tenants db' u = db_tenants db u \<and> db_owners db' = db_owners db \<and> db_keys db' = db_keys db"
  using assms by (auto simp: inTenant_def result_eqs split: if_splits)

end
