(* ===== verification/Fanout.thy ===== *)
theory Fanout
  imports Prelude
begin

text \<open>
  \<open>internal/fanout\<close>: work over a list on every core. The goroutines share nothing but the slot each
  writes its own outcome to, so a run of \<open>Each\<close> is the outcomes of its chunks, read in the workers'
  order. \<open>procs\<close> is the number of processors Go uses; \<open>fn\<close> says what the callback does at an index.
\<close>

datatype ('e, 'p) step_outcome = Fine | Failed 'e | Panicked 'p

definition minChunk :: nat where
  "minChunk = 256"

definition Workers :: "nat \<Rightarrow> nat \<Rightarrow> nat" where
  "Workers procs n = max 1 (min procs (n div minChunk))"

text \<open>The first outcome of a chunk that is not fine, or Fine.\<close>

fun runChunk :: "(nat \<Rightarrow> ('e, 'p) step_outcome) \<Rightarrow> nat list \<Rightarrow> ('e, 'p) step_outcome" where
  "runChunk fn [] = Fine"
| "runChunk fn (i # is) = (case fn i of Fine \<Rightarrow> runChunk fn is | stop \<Rightarrow> stop)"

definition chunk :: "nat \<Rightarrow> nat \<Rightarrow> nat \<Rightarrow> nat list" where
  "chunk workers n worker = [n * worker div workers ..< n * (worker + 1) div workers]"

text \<open>\<open>Each\<close>: the results in the workers' order, a panic raised again and an error returned at the first.\<close>

fun first_result :: "('e, 'p) step_outcome list \<Rightarrow> ('e, 'p) step_outcome" where
  "first_result [] = Fine"
| "first_result (r # rs) = (case r of Fine \<Rightarrow> first_result rs | stop \<Rightarrow> stop)"

definition Each :: "nat \<Rightarrow> nat \<Rightarrow> (nat \<Rightarrow> nat \<Rightarrow> ('e, 'p) step_outcome) \<Rightarrow> ('e, 'p) step_outcome" where
  "Each procs n fn =
     (let workers = Workers procs n
      in if workers = 1 then first_result [runChunk (fn 0) [0..<n]]
         else first_result (map (\<lambda>w. runChunk (fn w) (chunk workers n w)) [0..<workers]))"

section \<open>Lemmas\<close>

lemma runChunk_append:
  "runChunk fn (xs @ ys) = (case runChunk fn xs of Fine \<Rightarrow> runChunk fn ys | stop \<Rightarrow> stop)"
  by (induction xs) (auto split: step_outcome.split)

lemma first_result_chunks:
  "first_result (map (\<lambda>w. runChunk fn (c w)) ws) = runChunk fn (concat (map c ws))"
  by (induction ws) (auto simp: runChunk_append split: step_outcome.split)

lemma chunk_bound: "n * w div workers \<le> n * (w + 1) div workers" for n w workers :: nat
  by (rule div_le_mono) simp

lemma chunks_up_to:
  assumes "0 < workers"
  shows "concat (map (chunk workers n) [0..<k]) = [0..<n * k div workers]"
proof (induction k)
  case 0
  show ?case by simp
next
  case (Suc k)
  have "[0..<n * k div workers] @ [n * k div workers ..< n * (k + 1) div workers] = [0..<n * (k + 1) div workers]"
    using upt_add_eq_append [of 0 "n * k div workers" "n * (k + 1) div workers - n * k div workers"]
      chunk_bound [of n k workers] by simp
  then show ?case using Suc by (simp add: chunk_def)
qed

lemma Workers_bounds: "1 \<le> Workers procs n" "1 < Workers procs n \<Longrightarrow> Workers procs n \<le> procs"
  by (auto simp: Workers_def)

lemma each_sequential: "Each procs n (\<lambda>_. fn) = runChunk fn [0..<n]"
proof -
  have cover: "concat (map (chunk (Workers procs n) n) [0..<Workers procs n]) = [0..<n]"
    using chunks_up_to [of "Workers procs n" n "Workers procs n"] Workers_bounds(1) [of procs n] by simp
  have one: "first_result [runChunk fn [0..<n]] = runChunk fn [0..<n]"
    by (simp split: step_outcome.split)
  show ?thesis using cover one by (simp add: Each_def Let_def first_result_chunks)
qed

section \<open>Properties\<close>

text \<open>
  Dividing the work changes no answer. However many processors there are, \<open>Each\<close> answers what a
  sequential loop over the indexes would: it is fine when every index is, and otherwise it stops with
  the error or the panic of the lowest index that has one. The chunks cover every index once, in
  order, and no more workers run than there are processors.
\<close>

theorem each_is_the_sequential_loop:
  "Each procs n (\<lambda>_. fn) = runChunk fn [0..<n] \<and>
   concat (map (chunk (Workers procs n) n) [0..<Workers procs n]) = [0..<n] \<and>
   Workers procs n \<le> max 1 procs"
  using each_sequential [of procs n fn] chunks_up_to [of "Workers procs n" n "Workers procs n"]
    Workers_bounds(1) [of procs n]
  by (auto simp: Workers_def)

text \<open>A callback that fills one slot per index, as the row parser and the batch writer do, is a traversal.\<close>

definition slot :: "('a \<Rightarrow> 'e + 'b) \<Rightarrow> 'a list \<Rightarrow> nat \<Rightarrow> ('e, 'p) step_outcome" where
  "slot f xs i = (case f (xs ! i) of Inl e \<Rightarrow> Failed e | Inr _ \<Rightarrow> Fine)"

lemma runChunk_slots:
  "runChunk (slot f (us @ xs)) [length us ..< length us + length xs] =
     (case rtraverse f xs of Inl e \<Rightarrow> Failed e | Inr _ \<Rightarrow> Fine)"
proof (induction xs arbitrary: us)
  case Nil
  show ?case by simp
next
  case (Cons x xs)
  have range: "[length us ..< length us + length (x # xs)] =
      length us # [length (us @ [x]) ..< length (us @ [x]) + length xs]"
    by (simp add: upt_rec [of "length us"] Suc_le_eq)
  show ?case
  proof (cases "f x")
    case (Inl e)
    then show ?thesis unfolding range by (simp add: slot_def [of f _ "length us"])
  next
    case (Inr y)
    have eq: "runChunk (slot f (us @ x # xs)) [length us ..< length us + length (x # xs)] =
        runChunk (slot f ((us @ [x]) @ xs)) [length (us @ [x]) ..< length (us @ [x]) + length xs]"
      unfolding range using Inr by (simp add: slot_def [of f _ "length us"])
    have rest: "rtraverse f (x # xs) = rmap (\<lambda>ys. y # ys) (rtraverse f xs)" using Inr by simp
    show ?thesis unfolding eq Cons.IH rest by (cases "rtraverse f xs") simp_all
  qed
qed

lemma each_slots_is_traverse:
  "Each procs (length xs) (\<lambda>_. slot f xs) = (case rtraverse f xs of Inl e \<Rightarrow> Failed e | Inr _ \<Rightarrow> Fine)"
  by (simp add: each_sequential runChunk_slots [where us = "[]", simplified])

end
