(* ===== verification/Otlp.thy ===== *)
theory Otlp
  imports Focus
begin

text \<open>
  \<open>internal/otlp\<close>: the allowlist at the ingest edge (\<open>fields.go\<close>) and the requests it counts once
  (\<open>otlp.go\<close>). A collector is the counters of dropped fields, a table by label; an attribute map is a
  map from key to text. The decoders of the two encodings and the agents' dialects are not modelled.
\<close>

section \<open>The allowlist\<close>

abbreviation DropClientCost :: string where "DropClientCost \<equiv> ''client_cost''"

abbreviation DropContent :: string where "DropContent \<equiv> ''content_other''"

abbreviation DropUnlisted :: string where "DropUnlisted \<equiv> ''unlisted''"

abbreviation DropOversized :: string where "DropOversized \<equiv> ''oversized_value''"

abbreviation DropNonScalar :: string where "DropNonScalar \<equiv> ''non_scalar_value''"

abbreviation keyEmail :: string where "keyEmail \<equiv> ''user.email''"

abbreviation DropEmail :: string where "DropEmail \<equiv> ''user.email''"

definition maxValueBytes :: nat where
  "maxValueBytes = 1024"

definition MaxTokens :: int where
  "MaxTokens = 1000000000000"

definition namedContent :: "string list" where
  "namedContent =
     [''gen_ai.input.messages'', ''gen_ai.output.messages'', ''gen_ai.system_instructions'',
      ''gen_ai.tool.definitions'', ''gen_ai.tool.call.arguments'', ''gen_ai.tool.call.result'',
      ''gen_ai.prompt'', ''gen_ai.completion'', ''gen_ai.retrieval.query.text'', ''gen_ai.retrieval.documents'',
      ''prompt'', ''user_prompt'', ''tool_parameters'', ''tool_input'', ''tool_output'', ''tool_result'',
      ''body'', ''request_body'', ''response_body'', ''http.request.body.content'', ''http.response.body.content'']"

definition clientCost :: "string list" where
  "clientCost =
     [''cost_usd'', ''gen_ai.usage.cost'', ''gen_ai.cost'', ''cursor.cost.usage'', ''github.copilot.nano_aiu'',
      ''github.copilot.cost'', ''claude_code.cost.usage'']"

definition contentPrefixes :: "string list" where
  "contentPrefixes =
     [''gen_ai.prompt.'', ''gen_ai.completion.'', ''llm.input_messages'', ''llm.output_messages'', ''llm.prompts'']"

definition contentWords :: "string list" where
  "contentWords =
     [''prompt'', ''message'', ''instruction'', ''content'', ''body'', ''argument'', ''completion'', ''tool'']"

definition allowed :: "string list" where
  "allowed =
     [''service.name'', ''service.version'', ''app.version'',
      ''vcs.repository.url.full'', ''vcs.change.id'', ''vcs.ref.head.revision'', ''cicd.pipeline.run.id'',
      ''costroid.cost_basis'', ''costroid.enforcement_grade'',
      ''gen_ai.provider.name'', ''gen_ai.system'', ''gen_ai.operation.name'',
      ''gen_ai.request.model'', ''gen_ai.response.model'', ''gen_ai.response.id'',
      ''gen_ai.conversation.id'', ''session.id'', ''gen_ai.agent.name'', ''gen_ai.agent.version'',
      ''gen_ai.usage.input_tokens'', ''gen_ai.usage.output_tokens'', ''gen_ai.usage.cache_read.input_tokens'',
      ''gen_ai.usage.cache_write.input_tokens'', ''gen_ai.usage.reasoning.output_tokens'',
      ''gen_ai.usage.cache_creation.input_tokens'', ''gen_ai.usage.prompt_tokens'',
      ''gen_ai.usage.completion_tokens'',
      ''event.name'', ''model'', ''request_id'', ''speed'',
      ''input_tokens'', ''output_tokens'', ''cache_read_tokens'', ''cache_creation_tokens'',
      ''cache_creation_5m_tokens'', ''cache_creation_1h_tokens'',
      ''codex.usage.reasoning_output_tokens'',
      ''cursor.api.request.input_tokens'', ''cursor.api.request.output_tokens'',
      ''cursor.api.request.cache_read_tokens'', ''cursor.api.request.cache_creation_tokens'',
      ''cursor.conversation.id'']"

definition DropLabel :: "string \<Rightarrow> string" where
  "DropLabel key =
     (if key = keyEmail then DropEmail
      else if key \<in> set namedContent then key
      else if key \<in> set clientCost then DropClientCost
      else if list_ex (\<lambda>p. prefix p (to_lower key)) contentPrefixes then DropContent
      else if list_ex (\<lambda>w. contains_str (to_lower key) w) contentWords then DropContent
      else DropUnlisted)"

type_synonym drop_counts = "(string \<times> int) list"

definition drop_field :: "drop_counts \<Rightarrow> string \<Rightarrow> drop_counts" where
  "drop_field drops label = upsert label 0 (\<lambda>n. n + 1) drops"

text \<open>
  \<open>collector.keep\<close>: an attribute is kept, or left behind under one label of a closed set.
\<close>

definition keep_field :: "drop_counts \<times> (string \<rightharpoonup> string) \<Rightarrow> string \<times> string \<times> bool \<Rightarrow>
    drop_counts \<times> (string \<rightharpoonup> string)" where
  "keep_field st attr =
     (let (drops, kept) = st; (key, text, scalar) = attr
      in if key \<notin> set allowed \<and> key \<noteq> keyEmail then (drop_field drops (DropLabel key), kept)
         else if \<not> scalar then (drop_field drops DropNonScalar, kept)
         else if maxValueBytes < length text then (drop_field drops DropOversized, kept)
         else (drops, kept(key \<mapsto> text)))"

definition drop_labels :: "string list" where
  "drop_labels = [DropClientCost, DropContent, DropUnlisted, DropOversized, DropNonScalar, DropEmail] @ namedContent"

section \<open>Requests counted once\<close>

record otlp_usage =
  ou_ID :: string
  ou_Dialect :: string
  ou_Provider :: string
  ou_Model :: string
  ou_ServiceTier :: string
  ou_ContextInputTokens :: int
  ou_Start :: instant
  ou_End :: instant
  ou_Counts :: "(token_class \<times> int) list"
  ou_AssumedWrite :: token_class
  ou_Notes :: "string list"
  ou_Session :: string
  ou_Agent :: string
  ou_AgentVersion :: string
  ou_CostBasis :: cost_basis
  ou_EnforcementGrade :: string
  ou_Repo :: string
  ou_PullRequest :: string
  ou_CommitSHA :: string
  ou_RunID :: string
  ou_Email :: string

record otlp_batch =
  ob_Usage :: "otlp_usage list"
  ob_Rejected :: int
  ob_Drops :: drop_counts

abbreviation anyWrite :: token_class where "anyWrite \<equiv> ''cache_write''"

definition withoutWrites :: "(token_class \<times> int) list \<Rightarrow> (token_class \<times> int) list" where
  "withoutWrites counts =
     foldl (\<lambda>m c. upsert (if Lifetime (fst c) \<noteq> [] then anyWrite else fst c) 0 (\<lambda>n. wrap64 (n + snd c)) m) [] counts"

definition sameButLifetime :: "otlp_usage \<Rightarrow> otlp_usage \<Rightarrow> bool" where
  "sameButLifetime a b \<longleftrightarrow>
     ou_ID a = ou_ID b \<and> ou_Provider a = ou_Provider b \<and> ou_Model a = ou_Model b \<and>
     set (withoutWrites (ou_Counts a)) = set (withoutWrites (ou_Counts b))"

definition keepStatedSplits :: "otlp_usage list \<Rightarrow> otlp_usage list" where
  "keepStatedSplits usages =
     (let stated = filter (\<lambda>u. ou_AssumedWrite u = []) usages
      in filter (\<lambda>a. \<not> (ou_AssumedWrite a \<noteq> [] \<and>
           list_ex (\<lambda>b. ou_ID b = ou_ID a \<and> sameButLifetime a b) stated)) usages)"

section \<open>Lemmas\<close>

lemma DropLabel_closed: "DropLabel key \<in> set drop_labels"
  by (simp add: DropLabel_def drop_labels_def)

lemma keep_field_labels:
  assumes "fst ` set (fst st) \<subseteq> set drop_labels"
  shows "fst ` set (fst (keep_field st attr)) \<subseteq> set drop_labels"
proof -
  have fixed: "DropNonScalar \<in> set drop_labels" "DropOversized \<in> set drop_labels"
    by (simp_all add: drop_labels_def)
  obtain drops kept where st: "st = (drops, kept)" by (cases st)
  have "fst ` set (drop_field drops l) \<subseteq> set drop_labels" if "l \<in> set drop_labels" for l
    using that assms by (simp add: drop_field_def keys_upsert st)
  then show ?thesis
    using assms fixed DropLabel_closed
    by (simp add: keep_field_def st case_prod_beta)
qed

lemma keep_field_admits:
  "snd (keep_field st attr) k = Some t \<Longrightarrow>
     snd st k = Some t \<or> (k \<in> set allowed \<or> k = keyEmail) \<and> length t \<le> maxValueBytes \<and> attr = (k, t, True)"
  by (cases st; cases attr) (auto simp: keep_field_def not_less split: if_splits)

section \<open>Properties\<close>



text \<open>An assumed lifetime never counts a request twice, and a stated record is never left out.\<close>

lemma stated_records_stay:
  "u \<in> set usages \<Longrightarrow> ou_AssumedWrite u = [] \<Longrightarrow> u \<in> set (keepStatedSplits usages)"
  by (simp add: keepStatedSplits_def)

lemma assumed_records_stand_alone:
  assumes "a \<in> set (keepStatedSplits usages)" "ou_AssumedWrite a \<noteq> []" "b \<in> set usages" "ou_AssumedWrite b = []"
  shows "\<not> sameButLifetime a b"
  using assms by (auto simp: keepStatedSplits_def list_ex_iff sameButLifetime_def)

end
