(* ===== verification/ReconReport.thy ===== *)
theory ReconReport
  imports Catalog "HOL-Library.Product_Lexorder"
begin

text \<open>
  \<open>internal/reconcile\<close>, part one: the runs of days a report is asked for, the report's records, and
  the two providers' readers (\<open>report.go\<close>, \<open>http.go\<close>, \<open>anthropic.go\<close>, \<open>openai.go\<close>). What a provider
  answers is the parameter \<open>fetch\<close>: the page that answers the n-th request of one walk, after
  \<open>encoding/json\<close> has read it. Go's token maps are association lists, in the order their keys were
  first set.
\<close>

section \<open>Days\<close>

text \<open>\<open>t.AddDate(0, 0, n)\<close>: the date's day moves, the time of day stays.\<close>

definition add_days :: "instant \<Rightarrow> int \<Rightarrow> instant" where
  "add_days t n = (let (y, m, d) = date_of t in go_date y m (d + n) + t mod day_ns)"

text \<open>\<open>time.Parse("2006-01-02", s)\<close>, which reads the whole text.\<close>

definition parse_day :: "string \<Rightarrow> instant option" where
  "parse_day s = (case parse_date s of Some (t, []) \<Rightarrow> Some t | _ \<Rightarrow> None)"

record day_range =
  rg_From :: instant
  rg_To :: instant

datatype range_error = BadFrom | BadTo | ToBeforeFrom

definition ParseRange :: "string \<Rightarrow> string \<Rightarrow> range_error + day_range" where
  "ParseRange from_day to_day =
     (case parse_day from_day of
        None \<Rightarrow> Inl BadFrom
      | Some f \<Rightarrow>
          (case parse_day to_day of
             None \<Rightarrow> Inl BadTo
           | Some t \<Rightarrow> if t < f then Inl ToBeforeFrom else Inr \<lparr>rg_From = f, rg_To = t\<rparr>))"

definition holds_day :: "day_range \<Rightarrow> string \<Rightarrow> bool" where
  "holds_day r day \<longleftrightarrow> format_day (rg_From r) \<le> day \<and> day \<le> format_day (rg_To r)"

text \<open>A half-open span of whole days.\<close>

record window =
  wi_start :: instant
  wi_end :: instant

definition min_time :: "instant \<Rightarrow> instant \<Rightarrow> instant" where
  "min_time a b = (if a < b then a else b)"

lemma add_days_val: "add_days t n = t + n * day_ns"
proof -
  obtain y m d where date: "date_of t = (y, m, d)" by (cases "date_of t")
  have b: "1 \<le> m" "m \<le> 12" using date_of_bounds [OF date] by auto
  have "days_before_year y + days_before_month (is_leap y) m + (d + n) - 1 - epoch_days = day_of t + n"
    using date by (auto simp: date_of_def Let_def)
  then have "go_date y m (d + n) = (day_of t + n) * day_ns" by (simp add: go_date_month [OF b])
  moreover have "day_of t * day_ns + t mod day_ns = t"
    unfolding day_of_def by (rule div_mult_mod_eq)
  ultimately show ?thesis using date by (simp add: add_days_def algebra_simps)
qed

lemma day_ns_pos [simp]: "0 < day_ns" by (simp add: day_ns_def second_ns_def)

text \<open>\<open>for at := w.start; at.Before(w.end); at = at.AddDate(0, 0, 1)\<close>.\<close>

function days_from :: "instant \<Rightarrow> instant \<Rightarrow> instant list" where
  "days_from cur stop = (if cur < stop then cur # days_from (add_days cur 1) stop else [])"
  by auto
termination
proof (relation "measure (\<lambda>(cur, stop). nat (stop - cur))")
  show "wf (measure (\<lambda>(cur, stop). nat (stop - cur)))" by simp
next
  fix cur stop :: instant
  assume "cur < stop"
  moreover have "0 < day_ns" by simp
  ultimately show "((add_days cur 1, stop), cur, stop) \<in> measure (\<lambda>(cur, stop). nat (stop - cur))"
    by (simp add: add_days_val)
qed

declare days_from.simps [simp del]

definition window_days :: "window \<Rightarrow> string list" where
  "window_days w = map format_day (days_from (wi_start w) (wi_end w))"

text \<open>
  \<open>for start := r.From; start.Before(end); start = start.AddDate(0, 0, limit)\<close>, which never ends
  for a limit that does not move the start.
\<close>

partial_function (option) windows_from :: "int \<Rightarrow> instant \<Rightarrow> instant \<Rightarrow> window list option" where
  "windows_from limit start stop =
     (if start < stop
      then Option.bind (windows_from limit (add_days start limit) stop) (\<lambda>spans.
             Some (\<lparr>wi_start = start, wi_end = min_time (add_days start limit) stop\<rparr> # spans))
      else Some [])"

definition windows :: "day_range \<Rightarrow> int \<Rightarrow> window list option" where
  "windows r limit = windows_from limit (rg_From r) (add_days (rg_To r) 1)"

definition endOfDay :: "string \<Rightarrow> instant option" where
  "endOfDay day = map_option (\<lambda>t. add_days t 1) (parse_day day)"

section \<open>Records\<close>

type_synonym token_counts = "(token_class \<times> decimal) list"

text \<open>\<open>m[class]\<close>, with Go's zero value for an absent key.\<close>

definition count_of :: "token_counts \<Rightarrow> token_class \<Rightarrow> decimal" where
  "count_of m class = (case map_of m class of None \<Rightarrow> zero_decimal | Some d \<Rightarrow> d)"

text \<open>\<open>m[class] = m[class].Add(tokens)\<close>.\<close>

definition add_count :: "token_class \<Rightarrow> decimal \<Rightarrow> token_counts \<Rightarrow> token_counts" where
  "add_count class tokens m = upsert class zero_decimal (\<lambda>d. Add d tokens) m"

record usage_record =
  ru_Credential :: string
  ru_Day :: string
  ru_Model :: string
  ru_Tier :: string
  ru_Region :: string
  ru_Tokens :: token_counts

record cost_line =
  cl_Credential :: string
  cl_Day :: string
  cl_Amount :: decimal
  cl_List :: "decimal option"
  cl_Tokens :: bool

record provider_report =
  re_Source :: string
  re_Usage :: "usage_record list"
  re_Costs :: "cost_line list"
  re_Unsettled :: "string set"
  re_Refreshed :: "string \<rightharpoonup> instant"
  re_Lag :: int

definition no_report :: "string \<Rightarrow> int \<Rightarrow> provider_report" where
  "no_report source lag =
     \<lparr>re_Source = source, re_Usage = [], re_Costs = [], re_Unsettled = {}, re_Refreshed = Map.empty, re_Lag = lag\<rparr>"

definition addUsage :: "usage_record \<Rightarrow> provider_report \<Rightarrow> provider_report" where
  "addUsage u rp = (if ru_Credential u \<noteq> [] then rp\<lparr>re_Usage := re_Usage rp @ [u]\<rparr> else rp)"

definition addCost :: "cost_line \<Rightarrow> provider_report \<Rightarrow> provider_report" where
  "addCost c rp = (if cl_Credential c \<noteq> [] then rp\<lparr>re_Costs := re_Costs rp @ [c]\<rparr> else rp)"

definition refreshedAt :: "provider_report \<Rightarrow> string \<Rightarrow> instant option" where
  "refreshedAt rp day = re_Refreshed rp day"

text \<open>
  A window's day was formatted from an instant, so \<open>parseDay\<close> reads it back; where it could not, the
  code panics and the model leaves the day unsettled.
\<close>

definition stamp_day :: "instant option \<Rightarrow> provider_report \<Rightarrow> string \<Rightarrow> provider_report" where
  "stamp_day refreshed rp day =
     (let late = (case refreshed of
            None \<Rightarrow> True
          | Some t \<Rightarrow> (case endOfDay day of None \<Rightarrow> True | Some e \<Rightarrow> t < e));
          rp = (if late then rp\<lparr>re_Unsettled := insert day (re_Unsettled rp)\<rparr> else rp)
      in case refreshed of
           None \<Rightarrow> rp
         | Some t \<Rightarrow>
             (if (case re_Refreshed rp day of None \<Rightarrow> True | Some kept \<Rightarrow> t < kept)
              then rp\<lparr>re_Refreshed := (re_Refreshed rp)(day \<mapsto> t)\<rparr> else rp))"

definition stamp :: "window \<Rightarrow> instant option \<Rightarrow> provider_report \<Rightarrow> provider_report" where
  "stamp w refreshed rp = foldl (stamp_day refreshed) rp (window_days w)"

definition usageOf :: "provider_report \<Rightarrow> string \<Rightarrow> string \<Rightarrow> usage_record list" where
  "usageOf rp credential day = filter (\<lambda>u. ru_Credential u = credential \<and> ru_Day u = day) (re_Usage rp)"

record cost_total =
  ct_amount :: decimal
  ct_other :: decimal
  ct_list :: "decimal option"

text \<open>The running totals of \<open>costOf\<close>: the amount, the rest, the list figure, and whether a token line
  stated one or left it out.\<close>

record cost_walk =
  cw_amount :: decimal
  cw_other :: decimal
  cw_list :: decimal
  cw_stated :: bool
  cw_missing :: bool

definition cost_step :: "cost_walk \<Rightarrow> cost_line \<Rightarrow> cost_walk" where
  "cost_step w c =
     (if \<not> cl_Tokens c then w\<lparr>cw_other := Add (cw_other w) (cl_Amount c)\<rparr>
      else
        (let w = w\<lparr>cw_amount := Add (cw_amount w) (cl_Amount c)\<rparr>
         in case cl_List c of
              None \<Rightarrow> w\<lparr>cw_missing := True\<rparr>
            | Some l \<Rightarrow> w\<lparr>cw_stated := True, cw_list := Add (cw_list w) l\<rparr>))"

definition costOf :: "provider_report \<Rightarrow> string \<Rightarrow> string \<Rightarrow> cost_total" where
  "costOf rp credential day =
     (let w = foldl cost_step
          \<lparr>cw_amount = zero_decimal, cw_other = zero_decimal, cw_list = zero_decimal, cw_stated = False, cw_missing = False\<rparr>
          (filter (\<lambda>c. \<not> (cl_Credential c \<noteq> credential \<or> cl_Day c \<noteq> day)) (re_Costs rp))
      in \<lparr>ct_amount = cw_amount w, ct_other = cw_other w,
          ct_list = (if cw_stated w \<and> \<not> cw_missing w then Some (cw_list w) else None)\<rparr>)"

text \<open>The report dimensions the credentials need, in the order they are first needed.\<close>

definition grains :: "string list \<Rightarrow> string \<Rightarrow> string \<Rightarrow> string \<Rightarrow> string list" where
  "grains credentials scopePrefix keyGrain scopeGrain =
     foldl (\<lambda>needed credential.
       (let grain = (if prefix scopePrefix credential then scopeGrain else keyGrain)
        in if grain \<in> set needed then needed else needed @ [grain])) [] credentials"

section \<open>Walking a report\<close>

type_synonym query_values = "(string \<times> string list) list"

text \<open>\<open>url.Values.Set\<close>.\<close>

definition set_value :: "string \<Rightarrow> string \<Rightarrow> query_values \<Rightarrow> query_values" where
  "set_value k v q = upsert k [] (\<lambda>_. [v]) q"

datatype report_error =
    FetchFailed string
  | NoNextPage
  | TooManyPages
  | BelowZero string string token_class int
  | NotDollars string
  | BadReportFigure string decimal_error
  | NoLimit

record 'a page =
  pg_Data :: "'a list"
  pg_HasMore :: bool
  pg_NextPage :: "string option"
  pg_DataRefreshedAt :: "instant option"

definition maxPages :: nat where
  "maxPages = 10000"

text \<open>\<open>for range maxPages\<close>: the n-th request, the pages left, and the state each page is read into.\<close>

primrec pages_from :: "(query_values \<Rightarrow> nat \<Rightarrow> report_error + 'a page) \<Rightarrow> ('s \<Rightarrow> 'a page \<Rightarrow> report_error + 's) \<Rightarrow>
    nat \<Rightarrow> nat \<Rightarrow> query_values \<Rightarrow> 's \<Rightarrow> report_error + 's" where
  "pages_from fetch each 0 n q s = Inl TooManyPages"
| "pages_from fetch each (Suc left) n q s =
     rbind (fetch q n) (\<lambda>current.
     rbind (each s current) (\<lambda>s.
       if \<not> pg_HasMore current then Inr s
       else (case pg_NextPage current of
               None \<Rightarrow> Inl NoNextPage
             | Some token \<Rightarrow>
                 if token = [] then Inl NoNextPage
                 else pages_from fetch each left (n + 1) (set_value ''page'' token q) s)))"

definition pages :: "(query_values \<Rightarrow> nat \<Rightarrow> report_error + 'a page) \<Rightarrow> ('s \<Rightarrow> 'a page \<Rightarrow> report_error + 's) \<Rightarrow>
    query_values \<Rightarrow> 's \<Rightarrow> report_error + 's" where
  "pages fetch each q s = pages_from fetch each maxPages 0 q s"

definition text_of :: "string option \<Rightarrow> string" where
  "text_of value = (case value of None \<Rightarrow> [] | Some s \<Rightarrow> s)"

text \<open>
  Both readers state their counts per class and refuse the first class, in order of name, that is below
  zero.
\<close>

definition count_tokens :: "string \<Rightarrow> string \<Rightarrow> (token_class \<times> int) list \<Rightarrow> report_error + token_counts" where
  "count_tokens day model counts =
     rtraverse (\<lambda>(class, n). if n < 0 then Inl (BelowZero day model class n) else Inr (class, FromInt n))
       (sort_key fst counts)"

section \<open>Anthropic\<close>

abbreviation SourceAnthropic :: string where "SourceAnthropic \<equiv> ''anthropic''"

abbreviation anthropicKeyGrain :: string where "anthropicKeyGrain \<equiv> ''api_key_id''"

abbreviation anthropicScope :: string where "anthropicScope \<equiv> ''workspace_id''"

abbreviation anthropicScopeID :: string where "anthropicScopeID \<equiv> ''wrkspc_''"

abbreviation speedFast :: string where "speedFast \<equiv> ''fast''"

definition anthropicMaxSpan :: int where
  "anthropicMaxSpan = 31"

definition anthropicQuery :: "window \<Rightarrow> string list \<Rightarrow> query_values" where
  "anthropicQuery w groupBy =
     [(''starting_at'', [format_instant (wi_start w)]),
      (''ending_at'', [format_instant (wi_end w)]),
      (''time_bucket_width'', [''1d'']),
      (''group_by[]'', groupBy),
      (''limit'', [''1000'']),
      (''order_by'', [''time'']),
      (''order'', [''asc''])]"

record anthropic_group =
  ag_APIKeyID :: "string option"
  ag_WorkspaceID :: "string option"
  ag_Model :: "string option"
  ag_ServiceTier :: "string option"
  ag_InferenceGeo :: "string option"
  ag_Speed :: "string option"
  ag_CostType :: "string option"

definition anthropic_credential :: "anthropic_group \<Rightarrow> string \<Rightarrow> string" where
  "anthropic_credential g grain =
     (if grain = anthropicScope then text_of (ag_WorkspaceID g) else text_of (ag_APIKeyID g))"

definition anthropic_tier :: "anthropic_group \<Rightarrow> string" where
  "anthropic_tier g =
     (if text_of (ag_Speed g) = speedFast then speedFast
      else (case ag_ServiceTier g of None \<Rightarrow> TierStandard | Some t \<Rightarrow> t))"

definition anthropic_region :: "anthropic_group \<Rightarrow> string" where
  "anthropic_region g = (case ag_InferenceGeo g of None \<Rightarrow> RegionGlobal | Some r \<Rightarrow> r)"

record anthropic_usage_row =
  au_StartingAt :: instant
  au_Group :: anthropic_group
  au_UncachedInputTokens :: int
  au_Ephemeral1h :: int
  au_Ephemeral5m :: int
  au_CacheReadInputTokens :: int
  au_OutputTokens :: int

definition anthropic_usage :: "anthropic_usage_row \<Rightarrow> string \<Rightarrow> report_error + usage_record" where
  "anthropic_usage r grain =
     (let day = format_day (au_StartingAt r) in
      rmap (\<lambda>tokens.
          \<lparr>ru_Credential = anthropic_credential (au_Group r) grain, ru_Day = day,
           ru_Model = text_of (ag_Model (au_Group r)), ru_Tier = anthropic_tier (au_Group r),
           ru_Region = anthropic_region (au_Group r), ru_Tokens = tokens\<rparr>)
        (count_tokens day (text_of (ag_Model (au_Group r)))
           [(InputUncached, au_UncachedInputTokens r), (CacheRead, au_CacheReadInputTokens r),
            (CacheWrite5m, au_Ephemeral5m r), (CacheWrite1h, au_Ephemeral1h r), (Output, au_OutputTokens r)]))"

definition anthropic_usage_page :: "string \<Rightarrow> window \<Rightarrow> provider_report \<Rightarrow> anthropic_usage_row page \<Rightarrow>
    report_error + provider_report" where
  "anthropic_usage_page grain w rp current =
     rfold (\<lambda>rp r. rmap (\<lambda>u. addUsage u rp) (anthropic_usage r grain))
       (stamp w (pg_DataRefreshedAt current) rp) (pg_Data current)"

record anthropic_cost_row =
  ac_StartingAt :: instant
  ac_Group :: anthropic_group
  ac_Currency :: string
  ac_Amount :: string
  ac_ListAmount :: "string option"

text \<open>The amounts are in cents.\<close>

definition parseDollars :: "string \<Rightarrow> decimal_error + decimal" where
  "parseDollars cents = rmap (\<lambda>amount. DivPow10 amount 2) (ParseNumber cents)"

definition figure :: "string \<Rightarrow> decimal_error + decimal \<Rightarrow> report_error + decimal" where
  "figure field d = (case d of Inl e \<Rightarrow> Inl (BadReportFigure field e) | Inr v \<Rightarrow> Inr v)"

definition anthropic_cost :: "anthropic_cost_row \<Rightarrow> string \<Rightarrow> report_error + cost_line" where
  "anthropic_cost r grain =
     (if ac_Currency r \<noteq> ''USD'' then Inl (NotDollars (ac_Currency r))
      else rbind (figure ''amount'' (parseDollars (ac_Amount r))) (\<lambda>amount.
        (let cost = \<lparr>cl_Credential = anthropic_credential (ac_Group r) grain,
               cl_Day = format_day (ac_StartingAt r), cl_Amount = amount, cl_List = None,
               cl_Tokens = (text_of (ag_CostType (ac_Group r)) = ''tokens'')\<rparr>
         in case ac_ListAmount r of
              None \<Rightarrow> Inr cost
            | Some l \<Rightarrow> rmap (\<lambda>d. cost\<lparr>cl_List := Some d\<rparr>) (figure ''list_amount'' (parseDollars l)))))"

definition anthropic_cost_page :: "string \<Rightarrow> window \<Rightarrow> provider_report \<Rightarrow> anthropic_cost_row page \<Rightarrow>
    report_error + provider_report" where
  "anthropic_cost_page grain w rp current =
     rfold (\<lambda>rp r. rmap (\<lambda>c. addCost c rp) (anthropic_cost r grain))
       (stamp w (pg_DataRefreshedAt current) rp) (pg_Data current)"

text \<open>\<open>anthropic.Fetch\<close>: every grain, every window, usage and then cost.\<close>

definition anthropic_fetch :: "(query_values \<Rightarrow> nat \<Rightarrow> report_error + anthropic_usage_row page) \<Rightarrow>
    (query_values \<Rightarrow> nat \<Rightarrow> report_error + anthropic_cost_row page) \<Rightarrow> day_range \<Rightarrow> string list \<Rightarrow>
    report_error + provider_report" where
  "anthropic_fetch fetchUsage fetchCost days credentials =
     rfold (\<lambda>rp grain.
         case windows days anthropicMaxSpan of
           None \<Rightarrow> Inl NoLimit
         | Some spans \<Rightarrow>
             rfold (\<lambda>rp w.
                 rbind (pages fetchUsage (anthropic_usage_page grain w)
                     (anthropicQuery w [grain, ''model'', ''service_tier'', ''inference_geo'', ''speed'']) rp)
                   (pages fetchCost (anthropic_cost_page grain w) (anthropicQuery w [grain, ''cost_type''])))
               rp spans)
       (no_report SourceAnthropic 0)
       (grains credentials anthropicScopeID anthropicKeyGrain anthropicScope)"

section \<open>OpenAI\<close>

abbreviation SourceOpenAI :: string where "SourceOpenAI \<equiv> ''openai''"

abbreviation openAIKeyGrain :: string where "openAIKeyGrain \<equiv> ''api_key_id''"

abbreviation openAIScope :: string where "openAIScope \<equiv> ''project_id''"

abbreviation openAIScopeID :: string where "openAIScopeID \<equiv> ''proj_''"

abbreviation openAIBatch :: string where "openAIBatch \<equiv> ''batch''"

text \<open>One day.\<close>

definition openAILag :: int where
  "openAILag = day_ns"

definition standardTiers :: "string list" where
  "standardTiers = [[], ''default'', ''auto'', TierStandard]"

definition openAIQuery :: "window \<Rightarrow> string list \<Rightarrow> query_values" where
  "openAIQuery w groupBy =
     [(''start_time'', [int_string (wi_start w div second_ns)]),
      (''end_time'', [int_string (wi_end w div second_ns)]),
      (''bucket_width'', [''1d'']),
      (''group_by'', groupBy),
      (''limit'', [''31''])]"

record 'a openai_bucket =
  ob_StartTime :: int
  ob_Results :: "'a list"

definition bucket_day :: "('a, 'b) openai_bucket_scheme \<Rightarrow> string" where
  "bucket_day b = format_day (ob_StartTime b * second_ns)"

record openai_usage_result =
  ou_APIKeyID :: "string option"
  ou_ProjectID :: "string option"
  ou_Model :: "string option"
  ou_Batch :: "bool option"
  ou_ServiceTier :: "string option"
  ou_InputTokens :: int
  ou_InputCachedTokens :: int
  ou_InputUncachedTokens :: "int option"
  ou_CacheWriteTokens :: int
  ou_CacheWrite30mTokens :: "int option"
  ou_CacheWrite12hTokens :: int
  ou_OutputTokens :: int

definition openai_tier :: "openai_usage_result \<Rightarrow> string" where
  "openai_tier r =
     (if ou_Batch r = Some True then openAIBatch
      else (let tier = to_lower (text_of (ou_ServiceTier r))
            in if tier \<in> set standardTiers then TierStandard else tier))"

definition openai_credential :: "string \<Rightarrow> string option \<Rightarrow> string option \<Rightarrow> string" where
  "openai_credential grain key project = (if grain = openAIScope then text_of project else text_of key)"

text \<open>The differences are taken in \<open>int64\<close>, so they wrap.\<close>

definition openai_usage :: "openai_usage_result \<Rightarrow> string \<Rightarrow> string \<Rightarrow> report_error + usage_record" where
  "openai_usage r grain day =
     (let uncached = (case ou_InputUncachedTokens r of
            Some n \<Rightarrow> n
          | None \<Rightarrow> wrap64 (wrap64 (ou_InputTokens r - ou_InputCachedTokens r) - ou_CacheWriteTokens r));
          write30m = (case ou_CacheWrite30mTokens r of
            Some n \<Rightarrow> n
          | None \<Rightarrow> wrap64 (ou_CacheWriteTokens r - ou_CacheWrite12hTokens r))
      in rmap (\<lambda>tokens.
          \<lparr>ru_Credential = openai_credential grain (ou_APIKeyID r) (ou_ProjectID r), ru_Day = day,
           ru_Model = text_of (ou_Model r), ru_Tier = openai_tier r, ru_Region = RegionGlobal,
           ru_Tokens = tokens\<rparr>)
        (count_tokens day (text_of (ou_Model r))
           [(InputUncached, uncached), (CacheRead, ou_InputCachedTokens r), (CacheWrite30m, write30m),
            (CacheWrite12h, ou_CacheWrite12hTokens r), (Output, ou_OutputTokens r)]))"

definition openai_usage_page :: "string \<Rightarrow> provider_report \<Rightarrow> openai_usage_result openai_bucket page \<Rightarrow>
    report_error + provider_report" where
  "openai_usage_page grain rp current =
     rfold (\<lambda>rp b. rfold (\<lambda>rp r. rmap (\<lambda>u. addUsage u rp) (openai_usage r grain (bucket_day b))) rp (ob_Results b))
       rp (pg_Data current)"

record openai_cost_result =
  oc_APIKeyID :: "string option"
  oc_ProjectID :: "string option"
  oc_Value :: string
  oc_Currency :: string

text \<open>
  \<open>strings.EqualFold(c, "USD")\<close>: letters compare without case, and Unicode folds the long s (bytes C5 BF)
  with S.
\<close>

definition folds_to_usd :: "string \<Rightarrow> bool" where
  "folds_to_usd c \<longleftrightarrow>
     to_lower c = ''usd'' \<or>
     (case c of
        [u, a, b, d] \<Rightarrow> lower_char u = CHR ''u'' \<and> a = CHR 0xC5 \<and> b = CHR 0xBF \<and> lower_char d = CHR ''d''
      | _ \<Rightarrow> False)"

definition openai_cost :: "openai_cost_result \<Rightarrow> string \<Rightarrow> string \<Rightarrow> report_error + cost_line" where
  "openai_cost r grain day =
     (if \<not> folds_to_usd (oc_Currency r) then Inl (NotDollars (oc_Currency r))
      else rmap (\<lambda>amount.
          \<lparr>cl_Credential = openai_credential grain (oc_APIKeyID r) (oc_ProjectID r), cl_Day = day,
           cl_Amount = amount, cl_List = None, cl_Tokens = True\<rparr>)
        (figure ''amount'' (ParseNumber (oc_Value r))))"

definition openai_cost_page :: "string \<Rightarrow> provider_report \<Rightarrow> openai_cost_result openai_bucket page \<Rightarrow>
    report_error + provider_report" where
  "openai_cost_page grain rp current =
     rfold (\<lambda>rp b. rfold (\<lambda>rp r. rmap (\<lambda>c. addCost c rp) (openai_cost r grain (bucket_day b))) rp (ob_Results b))
       rp (pg_Data current)"

definition openai_fetch :: "(query_values \<Rightarrow> nat \<Rightarrow> report_error + openai_usage_result openai_bucket page) \<Rightarrow>
    (query_values \<Rightarrow> nat \<Rightarrow> report_error + openai_cost_result openai_bucket page) \<Rightarrow> day_range \<Rightarrow> string list \<Rightarrow>
    report_error + provider_report" where
  "openai_fetch fetchUsage fetchCosts days credentials =
     (let w = \<lparr>wi_start = rg_From days, wi_end = add_days (rg_To days) 1\<rparr> in
      rfold (\<lambda>rp grain.
          rbind (pages fetchUsage (openai_usage_page grain) (openAIQuery w [grain, ''model'', openAIBatch, ''service_tier'']) rp)
            (pages fetchCosts (openai_cost_page grain) (openAIQuery w [grain])))
        (no_report SourceOpenAI openAILag)
        (grains credentials openAIScopeID openAIKeyGrain openAIScope))"

section \<open>The windows of a range\<close>

lemma days_from_empty [simp]: "stop \<le> start \<Longrightarrow> days_from start stop = []"
  by (simp add: days_from.simps)

lemma days_from_step: "start < stop \<Longrightarrow> days_from start stop = start # days_from (start + day_ns) stop"
  by (subst days_from.simps) (simp add: add_days_val)

lemma days_from_split:
  "start + int n * day_ns \<le> stop \<Longrightarrow>
     days_from start (start + int n * day_ns) @ days_from (start + int n * day_ns) stop = days_from start stop"
proof (induction n arbitrary: start)
  case 0
  show ?case by simp
next
  case (Suc n)
  have e: "start + int (Suc n) * day_ns = (start + day_ns) + int n * day_ns" by (simp add: algebra_simps)
  have p: "0 < day_ns" "0 \<le> int n * day_ns" by (simp_all add: less_imp_le)
  have "days_from start (start + int (Suc n) * day_ns) =
      start # days_from (start + day_ns) (start + int (Suc n) * day_ns)"
    by (rule days_from_step) (use p e in linarith)
  moreover have "days_from start stop = start # days_from (start + day_ns) stop"
    by (rule days_from_step) (use p e Suc.prems in linarith)
  ultimately show ?case using Suc.IH [of "start + day_ns"] Suc.prems by (simp only: e append_Cons)
qed

lemma days_from_length: "stop \<le> start + int n * day_ns \<Longrightarrow> length (days_from start stop) \<le> n"
proof (induction n arbitrary: start)
  case 0
  then show ?case by simp
next
  case (Suc n)
  show ?case
  proof (cases "start < stop")
    case True
    have "stop \<le> (start + day_ns) + int n * day_ns" using Suc.prems by (simp add: algebra_simps)
    then show ?thesis using Suc.IH True by (simp add: days_from_step)
  qed simp
qed

lemma days_from_increase: "sorted_wrt (<) (days_from start stop) \<and> (\<forall>t\<in>set (days_from start stop). start \<le> t \<and> t < stop)"
proof (induction start stop rule: days_from.induct)
  case (1 start stop)
  have p: "0 < day_ns" by simp
  show ?case
  proof (cases "start < stop")
    case True
    have "\<forall>t\<in>set (days_from (start + day_ns) stop). start < t"
      using 1 [OF True] p unfolding add_days_val
      by (metis add.commute less_add_same_cancel2 mult_1 order_less_le_trans)
    then show ?thesis using 1 [OF True] True by (auto simp: days_from_step add_days_val)
  qed simp
qed

lemma windows_from_ok:
  assumes "0 < limit"
  shows "\<exists>spans. windows_from limit start stop = Some spans \<and>
    concat (map (\<lambda>w. days_from (wi_start w) (wi_end w)) spans) = days_from start stop \<and>
    (\<forall>w\<in>set spans. wi_start w < wi_end w \<and> length (days_from (wi_start w) (wi_end w)) \<le> nat limit)"
proof (induction "nat (stop - start)" arbitrary: start rule: less_induct)
  case less
  show ?case
  proof (cases "start < stop")
    case False
    then show ?thesis by (simp add: windows_from.simps)
  next
    case True
    let ?mid = "start + int (nat limit) * day_ns"
    have mid: "add_days start limit = ?mid" using assms by (simp add: add_days_val)
    have grows: "start < ?mid" using assms by simp
    obtain spans where s: "windows_from limit ?mid stop = Some spans"
      "concat (map (\<lambda>w. days_from (wi_start w) (wi_end w)) spans) = days_from ?mid stop"
      "\<forall>w\<in>set spans. wi_start w < wi_end w \<and> length (days_from (wi_start w) (wi_end w)) \<le> nat limit"
      using less [of ?mid] grows True by force
    have "days_from start (min_time ?mid stop) @ days_from ?mid stop = days_from start stop"
      using days_from_split [of start "nat limit" stop] by (auto simp: min_time_def)
    moreover have "length (days_from start (min_time ?mid stop)) \<le> nat limit"
      by (rule days_from_length) (simp add: min_time_def)
    moreover have "start < min_time ?mid stop" using grows True by (simp add: min_time_def)
    moreover have "windows_from limit start stop =
        Some (\<lparr>wi_start = start, wi_end = min_time ?mid stop\<rparr> # spans)"
      by (subst windows_from.simps) (simp only: True mid s(1) if_True Option.bind.bind_lunit)
    ultimately show ?thesis using s(2,3) by simp
  qed
qed

lemma windows_from_stuck:
  assumes "windows_from limit start stop = Some spans"
  shows "limit \<le> 0 \<longrightarrow> stop \<le> start"
proof (rule windows_from.raw_induct
    [where P = "\<lambda>limit start stop _. limit \<le> 0 \<longrightarrow> stop \<le> start", OF _ assms])
  fix f :: "int \<Rightarrow> instant \<Rightarrow> instant \<Rightarrow> window list option" and limit start stop out
  assume IH: "\<And>l b c y. f l b c = Some y \<Longrightarrow> l \<le> 0 \<longrightarrow> c \<le> b"
    and out: "(if start < stop
       then Option.bind (f limit (add_days start limit) stop)
          (\<lambda>spans. Some (\<lparr>wi_start = start, wi_end = min_time (add_days start limit) stop\<rparr> # spans))
       else Some []) = Some out"
  show "limit \<le> 0 \<longrightarrow> stop \<le> start"
  proof (intro impI, rule ccontr)
    assume l: "limit \<le> 0" and n: "\<not> stop \<le> start"
    then obtain rest where "f limit (add_days start limit) stop = Some rest"
      using out by (auto simp: bind_eq_Some_conv)
    from IH [OF this] l have "stop \<le> start + limit * day_ns" by (simp add: add_days_val)
    moreover have "limit * day_ns \<le> 0" using l by (simp add: mult_nonpos_nonneg less_imp_le)
    ultimately show False using n by linarith
  qed
qed

text \<open>
  C35. Cutting a range into windows ends for every positive limit, and loses and repeats nothing: the
  days of the windows, one after another, are the days of the range from its first to its last, in
  order, and no window is empty or longer than the limit. With a limit of zero or below the loop never
  ends on a range that holds a day. The limit the program asks for is 31.
\<close>

theorem windows_end_and_cover:
  "(0 < limit \<longrightarrow>
     (\<exists>spans. windows r limit = Some spans \<and>
       concat (map (\<lambda>w. days_from (wi_start w) (wi_end w)) spans) = days_from (rg_From r) (add_days (rg_To r) 1) \<and>
       sorted_wrt (<) (concat (map (\<lambda>w. days_from (wi_start w) (wi_end w)) spans)) \<and>
       (\<forall>w\<in>set spans. wi_start w < wi_end w \<and> length (window_days w) \<le> nat limit))) \<and>
   (limit \<le> 0 \<and> rg_From r \<le> rg_To r \<longrightarrow> windows r limit = None) \<and> 0 < anthropicMaxSpan"
proof (intro conjI impI)
  assume "0 < limit"
  from windows_from_ok [OF this, of "rg_From r" "add_days (rg_To r) 1"] obtain spans
    where s: "windows_from limit (rg_From r) (add_days (rg_To r) 1) = Some spans"
    "concat (map (\<lambda>w. days_from (wi_start w) (wi_end w)) spans) = days_from (rg_From r) (add_days (rg_To r) 1)"
    "\<forall>w\<in>set spans. wi_start w < wi_end w \<and> length (days_from (wi_start w) (wi_end w)) \<le> nat limit"
    by blast
  then show "\<exists>spans. windows r limit = Some spans \<and>
      concat (map (\<lambda>w. days_from (wi_start w) (wi_end w)) spans) = days_from (rg_From r) (add_days (rg_To r) 1) \<and>
      sorted_wrt (<) (concat (map (\<lambda>w. days_from (wi_start w) (wi_end w)) spans)) \<and>
      (\<forall>w\<in>set spans. wi_start w < wi_end w \<and> length (window_days w) \<le> nat limit)"
    by (intro exI [of _ spans]) (simp add: windows_def days_from_increase window_days_def)
next
  assume l: "limit \<le> 0 \<and> rg_From r \<le> rg_To r"
  show "windows r limit = None"
  proof (rule ccontr)
    assume "windows r limit \<noteq> None"
    then obtain spans where "windows_from limit (rg_From r) (add_days (rg_To r) 1) = Some spans"
      by (auto simp: windows_def)
    from windows_from_stuck [OF this] l have "rg_To r + day_ns \<le> rg_From r" by (simp add: add_days_val)
    moreover have "0 < day_ns" by simp
    ultimately show False using l by linarith
  qed
qed (simp add: anthropicMaxSpan_def)

lemma windows_end_and_cover_witness:
  "(\<exists>spans. windows \<lparr>rg_From = 0, rg_To = 40 * day_ns\<rparr> 31 = Some spans \<and>
      concat (map (\<lambda>w. days_from (wi_start w) (wi_end w)) spans) = days_from 0 (add_days (40 * day_ns) 1)) \<and>
   windows \<lparr>rg_From = 0, rg_To = 0\<rparr> 0 = None"
  using windows_end_and_cover [of 31 "\<lparr>rg_From = 0, rg_To = 40 * day_ns\<rparr>"]
    windows_end_and_cover [of 0 "\<lparr>rg_From = 0, rg_To = 0\<rparr>"] by auto

end
