(* ===== verification/ReconLedger.thy ===== *)
theory ReconLedger
  imports ReconReport
begin

text \<open>
  \<open>internal/reconcile\<close>, part two: the ledger's rows totalled per credential per day (\<open>ledger.go\<close>).
  A rows file is what \<open>json.Decoder\<close> makes of it: a list of rows read, of values that are not rows, or a
  final row that is cut short. The decoder's end of file is the list's end. Maps are association lists
  in the order their keys were first set; \<open>SortFunc\<close> orders them where the code does.
\<close>

section \<open>Rows\<close>

abbreviation tokensUnit :: string where "tokensUnit \<equiv> ''Tokens''"

abbreviation ledgerCurrency :: string where "ledgerCurrency \<equiv> ''USD''"

abbreviation lifetimeAssumedNote :: string where "lifetimeAssumedNote \<equiv> ''cache lifetime assumed''"

abbreviation residencyNote :: string where "residencyNote \<equiv> ''for data residency in ''"

text \<open>The report of a \<open>ServiceProviderName\<close>.\<close>

definition source_of :: "string \<Rightarrow> string option" where
  "source_of name =
     (if name = ''Anthropic'' then Some SourceAnthropic
      else if name = ''OpenAI'' then Some SourceOpenAI else None)"

record ledger_row =
  lr_BillingCurrency :: string
  lr_ChargeDescription :: string
  lr_ChargePeriodStart :: instant
  lr_ConsumedQuantity :: string
  lr_ConsumedUnit :: string
  lr_HostProviderName :: "string option"
  lr_ListCost :: string
  lr_RegionID :: "string option"
  lr_ServiceProviderName :: string
  lr_SkuMeter :: token_class
  lr_SkuPriceID :: string
  lr_SubAccountID :: "string option"
  lr_Tags :: "string \<rightharpoonup> json"
  lr_RowID :: string
  lr_ServiceTier :: "string option"

definition ledger_tag :: "ledger_row \<Rightarrow> string \<Rightarrow> string" where
  "ledger_tag r key = (case lr_Tags r key of Some (JString s) \<Rightarrow> s | _ \<Rightarrow> [])"

definition row_day :: "ledger_row \<Rightarrow> string" where
  "row_day r = format_day (lr_ChargePeriodStart r)"

definition inScope :: "ledger_row \<Rightarrow> day_range \<Rightarrow> bool" where
  "inScope r rng =
     (case source_of (lr_ServiceProviderName r) of
        None \<Rightarrow> False
      | Some source \<Rightarrow>
          if Informational (lr_SkuMeter r) \<or> lr_ConsumedUnit r \<noteq> tokensUnit then False
          else if (case lr_HostProviderName r of None \<Rightarrow> False | Some h \<Rightarrow> source_of h \<noteq> Some source) then False
          else if ledger_tag r ''costroid/cost_basis'' \<noteq> Measured \<and>
                  ledger_tag r ''costroid/cost_basis'' \<noteq> ListEquivalent then False
          else holds_day rng (row_day r))"

text \<open>A version 0.1 row has no tier column; its tier is the fourth of six fields of its price id.\<close>

definition row_tier :: "ledger_row \<Rightarrow> string" where
  "row_tier r =
     (case lr_ServiceTier r of
        Some t \<Rightarrow> t
      | None \<Rightarrow>
          (let fields = split_at (lr_SkuPriceID r) (CHR '':'')
           in if length fields \<noteq> 6 then TierStandard else fields ! 3))"

definition row_region :: "ledger_row \<Rightarrow> string" where
  "row_region r =
     (case lr_RegionID r of
        Some region \<Rightarrow> region
      | None \<Rightarrow>
          (let (_, rest, found) = cut_str (lr_ChargeDescription r) residencyNote
           in if \<not> found then RegionGlobal else fst (cut_str rest '';'')))"

section \<open>Totals\<close>

type_synonym day_key = "string \<times> string \<times> string"

type_synonym record_key = "string \<times> string \<times> string"

record ledger_group =
  gp_tokens :: token_counts
  gp_list :: decimal
  gp_rows :: int
  gp_billed :: bool
  gp_assumedLifetime :: bool
  gp_measured :: "(record_key \<times> usage_record) list"

definition empty_group :: ledger_group where
  "empty_group =
     \<lparr>gp_tokens = [], gp_list = zero_decimal, gp_rows = 0, gp_billed = False, gp_assumedLifetime = False,
      gp_measured = []\<rparr>"

record spend_ledger =
  ld_groups :: "(day_key \<times> ledger_group) list"
  ld_Repeats :: nat
  ld_Uncredentialed :: nat

definition empty_ledger :: spend_ledger where
  "empty_ledger = \<lparr>ld_groups = [], ld_Repeats = 0, ld_Uncredentialed = 0\<rparr>"

datatype ledger_error =
    EndsInside nat
  | UnreadableRow nat
  | NoRowID nat
  | RowNotUSD nat string
  | BadRowFigure nat string decimal_error

definition record_key :: "ledger_row \<Rightarrow> record_key" where
  "record_key r = (ledger_tag r ''costroid/model'', row_tier r, row_region r)"

definition new_record :: "record_key \<Rightarrow> usage_record" where
  "new_record k =
     \<lparr>ru_Credential = [], ru_Day = [], ru_Model = fst k, ru_Tier = fst (snd k), ru_Region = snd (snd k),
      ru_Tokens = []\<rparr>"

definition addMeasured :: "ledger_row \<Rightarrow> decimal \<Rightarrow> ledger_group \<Rightarrow> ledger_group" where
  "addMeasured r tokens g =
     g\<lparr>gp_measured := upsert (record_key r) (new_record (record_key r))
         (\<lambda>u. u\<lparr>ru_Tokens := add_count (lr_SkuMeter r) tokens (ru_Tokens u)\<rparr>) (gp_measured g)\<rparr>"

definition assumes_lifetime :: "ledger_row \<Rightarrow> bool" where
  "assumes_lifetime r \<longleftrightarrow>
     ledger_tag r ''costroid/assumed_ttl'' \<noteq> [] \<or> contains_str (lr_ChargeDescription r) lifetimeAssumedNote"

definition add_to_group :: "ledger_row \<Rightarrow> decimal \<Rightarrow> decimal \<Rightarrow> ledger_group \<Rightarrow> ledger_group" where
  "add_to_group r tokens list_cost g =
     (let g = g\<lparr>gp_tokens := add_count (lr_SkuMeter r) tokens (gp_tokens g)\<rparr>;
          g = (if assumes_lifetime r then g\<lparr>gp_assumedLifetime := True\<rparr> else g)
      in if ledger_tag r ''costroid/cost_basis'' = Measured
         then addMeasured r tokens
                (g\<lparr>gp_billed := True, gp_list := Add (gp_list g) list_cost, gp_rows := gp_rows g + 1\<rparr>)
         else g)"

text \<open>The credential a row is counted for: its own, or the one the caller gives rows that name none.\<close>

definition credential_of :: "string \<Rightarrow> ledger_row \<Rightarrow> string" where
  "credential_of given r = (case lr_SubAccountID r of Some c \<Rightarrow> c | None \<Rightarrow> given)"

definition key_of :: "string \<Rightarrow> ledger_row \<Rightarrow> day_key" where
  "key_of given r =
     (case source_of (lr_ServiceProviderName r) of None \<Rightarrow> [] | Some s \<Rightarrow> s, credential_of given r, row_day r)"

definition add_row :: "nat \<Rightarrow> spend_ledger \<Rightarrow> ledger_row \<Rightarrow> string \<Rightarrow> ledger_error + spend_ledger" where
  "add_row number l r given =
     (if credential_of given r = [] then Inr (l\<lparr>ld_Uncredentialed := ld_Uncredentialed l + 1\<rparr>)
      else if lr_BillingCurrency r \<noteq> ledgerCurrency then Inl (RowNotUSD number (lr_BillingCurrency r))
      else (case Parse (lr_ConsumedQuantity r) of
              Inl e \<Rightarrow> Inl (BadRowFigure number ''ConsumedQuantity'' e)
            | Inr tokens \<Rightarrow>
                (case Parse (lr_ListCost r) of
                   Inl e \<Rightarrow> Inl (BadRowFigure number ''ListCost'' e)
                 | Inr list_cost \<Rightarrow>
                     Inr (l\<lparr>ld_groups := upsert (key_of given r) empty_group (add_to_group r tokens list_cost)
                              (ld_groups l)\<rparr>))))"

datatype row_read = RowRead ledger_row | RowCut | RowBroken

fun read_rows :: "day_range \<Rightarrow> string \<Rightarrow> nat \<Rightarrow> string set \<Rightarrow> spend_ledger \<Rightarrow> row_read list \<Rightarrow> ledger_error + spend_ledger" where
  "read_rows rng given number seen l [] = Inr l"
| "read_rows rng given number seen l (RowCut # rest) = Inl (EndsInside number)"
| "read_rows rng given number seen l (RowBroken # rest) = Inl (UnreadableRow number)"
| "read_rows rng given number seen l (RowRead r # rest) =
     (if \<not> inScope r rng then read_rows rng given (number + 1) seen l rest
      else if lr_RowID r = [] then Inl (NoRowID number)
      else if lr_RowID r \<in> seen
      then read_rows rng given (number + 1) seen (l\<lparr>ld_Repeats := ld_Repeats l + 1\<rparr>) rest
      else (case add_row number l r given of
              Inl e \<Rightarrow> Inl e
            | Inr l' \<Rightarrow> read_rows rng given (number + 1) (insert (lr_RowID r) seen) l' rest))"

definition ReadLedger :: "row_read list \<Rightarrow> day_range \<Rightarrow> string \<Rightarrow> ledger_error + spend_ledger" where
  "ReadLedger rows rng given = read_rows rng given 1 {} empty_ledger rows"

definition group_records :: "ledger_group \<Rightarrow> usage_record list" where
  "group_records g = sort_key (\<lambda>u. (ru_Model u, ru_Tier u, ru_Region u)) (map snd (gp_measured g))"

definition group_at :: "spend_ledger \<Rightarrow> day_key \<Rightarrow> ledger_group" where
  "group_at l key =
     (case map_of (ld_groups l) key of Some g \<Rightarrow> g | None \<Rightarrow> empty_group\<lparr>gp_billed := True\<rparr>)"

definition Sources :: "spend_ledger \<Rightarrow> string list" where
  "Sources l = sort (remdups (map (\<lambda>kg. fst (fst kg)) (ld_groups l)))"

definition Credentials :: "spend_ledger \<Rightarrow> string \<Rightarrow> string list" where
  "Credentials l source =
     sort (remdups (map (\<lambda>kg. fst (snd (fst kg))) (filter (\<lambda>kg. fst (fst kg) = source) (ld_groups l))))"

section \<open>What is counted\<close>

text \<open>The rows of a file that are in scope, and the first of each row id among them.\<close>

definition rows_in :: "day_range \<Rightarrow> row_read list \<Rightarrow> ledger_row list" where
  "rows_in rng rows = filter (\<lambda>r. inScope r rng) (concat (map (\<lambda>x. case x of RowRead r \<Rightarrow> [r] | _ \<Rightarrow> []) rows))"

fun first_by_id :: "string set \<Rightarrow> ledger_row list \<Rightarrow> ledger_row list" where
  "first_by_id seen [] = []"
| "first_by_id seen (r # rs) =
     (if lr_RowID r \<in> seen then first_by_id seen rs else r # first_by_id (insert (lr_RowID r) seen) rs)"

definition counted_rows :: "day_range \<Rightarrow> string \<Rightarrow> row_read list \<Rightarrow> ledger_row list" where
  "counted_rows rng given rows =
     filter (\<lambda>r. credential_of given r \<noteq> []) (first_by_id {} (rows_in rng rows))"

definition row_tokens :: "ledger_row \<Rightarrow> decimal" where
  "row_tokens r = (case Parse (lr_ConsumedQuantity r) of Inl _ \<Rightarrow> zero_decimal | Inr d \<Rightarrow> d)"

definition row_list_cost :: "ledger_row \<Rightarrow> decimal" where
  "row_list_cost r = (case Parse (lr_ListCost r) of Inl _ \<Rightarrow> zero_decimal | Inr d \<Rightarrow> d)"

definition is_measured :: "ledger_row \<Rightarrow> bool" where
  "is_measured r \<longleftrightarrow> ledger_tag r ''costroid/cost_basis'' = Measured"

definition put_row :: "ledger_row \<Rightarrow> ledger_group \<Rightarrow> ledger_group" where
  "put_row r = add_to_group r (row_tokens r) (row_list_cost r)"

lemma first_by_id_spec:
  "distinct (map lr_RowID (first_by_id seen rs)) \<and>
   lr_RowID ` set (first_by_id seen rs) = lr_RowID ` set rs - seen \<and> set (first_by_id seen rs) \<subseteq> set rs"
proof (induction rs arbitrary: seen)
  case Nil
  show ?case by simp
next
  case (Cons r rs)
  show ?case using Cons [of seen] Cons [of "insert (lr_RowID r) seen"] by auto
qed

lemma row_tokens_wf [simp]: "wf_decimal (row_tokens r)"
  by (auto simp: row_tokens_def split: sum.split dest!: Parse_canonical intro: canonical_wf)

lemma row_list_cost_wf [simp]: "wf_decimal (row_list_cost r)"
  by (auto simp: row_list_cost_def split: sum.split dest!: Parse_canonical intro: canonical_wf)

lemma add_row_ok:
  "add_row n l r given = Inr l' \<longleftrightarrow>
     (if credential_of given r = [] then l' = l\<lparr>ld_Uncredentialed := ld_Uncredentialed l + 1\<rparr>
      else lr_BillingCurrency r = ledgerCurrency \<and> is_ok (Parse (lr_ConsumedQuantity r)) \<and>
        is_ok (Parse (lr_ListCost r)) \<and>
        l' = l\<lparr>ld_groups := upsert (key_of given r) empty_group (put_row r) (ld_groups l)\<rparr>)"
  by (auto simp: add_row_def put_row_def row_tokens_def row_list_cost_def is_ok_def split: sum.splits)

lemma rows_in_simps [simp]:
  "rows_in rng [] = []"
  "rows_in rng (RowRead r # rest) = (if inScope r rng then r # rows_in rng rest else rows_in rng rest)"
  by (simp_all add: rows_in_def)

lemma read_rows_ok:
  assumes "read_rows rng given n seen l rows = Inr l'"
  shows "(\<forall>x\<in>set rows. \<exists>r. x = RowRead r) \<and>
    ld_Repeats l' + length (first_by_id seen (rows_in rng rows)) = ld_Repeats l + length (rows_in rng rows) \<and>
    ld_Uncredentialed l' = ld_Uncredentialed l +
      length (filter (\<lambda>r. credential_of given r = []) (first_by_id seen (rows_in rng rows))) \<and>
    ld_groups l' = foldl (\<lambda>m r. upsert (key_of given r) empty_group (put_row r) m) (ld_groups l)
      (filter (\<lambda>r. credential_of given r \<noteq> []) (first_by_id seen (rows_in rng rows)))"
  using assms
proof (induction rng given n seen l rows rule: read_rows.induct)
  case (4 rng given n seen l r rest)
  show ?case
  proof (cases "inScope r rng \<and> lr_RowID r \<noteq> [] \<and> lr_RowID r \<notin> seen")
    case True
    with "4.prems" obtain m where m: "add_row n l r given = Inr m"
      and r: "read_rows rng given (n + 1) (insert (lr_RowID r) seen) m rest = Inr l'"
      by (auto split: sum.splits)
    from "4.IH"(3) True m r show ?thesis by (auto simp: add_row_ok split: if_splits)
  next
    case False
    with 4 show ?thesis by (auto split: if_splits)
  qed
qed simp_all

text \<open>One group's fold.\<close>

lemma put_row_fields:
  "gp_tokens (put_row r g) = add_count (lr_SkuMeter r) (row_tokens r) (gp_tokens g)"
  "gp_list (put_row r g) = (if is_measured r then Add (gp_list g) (row_list_cost r) else gp_list g)"
  "gp_rows (put_row r g) = gp_rows g + (if is_measured r then 1 else 0)"
  "gp_billed (put_row r g) \<longleftrightarrow> gp_billed g \<or> is_measured r"
  "gp_assumedLifetime (put_row r g) \<longleftrightarrow> gp_assumedLifetime g \<or> assumes_lifetime r"
  by (auto simp: put_row_def add_to_group_def addMeasured_def is_measured_def Let_def)

lemma group_fold:
  "gp_tokens (foldl (\<lambda>g r. put_row r g) g rs) =
     foldl (\<lambda>m r. upsert (lr_SkuMeter r) zero_decimal (\<lambda>v. Add v (row_tokens r)) m) (gp_tokens g) rs"
  "gp_list (foldl (\<lambda>g r. put_row r g) g rs) = foldl Add (gp_list g) (map row_list_cost (filter is_measured rs))"
  "gp_rows (foldl (\<lambda>g r. put_row r g) g rs) = gp_rows g + int (length (filter is_measured rs))"
  "gp_billed (foldl (\<lambda>g r. put_row r g) g rs) \<longleftrightarrow> gp_billed g \<or> (\<exists>r\<in>set rs. is_measured r)"
  "gp_assumedLifetime (foldl (\<lambda>g r. put_row r g) g rs) \<longleftrightarrow>
     gp_assumedLifetime g \<or> (\<exists>r\<in>set rs. assumes_lifetime r)"
  by (induction rs arbitrary: g) (auto simp: put_row_fields add_count_def)

lemma group_fold_tokens:
  "dval (count_of (gp_tokens (foldl (\<lambda>g r. put_row r g) empty_group rs)) class) =
     (\<Sum>r\<leftarrow>filter (\<lambda>r. lr_SkuMeter r = class) rs. dval (row_tokens r))"
proof -
  have "dval (count_of (gp_tokens (foldl (\<lambda>g r. put_row r g) empty_group rs)) class) =
      (case map_of (gp_tokens (foldl (\<lambda>g r. put_row r g) empty_group rs)) class of None \<Rightarrow> 0 | Some v \<Rightarrow> dval v)"
    by (simp add: count_of_def split: option.split)
  also have "\<dots> = (\<Sum>r\<leftarrow>filter (\<lambda>r. lr_SkuMeter r = class) rs. dval (row_tokens r))"
    unfolding group_fold by (subst dec.keyed_total) (simp_all add: empty_group_def)
  finally show ?thesis .
qed

lemma group_fold_list:
  "dval (gp_list (foldl (\<lambda>g r. put_row r g) empty_group rs)) =
     (\<Sum>r\<leftarrow>filter is_measured rs. dval (row_list_cost r))"
  unfolding group_fold by (subst dec.val_foldl) (simp_all add: empty_group_def comp_def)

lemma group_at_rows:
  assumes "ReadLedger rows rng given = Inr l"
  shows "group_at l key =
    (let own = filter (\<lambda>r. key_of given r = key) (counted_rows rng given rows)
     in if own = [] then empty_group\<lparr>gp_billed := True\<rparr> else foldl (\<lambda>g r. put_row r g) empty_group own)"
proof -
  have "ld_groups l = foldl (\<lambda>m r. upsert (key_of given r) empty_group (put_row r) m) [] (counted_rows rng given rows)"
    using read_rows_ok [OF assms [unfolded ReadLedger_def]] by (simp add: counted_rows_def empty_ledger_def)
  then show ?thesis
    by (simp add: group_at_def Let_def
        map_of_keyed_fold [where key = "key_of given" and fresh = "\<lambda>_. empty_group" and upd = put_row])
qed

section \<open>The ledger counts each row once\<close>

text \<open>
  C34. A ledger that reads holds every row in scope once: a row id read again is counted in the repeats and
  nowhere else, a row that names no credential is counted apart, and the day of one credential holds
  exactly the tokens of its rows, class by class, with the exact list cost and the number of its measured
  rows. A file with a row that does not read, or that ends inside a row, gives no ledger.
\<close>

theorem ledger_counts_each_row_once:
  assumes "ReadLedger rows rng given = Inr l"
    and firsts: "firsts = first_by_id {} (rows_in rng rows)"
    and own: "own = filter (\<lambda>r. credential_of given r \<noteq> [] \<and> key_of given r = key) firsts"
  shows "(\<forall>x\<in>set rows. \<exists>r. x = RowRead r) \<and>
    distinct (map lr_RowID firsts) \<and> lr_RowID ` set firsts = lr_RowID ` set (rows_in rng rows) \<and>
    ld_Repeats l + length firsts = length (rows_in rng rows) \<and>
    ld_Uncredentialed l = length (filter (\<lambda>r. credential_of given r = []) firsts) \<and>
    dval (count_of (gp_tokens (group_at l key)) class) =
      (\<Sum>r\<leftarrow>filter (\<lambda>r. lr_SkuMeter r = class) own. dval (row_tokens r)) \<and>
    dval (gp_list (group_at l key)) = (\<Sum>r\<leftarrow>filter is_measured own. dval (row_list_cost r)) \<and>
    gp_rows (group_at l key) = int (length (filter is_measured own)) \<and>
    (gp_billed (group_at l key) \<longleftrightarrow> own = [] \<or> (\<exists>r\<in>set own. is_measured r))"
proof -
  have o: "own = filter (\<lambda>r. key_of given r = key) (counted_rows rng given rows)"
    by (simp add: own firsts counted_rows_def conj_commute)
  have g: "group_at l key = (if own = [] then empty_group\<lparr>gp_billed := True\<rparr>
      else foldl (\<lambda>g r. put_row r g) empty_group own)"
    by (simp add: group_at_rows [OF assms(1)] o Let_def)
  have "dval (count_of (gp_tokens (group_at l key)) class) =
      (\<Sum>r\<leftarrow>filter (\<lambda>r. lr_SkuMeter r = class) own. dval (row_tokens r))"
    by (simp add: g group_fold_tokens) (simp add: count_of_def empty_group_def)
  moreover have "dval (gp_list (group_at l key)) = (\<Sum>r\<leftarrow>filter is_measured own. dval (row_list_cost r))"
    by (simp add: g group_fold_list) (simp add: empty_group_def)
  moreover have "gp_rows (group_at l key) = int (length (filter is_measured own))"
    by (simp add: g group_fold) (simp add: empty_group_def)
  moreover have "gp_billed (group_at l key) \<longleftrightarrow> own = [] \<or> (\<exists>r\<in>set own. is_measured r)"
    by (simp add: g group_fold) (simp add: empty_group_def)
  ultimately show ?thesis
    using read_rows_ok [OF assms(1) [unfolded ReadLedger_def]]
      first_by_id_spec [of "{}" "rows_in rng rows"]
    by (simp add: firsts empty_ledger_def)
qed

definition sample_ledger_row :: "string \<Rightarrow> string \<Rightarrow> ledger_row" where
  "sample_ledger_row i tokens =
     \<lparr>lr_BillingCurrency = ''USD'', lr_ChargeDescription = [], lr_ChargePeriodStart = 0,
      lr_ConsumedQuantity = tokens, lr_ConsumedUnit = ''Tokens'', lr_HostProviderName = None,
      lr_ListCost = ''0.5'', lr_RegionID = None, lr_ServiceProviderName = ''OpenAI'', lr_SkuMeter = Output,
      lr_SkuPriceID = [], lr_SubAccountID = Some ''key'',
      lr_Tags = [''costroid/cost_basis'' \<mapsto> JString Measured], lr_RowID = i, lr_ServiceTier = None\<rparr>"

definition sample_days :: day_range where
  "sample_days = \<lparr>rg_From = 0, rg_To = 0\<rparr>"

definition sample_file :: "row_read list" where
  "sample_file =
     [RowRead (sample_ledger_row ''a'' ''3''), RowRead (sample_ledger_row ''b'' ''4''),
      RowRead (sample_ledger_row ''a'' ''3'')]"

lemma sample_in_scope: "inScope (sample_ledger_row i tokens) sample_days"
proof -
  have "format_day 0 = ''1970-01-01''" by code_simp
  then show ?thesis
    by (simp add: inScope_def sample_ledger_row_def sample_days_def source_of_def Informational_def
        ledger_tag_def row_day_def holds_day_def)
qed

lemma sample_ledger: "\<exists>l. ReadLedger sample_file sample_days [] = Inr l"
proof -
  have "is_ok (Parse ''3'')" "is_ok (Parse ''4'')" "is_ok (Parse ''0.5'')" by code_simp+
  then have "\<exists>l'. add_row n l (sample_ledger_row i t) [] = Inr l'" if "t = ''3'' \<or> t = ''4''" for n l i t
    using that by (auto simp: add_row_ok credential_of_def sample_ledger_row_def)
  note put = this
  obtain l1 where 1: "add_row 1 empty_ledger (sample_ledger_row ''a'' ''3'') [] = Inr l1" using put by blast
  obtain l2 where 2: "add_row 2 l1 (sample_ledger_row ''b'' ''4'') [] = Inr l2" using put by blast
  have ids: "lr_RowID (sample_ledger_row i t) = i" for i t by (simp add: sample_ledger_row_def)
  show ?thesis
    using 1 2 by (simp add: ReadLedger_def sample_file_def sample_in_scope ids numeral_2_eq_2)
qed

lemma ledger_counts_each_row_once_witness:
  "\<exists>l. ReadLedger sample_file sample_days [] = Inr l \<and> ld_Repeats l = 1 \<and>
     dval (count_of (gp_tokens (group_at l (''openai'', ''key'', ''1970-01-01''))) Output) = 7"
proof -
  obtain l where l: "ReadLedger sample_file sample_days [] = Inr l" using sample_ledger by blast
  have ids: "lr_RowID (sample_ledger_row i t) = i" for i t by (simp add: sample_ledger_row_def)
  have rs: "rows_in sample_days sample_file =
      [sample_ledger_row ''a'' ''3'', sample_ledger_row ''b'' ''4'', sample_ledger_row ''a'' ''3'']"
    by (simp add: rows_in_def sample_file_def sample_in_scope)
  have fs: "first_by_id {} (rows_in sample_days sample_file) =
      [sample_ledger_row ''a'' ''3'', sample_ledger_row ''b'' ''4'']"
    unfolding rs by (simp add: ids)
  have "format_day 0 = ''1970-01-01''" by code_simp
  then have key: "credential_of [] (sample_ledger_row i t) \<noteq> [] \<and>
      key_of [] (sample_ledger_row i t) = (''openai'', ''key'', ''1970-01-01'')" for i t
    by (simp add: credential_of_def key_of_def source_of_def row_day_def sample_ledger_row_def)
  have three: "Parse ''3'' = Inr \<lparr>coefficient = Some 3, scale = 0\<rparr>"
    and four: "Parse ''4'' = Inr \<lparr>coefficient = Some 4, scale = 0\<rparr>" by code_simp+
  have v: "dval (row_tokens (sample_ledger_row i ''3'')) = 3" "dval (row_tokens (sample_ledger_row i ''4'')) = 4"
    "lr_SkuMeter (sample_ledger_row i t) = Output" for i t
    by (simp_all add: row_tokens_def sample_ledger_row_def three four dval_def)
  show ?thesis
    using ledger_counts_each_row_once [OF l refl refl, of "(''openai'', ''key'', ''1970-01-01'')" Output] l
    by (simp add: fs key v) (simp add: rs)
qed

end
