(* ===== verification/Reconcile.thy ===== *)
theory Reconcile
  imports ReconLedger
begin

text \<open>
  \<open>internal/reconcile\<close>, part three: one comparison of the ledger with a provider's report
  (\<open>reconcile.go\<close>, \<open>tokens.go\<close>, \<open>dollars.go\<close>, \<open>tolerance.go\<close>) and the file the rows are kept in
  (\<open>store.go\<close>). A row's JSON encoding is the parameter \<open>marshal\<close> and the reading of a stored line's key
  the parameter \<open>key_read\<close>. The keys of a map are visited in the order they were first set; what the code
  sorts afterwards does not depend on it.
\<close>

section \<open>Tolerances\<close>

definition TokenTolerancePercent :: int where
  "TokenTolerancePercent = 1"

definition DollarTolerancePercent :: int where
  "DollarTolerancePercent = 10"

definition absolute :: "decimal \<Rightarrow> decimal" where
  "absolute d = (if Sign d < 0 then Sub zero_decimal d else d)"

definition within_percent :: "decimal \<Rightarrow> decimal \<Rightarrow> int \<Rightarrow> bool" where
  "within_percent mine provider percent =
     (let gap = absolute (Sub provider mine)
      in Cmp (Mul gap (FromInt 100)) (Mul provider (FromInt percent)) \<le> 0)"

text \<open>The decimal places of each currency's smallest unit.\<close>

definition minorUnits :: "string \<Rightarrow> nat option" where
  "minorUnits c =
     (if c = ''USD'' \<or> c = ''EUR'' \<or> c = ''GBP'' then Some 2 else if c = ''JPY'' then Some 0 else None)"

definition roundingFloor :: int where
  "roundingFloor = 100"

definition pow10 :: "nat \<Rightarrow> int" where
  "pow10 places = foldl (\<lambda>v _. v * 10) 1 [0..<places]"

datatype rounding_error = NoSmallestUnit string | NegativeRows int

definition WithinRounding :: "string \<Rightarrow> int \<Rightarrow> decimal \<Rightarrow> rounding_error + bool" where
  "WithinRounding currency rows variance =
     (case minorUnits currency of
        None \<Rightarrow> Inl (NoSmallestUnit currency)
      | Some places \<Rightarrow>
          if rows < 0 then Inl (NegativeRows rows)
          else
            (let units = Mul (absolute variance) (FromInt (pow10 places))
             in if Cmp units (FromInt roundingFloor) \<le> 0 then Inr True
                else Inr (Cmp (Mul (Mul units units) (FromInt 4)) (FromInt rows) \<le> 0)))"

section \<open>Tokens\<close>

abbreviation cacheWrite :: token_class where "cacheWrite \<equiv> ''cache_write''"

definition writeClasses :: "token_class list" where
  "writeClasses = [CacheWrite5m, CacheWrite1h, CacheWrite30m, CacheWrite12h]"

definition compared :: "token_class list" where
  "compared =
     [InputUncached, CacheRead, cacheWrite, CacheWrite5m, CacheWrite1h, CacheWrite30m, CacheWrite12h, Output]"

record token_check =
  tc_Class :: token_class
  tc_Ledger :: decimal
  tc_Provider :: decimal
  tc_Delta :: decimal
  tc_Within :: bool

definition sumTokens :: "usage_record list \<Rightarrow> token_counts" where
  "sumTokens us = foldl (\<lambda>m (class, tokens). add_count class tokens m) [] (concat (map ru_Tokens us))"

text \<open>\<open>delete(m, class)\<close>.\<close>

definition delete_class :: "token_class \<Rightarrow> token_counts \<Rightarrow> token_counts" where
  "delete_class class m = filter (\<lambda>cd. fst cd \<noteq> class) m"

definition joinWrites :: "token_counts \<Rightarrow> token_counts" where
  "joinWrites tokens =
     foldl (\<lambda>joined class. delete_class class (add_count cacheWrite (count_of joined class) joined)) tokens writeClasses"

definition token_checks :: "token_counts \<Rightarrow> token_counts \<Rightarrow> token_check list" where
  "token_checks mine theirs =
     map (\<lambda>class. \<lparr>tc_Class = class, tc_Ledger = count_of mine class, tc_Provider = count_of theirs class,
            tc_Delta = Sub (count_of theirs class) (count_of mine class),
            tc_Within = within_percent (count_of mine class) (count_of theirs class) TokenTolerancePercent\<rparr>)
       (filter (\<lambda>class. \<not> (Sign (count_of mine class) = 0 \<and> Sign (count_of theirs class) = 0)) compared)"

definition compareTokens :: "string \<Rightarrow> ledger_group \<Rightarrow> usage_record list \<Rightarrow> token_check list" where
  "compareTokens source g us =
     (if source = SourceOpenAI \<or> gp_assumedLifetime g
      then token_checks (joinWrites (gp_tokens g)) (joinWrites (sumTokens us))
      else token_checks (gp_tokens g) (sumTokens us))"

section \<open>Dollars\<close>

abbreviation tierPriority :: string where "tierPriority \<equiv> ''priority''"

datatype dollar_verdict = Within | Outside | NoBill

datatype cause_name = CauseSharedKey | CauseTier | CauseResidency | CauseContractRate

record cause =
  ca_Name :: cause_name
  ca_Amount :: decimal

record rounding_check =
  rc_Currency :: string
  rc_RoundedRows :: int
  rc_Variance :: decimal
  rc_Within :: bool

record dollar_check =
  dc_Verdict :: dollar_verdict
  dc_Ledger :: decimal
  dc_Provider :: decimal
  dc_ProviderEffective :: decimal
  dc_ProviderList :: "decimal option"
  dc_OtherCost :: decimal
  dc_Residual :: decimal
  dc_Causes :: "cause list"
  dc_Unattributed :: decimal
  dc_Rounding :: "rounding_check option"

record walker =
  wk_catalog :: catalog
  wk_source :: string
  wk_at :: instant

record pricing =
  pc_standard :: decimal
  pc_tiered :: decimal
  pc_served :: decimal
  pc_notes :: "string list"

datatype recon_error =
    FetchRefused string report_error
  | PriceRefused catalog_error
  | RoundingRefused rounding_error
  | DayPanic string

definition tierPremium :: "pricing \<Rightarrow> decimal" where
  "tierPremium p = Sub (pc_tiered p) (pc_standard p)"

definition residencyPremium :: "pricing \<Rightarrow> decimal" where
  "residencyPremium p = Sub (pc_served p) (pc_tiered p)"

definition unitPrice :: "walker \<Rightarrow> string \<Rightarrow> token_class \<Rightarrow> string \<Rightarrow> string \<Rightarrow> recon_error + catalog_price" where
  "unitPrice w model class tier region =
     (case Lookup (wk_catalog w)
         \<lparr>q_Provider = wk_source w, q_Model = model, q_Class = class, q_ServiceTier = tier, q_Region = region,
          q_ContextInputTokens = 0, q_At = wk_at w\<rparr> of
        Inl e \<Rightarrow> Inl (PriceRefused e) | Inr p \<Rightarrow> Inr p)"

definition tier_note :: "usage_record \<Rightarrow> string" where
  "tier_note r =
     ''tier '' @ ru_Tier r @ '' has no catalog price for '' @ ru_Model r @ '', so its effect stays unattributed''"

definition servedPrices :: "walker \<Rightarrow> usage_record \<Rightarrow> token_class \<Rightarrow> catalog_price \<Rightarrow>
    recon_error + (decimal \<times> decimal \<times> string)" where
  "servedPrices w r class standard =
     (if wk_source w = SourceAnthropic \<and> ru_Tier r = tierPriority then Inr (zero_decimal, zero_decimal, [])
      else rbind (unitPrice w (ru_Model r) class (ru_Tier r) RegionGlobal) (\<lambda>tier.
        (let unnamed = (cp_Fallback tier \<and> \<not> cp_Fallback standard);
             note = (if unnamed then tier_note r else []);
             price = cp_ListUnitPrice (if unnamed then standard else tier)
         in if ru_Region r \<noteq> [] \<and> ru_Region r \<noteq> RegionGlobal
            then rmap (\<lambda>regional.
                (price, (case cp_ResidencyMultiplier regional of None \<Rightarrow> price | Some f \<Rightarrow> Mul price f), note))
              (unitPrice w (ru_Model r) class (ru_Tier r) (ru_Region r))
            else Inr (price, price, note))))"

definition price_step :: "walker \<Rightarrow> usage_record \<Rightarrow> pricing \<Rightarrow> token_class \<times> decimal \<Rightarrow> recon_error + pricing" where
  "price_step w r p ct =
     (let (class, tokens) = ct in
      if Sign tokens = 0 then Inr p
      else rbind (unitPrice w (ru_Model r) class TierStandard RegionGlobal) (\<lambda>standard.
        rmap (\<lambda>(tiered, served, note).
            (let quantity = DivPow10 tokens 6
             in p\<lparr>pc_standard := Add (pc_standard p) (Mul (cp_ListUnitPrice standard) quantity),
                  pc_tiered := Add (pc_tiered p) (Mul tiered quantity),
                  pc_served := Add (pc_served p) (Mul served quantity),
                  pc_notes := (if note \<noteq> [] \<and> note \<notin> set (pc_notes p) then pc_notes p @ [note] else pc_notes p)\<rparr>))
          (servedPrices w r class standard)))"

definition no_pricing :: pricing where
  "no_pricing = \<lparr>pc_standard = zero_decimal, pc_tiered = zero_decimal, pc_served = zero_decimal, pc_notes = []\<rparr>"

definition price_records :: "walker \<Rightarrow> usage_record list \<Rightarrow> recon_error + pricing" where
  "price_records w rs =
     rmap (\<lambda>p. p\<lparr>pc_notes := sort (pc_notes p)\<rparr>)
       (rfold (\<lambda>p r. rfold (price_step w r) p (ru_Tokens r)) no_pricing rs)"

definition roundingOf :: "decimal \<Rightarrow> ledger_group \<Rightarrow> recon_error + rounding_check" where
  "roundingOf list_cost g =
     (let variance = Sub list_cost (gp_list g)
      in case WithinRounding ledgerCurrency (gp_rows g) variance of
           Inl e \<Rightarrow> Inl (RoundingRefused e)
         | Inr ok \<Rightarrow>
             Inr \<lparr>rc_Currency = ledgerCurrency, rc_RoundedRows = gp_rows g, rc_Variance = variance, rc_Within = ok\<rparr>)"

definition providerHigh :: "token_check list \<Rightarrow> bool" where
  "providerHigh checks = list_ex (\<lambda>c. \<not> tc_Within c \<and> Sign (tc_Delta c) > 0) checks"

text \<open>The amounts the walk names, the shared key and the contract rate only where they can be told.\<close>

definition cause_amounts :: "cost_total \<Rightarrow> pricing \<Rightarrow> pricing \<Rightarrow> token_check list \<Rightarrow> cause list" where
  "cause_amounts cost mine theirs tokens =
     [\<lparr>ca_Name = CauseTier, ca_Amount = Sub (tierPremium theirs) (tierPremium mine)\<rparr>,
      \<lparr>ca_Name = CauseResidency, ca_Amount = Sub (residencyPremium theirs) (residencyPremium mine)\<rparr>] @
     (if providerHigh tokens
      then [\<lparr>ca_Name = CauseSharedKey, ca_Amount = Sub (pc_standard theirs) (pc_standard mine)\<rparr>] else []) @
     (case ct_list cost of
        None \<Rightarrow> [] | Some l \<Rightarrow> [\<lparr>ca_Name = CauseContractRate, ca_Amount = Sub (ct_amount cost) l\<rparr>])"

definition take_cause :: "dollar_check \<Rightarrow> cause \<Rightarrow> dollar_check" where
  "take_cause c x =
     (if Sign (ca_Amount x) \<noteq> 0
      then c\<lparr>dc_Causes := dc_Causes c @ [x], dc_Unattributed := Sub (dc_Unattributed c) (ca_Amount x)\<rparr> else c)"

definition dollars :: "catalog \<Rightarrow> provider_report \<Rightarrow> day_key \<Rightarrow> ledger_group \<Rightarrow> usage_record list \<Rightarrow> token_check list \<Rightarrow>
    recon_error + (dollar_check \<times> string list)" where
  "dollars prices rp key g us tokens =
     (let (source, credential, day) = key;
          cost = costOf rp credential day;
          check = \<lparr>dc_Verdict = NoBill, dc_Ledger = gp_list g, dc_Provider = ct_amount cost,
            dc_ProviderEffective = ct_amount cost, dc_ProviderList = ct_list cost, dc_OtherCost = ct_other cost,
            dc_Residual = zero_decimal, dc_Causes = [], dc_Unattributed = zero_decimal, dc_Rounding = None\<rparr>
      in if \<not> gp_billed g
         then Inr (check, [''every ledger row is list-equivalent, so no API bill exists to compare''])
         else
           (let check = check
              \<lparr>dc_Verdict := (if within_percent (dc_Ledger check) (dc_Provider check) DollarTolerancePercent
                              then Within else Outside),
               dc_Residual := Sub (dc_Provider check) (dc_Ledger check)\<rparr>
            in rbind (case ct_list cost of
                        None \<Rightarrow> Inr check
                      | Some l \<Rightarrow> rmap (\<lambda>r. check\<lparr>dc_Rounding := Some r\<rparr>) (roundingOf l g)) (\<lambda>check.
               case parse_day day of
                 None \<Rightarrow> Inl (DayPanic day)
               | Some at_day \<Rightarrow>
                   (let w = \<lparr>wk_catalog = prices, wk_source = source, wk_at = at_day\<rparr>
                    in rbind (price_records w (group_records g)) (\<lambda>mine.
                       rbind (price_records w us) (\<lambda>theirs.
                         Inr (foldl take_cause (check\<lparr>dc_Unattributed := dc_Residual check\<rparr>)
                                (cause_amounts cost mine theirs tokens),
                              pc_notes mine @ pc_notes theirs)))))))"

section \<open>One pass\<close>

datatype recon_state = Matched | TokensMiss | Pending

record recon_row =
  rr_Key :: day_key
  rr_State :: recon_state
  rr_Final :: bool
  rr_DataRefreshedAt :: "instant option"
  rr_Tokens :: "token_check list"
  rr_Dollars :: "dollar_check option"
  rr_Notes :: "string list"

record recon_result =
  rl_Rows :: "recon_row list"
  rl_Unmatched :: "(string \<times> string) list"

definition RerunDays :: int where
  "RerunDays = 8"

definition endOfRerun :: "string \<Rightarrow> instant option" where
  "endOfRerun day =
     map_option (\<lambda>t. let (y, m, d) = date_of t in go_date y (m + 1) (1 + RerunDays)) (parse_day day)"

definition isFinal :: "string \<Rightarrow> instant \<Rightarrow> bool option" where
  "isFinal day now = map_option (\<lambda>t. \<not> now < t) (endOfRerun day)"

record comparison =
  cm_ledger :: spend_ledger
  cm_report :: provider_report
  cm_range :: day_range
  cm_now :: instant
  cm_catalog :: catalog
  cm_named :: "string list"

definition settled :: "comparison \<Rightarrow> string \<Rightarrow> bool option" where
  "settled c day =
     map_option (\<lambda>t. \<not> cm_now c < t + re_Lag (cm_report c) \<and> day \<notin> re_Unsettled (cm_report c)) (endOfDay day)"

text \<open>Every credential and day with data on either side, in the order they are first seen.\<close>

definition report_keys :: "comparison \<Rightarrow> (string \<times> string) list \<Rightarrow> day_key list" where
  "report_keys c seen =
     map (\<lambda>(credential, day). (re_Source (cm_report c), credential, day))
       (filter (\<lambda>(credential, day). credential \<in> set (cm_named c) \<and> holds_day (cm_range c) day) seen)"

definition comparison_keys :: "comparison \<Rightarrow> day_key list" where
  "comparison_keys c =
     remdups (filter (\<lambda>k. fst k = re_Source (cm_report c)) (map fst (ld_groups (cm_ledger c))) @
       report_keys c (map (\<lambda>u. (ru_Credential u, ru_Day u)) (re_Usage (cm_report c))) @
       report_keys c (map (\<lambda>l. (cl_Credential l, cl_Day l)) (re_Costs (cm_report c))))"

definition missNote :: string where
  "missNote = ''tokens missed the 1% tolerance: this is a defect''"

definition joinedNote :: string where
  "joinedNote = ''cache writes compared as one figure, because the ledger cannot see their lifetime''"

definition recon_row_of :: "comparison \<Rightarrow> day_key \<Rightarrow> recon_error + recon_row" where
  "recon_row_of c key =
     (let (source, credential, day) = key in
      case (isFinal day (cm_now c), settled c day) of
        (Some final, Some done) \<Rightarrow>
          (let row = \<lparr>rr_Key = key, rr_State = Pending, rr_Final = final,
                 rr_DataRefreshedAt = refreshedAt (cm_report c) day, rr_Tokens = [], rr_Dollars = None, rr_Notes = []\<rparr>
           in if \<not> done
              then Inr (row\<lparr>rr_Notes := [''the provider has not finished reporting this day'']\<rparr>)
              else
                (let g = group_at (cm_ledger c) key;
                     us = usageOf (cm_report c) credential day;
                     tokens = compareTokens source g us;
                     missed = list_ex (\<lambda>t. \<not> tc_Within t) tokens;
                     notes = (if missed then [missNote] else []) @
                       (if list_ex (\<lambda>t. tc_Class t = cacheWrite) tokens then [joinedNote] else [])
                 in rmap (\<lambda>(d, more_notes).
                       row\<lparr>rr_State := (if missed then TokensMiss else Matched), rr_Tokens := tokens,
                           rr_Dollars := Some d, rr_Notes := notes @ more_notes\<rparr>)
                     (dollars (cm_catalog c) (cm_report c) key g us tokens)))
      | _ \<Rightarrow> Inl (DayPanic day))"

definition recon_rows :: "comparison \<Rightarrow> recon_error + recon_row list" where
  "recon_rows c = rtraverse (recon_row_of c) (comparison_keys c)"

definition unmatched :: "comparison \<Rightarrow> (string \<times> string) list" where
  "unmatched c =
     map (\<lambda>credential. (re_Source (cm_report c), credential))
       (sort (filter (\<lambda>credential. credential \<notin> set (cm_named c))
          (remdups (map ru_Credential (re_Usage (cm_report c)) @ map cl_Credential (re_Costs (cm_report c))))))"

text \<open>A provider is its name and its fetch.\<close>

type_synonym provider = "string \<times> (day_range \<Rightarrow> string list \<Rightarrow> report_error + provider_report)"

definition one_pass :: "spend_ledger \<Rightarrow> day_range \<Rightarrow> instant \<Rightarrow> catalog \<Rightarrow> recon_result \<Rightarrow> provider \<Rightarrow>
    recon_error + recon_result" where
  "one_pass l rng now prices result p =
     (let credentials = Credentials l (fst p) in
      case snd p rng credentials of
        Inl e \<Rightarrow> Inl (FetchRefused (fst p) e)
      | Inr rp \<Rightarrow>
          (let c = \<lparr>cm_ledger = l, cm_report = rp, cm_range = rng, cm_now = now, cm_catalog = prices,
                 cm_named = credentials\<rparr>
           in rmap (\<lambda>rs. \<lparr>rl_Rows = rl_Rows result @ rs, rl_Unmatched = rl_Unmatched result @ unmatched c\<rparr>)
                (recon_rows c)))"

definition ReconcileAll :: "spend_ledger \<Rightarrow> day_range \<Rightarrow> instant \<Rightarrow> catalog \<Rightarrow> provider list \<Rightarrow> recon_error + recon_result" where
  "ReconcileAll l rng now prices providers =
     rmap (\<lambda>result. result\<lparr>rl_Rows := sort_key rr_Key (rl_Rows result)\<rparr>)
       (rfold (one_pass l rng now prices) \<lparr>rl_Rows = [], rl_Unmatched = []\<rparr> providers)"

definition Misses :: "recon_result \<Rightarrow> nat" where
  "Misses r = length (filter (\<lambda>row. rr_State row = TokensMiss) (rl_Rows r))"

section \<open>The rows kept\<close>

datatype merge_error = BadStoredRow | StoredRowTooLong | BadRowWritten

definition maxStoredRow :: nat where
  "maxStoredRow = 1048576"

fun stored_lines :: "(string \<Rightarrow> day_key option) \<Rightarrow> (day_key \<times> string) list \<Rightarrow> string list \<Rightarrow>
    merge_error + (day_key \<times> string) list" where
  "stored_lines key_read m [] = Inr m"
| "stored_lines key_read m (raw # ls) =
     (if maxStoredRow \<le> length raw then Inl StoredRowTooLong
      else (let line = trim_space raw
            in if line = [] then stored_lines key_read m ls
               else (case key_read line of
                       None \<Rightarrow> Inl BadStoredRow
                     | Some k \<Rightarrow> stored_lines key_read (upsert k [] (\<lambda>_. line) m) ls)))"

definition put_fresh :: "(recon_row \<Rightarrow> string option) \<Rightarrow> (day_key \<times> string) list \<Rightarrow> recon_row \<Rightarrow>
    merge_error + (day_key \<times> string) list" where
  "put_fresh marshal m row =
     (case marshal row of
        None \<Rightarrow> Inl BadRowWritten
      | Some line \<Rightarrow> Inr (upsert (rr_Key row) [] (\<lambda>_. line) m))"

definition write_lines :: "(day_key \<times> string) list \<Rightarrow> string" where
  "write_lines m = concat (map (\<lambda>kl. snd kl @ [CHR 0x0A]) (sort_key fst m))"

definition Merge :: "(string \<Rightarrow> day_key option) \<Rightarrow> (recon_row \<Rightarrow> string option) \<Rightarrow> string \<Rightarrow> recon_row list \<Rightarrow>
    merge_error + string" where
  "Merge key_read marshal existing fresh =
     rbind (stored_lines key_read [] (raw_lines existing)) (\<lambda>m.
       rmap write_lines (rfold (put_fresh marshal) m fresh))"

section \<open>The tolerances are exact\<close>

lemma absolute_wf [keeps_wf, simp]: "wf_decimal d \<Longrightarrow> wf_decimal (absolute d)"
  by (simp add: absolute_def)

lemma absolute_val [simp]: "wf_decimal d \<Longrightarrow> dval (absolute d) = \<bar>dval d\<bar>"
  by (simp add: absolute_def)

lemma pow10_val: "pow10 places = 10 ^ places"
  by (induction places) (simp_all add: pow10_def)

lemma within_percent_exact:
  assumes "wf_decimal mine" "wf_decimal provider"
  shows "within_percent mine provider percent \<longleftrightarrow>
    \<bar>dval provider - dval mine\<bar> * 100 \<le> dval provider * of_int percent"
  using assms by (simp add: within_percent_def)

text \<open>
  The two tolerances are what they are stated to be, by exact arithmetic and inclusive. A figure is
  within a percentage of the provider's when the gap is at most that percentage of it, so that zero
  matches only zero. A variance is within FOCUS's rounding tolerance exactly when its size, in the
  currency's smallest units, is at most the larger of 100 and half the square root of the row count,
  although the code takes no square root. A currency with no stated unit is refused.
\<close>

theorem tolerances_are_exact:
  assumes "wf_decimal mine" "wf_decimal provider" "wf_decimal variance" "0 \<le> rows"
  shows "(within_percent mine provider percent \<longleftrightarrow>
      \<bar>dval provider - dval mine\<bar> * 100 \<le> dval provider * of_int percent) \<and>
    (dval provider = 0 \<longrightarrow> (within_percent mine provider percent \<longleftrightarrow> dval mine = 0)) \<and>
    WithinRounding currency rows variance =
      (case minorUnits currency of
         None \<Rightarrow> Inl (NoSmallestUnit currency)
       | Some places \<Rightarrow>
           Inr (real_of_rat \<bar>dval variance\<bar> * 10 ^ places \<le> max 100 (sqrt (real_of_int rows) * 0.5)))"
proof -
  have pct: "within_percent mine provider percent \<longleftrightarrow>
      \<bar>dval provider - dval mine\<bar> * 100 \<le> dval provider * of_int percent"
    by (rule within_percent_exact [OF assms(1,2)])
  have "WithinRounding currency rows variance =
      Inr (real_of_rat \<bar>dval variance\<bar> * 10 ^ places \<le> max 100 (sqrt (real_of_int rows) * 0.5))"
    if p: "minorUnits currency = Some places" for places
  proof -
    let ?u = "\<bar>dval variance\<bar> * 10 ^ places"
    let ?r = "real_of_rat ?u"
    have r: "?r = real_of_rat \<bar>dval variance\<bar> * 10 ^ places" by (simp add: of_rat_mult of_rat_power)
    have nonneg: "0 \<le> ?r" by simp
    have square: "4 * (?u * ?u) \<le> of_int rows \<longleftrightarrow> ?r \<le> sqrt (real_of_int rows) * 0.5"
    proof -
      have "4 * (?u * ?u) \<le> of_int rows \<longleftrightarrow> real_of_rat (4 * (?u * ?u)) \<le> real_of_rat (of_int rows)"
        by (simp only: of_rat_less_eq)
      also have "\<dots> \<longleftrightarrow> (2 * ?r)\<^sup>2 \<le> real_of_int rows" by (simp add: of_rat_mult power2_eq_square ac_simps)
      also have "\<dots> \<longleftrightarrow> 2 * ?r \<le> sqrt (real_of_int rows)"
        using nonneg assms(4) by (metis mult_nonneg_nonneg of_int_0_le_iff real_le_rsqrt real_sqrt_le_iff
          real_sqrt_unique zero_le_numeral)
      also have "\<dots> \<longleftrightarrow> ?r \<le> sqrt (real_of_int rows) * 0.5" by auto
      finally show ?thesis .
    qed
    have floor: "?u \<le> 100 \<longleftrightarrow> ?r \<le> 100"
      using of_rat_less_eq [of ?u 100] by (metis of_rat_numeral_eq)
    show ?thesis
      using p assms(3,4) square floor
      by (auto simp: WithinRounding_def Let_def roundingFloor_def pow10_val r le_max_iff_disj mult.commute)
  qed
  then show ?thesis using pct by (auto simp: WithinRounding_def split: option.split)
qed

lemma tolerances_are_exact_witness:
  "WithinRounding ''USD'' 90000 \<lparr>coefficient = Some 15, scale = 1\<rparr> = Inr True \<and>
   within_percent \<lparr>coefficient = Some 99, scale = 0\<rparr> \<lparr>coefficient = Some 100, scale = 0\<rparr> 1"
proof -
  have wf: "wf_decimal \<lparr>coefficient = Some 15, scale = 1\<rparr>" "wf_decimal \<lparr>coefficient = Some 99, scale = 0\<rparr>"
    "wf_decimal \<lparr>coefficient = Some 100, scale = 0\<rparr>" by (simp_all add: wf_decimal_def)
  have v: "dval \<lparr>coefficient = Some 15, scale = 1\<rparr> = 3 / 2" "dval \<lparr>coefficient = Some 99, scale = 0\<rparr> = 99"
    "dval \<lparr>coefficient = Some 100, scale = 0\<rparr> = 100" by (simp_all add: dval_def)
  have "sqrt 90000 = 300" by (simp add: real_sqrt_unique)
  then show ?thesis
    using tolerances_are_exact [OF wf(2,3,1), of 90000 1 "''USD''"]
    by (simp add: v minorUnits_def of_rat_divide)
qed

section \<open>Well-formed figures\<close>

definition wf_counts :: "token_counts \<Rightarrow> bool" where
  "wf_counts m \<longleftrightarrow> list_all (\<lambda>cd. wf_decimal (snd cd)) m"

definition wf_group :: "ledger_group \<Rightarrow> bool" where
  "wf_group g \<longleftrightarrow> wf_counts (gp_tokens g) \<and> wf_decimal (gp_list g) \<and>
     list_all (\<lambda>ku. wf_counts (ru_Tokens (snd ku))) (gp_measured g)"

definition wf_cost :: "cost_line \<Rightarrow> bool" where
  "wf_cost c \<longleftrightarrow> wf_decimal (cl_Amount c) \<and> (case cl_List c of None \<Rightarrow> True | Some l \<Rightarrow> wf_decimal l)"

definition wf_report :: "provider_report \<Rightarrow> bool" where
  "wf_report rp \<longleftrightarrow> list_all (\<lambda>u. wf_counts (ru_Tokens u)) (re_Usage rp) \<and> list_all wf_cost (re_Costs rp)"

lemma count_of_wf [keeps_wf, simp]: "wf_counts m \<Longrightarrow> wf_decimal (count_of m class)"
  by (auto simp: wf_counts_def count_of_def list_all_iff split: option.split dest!: map_of_SomeD)

lemma upsert_all:
  "(\<forall>kv\<in>set m. P (snd kv)) \<Longrightarrow> P (f fresh) \<Longrightarrow> (\<And>v. P v \<Longrightarrow> P (f v)) \<Longrightarrow>
     \<forall>kv\<in>set (upsert k fresh f m). P (snd kv)"
  by (force dest: upsert_values)

lemma add_count_wf [keeps_wf]: "wf_counts m \<Longrightarrow> wf_decimal t \<Longrightarrow> wf_counts (add_count class t m)"
  unfolding wf_counts_def add_count_def list_all_iff by (rule upsert_all) simp_all

lemma count_of_add [simp]:
  "count_of (add_count class t m) k = (if k = class then Add (count_of m class) t else count_of m k)"
  by (simp add: count_of_def add_count_def map_of_upsert split: option.split)

lemma count_of_delete [simp]:
  "count_of (delete_class class m) k = (if k = class then zero_decimal else count_of m k)"
  by (induction m) (auto simp: count_of_def delete_class_def split: option.splits)

lemma delete_wf [keeps_wf, simp]: "wf_counts m \<Longrightarrow> wf_counts (delete_class class m)"
  by (auto simp: wf_counts_def delete_class_def list_all_iff)

lemma put_row_wf [keeps_wf]: "wf_group g \<Longrightarrow> wf_group (put_row r g)"
proof -
  assume g: "wf_group g"
  have new: "wf_counts (ru_Tokens (new_record k))" for k by (simp add: new_record_def wf_counts_def)
  have "wf_counts (gp_tokens (put_row r g)) \<and> wf_decimal (gp_list (put_row r g))"
    using g by (auto simp: put_row_fields wf_group_def intro: add_count_wf)
  moreover have "gp_measured (put_row r g) = (if is_measured r
      then upsert (record_key r) (new_record (record_key r))
        (\<lambda>u. u\<lparr>ru_Tokens := add_count (lr_SkuMeter r) (row_tokens r) (ru_Tokens u)\<rparr>) (gp_measured g)
      else gp_measured g)"
    by (simp add: put_row_def add_to_group_def addMeasured_def is_measured_def Let_def)
  moreover have "\<forall>ku\<in>set (upsert (record_key r) (new_record (record_key r))
      (\<lambda>u. u\<lparr>ru_Tokens := add_count (lr_SkuMeter r) (row_tokens r) (ru_Tokens u)\<rparr>) (gp_measured g)).
        wf_counts (ru_Tokens (snd ku))"
    by (rule upsert_all) (use g new [of "record_key r"] in \<open>auto simp: wf_group_def list_all_iff intro: add_count_wf\<close>)
  ultimately have "list_all (\<lambda>ku. wf_counts (ru_Tokens (snd ku))) (gp_measured (put_row r g))"
    "wf_counts (gp_tokens (put_row r g)) \<and> wf_decimal (gp_list (put_row r g))"
    using g by (auto simp: wf_group_def list_all_iff)
  then show ?thesis by (simp add: wf_group_def)
qed

lemma group_at_wf [keeps_wf]:
  assumes "ReadLedger rows rng given = Inr l"
  shows "wf_group (group_at l key)"
proof -
  have "wf_group (foldl (\<lambda>g r. put_row r g) g rs)" if "wf_group g" for g rs
    using that by (induction rs arbitrary: g) (simp_all add: put_row_wf)
  moreover have "wf_group empty_group" "wf_group (empty_group\<lparr>gp_billed := True\<rparr>)"
    by (simp_all add: wf_group_def empty_group_def wf_counts_def)
  ultimately show ?thesis by (simp add: group_at_rows [OF assms] Let_def)
qed

lemma group_records_wf: "wf_group g \<Longrightarrow> list_all (\<lambda>u. wf_counts (ru_Tokens u)) (group_records g)"
  by (auto simp: wf_group_def group_records_def list_all_iff)

section \<open>What the reports state is well formed\<close>

lemma count_tokens_wf: "count_tokens day model counts = Inr tokens \<Longrightarrow> wf_counts tokens"
  unfolding count_tokens_def wf_counts_def list_all_iff
  by (auto dest!: rtraverse_in split: if_splits prod.splits)

lemma ParseNumber_wf: "ParseNumber t = Inr d \<Longrightarrow> wf_decimal d"
  by (auto dest: ParseNumber_canonical canonical_wf)

lemma anthropic_cost_wf: "anthropic_cost r grain = Inr c \<Longrightarrow> wf_cost c"
  by (auto simp: anthropic_cost_def figure_def parseDollars_def wf_cost_def result_eqs Let_def
      split: if_splits sum.splits option.splits dest!: ParseNumber_wf)

lemma openai_cost_wf: "openai_cost r grain day = Inr c \<Longrightarrow> wf_cost c"
  by (auto simp: openai_cost_def figure_def wf_cost_def result_eqs split: if_splits sum.splits dest!: ParseNumber_wf)

lemma anthropic_usage_wf: "anthropic_usage r grain = Inr u \<Longrightarrow> wf_counts (ru_Tokens u)"
  by (auto simp: anthropic_usage_def Let_def result_eqs dest: count_tokens_wf)

lemma openai_usage_wf: "openai_usage r grain day = Inr u \<Longrightarrow> wf_counts (ru_Tokens u)"
  by (auto simp: openai_usage_def Let_def result_eqs dest: count_tokens_wf)

lemma addUsage_wf: "wf_report rp \<Longrightarrow> wf_counts (ru_Tokens u) \<Longrightarrow> wf_report (addUsage u rp)"
  by (simp add: wf_report_def addUsage_def)

lemma addCost_wf: "wf_report rp \<Longrightarrow> wf_cost c \<Longrightarrow> wf_report (addCost c rp)"
  by (simp add: wf_report_def addCost_def)

lemma stamp_wf: "wf_report rp \<Longrightarrow> wf_report (stamp w refreshed rp)"
proof -
  have "wf_report (foldl (stamp_day refreshed) rp days)" if "wf_report rp" for days
    using that
    by (induction days arbitrary: rp) (auto simp: stamp_day_def wf_report_def Let_def split: option.splits)
  then show "wf_report rp \<Longrightarrow> wf_report (stamp w refreshed rp)" by (simp add: stamp_def)
qed

lemma rfold_keeps:
  assumes "\<And>s x t. P s \<Longrightarrow> f s x = Inr t \<Longrightarrow> P t"
  shows "P s \<Longrightarrow> rfold f s xs = Inr t \<Longrightarrow> P t"
  by (induction xs arbitrary: s) (auto simp: rbind_eq_Inr intro: assms)

lemma pages_from_keeps:
  assumes "\<And>s p t. P s \<Longrightarrow> each s p = Inr t \<Longrightarrow> P t"
  shows "P s \<Longrightarrow> pages_from fetch each left n q s = Inr t \<Longrightarrow> P t"
proof (induction left arbitrary: n q s)
  case (Suc left)
  from Suc.prems(2) obtain page m where p: "fetch q n = Inr page" "each s page = Inr m"
    and rest: "(if \<not> pg_HasMore page then Inr m
      else (case pg_NextPage page of None \<Rightarrow> Inl NoNextPage
            | Some token \<Rightarrow> if token = [] then Inl NoNextPage
                else pages_from fetch each left (n + 1) (set_value ''page'' token q) m)) = Inr t"
    by (auto simp: rbind_eq_Inr)
  have "P m" by (rule assms [OF Suc.prems(1) p(2)])
  with rest Suc.IH show ?case by (auto split: if_splits option.splits)
qed simp

lemma pages_keeps:
  assumes "\<And>s p t. P s \<Longrightarrow> each s p = Inr t \<Longrightarrow> P t" "P s" "pages fetch each q s = Inr t"
  shows "P t"
  by (rule pages_from_keeps [of P each, OF assms(1,2) assms(3) [unfolded pages_def]])

lemma anthropic_fetch_wf:
  assumes "anthropic_fetch fetchUsage fetchCost days credentials = Inr rp"
  shows "wf_report rp"
proof -
  have usage_page: "wf_report t" if "wf_report s" "anthropic_usage_page grain w s p = Inr t" for s t p grain w
    by (rule rfold_keeps [where P = wf_report, OF _ stamp_wf [OF that(1)] that(2) [unfolded anthropic_usage_page_def]])
      (auto simp: rmap_eq_Inr intro: addUsage_wf dest: anthropic_usage_wf)
  have cost_page: "wf_report t" if "wf_report s" "anthropic_cost_page grain w s p = Inr t" for s t p grain w
    by (rule rfold_keeps [where P = wf_report, OF _ stamp_wf [OF that(1)] that(2) [unfolded anthropic_cost_page_def]])
      (auto simp: rmap_eq_Inr intro: addCost_wf dest: anthropic_cost_wf)
  have walk: "wf_report t"
    if s: "wf_report s" and both: "rbind (pages fetchUsage (anthropic_usage_page grain w) q s)
      (pages fetchCost (anthropic_cost_page grain w) q') = Inr t" for s t grain w q q'
  proof -
    obtain m where u: "pages fetchUsage (anthropic_usage_page grain w) q s = Inr m" and m: "pages fetchCost (anthropic_cost_page grain w) q' m = Inr t"
      using both by (auto simp: rbind_eq_Inr)
    have w: "wf_report m" by (rule pages_keeps [where P = wf_report, OF _ s u]) (rule usage_page)
    show ?thesis by (rule pages_keeps [where P = wf_report, OF _ w m]) (rule cost_page)
  qed
  have spans: "wf_report t" if "wf_report s" "rfold (\<lambda>rp w. rbind (pages fetchUsage (anthropic_usage_page grain w)
        (anthropicQuery w [grain, ''model'', ''service_tier'', ''inference_geo'', ''speed'']) rp)
      (pages fetchCost (anthropic_cost_page grain w) (anthropicQuery w [grain, ''cost_type'']))) s xs = Inr t"
    for s t grain xs
    by (rule rfold_keeps [where P = wf_report, OF _ that]) (rule walk)
  have fresh: "wf_report (no_report SourceAnthropic 0)" by (simp add: no_report_def wf_report_def)
  show ?thesis
    by (rule rfold_keeps [where P = wf_report, OF _ fresh assms [unfolded anthropic_fetch_def]])
      (auto split: option.splits intro: spans)
qed

lemma openai_fetch_wf:
  assumes "openai_fetch fetchUsage fetchCosts days credentials = Inr rp"
  shows "wf_report rp"
proof -
  have usage_bucket: "wf_report t"
    if "wf_report s" "rfold (\<lambda>rp r. rmap (\<lambda>u. addUsage u rp) (openai_usage r grain day)) s xs = Inr t" for s t grain day xs
    by (rule rfold_keeps [where P = wf_report, OF _ that])
      (auto simp: rmap_eq_Inr intro: addUsage_wf dest: openai_usage_wf)
  have cost_bucket: "wf_report t"
    if "wf_report s" "rfold (\<lambda>rp r. rmap (\<lambda>c. addCost c rp) (openai_cost r grain day)) s xs = Inr t" for s t grain day xs
    by (rule rfold_keeps [where P = wf_report, OF _ that])
      (auto simp: rmap_eq_Inr intro: addCost_wf dest: openai_cost_wf)
  have usage_page: "wf_report t" if "wf_report s" "openai_usage_page grain s p = Inr t" for s t p grain
    by (rule rfold_keeps [where P = wf_report, OF _ that(1) that(2) [unfolded openai_usage_page_def]]) (rule usage_bucket)
  have cost_page: "wf_report t" if "wf_report s" "openai_cost_page grain s p = Inr t" for s t p grain
    by (rule rfold_keeps [where P = wf_report, OF _ that(1) that(2) [unfolded openai_cost_page_def]]) (rule cost_bucket)
  have walk: "wf_report t"
    if s: "wf_report s" and both: "rbind (pages fetchUsage (openai_usage_page grain) q s)
      (pages fetchCosts (openai_cost_page grain) q') = Inr t" for s t grain q q'
  proof -
    obtain m where u: "pages fetchUsage (openai_usage_page grain) q s = Inr m" and m: "pages fetchCosts (openai_cost_page grain) q' m = Inr t"
      using both by (auto simp: rbind_eq_Inr)
    have w: "wf_report m" by (rule pages_keeps [where P = wf_report, OF _ s u]) (rule usage_page)
    show ?thesis by (rule pages_keeps [where P = wf_report, OF _ w m]) (rule cost_page)
  qed
  have fresh: "wf_report (no_report SourceOpenAI openAILag)" by (simp add: no_report_def wf_report_def)
  show ?thesis
    by (rule rfold_keeps [where P = wf_report, OF _ fresh assms [unfolded openai_fetch_def Let_def]]) (rule walk)
qed

end
