(* ===== verification/ReconVerdict.thy ===== *)
theory ReconVerdict
  imports Reconcile
begin

text \<open>
  What one reconciled row states: its token verdict and its dollar residual, each traced to the ledger's
  rows and the provider's records, and the file the rows are kept in.
\<close>

section \<open>Tokens\<close>

text \<open>
  The figure a class is compared at. Where the write lifetimes cannot be told apart, all of them are one
  figure and none of them stands alone.
\<close>

definition compared_figure :: "bool \<Rightarrow> token_counts \<Rightarrow> token_class \<Rightarrow> rat" where
  "compared_figure joined m class =
     (if \<not> joined then dval (count_of m class)
      else if class = cacheWrite then dval (count_of m cacheWrite) + (\<Sum>c\<leftarrow>writeClasses. dval (count_of m c))
      else if class \<in> set writeClasses then 0 else dval (count_of m class))"

lemma wf_counts_simps [simp]:
  "wf_counts []" "wf_counts (x # m) \<longleftrightarrow> wf_decimal (snd x) \<and> wf_counts m"
  "wf_counts (m @ n) \<longleftrightarrow> wf_counts m \<and> wf_counts n"
  by (simp_all add: wf_counts_def)

lemma joinWrites_wf [keeps_wf, simp]: "wf_counts m \<Longrightarrow> wf_counts (joinWrites m)"
  by (simp add: joinWrites_def writeClasses_def add_count_wf)

lemma joinWrites_val:
  "wf_counts m \<Longrightarrow> dval (count_of (joinWrites m) class) = compared_figure True m class"
  by (simp add: joinWrites_def writeClasses_def compared_figure_def)

lemma sumTokens_wf:
  assumes "list_all (\<lambda>u. wf_counts (ru_Tokens u)) us"
  shows "wf_counts (sumTokens us)"
proof -
  have "wf_counts (foldl (\<lambda>m (class, tokens). add_count class tokens m) m ts)"
    if "wf_counts m" "wf_counts ts" for m ts
    using that by (induction ts arbitrary: m) (auto simp: add_count_wf)
  moreover have "wf_counts (concat (map ru_Tokens us))"
    using assms by (induction us) simp_all
  ultimately show ?thesis by (simp add: sumTokens_def)
qed

lemma sumTokens_val:
  assumes "list_all (\<lambda>u. wf_counts (ru_Tokens u)) us"
  shows "dval (count_of (sumTokens us) class) =
    (\<Sum>u\<leftarrow>us. \<Sum>ct\<leftarrow>filter (\<lambda>ct. fst ct = class) (ru_Tokens u). dval (snd ct))"
proof -
  have wf: "\<forall>x\<in>set (concat (map ru_Tokens us)). wf_decimal (snd x)"
    using assms by (auto simp: wf_counts_def list_all_iff)
  have "dval (count_of (sumTokens us) class) =
      (case map_of (foldl (\<lambda>m x. upsert (fst x) zero_decimal (\<lambda>v. Add v (snd x)) m) []
         (concat (map ru_Tokens us))) class of None \<Rightarrow> 0 | Some v \<Rightarrow> dval v)"
    by (simp add: count_of_def sumTokens_def add_count_def case_prod_unfold split: option.split)
  also have "\<dots> = (\<Sum>ct\<leftarrow>filter (\<lambda>ct. fst ct = class) (concat (map ru_Tokens us)). dval (snd ct))"
    by (subst dec.keyed_total) (use wf in simp_all)
  also have "\<dots> = (\<Sum>u\<leftarrow>us. \<Sum>ct\<leftarrow>filter (\<lambda>ct. fst ct = class) (ru_Tokens u). dval (snd ct))"
    by (induction us) simp_all
  finally show ?thesis .
qed

lemma token_checks_facts:
  assumes "wf_counts mine" "wf_counts theirs"
  shows "map tc_Class (token_checks mine theirs) =
      filter (\<lambda>class. dval (count_of mine class) \<noteq> 0 \<or> dval (count_of theirs class) \<noteq> 0) compared"
    and "t \<in> set (token_checks mine theirs) \<Longrightarrow>
      dval (tc_Ledger t) = dval (count_of mine (tc_Class t)) \<and>
      dval (tc_Provider t) = dval (count_of theirs (tc_Class t)) \<and>
      dval (tc_Delta t) = dval (tc_Provider t) - dval (tc_Ledger t) \<and>
      (tc_Within t \<longleftrightarrow> \<bar>dval (tc_Provider t) - dval (tc_Ledger t)\<bar> * 100 \<le> dval (tc_Provider t))"
  using assms
  by (auto simp: token_checks_def comp_def within_percent_exact TokenTolerancePercent_def intro: filter_cong)

lemma compareTokens_facts:
  assumes "wf_counts (gp_tokens g)" "list_all (\<lambda>u. wf_counts (ru_Tokens u)) us"
    and "joined \<longleftrightarrow> source = SourceOpenAI \<or> gp_assumedLifetime g"
    and "mine = compared_figure joined (gp_tokens g)" "theirs = compared_figure joined (sumTokens us)"
  shows "map tc_Class (compareTokens source g us) = filter (\<lambda>class. mine class \<noteq> 0 \<or> theirs class \<noteq> 0) compared"
    and "t \<in> set (compareTokens source g us) \<Longrightarrow>
      dval (tc_Ledger t) = mine (tc_Class t) \<and> dval (tc_Provider t) = theirs (tc_Class t) \<and>
      dval (tc_Delta t) = theirs (tc_Class t) - mine (tc_Class t) \<and>
      (tc_Within t \<longleftrightarrow> \<bar>theirs (tc_Class t) - mine (tc_Class t)\<bar> * 100 \<le> theirs (tc_Class t))"
proof -
  let ?m = "if joined then joinWrites (gp_tokens g) else gp_tokens g"
  let ?t = "if joined then joinWrites (sumTokens us) else sumTokens us"
  have c: "compareTokens source g us = token_checks ?m ?t" using assms(3) by (simp add: compareTokens_def)
  have wf: "wf_counts ?m" "wf_counts ?t" using assms(1) sumTokens_wf [OF assms(2)] by simp_all
  have v: "dval (count_of ?m k) = mine k" "dval (count_of ?t k) = theirs k" for k
    using assms(1,4,5) sumTokens_wf [OF assms(2)]
    by (auto simp: joinWrites_val) (simp_all add: compared_figure_def)
  show "map tc_Class (compareTokens source g us) = filter (\<lambda>class. mine class \<noteq> 0 \<or> theirs class \<noteq> 0) compared"
    unfolding c token_checks_facts(1) [OF wf] v by (rule refl)
  assume t: "t \<in> set (compareTokens source g us)"
  show "dval (tc_Ledger t) = mine (tc_Class t) \<and> dval (tc_Provider t) = theirs (tc_Class t) \<and>
      dval (tc_Delta t) = theirs (tc_Class t) - mine (tc_Class t) \<and>
      (tc_Within t \<longleftrightarrow> \<bar>theirs (tc_Class t) - mine (tc_Class t)\<bar> * 100 \<le> theirs (tc_Class t))"
    using token_checks_facts(2) [OF wf t [unfolded c]] unfolding v by simp
qed

section \<open>Dollars\<close>

definition wf_pricing :: "pricing \<Rightarrow> bool" where
  "wf_pricing p \<longleftrightarrow> wf_decimal (pc_standard p) \<and> wf_decimal (pc_tiered p) \<and> wf_decimal (pc_served p)"

lemma unitPrice_wf: "unitPrice w m c t r = Inr p \<Longrightarrow> wf_decimal (cp_ListUnitPrice p)"
  by (auto simp: unitPrice_def split: sum.splits dest!: cat.price_canonical intro: canonical_wf)

lemma residency_factor_wf:
  assumes "unitPrice w m c t r = Inr p" "cp_ResidencyMultiplier p = Some f"
  shows "wf_decimal f"
proof -
  obtain q where "Lookup (wk_catalog w) q = Inr p"
    using assms(1) by (auto simp: unitPrice_def split: sum.splits)
  then obtain s r where "priced s r q = Inr p \<or> fallback r = Inr p"
    by (auto simp: Lookup_def split: option.splits)
  then have "\<exists>m :: sheet_row. Parse (sr_Multiplier m) = Inr f"
    using assms(2) by (auto simp: fallback_def split: sum.splits dest!: priced_fields)
  then show ?thesis by (auto dest: Parse_canonical canonical_wf)
qed

lemma servedPrices_wf:
  assumes "servedPrices w r class standard = Inr (tiered, served, said)" "wf_decimal (cp_ListUnitPrice standard)"
  shows "wf_decimal tiered \<and> wf_decimal served"
proof (cases "wk_source w = SourceAnthropic \<and> ru_Tier r = tierPriority")
  case True
  then show ?thesis using assms(1) by (simp add: servedPrices_def)
next
  case False
  define price where "price tier = cp_ListUnitPrice (if cp_Fallback tier \<and> \<not> cp_Fallback standard then standard else tier)"
    for tier
  from False obtain tier where t: "unitPrice w (ru_Model r) class (ru_Tier r) RegionGlobal = Inr tier"
    using assms(1) by (auto simp: servedPrices_def rbind_eq_Inr)
  have p: "wf_decimal (price tier)" using unitPrice_wf [OF t] assms(2) by (simp add: price_def)
  have step: "servedPrices w r class standard =
     (if ru_Region r \<noteq> [] \<and> ru_Region r \<noteq> RegionGlobal
      then rmap (\<lambda>regional. (price tier,
           (case cp_ResidencyMultiplier regional of None \<Rightarrow> price tier | Some f \<Rightarrow> Mul (price tier) f),
           if cp_Fallback tier \<and> \<not> cp_Fallback standard then tier_note r else []))
         (unitPrice w (ru_Model r) class (ru_Tier r) (ru_Region r))
      else Inr (price tier, price tier, if cp_Fallback tier \<and> \<not> cp_Fallback standard then tier_note r else []))"
    unfolding servedPrices_def if_not_P [OF False] t rbind_simps Let_def price_def by (rule refl)
  show ?thesis
  proof (cases "ru_Region r \<noteq> [] \<and> ru_Region r \<noteq> RegionGlobal")
    case True
    then obtain regional where u: "unitPrice w (ru_Model r) class (ru_Tier r) (ru_Region r) = Inr regional"
      and e: "tiered = price tier"
        "served = (case cp_ResidencyMultiplier regional of None \<Rightarrow> price tier | Some f \<Rightarrow> Mul (price tier) f)"
      using assms(1) step by (auto simp: rmap_eq_Inr)
    show ?thesis
      using p e residency_factor_wf [OF u] by (cases "cp_ResidencyMultiplier regional") simp_all
  next
    case False
    then show ?thesis using assms(1) step p by auto
  qed
qed

lemma price_step_wf:
  assumes "price_step w r p ct = Inr p'" "wf_pricing p" "wf_decimal (snd ct)"
  shows "wf_pricing p'"
proof -
  obtain k tokens where ct: "ct = (k, tokens)" by (cases ct)
  show ?thesis
  proof (cases "Sign tokens = 0")
    case True
    then show ?thesis using assms by (simp add: price_step_def ct)
  next
    case False
    then obtain standard where s: "unitPrice w (ru_Model r) k TierStandard RegionGlobal = Inr standard"
      and "rmap (\<lambda>(tiered, served, nt).
            (let quantity = DivPow10 tokens 6
             in p\<lparr>pc_standard := Add (pc_standard p) (Mul (cp_ListUnitPrice standard) quantity),
                  pc_tiered := Add (pc_tiered p) (Mul tiered quantity),
                  pc_served := Add (pc_served p) (Mul served quantity),
                  pc_notes := (if nt \<noteq> [] \<and> nt \<notin> set (pc_notes p) then pc_notes p @ [nt] else pc_notes p)\<rparr>))
          (servedPrices w r k standard) = Inr p'"
      using assms(1) by (auto simp: price_step_def ct rbind_eq_Inr)
    then obtain tiered served nt where "servedPrices w r k standard = Inr (tiered, served, nt)"
      and p': "p' = p\<lparr>pc_standard := Add (pc_standard p) (Mul (cp_ListUnitPrice standard) (DivPow10 tokens 6)),
                  pc_tiered := Add (pc_tiered p) (Mul tiered (DivPow10 tokens 6)),
                  pc_served := Add (pc_served p) (Mul served (DivPow10 tokens 6)),
                  pc_notes := (if nt \<noteq> [] \<and> nt \<notin> set (pc_notes p) then pc_notes p @ [nt] else pc_notes p)\<rparr>"
      by (auto simp: rmap_eq_Inr Let_def)
    then show ?thesis
      using servedPrices_wf [OF _ unitPrice_wf [OF s]] unitPrice_wf [OF s] assms(2,3)
      by (auto simp: wf_pricing_def ct)
  qed
qed

lemma price_records_wf:
  assumes "price_records w rs = Inr p" "list_all (\<lambda>u. wf_counts (ru_Tokens u)) rs"
  shows "wf_pricing p"
proof -
  have one: "wf_pricing t" if "wf_pricing s" "wf_counts ts" "rfold (price_step w r) s ts = Inr t" for s t r ts
    using that
  proof (induction ts arbitrary: s)
    case (Cons x ts)
    then show ?case by (auto simp: rbind_eq_Inr dest: price_step_wf)
  qed simp
  have all: "wf_pricing t" if "wf_pricing s" "rfold (\<lambda>p r. rfold (price_step w r) p (ru_Tokens r)) s rs = Inr t" for s t
    using that assms(2)
  proof (induction rs arbitrary: s)
    case (Cons x rs)
    then show ?case by (auto simp: rbind_eq_Inr dest: one)
  qed simp
  obtain t where t: "rfold (\<lambda>p r. rfold (price_step w r) p (ru_Tokens r)) no_pricing rs = Inr t"
    and p: "p = t\<lparr>pc_notes := sort (pc_notes t)\<rparr>"
    using assms(1) by (auto simp: price_records_def rmap_eq_Inr)
  have "wf_pricing t" by (rule all [OF _ t]) (simp add: no_pricing_def wf_pricing_def)
  then show ?thesis by (simp add: wf_pricing_def p)
qed

text \<open>The causes taken: the amounts that are not zero, and what is left once they are taken off.\<close>

lemma take_causes:
  assumes "list_all (\<lambda>x. wf_decimal (ca_Amount x)) xs" "wf_decimal (dc_Unattributed c)"
  shows "dc_Causes (foldl take_cause c xs) = dc_Causes c @ filter (\<lambda>x. dval (ca_Amount x) \<noteq> 0) xs \<and>
    dval (dc_Unattributed (foldl take_cause c xs)) = dval (dc_Unattributed c) - (\<Sum>x\<leftarrow>xs. dval (ca_Amount x)) \<and>
    dc_Residual (foldl take_cause c xs) = dc_Residual c \<and> dc_Verdict (foldl take_cause c xs) = dc_Verdict c \<and>
    dc_Ledger (foldl take_cause c xs) = dc_Ledger c \<and> dc_Provider (foldl take_cause c xs) = dc_Provider c \<and>
    dc_OtherCost (foldl take_cause c xs) = dc_OtherCost c"
  using assms
proof (induction xs arbitrary: c)
  case (Cons x xs)
  have x: "wf_decimal (ca_Amount x)" and xs: "list_all (\<lambda>x. wf_decimal (ca_Amount x)) xs"
    using Cons.prems(1) by simp_all
  have t: "wf_decimal (dc_Unattributed (take_cause c x))"
    "dc_Causes (take_cause c x) = dc_Causes c @ (if dval (ca_Amount x) \<noteq> 0 then [x] else [])"
    "dval (dc_Unattributed (take_cause c x)) = dval (dc_Unattributed c) - dval (ca_Amount x)"
    "dc_Residual (take_cause c x) = dc_Residual c" "dc_Verdict (take_cause c x) = dc_Verdict c"
    "dc_Ledger (take_cause c x) = dc_Ledger c" "dc_Provider (take_cause c x) = dc_Provider c"
    "dc_OtherCost (take_cause c x) = dc_OtherCost c"
    using x Cons.prems(2) by (auto simp: take_cause_def)
  show ?case using Cons.IH [OF xs t(1)] by (simp add: t(2-8))
qed simp

lemma sum_nonzero: "(\<Sum>x\<leftarrow>filter (\<lambda>x. f x \<noteq> 0) xs. f x) = (\<Sum>x\<leftarrow>xs. f x :: rat)"
  by (induction xs) simp_all

lemma cost_fold:
  assumes "list_all wf_cost cs" "wf_decimal (cw_amount w)" "wf_decimal (cw_other w)" "wf_decimal (cw_list w)"
  shows "wf_decimal (cw_amount (foldl cost_step w cs)) \<and> wf_decimal (cw_other (foldl cost_step w cs)) \<and>
    wf_decimal (cw_list (foldl cost_step w cs)) \<and>
    dval (cw_amount (foldl cost_step w cs)) = dval (cw_amount w) + (\<Sum>c\<leftarrow>filter cl_Tokens cs. dval (cl_Amount c)) \<and>
    dval (cw_other (foldl cost_step w cs)) =
      dval (cw_other w) + (\<Sum>c\<leftarrow>filter (\<lambda>c. \<not> cl_Tokens c) cs. dval (cl_Amount c))"
  using assms
proof (induction cs arbitrary: w)
  case (Cons c cs)
  have c: "wf_cost c" using Cons.prems(1) by simp
  have w: "wf_decimal (cw_amount (cost_step w c))" "wf_decimal (cw_other (cost_step w c))"
    "wf_decimal (cw_list (cost_step w c))"
    using Cons.prems c by (auto simp: cost_step_def Let_def wf_cost_def split: option.splits)
  have "dval (cw_amount (cost_step w c)) = dval (cw_amount w) + (if cl_Tokens c then dval (cl_Amount c) else 0) \<and>
      dval (cw_other (cost_step w c)) = dval (cw_other w) + (if cl_Tokens c then 0 else dval (cl_Amount c))"
    using Cons.prems c by (auto simp: cost_step_def Let_def wf_cost_def split: option.splits)
  then show ?case using Cons.IH [OF _ w] Cons.prems(1) by simp
qed simp

lemma costOf_facts:
  assumes "wf_report rp"
  shows "wf_decimal (ct_amount (costOf rp credential day)) \<and>
    (case ct_list (costOf rp credential day) of None \<Rightarrow> True | Some l \<Rightarrow> wf_decimal l) \<and>
    dval (ct_amount (costOf rp credential day)) =
      (\<Sum>c\<leftarrow>filter (\<lambda>c. cl_Credential c = credential \<and> cl_Day c = day \<and> cl_Tokens c) (re_Costs rp). dval (cl_Amount c)) \<and>
    dval (ct_other (costOf rp credential day)) =
      (\<Sum>c\<leftarrow>filter (\<lambda>c. cl_Credential c = credential \<and> cl_Day c = day \<and> \<not> cl_Tokens c) (re_Costs rp). dval (cl_Amount c))"
proof -
  let ?own = "filter (\<lambda>c. \<not> (cl_Credential c \<noteq> credential \<or> cl_Day c \<noteq> day)) (re_Costs rp)"
  have "list_all wf_cost ?own" using assms by (auto simp: wf_report_def list_all_iff)
  note f = cost_fold [OF this, of "\<lparr>cw_amount = zero_decimal, cw_other = zero_decimal, cw_list = zero_decimal,
      cw_stated = False, cw_missing = False\<rparr>"]
  show ?thesis using f by (simp add: costOf_def Let_def conj_ac)
qed

lemma cause_amounts_facts:
  assumes "wf_pricing mine" "wf_pricing theirs" "wf_decimal (ct_amount cost)"
    "case ct_list cost of None \<Rightarrow> True | Some l \<Rightarrow> wf_decimal l"
  shows "list_all (\<lambda>x. wf_decimal (ca_Amount x)) (cause_amounts cost mine theirs tokens) \<and>
    distinct (map ca_Name (cause_amounts cost mine theirs tokens))"
  using assms
  by (auto simp: cause_amounts_def tierPremium_def residencyPremium_def wf_pricing_def split: option.splits)

lemma distinct_map_filter: "distinct (map f xs) \<Longrightarrow> distinct (map f (filter P xs))"
  by (induction xs) auto

lemma dollars_facts:
  assumes d: "dollars prices rp (source, credential, day) g us tokens = Inr (d, notes)"
    and wf: "wf_group g" "wf_report rp" "list_all (\<lambda>u. wf_counts (ru_Tokens u)) us"
  shows "dc_Ledger d = gp_list g \<and> dc_Provider d = ct_amount (costOf rp credential day) \<and>
    dc_OtherCost d = ct_other (costOf rp credential day) \<and>
    (dc_Verdict d = NoBill \<longleftrightarrow> \<not> gp_billed g) \<and>
    (gp_billed g \<longrightarrow> dval (dc_Residual d) = dval (dc_Provider d) - dval (dc_Ledger d) \<and>
      (dc_Verdict d = Within \<longleftrightarrow>
        \<bar>dval (dc_Provider d) - dval (dc_Ledger d)\<bar> * 100 \<le> dval (dc_Provider d) * 10)) \<and>
    dval (dc_Residual d) = (\<Sum>x\<leftarrow>dc_Causes d. dval (ca_Amount x)) + dval (dc_Unattributed d) \<and>
    (\<forall>x\<in>set (dc_Causes d). dval (ca_Amount x) \<noteq> 0) \<and> distinct (map ca_Name (dc_Causes d))"
proof (cases "gp_billed g")
  case False
  then have "d = \<lparr>dc_Verdict = NoBill, dc_Ledger = gp_list g, dc_Provider = ct_amount (costOf rp credential day),
      dc_ProviderEffective = ct_amount (costOf rp credential day), dc_ProviderList = ct_list (costOf rp credential day),
      dc_OtherCost = ct_other (costOf rp credential day), dc_Residual = zero_decimal, dc_Causes = [],
      dc_Unattributed = zero_decimal, dc_Rounding = None\<rparr>"
    using d by (simp add: dollars_def Let_def)
  with False show ?thesis by simp
next
  case True
  let ?cost = "costOf rp credential day"
  define base where "base = \<lparr>dc_Verdict = (if within_percent (gp_list g) (ct_amount ?cost) DollarTolerancePercent
        then Within else Outside), dc_Ledger = gp_list g, dc_Provider = ct_amount ?cost,
      dc_ProviderEffective = ct_amount ?cost, dc_ProviderList = ct_list ?cost, dc_OtherCost = ct_other ?cost,
      dc_Residual = Sub (ct_amount ?cost) (gp_list g), dc_Causes = [], dc_Unattributed = zero_decimal,
      dc_Rounding = None\<rparr>"
  have "rbind (case ct_list ?cost of None \<Rightarrow> Inr base
        | Some l \<Rightarrow> rmap (\<lambda>r. base\<lparr>dc_Rounding := Some r\<rparr>) (roundingOf l g)) (\<lambda>check.
      case parse_day day of
        None \<Rightarrow> Inl (DayPanic day)
      | Some at_day \<Rightarrow>
          rbind (price_records \<lparr>wk_catalog = prices, wk_source = source, wk_at = at_day\<rparr> (group_records g)) (\<lambda>mine.
          rbind (price_records \<lparr>wk_catalog = prices, wk_source = source, wk_at = at_day\<rparr> us) (\<lambda>theirs.
            Inr (foldl take_cause (check\<lparr>dc_Unattributed := dc_Residual check\<rparr>) (cause_amounts ?cost mine theirs tokens),
                 pc_notes mine @ pc_notes theirs)))) = Inr (d, notes)"
    using d [unfolded dollars_def Let_def] True by (cases "ct_list ?cost") (simp_all add: base_def)
  then obtain check where c: "(case ct_list ?cost of None \<Rightarrow> Inr base
        | Some l \<Rightarrow> rmap (\<lambda>r. base\<lparr>dc_Rounding := Some r\<rparr>) (roundingOf l g)) = Inr check"
    and "(case parse_day day of
        None \<Rightarrow> Inl (DayPanic day)
      | Some at_day \<Rightarrow>
          rbind (price_records \<lparr>wk_catalog = prices, wk_source = source, wk_at = at_day\<rparr> (group_records g)) (\<lambda>mine.
          rbind (price_records \<lparr>wk_catalog = prices, wk_source = source, wk_at = at_day\<rparr> us) (\<lambda>theirs.
            Inr (foldl take_cause (check\<lparr>dc_Unattributed := dc_Residual check\<rparr>) (cause_amounts ?cost mine theirs tokens),
                 pc_notes mine @ pc_notes theirs)))) = Inr (d, notes)"
    by (auto simp: rbind_eq_Inr)
  then obtain w mine theirs where m: "price_records w (group_records g) = Inr mine"
    and t: "price_records w us = Inr theirs"
    and e: "d = foldl take_cause (check\<lparr>dc_Unattributed := dc_Residual check\<rparr>) (cause_amounts ?cost mine theirs tokens)"
    by (auto simp: rbind_eq_Inr split: option.splits)
  have check: "dc_Verdict check = dc_Verdict base" "dc_Ledger check = dc_Ledger base"
    "dc_Provider check = dc_Provider base" "dc_OtherCost check = dc_OtherCost base"
    "dc_Residual check = dc_Residual base" "dc_Causes check = []"
    using c by (auto simp: base_def rmap_eq_Inr split: option.splits)
  have wfc: "wf_decimal (ct_amount ?cost)" "case ct_list ?cost of None \<Rightarrow> True | Some l \<Rightarrow> wf_decimal l"
    and g: "wf_decimal (gp_list g)"
    using costOf_facts [OF wf(2)] wf(1) by (auto simp: wf_group_def)
  note a = cause_amounts_facts [OF price_records_wf [OF m group_records_wf [OF wf(1)]] price_records_wf [OF t wf(3)] wfc]
  have "wf_decimal (dc_Unattributed (check\<lparr>dc_Unattributed := dc_Residual check\<rparr>))"
    using check(5) wfc g by (simp add: base_def)
  note f = take_causes [OF a [THEN conjunct1] this]
  show ?thesis
    unfolding e using f a [THEN conjunct2] True wfc g
    by (simp add: check base_def within_percent_exact DollarTolerancePercent_def sum_nonzero distinct_map_filter)
qed

section \<open>One row of a pass\<close>

definition comparison_of :: "spend_ledger \<Rightarrow> day_range \<Rightarrow> instant \<Rightarrow> catalog \<Rightarrow> string \<Rightarrow> provider_report \<Rightarrow> comparison" where
  "comparison_of l rng now prices name rp =
     \<lparr>cm_ledger = l, cm_report = rp, cm_range = rng, cm_now = now, cm_catalog = prices, cm_named = Credentials l name\<rparr>"

lemma pass_rows:
  assumes "rfold (one_pass l rng now prices) r0 providers = Inr res" "row \<in> set (rl_Rows res)"
  shows "row \<in> set (rl_Rows r0) \<or>
    (\<exists>name fetch rp key. (name, fetch) \<in> set providers \<and> fetch rng (Credentials l name) = Inr rp \<and>
       recon_row_of (comparison_of l rng now prices name rp) key = Inr row)"
  using assms
proof (induction providers arbitrary: r0)
  case (Cons p providers)
  obtain name fetch where p: "p = (name, fetch)" by (cases p)
  from Cons.prems(1) obtain r1 where r1: "one_pass l rng now prices r0 p = Inr r1"
    and rest: "rfold (one_pass l rng now prices) r1 providers = Inr res"
    by (auto simp: rbind_eq_Inr)
  obtain rp rs where rp: "fetch rng (Credentials l name) = Inr rp"
    and rs: "recon_rows (comparison_of l rng now prices name rp) = Inr rs" "rl_Rows r1 = rl_Rows r0 @ rs"
    using r1 by (auto simp: one_pass_def p comparison_of_def rmap_eq_Inr Let_def split: sum.splits)
  show ?case
  proof (cases "row \<in> set rs")
    case True
    then obtain key where "recon_row_of (comparison_of l rng now prices name rp) key = Inr row"
      using rtraverse_in [OF rs(1) [unfolded recon_rows_def]] by blast
    with rp show ?thesis by (metis list.set_intros(1) p)
  next
    case False
    then show ?thesis
      using Cons.IH [OF rest Cons.prems(2)] rs(2) by (metis Un_iff list.set_intros(2) set_append)
  qed
qed simp

lemma reconciled_row:
  assumes "ReconcileAll l rng now prices providers = Inr res" "row \<in> set (rl_Rows res)"
  obtains name fetch rp key where "(name, fetch) \<in> set providers" "fetch rng (Credentials l name) = Inr rp"
    "recon_row_of (comparison_of l rng now prices name rp) key = Inr row"
  using assms by (auto simp: ReconcileAll_def rmap_eq_Inr dest!: pass_rows)

lemma row_fields:
  assumes "recon_row_of c (source, credential, day) = Inr row"
  shows "rr_Key row = (source, credential, day) \<and>
    (rr_State row = Pending \<and> rr_Tokens row = [] \<and> rr_Dollars row = None \<or>
     settled c day = Some True \<and>
     rr_Tokens row = compareTokens source (group_at (cm_ledger c) (source, credential, day)) (usageOf (cm_report c) credential day) \<and>
     rr_State row = (if list_ex (\<lambda>t. \<not> tc_Within t) (rr_Tokens row) then TokensMiss else Matched) \<and>
     (\<exists>d notes. rr_Dollars row = Some d \<and>
        dollars (cm_catalog c) (cm_report c) (source, credential, day) (group_at (cm_ledger c) (source, credential, day))
          (usageOf (cm_report c) credential day) (rr_Tokens row) = Inr (d, notes)))"
  using assms
  by (cases "isFinal day (cm_now c)"; cases "settled c day"; cases "settled c day = Some True")
    (auto simp: recon_row_of_def Let_def rmap_eq_Inr)

definition real_providers :: "(query_values \<Rightarrow> nat \<Rightarrow> report_error + anthropic_usage_row page) \<Rightarrow>
    (query_values \<Rightarrow> nat \<Rightarrow> report_error + anthropic_cost_row page) \<Rightarrow>
    (query_values \<Rightarrow> nat \<Rightarrow> report_error + openai_usage_result openai_bucket page) \<Rightarrow>
    (query_values \<Rightarrow> nat \<Rightarrow> report_error + openai_cost_result openai_bucket page) \<Rightarrow> provider list" where
  "real_providers aUsage aCost oUsage oCosts =
     [(SourceAnthropic, anthropic_fetch aUsage aCost), (SourceOpenAI, openai_fetch oUsage oCosts)]"

lemma real_reports_wf:
  "(name, fetch) \<in> set (real_providers au ac ou oc) \<Longrightarrow> fetch rng creds = Inr rp \<Longrightarrow> wf_report rp"
  by (auto simp: real_providers_def dest: anthropic_fetch_wf openai_fetch_wf)

text \<open>
  A row's verdict on its tokens is exact. A row the provider has not finished reporting carries no
  figure at all. Any other row is matched exactly when, for every class, what the provider's records of
  that credential and day sum to is within 1% of what the ledger's rows sum to, both taken exactly;
  where the write lifetimes cannot be told apart they are compared as one figure and no other class
  moves. It names each class either side holds, once, and its delta is the exact difference.
\<close>

theorem token_verdict_exact:
  assumes "ReadLedger rows rng given = Inr l"
    and "set providers \<subseteq> set (real_providers au ac ou oc)"
    and "ReconcileAll l rng now prices providers = Inr res" "row \<in> set (rl_Rows res)"
  shows "(rr_State row = Pending \<longrightarrow> rr_Tokens row = [] \<and> rr_Dollars row = None) \<and>
    (rr_State row \<noteq> Pending \<longrightarrow> (\<exists>source credential day fetch name rp joined mine theirs.
       rr_Key row = (source, credential, day) \<and> (name, fetch) \<in> set providers \<and>
       fetch rng (Credentials l name) = Inr rp \<and>
       (joined \<longleftrightarrow> source = SourceOpenAI \<or> gp_assumedLifetime (group_at l (rr_Key row))) \<and>
       mine = compared_figure joined (gp_tokens (group_at l (rr_Key row))) \<and>
       theirs = compared_figure joined (sumTokens (usageOf rp credential day)) \<and>
       (rr_State row = Matched \<longleftrightarrow> (\<forall>k\<in>set compared. \<bar>theirs k - mine k\<bar> * 100 \<le> theirs k)) \<and>
       map tc_Class (rr_Tokens row) = filter (\<lambda>k. mine k \<noteq> 0 \<or> theirs k \<noteq> 0) compared \<and>
       (\<forall>t\<in>set (rr_Tokens row). dval (tc_Ledger t) = mine (tc_Class t) \<and>
          dval (tc_Provider t) = theirs (tc_Class t) \<and> dval (tc_Delta t) = theirs (tc_Class t) - mine (tc_Class t))))"
proof -
  obtain name fetch rp key where p: "(name, fetch) \<in> set providers" "fetch rng (Credentials l name) = Inr rp"
    and r: "recon_row_of (comparison_of l rng now prices name rp) key = Inr row"
    by (rule reconciled_row [OF assms(3,4)])
  obtain source credential day where key: "key = (source, credential, day)" by (cases key)
  note f = row_fields [OF r [unfolded key]]
  have rp: "wf_report rp" using assms(2) p real_reports_wf by blast
  define g where "g = group_at l (source, credential, day)"
  define us where "us = usageOf rp credential day"
  have g: "wf_counts (gp_tokens g)" using group_at_wf [OF assms(1)] by (simp add: g_def wf_group_def)
  have us: "list_all (\<lambda>u. wf_counts (ru_Tokens u)) us"
    using rp by (auto simp: us_def usageOf_def wf_report_def list_all_iff)
  show ?thesis
  proof (cases "rr_State row = Pending")
    case True
    then show ?thesis using f by (auto split: if_splits)
  next
    case False
    define joined where "joined \<longleftrightarrow> source = SourceOpenAI \<or> gp_assumedLifetime g"
    define mine where "mine = compared_figure joined (gp_tokens g)"
    define theirs where "theirs = compared_figure joined (sumTokens us)"
    have k: "rr_Key row = (source, credential, day)" using f by simp
    have tokens: "rr_Tokens row = compareTokens source g us"
      and state: "rr_State row = (if list_ex (\<lambda>t. \<not> tc_Within t) (rr_Tokens row) then TokensMiss else Matched)"
      using f False by (auto simp: comparison_of_def g_def us_def)
    note t = compareTokens_facts [OF g us joined_def mine_def theirs_def, folded tokens]
    have "rr_State row = Matched \<longleftrightarrow> (\<forall>t\<in>set (rr_Tokens row). tc_Within t)"
      by (subst state) (auto simp: list_ex_iff)
    also have "\<dots> \<longleftrightarrow> (\<forall>k\<in>tc_Class ` set (rr_Tokens row). \<bar>theirs k - mine k\<bar> * 100 \<le> theirs k)"
      using t(2) by simp
    also have "tc_Class ` set (rr_Tokens row) = {k \<in> set compared. mine k \<noteq> 0 \<or> theirs k \<noteq> 0}"
      using arg_cong [OF t(1), of set] by simp
    finally have matched: "rr_State row = Matched \<longleftrightarrow> (\<forall>k\<in>set compared. \<bar>theirs k - mine k\<bar> * 100 \<le> theirs k)"
      by auto
    have tf: "\<forall>t\<in>set (rr_Tokens row). dval (tc_Ledger t) = mine (tc_Class t) \<and>
        dval (tc_Provider t) = theirs (tc_Class t) \<and> dval (tc_Delta t) = theirs (tc_Class t) - mine (tc_Class t)"
      using t(2) by blast
    have own: "(joined \<longleftrightarrow> source = SourceOpenAI \<or> gp_assumedLifetime (group_at l (rr_Key row))) \<and>
        mine = compared_figure joined (gp_tokens (group_at l (rr_Key row))) \<and>
        theirs = compared_figure joined (sumTokens (usageOf rp credential day))"
      by (simp add: k joined_def mine_def theirs_def g_def us_def)
    show ?thesis using False k p own matched t(1) tf by blast
  qed
qed

text \<open>
  C33. A row's dollars are explained to the last digit. The ledger's figure is the sum of the list costs
  of the credential's measured rows of that day, the provider's is the sum of the report's token lines,
  and what the report bills for anything else is kept apart. The residual is their exact difference, and
  it is exactly the sum of the named causes and of what stays unattributed: no cause is zero or named
  twice. The verdict is the 10% comparison, and no verdict stands where no row was billed.
\<close>

theorem residual_is_explained:
  assumes "ReadLedger rows rng given = Inr l"
    and "set providers \<subseteq> set (real_providers au ac ou oc)"
    and "ReconcileAll l rng now prices providers = Inr res" "row \<in> set (rl_Rows res)"
    and d: "rr_Dollars row = Some d" and own: "own = filter (\<lambda>r. key_of given r = rr_Key row) (counted_rows rng given rows)"
  shows "\<exists>source credential day name fetch rp.
    rr_Key row = (source, credential, day) \<and> (name, fetch) \<in> set providers \<and>
    fetch rng (Credentials l name) = Inr rp \<and>
    dval (dc_Ledger d) = (\<Sum>r\<leftarrow>filter is_measured own. dval (row_list_cost r)) \<and>
    dval (dc_Provider d) =
      (\<Sum>c\<leftarrow>filter (\<lambda>c. cl_Credential c = credential \<and> cl_Day c = day \<and> cl_Tokens c) (re_Costs rp). dval (cl_Amount c)) \<and>
    dval (dc_OtherCost d) =
      (\<Sum>c\<leftarrow>filter (\<lambda>c. cl_Credential c = credential \<and> cl_Day c = day \<and> \<not> cl_Tokens c) (re_Costs rp). dval (cl_Amount c)) \<and>
    (dc_Verdict d = NoBill \<longleftrightarrow> own \<noteq> [] \<and> (\<forall>r\<in>set own. \<not> is_measured r)) \<and>
    (dc_Verdict d \<noteq> NoBill \<longrightarrow> dval (dc_Residual d) = dval (dc_Provider d) - dval (dc_Ledger d) \<and>
      (dc_Verdict d = Within \<longleftrightarrow>
        \<bar>dval (dc_Provider d) - dval (dc_Ledger d)\<bar> * 100 \<le> dval (dc_Provider d) * 10)) \<and>
    dval (dc_Residual d) = (\<Sum>x\<leftarrow>dc_Causes d. dval (ca_Amount x)) + dval (dc_Unattributed d) \<and>
    (\<forall>x\<in>set (dc_Causes d). dval (ca_Amount x) \<noteq> 0) \<and> distinct (map ca_Name (dc_Causes d))"
proof -
  obtain name fetch rp key where p: "(name, fetch) \<in> set providers" "fetch rng (Credentials l name) = Inr rp"
    and r: "recon_row_of (comparison_of l rng now prices name rp) key = Inr row"
    by (rule reconciled_row [OF assms(3,4)])
  obtain source credential day where key: "key = (source, credential, day)" by (cases key)
  note f = row_fields [OF r [unfolded key]]
  have k: "rr_Key row = (source, credential, day)" using f by simp
  have rp: "wf_report rp" using assms(2) p real_reports_wf by blast
  define g where "g = group_at l (source, credential, day)"
  define us where "us = usageOf rp credential day"
  have us: "list_all (\<lambda>u. wf_counts (ru_Tokens u)) us"
    using rp by (auto simp: us_def usageOf_def wf_report_def list_all_iff)
  obtain said where dd: "dollars prices rp (source, credential, day) g us (rr_Tokens row) = Inr (d, said)"
    using f d by (auto simp: comparison_of_def g_def us_def)
  have wg: "wf_group g" unfolding g_def by (rule group_at_wf [OF assms(1)])
  note x = dollars_facts [OF dd wg rp us]
  have g: "g = (if own = [] then empty_group\<lparr>gp_billed := True\<rparr> else foldl (\<lambda>g r. put_row r g) empty_group own)"
    by (simp add: g_def own k group_at_rows [OF assms(1)] Let_def)
  have list_cost: "dval (gp_list g) = (\<Sum>r\<leftarrow>filter is_measured own. dval (row_list_cost r))"
    by (simp add: g group_fold_list) (simp add: empty_group_def)
  have billed: "gp_billed g \<longleftrightarrow> own = [] \<or> (\<exists>r\<in>set own. is_measured r)"
    by (simp add: g group_fold) (simp add: empty_group_def)
  note c = costOf_facts [OF rp, of credential day]
  have "dval (dc_Ledger d) = (\<Sum>r\<leftarrow>filter is_measured own. dval (row_list_cost r))"
    using x list_cost by simp
  moreover have "dval (dc_Provider d) =
      (\<Sum>c\<leftarrow>filter (\<lambda>c. cl_Credential c = credential \<and> cl_Day c = day \<and> cl_Tokens c) (re_Costs rp). dval (cl_Amount c))"
    using x c by simp
  moreover have "dval (dc_OtherCost d) =
      (\<Sum>c\<leftarrow>filter (\<lambda>c. cl_Credential c = credential \<and> cl_Day c = day \<and> \<not> cl_Tokens c) (re_Costs rp). dval (cl_Amount c))"
    using x c by simp
  moreover have "dc_Verdict d = NoBill \<longleftrightarrow> own \<noteq> [] \<and> (\<forall>r\<in>set own. \<not> is_measured r)"
    using x billed by simp
  moreover have "dc_Verdict d \<noteq> NoBill \<longrightarrow> dval (dc_Residual d) = dval (dc_Provider d) - dval (dc_Ledger d) \<and>
      (dc_Verdict d = Within \<longleftrightarrow>
        \<bar>dval (dc_Provider d) - dval (dc_Ledger d)\<bar> * 100 \<le> dval (dc_Provider d) * 10)"
    using x by blast
  moreover have "dval (dc_Residual d) = (\<Sum>x\<leftarrow>dc_Causes d. dval (ca_Amount x)) + dval (dc_Unattributed d)"
    "\<forall>x\<in>set (dc_Causes d). dval (ca_Amount x) \<noteq> 0" "distinct (map ca_Name (dc_Causes d))"
    using x by simp_all
  ultimately show ?thesis using k p by blast
qed

section \<open>A sample pass\<close>

definition sample_prices :: catalog where
  "sample_prices =
     \<lparr>cat_version = ''v'', cat_sheets =
        [SourceOpenAI \<mapsto> \<lparr>sh_Provider = SourceOpenAI, sh_ServiceProviderName = ''OpenAI'',
           sh_Rows = [sample_row\<lparr>sr_RowType := ''fallback''\<rparr>]\<rparr>]\<rparr>"

definition sample_usage :: openai_usage_result where
  "sample_usage =
     \<lparr>ou_APIKeyID = Some ''key'', ou_ProjectID = None, ou_Model = None, ou_Batch = None, ou_ServiceTier = None,
      ou_InputTokens = 0, ou_InputCachedTokens = 0, ou_InputUncachedTokens = None, ou_CacheWriteTokens = 0,
      ou_CacheWrite30mTokens = None, ou_CacheWrite12hTokens = 0, ou_OutputTokens = 7\<rparr>"

definition sample_cost :: openai_cost_result where
  "sample_cost = \<lparr>oc_APIKeyID = Some ''key'', oc_ProjectID = None, oc_Value = ''1.5'', oc_Currency = ''usd''\<rparr>"

definition sample_page :: "'a \<Rightarrow> 'a openai_bucket page" where
  "sample_page r =
     \<lparr>pg_Data = [\<lparr>ob_StartTime = 0, ob_Results = [r]\<rparr>], pg_HasMore = False, pg_NextPage = None,
      pg_DataRefreshedAt = None\<rparr>"

definition one_page :: "'a \<Rightarrow> query_values \<Rightarrow> nat \<Rightarrow> report_error + 'a openai_bucket page" where
  "one_page r = (\<lambda>_ _. Inr (sample_page r))"

definition sample_provider :: provider where
  "sample_provider = (SourceOpenAI, openai_fetch (one_page sample_usage) (one_page sample_cost))"

definition sample_group :: ledger_group where
  "sample_group = \<lparr>gp_tokens = [(Output, \<lparr>coefficient = Some 7, scale = 0\<rparr>)],
             gp_list = \<lparr>coefficient = Some 1, scale = 0\<rparr>, gp_rows = 2,
             gp_billed = True, gp_assumedLifetime = False,
             gp_measured =
               [(([], TierStandard, RegionGlobal),
                 \<lparr>ru_Credential = [], ru_Day = [], ru_Model = [],
                    ru_Tier = TierStandard, ru_Region = RegionGlobal,
                    ru_Tokens =
                      [(Output, \<lparr>coefficient = Some 7, scale = 0\<rparr>)]\<rparr>)]\<rparr>"

definition sample_spend :: spend_ledger where
  "sample_spend = \<lparr>ld_groups = [((SourceOpenAI, ''key'', ''1970-01-01''), sample_group)], ld_Repeats = 1, ld_Uncredentialed = 0\<rparr>"

definition sample_report :: provider_report where
  "sample_report =
     \<lparr>re_Source = SourceOpenAI,
      re_Usage = [\<lparr>ru_Credential = ''key'', ru_Day = ''1970-01-01'', ru_Model = [],
              ru_Tier = TierStandard, ru_Region = RegionGlobal,
              ru_Tokens = [(CacheRead, FromInt 0), (CacheWrite12h, FromInt 0), (CacheWrite30m, FromInt 0), (InputUncached, FromInt 0), (Output, FromInt 7)]\<rparr>],
      re_Costs = [\<lparr>cl_Credential = ''key'', cl_Day = ''1970-01-01'', cl_Amount = \<lparr>coefficient = Some 15, scale = 1\<rparr>, cl_List = None, cl_Tokens = True\<rparr>],
      re_Unsettled = {}, re_Refreshed = Map.empty, re_Lag = openAILag\<rparr>"

lemma sample_parse:
  "Parse ''3'' = Inr \<lparr>coefficient = Some 3, scale = 0\<rparr>" "Parse ''4'' = Inr \<lparr>coefficient = Some 4, scale = 0\<rparr>"
  "Parse ''0.5'' = Inr \<lparr>coefficient = Some 5, scale = 1\<rparr>"
  "ParseNumber ''1.5'' = Inr \<lparr>coefficient = Some 15, scale = 1\<rparr>"
  "Add zero_decimal \<lparr>coefficient = Some 3, scale = 0\<rparr> = \<lparr>coefficient = Some 3, scale = 0\<rparr>"
  "Add \<lparr>coefficient = Some 3, scale = 0\<rparr> \<lparr>coefficient = Some 4, scale = 0\<rparr> = \<lparr>coefficient = Some 7, scale = 0\<rparr>"
  "Add zero_decimal \<lparr>coefficient = Some 5, scale = 1\<rparr> = \<lparr>coefficient = Some 5, scale = 1\<rparr>"
  "Add \<lparr>coefficient = Some 5, scale = 1\<rparr> \<lparr>coefficient = Some 5, scale = 1\<rparr> = \<lparr>coefficient = Some 1, scale = 0\<rparr>"
  "format_day 0 = ''1970-01-01''"
  by code_simp+

lemma sample_row_facts:
  "credential_of given (sample_ledger_row i t) = ''key''" "lr_BillingCurrency (sample_ledger_row i t) = ledgerCurrency"
  "lr_RowID (sample_ledger_row i t) = i" "lr_ConsumedQuantity (sample_ledger_row i t) = t"
  "lr_ListCost (sample_ledger_row i t) = ''0.5''"
  "key_of given (sample_ledger_row i t) = (SourceOpenAI, ''key'', ''1970-01-01'')"
  "add_to_group (sample_ledger_row i t) d c g =
     addMeasured (sample_ledger_row i t) d (g\<lparr>gp_tokens := add_count Output d (gp_tokens g), gp_billed := True,
       gp_list := Add (gp_list g) c, gp_rows := gp_rows g + 1\<rparr>)"
  "record_key (sample_ledger_row i t) = ([], TierStandard, RegionGlobal)" "lr_SkuMeter (sample_ledger_row i t) = Output"
  by (simp_all add: sample_ledger_row_def credential_of_def key_of_def source_of_def row_day_def sample_parse
      add_to_group_def assumes_lifetime_def ledger_tag_def record_key_def row_tier_def row_region_def Let_def)

lemma sample_read: "ReadLedger sample_file sample_days [] = Inr sample_spend"
  by (simp add: ReadLedger_def sample_file_def sample_in_scope sample_row_facts add_row_def sample_parse empty_ledger_def
      sample_spend_def sample_group_def addMeasured_def new_record_def add_count_def empty_group_def)

lemma one_page_walk: "pages (one_page r) each q s = each s (sample_page r)"
proof -
  have "pages_from (one_page r) each (Suc n) 0 q s = each s (sample_page r)" for n
    by (cases "each s (sample_page r)") (simp_all add: one_page_def, simp_all add: sample_page_def)
  moreover have "maxPages = Suc 9999" by (simp add: maxPages_def)
  ultimately show ?thesis unfolding pages_def by metis
qed

lemma sample_counts_read:
  "count_tokens ''1970-01-01'' [] [(InputUncached, 0), (CacheRead, 0), (CacheWrite30m, 0), (CacheWrite12h, 0), (Output, 7)] =
     Inr [(CacheRead, FromInt 0), (CacheWrite12h, FromInt 0), (CacheWrite30m, FromInt 0), (InputUncached, FromInt 0), (Output, FromInt 7)]"
  "openai_tier sample_usage = TierStandard" "folds_to_usd ''usd''"
  by code_simp+

lemma sample_wrap: "wrap64 0 = 0"
  by (simp add: wrap64_def)

lemma sample_usage_read:
  "openai_usage sample_usage openAIKeyGrain ''1970-01-01'' = Inr (hd (re_Usage sample_report))"
  "openai_cost sample_cost openAIKeyGrain ''1970-01-01'' = Inr (hd (re_Costs sample_report))"
  using sample_counts_read sample_wrap
  by (simp_all add: openai_usage_def openai_cost_def sample_report_def sample_parse figure_def openai_credential_def
      text_of_def wrap64_exact fits64_def Let_def, simp_all add: sample_usage_def sample_cost_def sample_parse)

lemma sample_fetch: "openai_fetch (one_page sample_usage) (one_page sample_cost) sample_days [''key''] = Inr sample_report"
  using sample_usage_read
  by (simp add: openai_fetch_def grains_def one_page_walk openai_usage_page_def openai_cost_page_def sample_page_def
      bucket_day_def sample_parse no_report_def addUsage_def addCost_def sample_report_def Let_def)

definition sample_walker :: walker where
  "sample_walker = \<lparr>wk_catalog = sample_prices, wk_source = SourceOpenAI, wk_at = 0\<rparr>"

lemma sample_unit:
  "unitPrice sample_walker [] Output TierStandard RegionGlobal =
     Inr \<lparr>cp_SkuPriceID = ''sku'', cp_ListUnitPrice = \<lparr>coefficient = Some 25, scale = 0\<rparr>,
       cp_PricingUnit = ''1M Tokens'', cp_Fallback = True, cp_FallbackBasis = [],
       cp_ResidencyMultiplier = None, cp_ContextTierMin = None, cp_ContextTierMax = None\<rparr>"
  by code_simp

lemma sample_group_records: "group_records sample_group = map snd (gp_measured sample_group)"
  by code_simp

lemma sample_days_read:
  "isFinal ''1970-01-01'' (40 * day_ns) = Some True"
  "settled (comparison_of sample_spend sample_days (40 * day_ns) sample_prices SourceOpenAI sample_report) ''1970-01-01'' = Some True"
  "parse_day ''1970-01-01'' = Some 0"
  by code_simp+

lemma sample_compared:
  "compareTokens SourceOpenAI sample_group (re_Usage sample_report) =
    [\<lparr>tc_Class = Output, tc_Ledger = \<lparr>coefficient = Some 7, scale = 0\<rparr>,
         tc_Provider = \<lparr>coefficient = Some 7, scale = 0\<rparr>,
         tc_Delta = \<lparr>coefficient = Some 0, scale = 0\<rparr>, tc_Within = True\<rparr>]"
  by code_simp
lemma sample_step:
  "\<exists>q. price_step sample_walker u p (Output, t) = Inr q"
  if "ru_Model u = []" "ru_Tier u = TierStandard" "ru_Region u = RegionGlobal"
  using that by (simp add: price_step_def servedPrices_def sample_unit Let_def)

lemma sample_zero_step: "price_step sample_walker u p (k, FromInt 0) = Inr p"
  by (simp add: price_step_def)

lemma sample_records_priced:
  "\<exists>p. price_records sample_walker (group_records sample_group) = Inr p"
  "\<exists>p. price_records sample_walker (re_Usage sample_report) = Inr p"
  unfolding price_records_def sample_group_records
  using sample_step [of "\<lparr>ru_Credential = [], ru_Day = [], ru_Model = [], ru_Tier = TierStandard,
      ru_Region = RegionGlobal, ru_Tokens = [(Output, \<lparr>coefficient = Some 7, scale = 0\<rparr>)]\<rparr>" no_pricing "\<lparr>coefficient = Some 7, scale = 0\<rparr>"]
    sample_step [of "hd (re_Usage sample_report)" no_pricing "FromInt 7"]
  by (auto simp: sample_group_def sample_report_def sample_zero_step)

lemma sample_reconciled:
  "\<exists>row d. ReconcileAll sample_spend sample_days (40 * day_ns) sample_prices [sample_provider] =
       Inr \<lparr>rl_Rows = [row], rl_Unmatched = []\<rparr> \<and> rr_State row = Matched \<and> rr_Dollars row = Some d"
proof -
  let ?c = "comparison_of sample_spend sample_days (40 * day_ns) sample_prices SourceOpenAI sample_report"
  let ?key = "(SourceOpenAI, ''key'', ''1970-01-01'')"
  have g: "group_at sample_spend ?key = sample_group" by (simp add: group_at_def sample_spend_def)
  have us: "usageOf sample_report ''key'' ''1970-01-01'' = re_Usage sample_report"
    by (simp add: usageOf_def sample_report_def)
  have list_cost: "ct_list (costOf sample_report ''key'' ''1970-01-01'') = None"
    by (simp add: costOf_def sample_report_def cost_step_def Let_def)
  obtain mine theirs where "price_records sample_walker (group_records sample_group) = Inr mine"
    "price_records sample_walker (re_Usage sample_report) = Inr theirs" using sample_records_priced by blast
  then have "\<exists>dn. dollars sample_prices sample_report ?key sample_group (re_Usage sample_report) tokens = Inr dn" for tokens
    by (simp add: dollars_def list_cost sample_days_read sample_walker_def Let_def)
  then obtain d said where d: "dollars sample_prices sample_report ?key sample_group (re_Usage sample_report)
      (compareTokens SourceOpenAI sample_group (re_Usage sample_report)) = Inr (d, said)" by fastforce
  have keys: "comparison_keys ?c = [?key]"
    by (simp add: comparison_keys_def comparison_of_def report_keys_def sample_spend_def sample_report_def
        Credentials_def holds_day_def sample_days_def sample_parse)
  have c: "cm_ledger ?c = sample_spend" "cm_report ?c = sample_report" "cm_catalog ?c = sample_prices"
    "cm_now ?c = 40 * day_ns" by (simp_all add: comparison_of_def)
  have "\<exists>row. recon_row_of ?c ?key = Inr row \<and> rr_State row = Matched \<and> rr_Dollars row = Some d"
    unfolding recon_row_of_def Let_def
    by (simp add: c sample_days_read g us d) (simp add: sample_compared)
  then obtain row where row: "recon_row_of ?c ?key = Inr row" and f: "rr_State row = Matched" "rr_Dollars row = Some d"
    by blast
  have "recon_rows ?c = Inr [row]" by (simp add: recon_rows_def keys row)
  moreover have "unmatched ?c = []"
    by (simp add: unmatched_def comparison_of_def sample_report_def sample_spend_def Credentials_def)
  moreover have "Credentials sample_spend SourceOpenAI = [''key'']" by (simp add: Credentials_def sample_spend_def)
  ultimately have "ReconcileAll sample_spend sample_days (40 * day_ns) sample_prices [sample_provider] =
       Inr \<lparr>rl_Rows = [row], rl_Unmatched = []\<rparr>"
    by (simp add: ReconcileAll_def one_pass_def sample_provider_def sample_fetch comparison_of_def Let_def)
  with f show ?thesis by blast
qed

definition no_pages :: "query_values \<Rightarrow> nat \<Rightarrow> report_error + 'a page" where
  "no_pages = (\<lambda>_ _. Inl (FetchFailed []))"

lemma sample_provider_real:
  "set [sample_provider] \<subseteq> set (real_providers no_pages no_pages (one_page sample_usage) (one_page sample_cost))"
  by (simp add: sample_provider_def real_providers_def)

lemma token_verdict_exact_witness:
  "\<exists>res row. ReconcileAll sample_spend sample_days (40 * day_ns) sample_prices [sample_provider] = Inr res \<and>
     row \<in> set (rl_Rows res) \<and> rr_State row = Matched \<and>
     (\<exists>mine theirs. \<forall>k\<in>set compared. \<bar>theirs k - mine k\<bar> * 100 \<le> (theirs k :: rat))"
proof -
  obtain row d where r: "ReconcileAll sample_spend sample_days (40 * day_ns) sample_prices [sample_provider] =
      Inr \<lparr>rl_Rows = [row], rl_Unmatched = []\<rparr>" "rr_State row = Matched"
    using sample_reconciled by blast
  then show ?thesis
    using token_verdict_exact [OF sample_read sample_provider_real r(1), of row] by auto
qed

lemma residual_is_explained_witness:
  "\<exists>res row d. ReconcileAll sample_spend sample_days (40 * day_ns) sample_prices [sample_provider] = Inr res \<and>
     row \<in> set (rl_Rows res) \<and> rr_Dollars row = Some d \<and>
     dval (dc_Residual d) = (\<Sum>x\<leftarrow>dc_Causes d. dval (ca_Amount x)) + dval (dc_Unattributed d)"
proof -
  obtain row d where r: "ReconcileAll sample_spend sample_days (40 * day_ns) sample_prices [sample_provider] =
      Inr \<lparr>rl_Rows = [row], rl_Unmatched = []\<rparr>" "rr_Dollars row = Some d"
    using sample_reconciled by blast
  then show ?thesis
    using residual_is_explained [OF sample_read sample_provider_real r(1) _ r(2) refl] by auto
qed

end
