(* ===== verification/ReconStore.thy ===== *)
theory ReconStore
  imports Reconcile
begin

text \<open>
  The file of reconciled rows (\<open>store.go\<close>): merging a day's rows into it again changes nothing.
\<close>

section \<open>Lines\<close>

lemma trim_prefix: "\<exists>pre post. s = pre @ trim_space s @ post"
proof -
  let ?a = "dropWhile is_space s"
  have "s = takeWhile is_space s @ ?a" by simp
  moreover have "?a = rev (dropWhile is_space (rev ?a)) @ rev (takeWhile is_space (rev ?a))"
    by (metis rev_append rev_rev_ident takeWhile_dropWhile_id)
  ultimately show ?thesis unfolding trim_space_def by metis
qed

lemma trim_idem: "trim_space (trim_space s) = trim_space s"
proof -
  let ?a = "dropWhile is_space s"
  let ?b = "dropWhile is_space (rev ?a)"
  have a: "?a = rev ?b @ rev (takeWhile is_space (rev ?a))"
    by (metis rev_append rev_rev_ident takeWhile_dropWhile_id)
  have "dropWhile is_space (rev ?b) = rev ?b"
  proof (cases "rev ?b")
    case (Cons c cs)
    with a have "hd ?a = c" "?a \<noteq> []" by (metis append_Cons list.sel(1), metis append_Cons list.distinct(1))
    then have "\<not> is_space c" using hd_dropWhile [of is_space s] by simp
    then show ?thesis using Cons by simp
  next
    case Nil
    show ?thesis unfolding Nil by simp
  qed
  then show ?thesis by (simp add: trim_space_def)
qed

lemma split_at_line: "sep \<notin> set l \<Longrightarrow> split_at (l @ sep # rest) sep = l # split_at rest sep"
  by (induction l) auto

lemma split_at_lines:
  "(\<forall>l\<in>set ls. sep \<notin> set l) \<Longrightarrow> split_at (concat (map (\<lambda>l. l @ [sep]) ls)) sep = ls @ [[]]"
  by (induction ls) (simp_all add: split_at_line)

text \<open>A line that the file can hold for its key.\<close>

definition keeps_line :: "(string \<Rightarrow> day_key option) \<Rightarrow> day_key \<times> string \<Rightarrow> bool" where
  "keeps_line key_read kl \<longleftrightarrow>
     key_read (snd kl) = Some (fst kl) \<and> CHR 0x0A \<notin> set (snd kl) \<and> trim_space (snd kl) = snd kl \<and>
     snd kl \<noteq> [] \<and> length (snd kl) < maxStoredRow"

definition put_all :: "(day_key \<times> string) list \<Rightarrow> (day_key \<times> string) list \<Rightarrow> (day_key \<times> string) list" where
  "put_all m kls = foldl (\<lambda>m kl. upsert (fst kl) [] (\<lambda>_. snd kl) m) m kls"

lemma put_all_simps [simp]:
  "put_all m [] = m" "put_all m (kl # kls) = put_all (upsert (fst kl) [] (\<lambda>_. snd kl) m) kls"
  by (simp_all add: put_all_def)

lemma put_all_map: "map_of (put_all m kls) = map_of m ++ map_of (rev kls)"
proof (induction kls arbitrary: m)
  case (Cons kl kls)
  have "map_of (upsert (fst kl) [] (\<lambda>_. snd kl) m) = (map_of m)(fst kl \<mapsto> snd kl)"
    by (auto simp: map_of_upsert fun_eq_iff split: option.split)
  then show ?case using Cons by (simp add: map_add_def fun_eq_iff split: option.split)
qed simp

lemma put_all_distinct: "distinct (map fst m) \<Longrightarrow> distinct (map fst (put_all m kls))"
  by (induction kls arbitrary: m) (simp_all add: distinct_upsert)

lemma put_all_keeps:
  "(\<forall>kl\<in>set m. P kl) \<Longrightarrow> (\<forall>kl\<in>set kls. P kl) \<Longrightarrow> (\<forall>kl\<in>set (put_all m kls). P kl)"
proof (induction kls arbitrary: m)
  case (Cons x kls)
  have "\<forall>kl\<in>set (upsert (fst x) [] (\<lambda>_. snd x) m). P kl"
    using Cons.prems by (auto dest!: upsert_values)
  then show ?case using Cons.IH [OF _ _] Cons.prems(2) by simp
qed simp

lemma put_all_append:
  "distinct (map fst (m @ kls)) \<Longrightarrow> put_all m kls = m @ kls"
proof (induction kls arbitrary: m)
  case (Cons x kls)
  have "fst x \<notin> fst ` set m" using Cons.prems by auto
  then have "upsert (fst x) [] (\<lambda>_. snd x) m = m @ [x]" by (induction m) auto
  then show ?case using Cons.IH [of "m @ [x]"] Cons.prems by simp
qed simp

lemma stored_lines_keep:
  "stored_lines key_read m ls = Inr t \<Longrightarrow> (\<forall>l\<in>set ls. CHR 0x0A \<notin> set l) \<Longrightarrow>
     (\<forall>kl\<in>set m. keeps_line key_read kl) \<Longrightarrow> distinct (map fst m) \<Longrightarrow>
     (\<forall>kl\<in>set t. keeps_line key_read kl) \<and> distinct (map fst t)"
proof (induction key_read m ls rule: stored_lines.induct)
  case (2 key_read m raw ls)
  define line where "line = trim_space raw"
  from "2.prems"(1) have short: "length raw < maxStoredRow" by (auto split: if_splits)
  show ?case
  proof (cases "line = []")
    case True
    then show ?thesis using 2(1) "2.prems" short by (simp add: line_def)
  next
    case False
    with "2.prems"(1) short obtain k where k: "key_read line = Some k"
      and r: "stored_lines key_read (upsert k [] (\<lambda>_. line) m) ls = Inr t"
      by (auto simp: line_def Let_def split: option.splits)
    obtain pre post where "raw = pre @ line @ post" using trim_prefix line_def by blast
    moreover have "trim_space line = line" by (simp add: line_def trim_idem)
    ultimately have "keeps_line key_read (k, line)"
      using k short False "2.prems"(2) by (auto simp: keeps_line_def)
    then have "\<forall>kl\<in>set (upsert k [] (\<lambda>_. line) m). keeps_line key_read kl"
      using "2.prems"(3) by (auto dest!: upsert_values)
    with 2(2) [OF _ line_def _ k r] short False "2.prems" show ?thesis by (simp add: distinct_upsert)
  qed
qed simp

lemma stored_lines_read:
  "(\<forall>kl\<in>set kls. keeps_line key_read kl) \<Longrightarrow> stored_lines key_read m (map snd kls) = Inr (put_all m kls)"
  by (induction kls arbitrary: m) (auto simp: keeps_line_def Let_def)

lemma write_read:
  assumes "\<forall>kl\<in>set m. keeps_line key_read kl" "distinct (map fst m)"
  shows "stored_lines key_read [] (raw_lines (write_lines m)) = Inr (sort_key fst m)"
proof -
  let ?s = "sort_key fst m"
  have "write_lines m = concat (map (\<lambda>l. l @ [CHR 0x0A]) (map snd ?s))"
    by (simp add: write_lines_def comp_def)
  then have "raw_lines (write_lines m) = map snd ?s"
    using assms(1) split_at_lines [of "map snd ?s" "CHR 0x0A"]
    by (simp add: raw_lines_def keeps_line_def)
  then show ?thesis using assms by (simp add: stored_lines_read put_all_append distinct_map)
qed

lemma same_table_same_lines:
  assumes "distinct (map fst m)" "distinct (map fst n)" "map_of m = map_of n"
  shows "sort_key fst m = sort_key fst n"
proof (rule map_sorted_distinct_set_unique [of fst])
  have "set m = set n"
    using assms by (metis (no_types, lifting) map_of_eq_Some_iff subrelI subset_antisym)
  then show "set (sort_key fst m) = set (sort_key fst n)" by simp
  show "inj_on fst (set (sort_key fst m) \<union> set (sort_key fst n))"
    using assms(1) \<open>set m = set n\<close> by (simp add: distinct_map)
qed (use assms in \<open>simp_all add: distinct_map\<close>)

lemma put_fresh_all:
  "rfold (put_fresh marshal) m fresh = Inr t \<longleftrightarrow>
     (\<forall>r\<in>set fresh. marshal r \<noteq> None) \<and> t = put_all m (map (\<lambda>r. (rr_Key r, the (marshal r))) fresh)"
proof (induction fresh arbitrary: m)
  case (Cons r fresh)
  show ?case by (cases "marshal r") (auto simp: put_fresh_def [of marshal m r] Cons)
qed auto

section \<open>Running a day again\<close>

text \<open>
  C36. The stored file is stable under a rerun. Merging rows into a file gives every fresh row's key its
  new line, leaves every other stored line as it was, and sorts the keys with none repeated; merging the
  same rows into the result writes the same bytes. It asks of the encoding that a row's line is one
  line under the scanner's limit with no space around it, whose key reads back.
\<close>

theorem merge_is_idempotent:
  assumes line: "\<And>row l. row \<in> set fresh \<Longrightarrow> marshal row = Some l \<Longrightarrow>
      key_read l = Some (rr_Key row) \<and> CHR 0x0A \<notin> set l \<and> trim_space l = l \<and> l \<noteq> [] \<and> length l < maxStoredRow"
    and merged: "Merge key_read marshal existing fresh = Inr out"
  shows "Merge key_read marshal out fresh = Inr out \<and>
    (\<exists>m t. stored_lines key_read [] (raw_lines existing) = Inr m \<and>
       stored_lines key_read [] (raw_lines out) = Inr t \<and>
       map_of t = map_of m ++ map_of (rev (map (\<lambda>r. (rr_Key r, the (marshal r))) fresh)) \<and>
       sorted (map fst t) \<and> distinct (map fst t))"
proof -
  let ?new = "map (\<lambda>r. (rr_Key r, the (marshal r))) fresh"
  obtain m where m: "stored_lines key_read [] (raw_lines existing) = Inr m"
    and all: "\<forall>r\<in>set fresh. marshal r \<noteq> None" and out: "out = write_lines (put_all m ?new)"
    using merged by (auto simp: Merge_def rbind_eq_Inr rmap_eq_Inr put_fresh_all)
  have "\<forall>l\<in>set (raw_lines existing). CHR 0x0A \<notin> set l"
    using split_at_pieces [of _ existing "CHR 0x0A"] by (auto simp: raw_lines_def Let_def dest: in_set_butlastD)
  from stored_lines_keep [OF m this] have g: "\<forall>kl\<in>set m. keeps_line key_read kl" "distinct (map fst m)" by simp_all
  have new: "\<forall>kl\<in>set ?new. keeps_line key_read kl" using all line by (auto simp: keeps_line_def)
  let ?t = "sort_key fst (put_all m ?new)"
  have k: "\<forall>kl\<in>set (put_all m ?new). keeps_line key_read kl" by (rule put_all_keeps [OF g(1) new])
  have d: "distinct (map fst (put_all m ?new))" by (rule put_all_distinct [OF g(2)])
  have read: "stored_lines key_read [] (raw_lines out) = Inr ?t" unfolding out by (rule write_read [OF k d])
  have dt: "distinct (map fst ?t)" using d by (simp add: distinct_map)
  have mt: "map_of ?t = map_of m ++ map_of (rev ?new)"
    using map_of_inject_set [OF dt d] by (simp add: put_all_map)
  have "write_lines (put_all ?t ?new) = write_lines (put_all m ?new)"
    unfolding write_lines_def
    by (subst same_table_same_lines [OF put_all_distinct [OF dt] d])
      (simp_all add: put_all_map mt map_add_def fun_eq_iff split: option.split)
  then have "Merge key_read marshal out fresh = Inr out"
    using read all by (simp add: Merge_def put_fresh_all [THEN iffD2] out)
  then show ?thesis using m read mt dt by auto
qed

definition sample_kept_row :: recon_row where
  "sample_kept_row =
     \<lparr>rr_Key = (''openai'', ''key'', ''2026-10-02''), rr_State = Pending, rr_Final = False,
      rr_DataRefreshedAt = None, rr_Tokens = [], rr_Dollars = None, rr_Notes = []\<rparr>"

definition sample_key_read :: "string \<Rightarrow> day_key option" where
  "sample_key_read l =
     (if l = ''{new}'' then Some (''openai'', ''key'', ''2026-10-02'')
      else if l = ''{old}'' then Some (''openai'', ''key'', ''2026-10-01'') else None)"

lemma merge_is_idempotent_witness:
  "\<exists>out. Merge sample_key_read (\<lambda>_. Some ''{new}'') (''{old}'' @ [CHR 0x0A]) [sample_kept_row] = Inr out \<and>
     Merge sample_key_read (\<lambda>_. Some ''{new}'') out [sample_kept_row] = Inr out"
proof -
  have t: "trim_space ''{new}'' = ''{new}''" "trim_space ''{old}'' = ''{old}''" by code_simp+
  have f: "raw_lines (''{old}'' @ [CHR 0x0A]) = [''{old}'']" by code_simp
  then have "\<exists>out. Merge sample_key_read (\<lambda>_. Some ''{new}'') (''{old}'' @ [CHR 0x0A]) [sample_kept_row] = Inr out"
    by (simp add: Merge_def t maxStoredRow_def sample_key_read_def put_fresh_def Let_def)
  then obtain out where o: "Merge sample_key_read (\<lambda>_. Some ''{new}'') (''{old}'' @ [CHR 0x0A]) [sample_kept_row] = Inr out"
    by blast
  have "Merge sample_key_read (\<lambda>_. Some ''{new}'') out [sample_kept_row] = Inr out"
    by (rule merge_is_idempotent [OF _ o, THEN conjunct1])
      (auto simp: sample_kept_row_def sample_key_read_def t maxStoredRow_def)
  with o show ?thesis by blast
qed

end
