(* ===== verification/ReconSaved.thy ===== *)
theory ReconSaved
  imports ReconReport
begin

text \<open>
  \<open>internal/reconcile/saved.go\<close>: a provider's response kept in a file, cut first to the records of the
  credentials the ledger names. A body is the document \<open>encoding/json\<close> makes of it, the parameter
  \<open>unmarshal\<close>; writing one back is the parameter \<open>marshal\<close>. A kept field keeps its own text, which the
  model has as the document it reads as. The file system is the parameter \<open>write\<close>.
\<close>

section \<open>Documents\<close>

text \<open>
  \<open>json.Unmarshal\<close> into a map: an object, the last of two members with one name kept and the names in
  order, as \<open>json.Marshal\<close> writes a map; null leaves the map nil.
\<close>

definition fields_of :: "json \<Rightarrow> (string \<times> json) list option" where
  "fields_of v =
     (case v of
        JObject kvs \<Rightarrow> Some (map (\<lambda>k. (k, the (map_of (rev kvs) k))) (sort (remdups (map fst kvs))))
      | JNull \<Rightarrow> Some []
      | _ \<Rightarrow> None)"

text \<open>\<open>json.Unmarshal\<close> into a slice; None is the error, null the nil slice.\<close>

definition elements_of :: "json \<Rightarrow> json list option option" where
  "elements_of v = (case v of JArray vs \<Rightarrow> Some (Some vs) | JNull \<Rightarrow> Some None | _ \<Rightarrow> None)"

text \<open>\<open>json.Unmarshal\<close> into a slice of maps: an element that is no object fails the whole slice.\<close>

definition records_of :: "json list \<Rightarrow> (string \<times> json) list list option" where
  "records_of vs = (if list_all (\<lambda>v. fields_of v \<noteq> None) vs then Some (map (\<lambda>v. the (fields_of v)) vs) else None)"

definition set_field :: "string \<Rightarrow> json \<Rightarrow> (string \<times> json) list \<Rightarrow> (string \<times> json) list" where
  "set_field k v kvs = sort_key fst (upsert k JNull (\<lambda>_. v) kvs)"

section \<open>Cutting a report\<close>

definition credentialFields :: "string list" where
  "credentialFields = [''api_key_id'', ''workspace_id'', ''project_id'']"

text \<open>Whether a record's credential fields name one of the credentials.\<close>

definition names_one :: "(string \<times> json) list \<Rightarrow> string list \<Rightarrow> bool" where
  "names_one kvs credentials =
     list_ex (\<lambda>field. case map_of kvs field of Some (JString s) \<Rightarrow> s \<in> set credentials | _ \<Rightarrow> False) credentialFields"

datatype cut_error =
    NotAnObject
  | NoDataList
  | BadResults
  | BadGroup
  | NeitherGroupNorResults

definition keepResults :: "(string \<times> json) list \<Rightarrow> json \<Rightarrow> string list \<Rightarrow> cut_error + (string \<times> json) list" where
  "keepResults bucket results credentials =
     (case elements_of results of
        None \<Rightarrow> Inl BadResults
      | Some vs \<Rightarrow>
          (case records_of (case vs of None \<Rightarrow> [] | Some vs \<Rightarrow> vs) of
             None \<Rightarrow> Inl BadResults
           | Some rs \<Rightarrow>
               Inr (set_field ''results'' (JArray (map JObject (filter (\<lambda>r. names_one r credentials) rs))) bucket)))"

definition keep_record :: "string list \<Rightarrow> (string \<times> json) list list \<Rightarrow> (string \<times> json) list \<Rightarrow>
    cut_error + (string \<times> json) list list" where
  "keep_record credentials kept record =
     (case map_of record ''results'' of
        Some results \<Rightarrow> rmap (\<lambda>bucket. kept @ [bucket]) (keepResults record results credentials)
      | None \<Rightarrow>
          (case map_of record ''group'' of
             Some g \<Rightarrow>
               (case fields_of g of
                  None \<Rightarrow> Inl BadGroup
                | Some group_fields \<Rightarrow>
                    Inr (if names_one group_fields credentials then kept @ [record] else kept))
           | None \<Rightarrow> Inl NeitherGroupNorResults))"

definition data_records :: "json \<Rightarrow> (string \<times> json) list list option" where
  "data_records data =
     (case elements_of data of Some (Some vs) \<Rightarrow> records_of vs | _ \<Rightarrow> None)"

definition keepOnly :: "json \<Rightarrow> string list \<Rightarrow> cut_error + json" where
  "keepOnly body credentials =
     (case fields_of body of
        None \<Rightarrow> Inl NotAnObject
      | Some envelope \<Rightarrow>
          (case Option.bind (map_of envelope ''data'') data_records of
             None \<Rightarrow> Inl NoDataList
           | Some records \<Rightarrow>
               rmap (\<lambda>kept. JObject (set_field ''data'' (JArray (map JObject kept)) envelope))
                 (rfold (keep_record credentials) [] records)))"

section \<open>The recorder\<close>

definition SavedReportFiles :: "string \<Rightarrow> string option" where
  "SavedReportFiles path =
     (if path = ''/v1/organizations/analytics/usage'' then Some ''anthropic-usage.json''
      else if path = ''/v1/organizations/analytics/cost'' then Some ''anthropic-cost.json''
      else if path = ''/v1/organization/usage/completions'' then Some ''openai-usage.json''
      else if path = ''/v1/organization/costs'' then Some ''openai-costs.json''
      else None)"

datatype record_error =
    NoSavedReport string
  | AnsweredTwice string
  | RequestFailed string
  | NotCut cut_error
  | NotKept string

text \<open>What the client answered: an error, or a status with its body.\<close>

record response =
  rs_StatusCode :: int
  rs_Body :: json

record recorder =
  rd_Credentials :: "string list option"
  rd_kept :: "string list"
  rd_files :: "(string \<times> json) list"

definition record_do :: "(string \<Rightarrow> json \<Rightarrow> bool) \<Rightarrow> recorder \<Rightarrow> string \<Rightarrow> string + response \<Rightarrow>
    recorder \<times> (record_error + response)" where
  "record_do write r path answer =
     (case SavedReportFiles path of
        None \<Rightarrow> (r, Inl (NoSavedReport path))
      | Some name \<Rightarrow>
          if name \<in> set (rd_kept r) then (r, Inl (AnsweredTwice name))
          else
            (case answer of
               Inl e \<Rightarrow> (r, Inl (RequestFailed e))
             | Inr response \<Rightarrow>
                 if rs_StatusCode response \<noteq> 200 then (r, Inr response)
                 else
                   (case (case rd_Credentials r of
                            None \<Rightarrow> Inr (rs_Body response)
                          | Some credentials \<Rightarrow> keepOnly (rs_Body response) credentials) of
                      Inl e \<Rightarrow> (r, Inl (NotCut e))
                    | Inr body \<Rightarrow>
                        if \<not> write name body then (r, Inl (NotKept name))
                        else (r\<lparr>rd_kept := rd_kept r @ [name], rd_files := rd_files r @ [(name, body)]\<rparr>,
                              Inr (response\<lparr>rs_Body := body\<rparr>)))))"

section \<open>Lemmas\<close>

lemma set_field_map: "distinct (map fst kvs) \<Longrightarrow> map_of (set_field k v kvs) = (map_of kvs)(k \<mapsto> v)"
proof -
  assume d: "distinct (map fst kvs)"
  have u: "distinct (map fst (upsert k JNull (\<lambda>_. v) kvs))" by (rule distinct_upsert [OF d])
  have "map_of (set_field k v kvs) = map_of (upsert k JNull (\<lambda>_. v) kvs)"
    unfolding set_field_def by (rule map_of_inject_set [THEN iffD2]) (use u in \<open>simp_all add: distinct_map\<close>)
  also have "\<dots> = (map_of kvs)(k \<mapsto> v)" by (auto simp: map_of_upsert fun_eq_iff split: option.split)
  finally show ?thesis .
qed

lemma fields_of_distinct: "fields_of v = Some kvs \<Longrightarrow> distinct (map fst kvs)"
  by (auto simp: fields_of_def comp_def split: json.splits)

text \<open>The credentials a record names, in its group or in any of its results.\<close>

definition record_names :: "(string \<times> json) list \<Rightarrow> string list" where
  "record_names kvs =
     concat (map (\<lambda>field. case map_of kvs field of Some (JString s) \<Rightarrow> [s] | _ \<Rightarrow> []) credentialFields)"

lemma named_text:
  "(case x of Some (JString s) \<Rightarrow> P s | _ \<Rightarrow> False) \<longleftrightarrow> (\<exists>s. x = Some (JString s) \<and> P s)"
  "set (case x of Some (JString s) \<Rightarrow> [s] | _ \<Rightarrow> []) = {s. x = Some (JString s)}"
  by (auto split: option.splits json.splits)

lemma names_one_iff: "names_one kvs credentials \<longleftrightarrow> set (record_names kvs) \<inter> set credentials \<noteq> {}"
  by (auto simp: names_one_def record_names_def list_ex_iff named_text)

text \<open>What a kept record is: a bucket with the results that name a credential, or a record whose group does.\<close>

definition cut_of :: "string list \<Rightarrow> (string \<times> json) list \<Rightarrow> (string \<times> json) list option" where
  "cut_of credentials record =
     (case map_of record ''results'' of
        Some results \<Rightarrow>
          Some (set_field ''results''
            (JArray (map JObject (filter (\<lambda>r. set (record_names r) \<inter> set credentials \<noteq> {})
               (case results of JArray vs \<Rightarrow> map (\<lambda>v. the (fields_of v)) vs | _ \<Rightarrow> [])))) record)
      | None \<Rightarrow>
          if set (record_names (the (fields_of (the (map_of record ''group''))))) \<inter> set credentials \<noteq> {}
          then Some record else None)"

lemma keep_record_ok:
  assumes "keep_record credentials kept record = Inr kept'"
  shows "kept' = kept @ (case cut_of credentials record of None \<Rightarrow> [] | Some r \<Rightarrow> [r])"
proof (cases "map_of record ''results''")
  case (Some results)
  then show ?thesis
    using assms
    by (auto simp: keep_record_def cut_of_def keepResults_def elements_of_def records_of_def names_one_iff
        rmap_eq_Inr split: option.splits json.splits if_splits)
next
  case None
  then show ?thesis
    using assms by (auto simp: keep_record_def cut_of_def names_one_iff split: option.splits if_splits)
qed

lemma keep_records_ok:
  "rfold (keep_record credentials) kept records = Inr kept' \<Longrightarrow>
     kept' = kept @ List.map_filter (cut_of credentials) records"
proof (induction records arbitrary: kept)
  case Nil
  then show ?case by (simp add: List.map_filter_def)
next
  case (Cons r records)
  from Cons.prems obtain k where k: "keep_record credentials kept r = Inr k"
    and "rfold (keep_record credentials) k records = Inr kept'" by (auto simp: rbind_eq_Inr)
  with Cons.IH have "kept' = k @ List.map_filter (cut_of credentials) records" by blast
  then show ?case using keep_record_ok [OF k] by (auto simp: List.map_filter_def split: option.splits)
qed

lemma keepOnly_ok:
  assumes "keepOnly body credentials = Inr doc"
  shows "\<exists>envelope vs. fields_of body = Some envelope \<and> map_of envelope ''data'' = Some (JArray vs) \<and>
    doc = JObject (set_field ''data''
      (JArray (map JObject (List.map_filter (cut_of credentials) (map (\<lambda>v. the (fields_of v)) vs)))) envelope)"
proof -
  obtain envelope where e: "fields_of body = Some envelope"
    using assms by (auto simp: keepOnly_def split: option.splits)
  then obtain records where r: "Option.bind (map_of envelope ''data'') data_records = Some records"
    using assms by (auto simp: keepOnly_def split: option.splits)
  then obtain vs where vs: "map_of envelope ''data'' = Some (JArray vs)" "records = map (\<lambda>v. the (fields_of v)) vs"
    by (auto simp: bind_eq_Some_conv data_records_def elements_of_def records_of_def split: option.splits json.splits if_splits)
  obtain kept where "rfold (keep_record credentials) [] records = Inr kept"
    and c: "doc = JObject (set_field ''data'' (JArray (map JObject kept)) envelope)"
    using assms e r by (auto simp: keepOnly_def rmap_eq_Inr)
  with keep_records_ok have "kept = List.map_filter (cut_of credentials) records" by fastforce
  with e vs c show ?thesis by blast
qed

section \<open>No other key's usage is written\<close>

text \<open>
  A recorder that has credentials never keeps or hands on another key's usage. Whatever it answers a
  request with, the body it kept and the body it returns are one document, cut to the credentials: every
  record it holds is a record of the provider's whose group names one of them, unchanged, or a bucket
  whose results are exactly the provider's results that name one, in order and unchanged; every other
  field of the envelope stays. A file is written at most once, and a refused request writes none.
\<close>

theorem recorder_keeps_own_credentials:
  assumes "record_do write r path answer = (r', res)" and "rd_Credentials r = Some credentials"
    and "map fst (rd_files r) = rd_kept r" "distinct (rd_kept r)"
  shows "map fst (rd_files r') = rd_kept r' \<and> distinct (rd_kept r') \<and>
    (rd_files r' \<noteq> rd_files r \<longrightarrow> (\<exists>name response envelope vs doc.
       SavedReportFiles path = Some name \<and> answer = Inr response \<and> rs_StatusCode response = 200 \<and>
       res = Inr (response\<lparr>rs_Body := doc\<rparr>) \<and> rd_files r' = rd_files r @ [(name, doc)] \<and>
       fields_of (rs_Body response) = Some envelope \<and> map_of envelope ''data'' = Some (JArray vs) \<and>
       (\<exists>kvs. doc = JObject kvs \<and> map_of kvs = (map_of envelope)
          (''data'' \<mapsto> JArray (map JObject (List.map_filter (cut_of credentials) (map (\<lambda>v. the (fields_of v)) vs)))))))"
proof (cases "rd_files r' = rd_files r")
  case True
  then have "r' = r"
    using assms(1) by (auto simp: record_do_def split: option.splits sum.splits if_splits)
  then show ?thesis using assms(3,4) True by simp
next
  case False
  from False assms(1) obtain name where n: "SavedReportFiles path = Some name" "name \<notin> set (rd_kept r)"
    by (cases "SavedReportFiles path") (auto simp: record_do_def split: if_splits)
  from False assms(1) n obtain response where a: "answer = Inr response" "rs_StatusCode response = 200"
    by (cases answer) (auto simp: record_do_def split: if_splits)
  from False assms(1,2) n a obtain doc where k: "keepOnly (rs_Body response) credentials = Inr doc"
    by (cases "keepOnly (rs_Body response) credentials") (auto simp: record_do_def)
  from False assms(1,2) n a k have r': "r' = r\<lparr>rd_kept := rd_kept r @ [name], rd_files := rd_files r @ [(name, doc)]\<rparr>"
      "res = Inr (response\<lparr>rs_Body := doc\<rparr>)"
    by (auto simp: record_do_def split: if_splits)
  obtain envelope vs where e: "fields_of (rs_Body response) = Some envelope" "map_of envelope ''data'' = Some (JArray vs)"
    and c: "doc = JObject (set_field ''data''
      (JArray (map JObject (List.map_filter (cut_of credentials) (map (\<lambda>v. the (fields_of v)) vs)))) envelope)"
    using keepOnly_ok [OF k] by blast
  note m = set_field_map [OF fields_of_distinct [OF e(1)], of "''data''"]
  show ?thesis using n a r' e c m assms(3,4) by auto
qed

definition sample_saved :: json where
  "sample_saved =
     JObject [(''data'', JArray
       [JObject [(''group'', JObject [(''api_key_id'', JString ''mine'')])],
        JObject [(''group'', JObject [(''api_key_id'', JString ''other'')])]])]"

lemma recorder_keeps_own_credentials_witness:
  "\<exists>r' doc. record_do (\<lambda>_ _. True) \<lparr>rd_Credentials = Some [''mine''], rd_kept = [], rd_files = []\<rparr>
      ''/v1/organizations/analytics/usage'' (Inr \<lparr>rs_StatusCode = 200, rs_Body = sample_saved\<rparr>) =
        (r', Inr \<lparr>rs_StatusCode = 200, rs_Body = doc\<rparr>) \<and> map fst (rd_files r') = rd_kept r' \<and> distinct (rd_kept r') \<and>
     doc = JObject [(''data'', JArray [JObject [(''group'', JObject [(''api_key_id'', JString ''mine'')])]])]"
proof -
  have "keepOnly sample_saved [''mine''] =
      Inr (JObject [(''data'', JArray [JObject [(''group'', JObject [(''api_key_id'', JString ''mine'')])]])])"
    by (simp add: keepOnly_def sample_saved_def fields_of_def data_records_def elements_of_def records_of_def
        keep_record_def names_one_def credentialFields_def set_field_def)
  moreover have "SavedReportFiles ''/v1/organizations/analytics/usage'' = Some ''anthropic-usage.json''"
    by (simp add: SavedReportFiles_def)
  ultimately have r: "record_do (\<lambda>_ _. True) \<lparr>rd_Credentials = Some [''mine''], rd_kept = [], rd_files = []\<rparr>
      ''/v1/organizations/analytics/usage'' (Inr \<lparr>rs_StatusCode = 200, rs_Body = sample_saved\<rparr>) =
        (\<lparr>rd_Credentials = Some [''mine''], rd_kept = [''anthropic-usage.json''], rd_files = [(''anthropic-usage.json'',
            JObject [(''data'', JArray [JObject [(''group'', JObject [(''api_key_id'', JString ''mine'')])]])])]\<rparr>,
         Inr \<lparr>rs_StatusCode = 200, rs_Body =
          JObject [(''data'', JArray [JObject [(''group'', JObject [(''api_key_id'', JString ''mine'')])]])]\<rparr>)"
    unfolding record_do_def by simp
  show ?thesis using recorder_keeps_own_credentials [OF r, of "[''mine'']"] r by auto
qed

end
