(* ===== verification/ReconTable.thy ===== *)
theory ReconTable
  imports Reconcile
begin

text \<open>
  The words of the two tables and the footer (\<open>table.go\<close>), as the tab-separated lines handed to
  \<open>text/tabwriter\<close>, which aligns them. No verdict reads them back.
\<close>

abbreviation tab :: string where "tab \<equiv> [CHR 0x09]"

abbreviation notApplicable :: string where "notApplicable \<equiv> ''n/a''"

definition cells :: "string list \<Rightarrow> string" where
  "cells cs = join cs tab"

text \<open>\<open>big.Rat.FloatString(2)\<close>: two digits, halves away from zero, the sign kept.\<close>

definition float_string2 :: "rat \<Rightarrow> string" where
  "float_string2 q =
     (let n = \<lfloor>\<bar>q\<bar> * 100 + 1 / 2\<rfloor>
      in (if q < 0 then ''-'' else []) @ int_string (n div 100) @ ''.'' @ pad 2 (n mod 100))"

definition percentOf :: "decimal \<Rightarrow> decimal \<Rightarrow> string" where
  "percentOf delta provider =
     (if dval provider = 0 then notApplicable
      else float_string2 (dval (absolute delta) / dval provider * 100) @ ''%'')"

definition state_row :: "recon_row \<Rightarrow> string list" where
  "state_row row = (let (source, credential, day) = rr_Key row in [source, credential, day])"

definition token_line :: "recon_row \<Rightarrow> token_check \<Rightarrow> string" where
  "token_line row t =
     cells (state_row row @ [tc_Class t, String (tc_Ledger t), String (tc_Provider t), String (tc_Delta t),
       percentOf (tc_Delta t) (tc_Provider t), if tc_Within t then ''within 1%'' else ''MISS''])"

definition renderTokens :: "recon_row \<Rightarrow> string list" where
  "renderTokens row =
     (if rr_State row = Pending then [cells (state_row row @ [[], [], [], [], [], ''pending''])]
      else map (token_line row) (rr_Tokens row))"

definition cause_text :: "cause_name \<Rightarrow> string" where
  "cause_text c =
     (case c of CauseSharedKey \<Rightarrow> ''shared_key'' | CauseTier \<Rightarrow> ''tier'' | CauseResidency \<Rightarrow> ''residency''
      | CauseContractRate \<Rightarrow> ''contract_rate'')"

definition rounding_verdict :: "rounding_check option \<Rightarrow> string" where
  "rounding_verdict r =
     (case r of
        None \<Rightarrow> notApplicable
      | Some c \<Rightarrow> (if rc_Within c then ''within'' else ''outside'') @ '', '' @ int_string (rc_RoundedRows c) @ '' rows'')"

definition attribution :: "dollar_check \<Rightarrow> string" where
  "attribution c =
     (if Sign (dc_Residual c) = 0 then ''none needed''
      else join (map (\<lambda>x. cause_text (ca_Name x) @ '' '' @ String (ca_Amount x)) (dc_Causes c) @
             (if Sign (dc_Unattributed c) \<noteq> 0 then [''unattributed '' @ String (dc_Unattributed c)] else [])) '', '')"

definition renderDollars :: "recon_row \<Rightarrow> string list" where
  "renderDollars row =
     (case rr_Dollars row of
        None \<Rightarrow> []
      | Some c \<Rightarrow>
          if dc_Verdict c = NoBill
          then [cells (state_row row @ [String (dc_Ledger c), String (dc_Provider c), [], [], ''no API bill'', [], []])]
          else [cells (state_row row @ [String (dc_Ledger c), String (dc_Provider c), String (dc_Residual c),
                  percentOf (dc_Residual c) (dc_Provider c),
                  if dc_Verdict c = Outside then ''outside 10%'' else ''within 10%'',
                  rounding_verdict (dc_Rounding c), attribution c])])"

text \<open>One line per month that can still move; a day that is not one panics.\<close>

fun openMonths_from :: "string list \<Rightarrow> recon_row list \<Rightarrow> string list option" where
  "openMonths_from lines [] = Some lines"
| "openMonths_from lines (row # rs) =
     (if rr_Final row then openMonths_from lines rs
      else (case endOfRerun (snd (snd (rr_Key row))) of
              None \<Rightarrow> None
            | Some t \<Rightarrow>
                (let line = take 7 (snd (snd (rr_Key row))) @ '' can be restated: rerun through '' @
                       format_day (add_days t (- 1)) @ ''.''
                 in openMonths_from (if line \<in> set lines then lines else lines @ [line]) rs)))"

definition openMonths :: "recon_row list \<Rightarrow> string list option" where
  "openMonths rs = openMonths_from [] rs"

definition note_lines :: "recon_row list \<Rightarrow> string list" where
  "note_lines rs = concat (map (\<lambda>row. map (\<lambda>n. join (state_row row) '' '' @ '': '' @ n) (rr_Notes row)) rs)"

definition renderFooter :: "recon_result \<Rightarrow> string list option" where
  "renderFooter result =
     map_option (\<lambda>months.
         months @ note_lines (rl_Rows result) @
         map (\<lambda>(source, credential). source @ '' '' @ credential @
           '': the provider reports this credential and the ledger never names it'') (rl_Unmatched result) @
         (if 0 < Misses result
          then [''Credential days with a token miss: '' @ nat_string (Misses result) @ ''. Each is a defect.''] else []))
       (openMonths (rl_Rows result))"

definition tokensHeader :: string where
  "tokensHeader =
     cells [''TOKENS'', ''credential'', ''day'', ''class'', ''ledger'', ''provider'', ''delta'', ''diff'', ''verdict'']"

definition dollarsHeader :: string where
  "dollarsHeader =
     cells [''DOLLARS'', ''credential'', ''day'', ''ledger USD'', ''provider USD'', ''residual'', ''diff'', ''verdict'',
       ''rounding'', ''attribution'']"

text \<open>The tokens table, the dollars table and the footer.\<close>

definition Render :: "recon_result \<Rightarrow> (string list \<times> string list \<times> string list) option" where
  "Render result =
     map_option (\<lambda>footer.
         (tokensHeader # concat (map renderTokens (rl_Rows result)),
          dollarsHeader # concat (map renderDollars (rl_Rows result)), footer))
       (renderFooter result)"

end
