(* ===== verification/CommentRows.thy ===== *)
theory CommentRows
  imports Focus "HOL-Library.Product_Lexorder"
begin

text \<open>
  \<open>internal/comment\<close>, part one: what a rows file says, reduced to the figures, names and traces the
  comment shows (\<open>data.go\<close>, \<open>rows.go\<close>). \<open>decode\<close> is \<open>encoding/json\<close>'s reading of one row. Go's maps are
  association lists and its sets lists without repeats, in the order the keys were first set; the code
  sorts both before it shows them.
\<close>

section \<open>Strings from the pull request\<close>

definition maxDataLength :: nat where
  "maxDataLength = 128"

definition notShown :: string where
  "notShown = ''not-shown''"

definition data_char :: "char \<Rightarrow> bool" where
  "data_char c \<longleftrightarrow> is_alnum c \<or> c \<in> {CHR ''.'', CHR ''_'', CHR '':'', CHR ''/'', CHR ''+'', CHR ''-''}"

text \<open>\<open>^[A-Za-z0-9][A-Za-z0-9._:/+_-]*$\<close>.\<close>

definition dataPattern :: "string \<Rightarrow> bool" where
  "dataPattern s = (case s of [] \<Rightarrow> False | c # cs \<Rightarrow> is_alnum c \<and> list_all data_char cs)"

definition Clean :: "string \<Rightarrow> string" where
  "Clean t = (if maxDataLength < length t \<or> \<not> dataPattern t then notShown else t)"

definition Code :: "string \<Rightarrow> string" where
  "Code d = ''`'' @ d @ ''`''"

section \<open>Rows\<close>

definition maxRowLine :: nat where
  "maxRowLine = 1048576"

definition maxFigureText :: nat where
  "maxFigureText = 64"

definition maxFigures :: nat where
  "maxFigures = 20"

definition maxNames :: nat where
  "maxNames = 10"

definition maxTraceLines :: nat where
  "maxTraceLines = 8"

definition maxTraceTotal :: nat where
  "maxTraceTotal = 40"

definition maxRequests :: nat where
  "maxRequests = 100000"

abbreviation informationalUnit :: string where "informationalUnit \<equiv> ''Informational Tokens''"

definition currency_code :: "string \<Rightarrow> bool" where
  "currency_code s \<longleftrightarrow> length s = 3 \<and> list_all is_upper s"

text \<open>\<open>^([1-9][0-9]{0,11}) Tokens$\<close>: the count it captures.\<close>

definition pricing_unit :: "string \<Rightarrow> string option" where
  "pricing_unit s =
     (let (n, found) = cut_suffix s '' Tokens''
      in if found \<and> n \<noteq> [] \<and> length n \<le> 12 \<and> list_all is_digit n \<and> hd n \<noteq> CHR ''0'' then Some n else None)"

definition costBases :: "string list" where
  "costBases = [Measured, ListEquivalent, ''estimate'', ''billed'', ''derived'']"

definition attribution_grades :: "string list" where
  "attribution_grades = [''exact'', ''windowed'', ''unattributed'']"

definition tokenClasses :: "token_class list" where
  "tokenClasses =
     [InputUncached, CacheRead, CacheWrite5m, CacheWrite30m, CacheWrite1h, CacheWrite12h, Output, ReasoningOutput,
      CachedInputReported]"

text \<open>From the weakest grade up.\<close>

definition enforcementOrder :: "string list" where
  "enforcementOrder = [''none'', ''provider'', ''agent-flag'', ''wrapper-watchdog'', ''gateway-precheck'']"

text \<open>\<open>slices.Index\<close> of a member.\<close>

definition index_of :: "'a list \<Rightarrow> 'a \<Rightarrow> nat" where
  "index_of xs x = length (takeWhile (\<lambda>y. y \<noteq> x) xs)"

abbreviation artifactAttribution :: string where "artifactAttribution \<equiv> ''unattributed''"

record comment_row =
  cr_BillingCurrency :: string
  cr_ChargePeriodStart :: string
  cr_ChargePeriodEnd :: string
  cr_ListCost :: string
  cr_ListUnitPrice :: string
  cr_PricingQuantity :: string
  cr_PricingUnit :: string
  cr_ConsumedQuantity :: string
  cr_SkuMeter :: string
  cr_SkuPriceID :: string
  cr_ChargeDescription :: string
  cr_Tags :: "string \<rightharpoonup> json"
  cr_CatalogVersion :: "string option"

text \<open>\<open>json.Unmarshal\<close> of a tag into a string: null leaves it empty, an absent tag is an error.\<close>

definition tag_text :: "comment_row \<Rightarrow> string \<Rightarrow> string option" where
  "tag_text r key = (case cr_Tags r key of Some (JString s) \<Rightarrow> Some s | Some JNull \<Rightarrow> Some [] | _ \<Rightarrow> None)"

definition tag_or_empty :: "comment_row \<Rightarrow> string \<Rightarrow> string" where
  "tag_or_empty r key = (case tag_text r key of None \<Rightarrow> [] | Some s \<Rightarrow> s)"

definition is_fallback :: "comment_row \<Rightarrow> bool" where
  "is_fallback r = contains_str (cr_ChargeDescription r) NoteFallback"

definition row_catalog :: "comment_row \<Rightarrow> string" where
  "row_catalog r = (case cr_CatalogVersion r of None \<Rightarrow> [] | Some v \<Rightarrow> Clean v)"

datatype row_fault =
    NotARow
  | NotACurrency string
  | FigureTooLong string
  | FigureUnread string decimal_error
  | FigureTooFine string
  | NotAClass string
  | NotAUnit string
  | QuantityMismatch
  | CostMismatch
  | InformationalCost
  | TagUnread string
  | TagOutside string string

datatype rows_fault = RowFault nat row_fault | LineTooLong nat

record trace_line =
  tr_Catalog :: string
  tr_Class :: token_class
  tr_PriceID :: string
  tr_UnitPrice :: decimal
  tr_Unit :: string
  tr_Tokens :: decimal
  tr_Cost :: decimal

definition unitSize :: "token_class \<Rightarrow> string \<Rightarrow> row_fault + decimal" where
  "unitSize class unit_text =
     (if Informational class then (if unit_text \<noteq> informationalUnit then Inl (NotAUnit unit_text) else Inr (FromInt 1))
      else (case pricing_unit unit_text of
              None \<Rightarrow> Inl (NotAUnit unit_text)
            | Some n \<Rightarrow> (case Parse n of Inl _ \<Rightarrow> Inl (NotAUnit unit_text) | Inr d \<Rightarrow> Inr d)))"

definition parse_figure :: "string \<Rightarrow> string \<Rightarrow> row_fault + decimal" where
  "parse_figure column t =
     (if maxFigureText < length t then Inl (FigureTooLong column)
      else (case Parse t of
              Inl e \<Rightarrow> Inl (FigureUnread column e)
            | Inr amount \<Rightarrow> if MaxScale < Scale amount then Inl (FigureTooFine column) else Inr amount))"

definition arithmetic :: "comment_row \<Rightarrow> row_fault + trace_line" where
  "arithmetic r =
     rbind (parse_figure ''ListCost'' (cr_ListCost r)) (\<lambda>cost.
     rbind (parse_figure ''ListUnitPrice'' (cr_ListUnitPrice r)) (\<lambda>price.
     rbind (parse_figure ''PricingQuantity'' (cr_PricingQuantity r)) (\<lambda>quantity.
     rbind (parse_figure ''ConsumedQuantity'' (cr_ConsumedQuantity r)) (\<lambda>tokens.
       if cr_SkuMeter r \<notin> set tokenClasses then Inl (NotAClass (Clean (cr_SkuMeter r)))
       else rbind (unitSize (cr_SkuMeter r) (cr_PricingUnit r)) (\<lambda>size.
         if Cmp tokens (Mul quantity size) \<noteq> 0 then Inl QuantityMismatch
         else if Cmp cost (Mul price quantity) \<noteq> 0 then Inl CostMismatch
         else if Informational (cr_SkuMeter r) \<and> Sign cost \<noteq> 0 then Inl InformationalCost
         else Inr \<lparr>tr_Catalog = row_catalog r, tr_Class = cr_SkuMeter r, tr_PriceID = Clean (cr_SkuPriceID r),
                    tr_UnitPrice = price, tr_Unit = cr_PricingUnit r, tr_Tokens = tokens, tr_Cost = cost\<rparr>)))))"

definition closedTag :: "comment_row \<Rightarrow> string \<Rightarrow> string list \<Rightarrow> row_fault + string" where
  "closedTag r key vocabulary =
     (case tag_text r key of
        None \<Rightarrow> Inl (TagUnread key)
      | Some v \<Rightarrow> if v \<notin> set vocabulary then Inl (TagOutside key (Clean v)) else Inr v)"

text \<open>Currency, basis, attribution and enforcement.\<close>

type_synonym figure_key = "string \<times> string \<times> string \<times> string"

definition figure_key_of :: "comment_row \<Rightarrow> row_fault + figure_key" where
  "figure_key_of r =
     rbind (closedTag r ''costroid/cost_basis'' costBases) (\<lambda>basis.
     rbind (closedTag r ''costroid/attribution_grade'' attribution_grades) (\<lambda>_.
     rmap (\<lambda>enforcement. (cr_BillingCurrency r, basis, artifactAttribution, enforcement))
       (closedTag r ''costroid/enforcement_grade'' enforcementOrder)))"

section \<open>The tally\<close>

type_synonym trace_key = "string \<times> string \<times> string \<times> string \<times> string"

record figure_tally =
  ft_Cost :: decimal
  ft_Rows :: nat
  ft_FallbackRows :: nat
  ft_Tokens :: "(token_class \<times> decimal) list"
  ft_traces :: "(trace_key \<times> trace_line) list"
  ft_catalogs :: "string list"

definition no_figure :: figure_tally where
  "no_figure =
     \<lparr>ft_Cost = zero_decimal, ft_Rows = 0, ft_FallbackRows = 0, ft_Tokens = [], ft_traces = [], ft_catalogs = []\<rparr>"

record request_spend =
  rq_end :: string
  rq_cost :: decimal
  rq_tokens :: decimal

type_synonym spendKey = "string \<times> string"

type_synonym request_key = "string \<times> string \<times> string \<times> string"

record request_log =
  rg_requests :: "request_spend list"
  rg_current :: request_key
  rg_classes :: "token_class list"
  rg_overflow :: bool

definition no_log :: request_log where
  "no_log = \<lparr>rg_requests = [], rg_current = ([], [], [], []), rg_classes = [], rg_overflow = False\<rparr>"

record comment_tally =
  ta_rows :: nat
  ta_figures :: "(figure_key \<times> figure_tally) list"
  ta_requests :: "(spendKey \<times> request_log) list"
  ta_agents :: "string list"
  ta_models :: "string list"
  ta_catalogs :: "string list"
  ta_fallbackModels :: "string list"
  ta_fallbackPrices :: "string list"
  ta_fallbackCatalogs :: "string list"

definition no_tally :: comment_tally where
  "no_tally =
     \<lparr>ta_rows = 0, ta_figures = [], ta_requests = [], ta_agents = [], ta_models = [], ta_catalogs = [],
      ta_fallbackModels = [], ta_fallbackPrices = [], ta_fallbackCatalogs = []\<rparr>"

text \<open>\<open>set[name] = struct{}{}\<close>.\<close>

definition put_name :: "string \<Rightarrow> string list \<Rightarrow> string list" where
  "put_name n ns = (if n \<in> set ns then ns else ns @ [n])"

definition trace_key_of :: "trace_line \<Rightarrow> trace_key" where
  "trace_key_of t = (tr_Catalog t, tr_PriceID t, tr_Class t, String (tr_UnitPrice t), tr_Unit t)"

definition add_priced :: "trace_line \<Rightarrow> figure_tally \<Rightarrow> figure_tally" where
  "add_priced p f =
     f\<lparr>ft_traces := upsert (trace_key_of p) (p\<lparr>tr_Tokens := zero_decimal, tr_Cost := zero_decimal\<rparr>)
         (\<lambda>l. l\<lparr>tr_Tokens := Add (tr_Tokens l) (tr_Tokens p), tr_Cost := Add (tr_Cost l) (tr_Cost p)\<rparr>) (ft_traces f),
       ft_Tokens := upsert (tr_Class p) zero_decimal (\<lambda>d. Add d (tr_Tokens p)) (ft_Tokens f),
       ft_catalogs := (if tr_Catalog p \<noteq> [] then put_name (tr_Catalog p) (ft_catalogs f) else ft_catalogs f)\<rparr>"

definition add_figure :: "comment_row \<Rightarrow> trace_line \<Rightarrow> figure_tally \<Rightarrow> figure_tally" where
  "add_figure r p f =
     (let f = add_priced p (f\<lparr>ft_Cost := Add (ft_Cost f) (tr_Cost p), ft_Rows := ft_Rows f + 1\<rparr>)
      in if is_fallback r then f\<lparr>ft_FallbackRows := ft_FallbackRows f + 1\<rparr> else f)"

definition request_of :: "comment_row \<Rightarrow> request_key" where
  "request_of r =
     (cr_ChargePeriodStart r, cr_ChargePeriodEnd r, tag_or_empty r ''costroid/session_id'',
      tag_or_empty r ''costroid/model'')"

definition spend_more :: "trace_line \<Rightarrow> request_spend \<Rightarrow> request_spend" where
  "spend_more p q =
     q\<lparr>rq_cost := Add (rq_cost q) (tr_Cost p),
       rq_tokens := (if Informational (tr_Class p) then rq_tokens q else Add (rq_tokens q) (tr_Tokens p))\<rparr>"

definition log_request :: "comment_row \<Rightarrow> trace_line \<Rightarrow> request_log \<Rightarrow> request_log" where
  "log_request r p l =
     (if rg_overflow l then l
      else
        (let opens = (rg_requests l = [] \<or> request_of r \<noteq> rg_current l \<or> tr_Class p \<in> set (rg_classes l))
         in if opens \<and> length (rg_requests l) = maxRequests then l\<lparr>rg_requests := [], rg_overflow := True\<rparr>
            else
              (let l = (if opens
                  then l\<lparr>rg_requests := rg_requests l @ [\<lparr>rq_end = cr_ChargePeriodEnd r, rq_cost = zero_decimal,
                           rq_tokens = zero_decimal\<rparr>],
                         rg_current := request_of r, rg_classes := []\<rparr>
                  else l)
               in l\<lparr>rg_classes := put_name (tr_Class p) (rg_classes l),
                    rg_requests := butlast (rg_requests l) @ [spend_more p (last (rg_requests l))]\<rparr>)))"

definition note_row :: "comment_row \<Rightarrow> comment_tally \<Rightarrow> comment_tally" where
  "note_row r t =
     (let t = (case tag_text r ''costroid/agent'' of None \<Rightarrow> t | Some a \<Rightarrow> t\<lparr>ta_agents := put_name (Clean a) (ta_agents t)\<rparr>);
          t = (case tag_text r ''costroid/model'' of None \<Rightarrow> t | Some m \<Rightarrow> t\<lparr>ta_models := put_name (Clean m) (ta_models t)\<rparr>)
      in case cr_CatalogVersion r of None \<Rightarrow> t | Some v \<Rightarrow> t\<lparr>ta_catalogs := put_name (Clean v) (ta_catalogs t)\<rparr>)"

definition note_fallback :: "comment_row \<Rightarrow> comment_tally \<Rightarrow> comment_tally" where
  "note_fallback r t =
     (let model = (case tag_text r ''costroid/model'' of None \<Rightarrow> notShown | Some m \<Rightarrow> m);
          t = t\<lparr>ta_fallbackModels := put_name (Clean model) (ta_fallbackModels t),
                ta_fallbackPrices := put_name (Clean (cr_SkuPriceID r)) (ta_fallbackPrices t)\<rparr>
      in if row_catalog r \<noteq> [] then t\<lparr>ta_fallbackCatalogs := put_name (row_catalog r) (ta_fallbackCatalogs t)\<rparr> else t)"

definition tally_row :: "comment_tally \<Rightarrow> comment_row \<Rightarrow> figure_key \<Rightarrow> trace_line \<Rightarrow> comment_tally" where
  "tally_row t r key p =
     (let (currency, basis, _, _) = key;
          t = t\<lparr>ta_figures := upsert key no_figure (add_figure r p) (ta_figures t),
                ta_requests := upsert (currency, basis) no_log (log_request r p) (ta_requests t)\<rparr>;
          t = (if is_fallback r then note_fallback r t else t)
      in note_row r (t\<lparr>ta_rows := ta_rows t + 1\<rparr>))"

definition add_row_line :: "(string \<Rightarrow> comment_row option) \<Rightarrow> comment_tally \<Rightarrow> string \<Rightarrow> row_fault + comment_tally" where
  "add_row_line decode t line =
     (case decode line of
        None \<Rightarrow> Inl NotARow
      | Some r \<Rightarrow>
          if \<not> currency_code (cr_BillingCurrency r) then Inl (NotACurrency (Clean (cr_BillingCurrency r)))
          else rbind (arithmetic r) (\<lambda>p. rmap (\<lambda>key. tally_row t r key p) (figure_key_of r)))"

section \<open>The ledger the comment reads\<close>

record comment_figure =
  fi_Currency :: string
  fi_Basis :: string
  fi_Attribution :: string
  fi_Enforcement :: string
  fi_Cost :: decimal
  fi_Rows :: nat
  fi_FallbackRows :: nat
  fi_Trace :: "trace_line list"
  fi_TraceOmitted :: nat
  fi_Tokens :: "(token_class \<times> decimal) list"
  fi_Catalogs :: "string list"

record comment_ledger =
  le_Rows :: nat
  le_Figures :: "comment_figure list"
  le_FiguresOmitted :: nat
  le_Agents :: "string list"
  le_Models :: "string list"
  le_ModelsOmitted :: nat
  le_Catalogs :: "string list"
  le_FallbackModels :: "string list"
  le_FallbackModelsOmitted :: nat
  le_FallbackPrices :: "string list"
  le_FallbackPricesOmitted :: nat
  le_FallbackCatalogs :: "string list"
  le_requests :: "(spendKey \<times> request_log) list"

definition capped :: "string list \<Rightarrow> string list \<times> nat" where
  "capped names = (let sorted_names = sort names; shown = min (length sorted_names) maxNames
     in (take shown sorted_names, length sorted_names - shown))"

definition withTrace :: "figure_key \<times> figure_tally \<Rightarrow> comment_figure" where
  "withTrace kf =
     (let ((currency, basis, attribution, enforcement), f) = kf
      in \<lparr>fi_Currency = currency, fi_Basis = basis, fi_Attribution = attribution, fi_Enforcement = enforcement,
          fi_Cost = ft_Cost f, fi_Rows = ft_Rows f, fi_FallbackRows = ft_FallbackRows f,
          fi_Trace = sort_key (\<lambda>t. (tr_Catalog t, index_of tokenClasses (tr_Class t), tr_PriceID t, dval (tr_UnitPrice t)))
            (map snd (ft_traces f)),
          fi_TraceOmitted = 0, fi_Tokens = ft_Tokens f, fi_Catalogs = fst (capped (ft_catalogs f))\<rparr>)"

fun capTraces :: "nat \<Rightarrow> comment_figure list \<Rightarrow> comment_figure list" where
  "capTraces left [] = []"
| "capTraces left (f # fs) =
     (let shown = min (min (length (fi_Trace f)) maxTraceLines) left
      in f\<lparr>fi_TraceOmitted := length (fi_Trace f) - shown, fi_Trace := take shown (fi_Trace f)\<rparr>
           # capTraces (left - shown) fs)"

definition tally_ledger :: "comment_tally \<Rightarrow> comment_ledger" where
  "tally_ledger t =
     (let figures = sort_key (\<lambda>f. (fi_Currency f, fi_Basis f, fi_Attribution f, index_of enforcementOrder (fi_Enforcement f)))
            (map withTrace (ta_figures t));
          shown = min (length figures) maxFigures
      in \<lparr>le_Rows = ta_rows t, le_Figures = capTraces maxTraceTotal (take shown figures),
          le_FiguresOmitted = length (ta_figures t) - shown,
          le_Agents = fst (capped (ta_agents t)),
          le_Models = fst (capped (ta_models t)), le_ModelsOmitted = snd (capped (ta_models t)),
          le_Catalogs = fst (capped (ta_catalogs t)),
          le_FallbackModels = fst (capped (ta_fallbackModels t)),
          le_FallbackModelsOmitted = snd (capped (ta_fallbackModels t)),
          le_FallbackPrices = fst (capped (ta_fallbackPrices t)),
          le_FallbackPricesOmitted = snd (capped (ta_fallbackPrices t)),
          le_FallbackCatalogs = fst (capped (ta_fallbackCatalogs t)), le_requests = ta_requests t\<rparr>)"

fun tally_lines :: "(string \<Rightarrow> comment_row option) \<Rightarrow> nat \<Rightarrow> comment_tally \<Rightarrow> string list \<Rightarrow> rows_fault + comment_tally" where
  "tally_lines decode n t [] = Inr t"
| "tally_lines decode n t (raw # ls) =
     (if maxRowLine \<le> length raw then Inl (LineTooLong n)
      else if drop_cr raw = [] then tally_lines decode (n + 1) t ls
      else (case add_row_line decode t (drop_cr raw) of
              Inl e \<Rightarrow> Inl (RowFault n e)
            | Inr t' \<Rightarrow> tally_lines decode (n + 1) t' ls))"

definition ReadRows :: "(string \<Rightarrow> comment_row option) \<Rightarrow> string \<Rightarrow> rows_fault + comment_ledger" where
  "ReadRows decode source = rmap tally_ledger (tally_lines decode 1 no_tally (raw_lines source))"

text \<open>
  The billed tokens of the request that took the spend past the cap and of every request that ended
  after it; None when too many requests were named.
\<close>

definition overshoot_step :: "decimal \<Rightarrow> decimal \<times> decimal \<times> bool \<Rightarrow> request_spend \<Rightarrow> decimal \<times> decimal \<times> bool" where
  "overshoot_step cap acc q =
     (let (spent, tokens, over) = acc;
          spent = Add spent (rq_cost q);
          over = (over \<or> 0 < Cmp spent cap)
      in (spent, if over then Add tokens (rq_tokens q) else tokens, over))"

definition overshootTokens :: "comment_ledger \<Rightarrow> string \<Rightarrow> string \<Rightarrow> decimal \<Rightarrow> decimal option" where
  "overshootTokens l currency basis cap =
     (case map_of (le_requests l) (currency, basis) of
        None \<Rightarrow> None
      | Some g \<Rightarrow>
          if rg_overflow g then None
          else Some (fst (snd (foldl (overshoot_step cap) (zero_decimal, zero_decimal, False)
                 (sort_key rq_end (rg_requests g))))))"

end
