(* ===== verification/CommentLedger.thy ===== *)
theory CommentLedger
  imports CommentRows
begin

text \<open>
  What the ledger of a comment states: a rows file that reads is a list of items, one per line, and the
  tally is a fold over them. Each figure then holds exactly its own items' cost, counts and tokens, and
  each line of its arithmetic recomputes: cost times the unit's size is the unit price times the tokens.
\<close>

section \<open>A file is a list of items\<close>

type_synonym row_item = "comment_row \<times> figure_key \<times> trace_line"

definition read_item :: "(string \<Rightarrow> comment_row option) \<Rightarrow> string \<Rightarrow> row_item option" where
  "read_item decode line =
     (case decode line of
        None \<Rightarrow> None
      | Some r \<Rightarrow>
          if \<not> currency_code (cr_BillingCurrency r) then None
          else (case arithmetic r of
                  Inl _ \<Rightarrow> None
                | Inr p \<Rightarrow> (case figure_key_of r of Inl _ \<Rightarrow> None | Inr k \<Rightarrow> Some (r, k, p))))"

abbreviation it_row :: "row_item \<Rightarrow> comment_row" where "it_row \<equiv> fst"

abbreviation it_key :: "row_item \<Rightarrow> figure_key" where "it_key i \<equiv> fst (snd i)"

abbreviation it_priced :: "row_item \<Rightarrow> trace_line" where "it_priced i \<equiv> snd (snd i)"

definition tally_item :: "comment_tally \<Rightarrow> row_item \<Rightarrow> comment_tally" where
  "tally_item t i = tally_row t (it_row i) (it_key i) (it_priced i)"

lemma add_row_line_ok: "add_row_line decode t line = Inr t' \<longleftrightarrow> (\<exists>i. read_item decode line = Some i \<and> t' = tally_item t i)"
  by (auto simp: add_row_line_def read_item_def tally_item_def result_eqs split: option.splits sum.splits)

lemma ex_items:
  "(\<exists>is. Some i # xs = map Some is \<and> t' = foldl f t is) \<longleftrightarrow> (\<exists>is. xs = map Some is \<and> t' = foldl f (f t i) is)"
  (is "?l \<longleftrightarrow> ?r")
proof
  assume ?l
  then obtain js where "map Some js = Some i # xs" "t' = foldl f t js" by metis
  then show ?r by (cases js) auto
next
  assume ?r
  then obtain js where "xs = map Some js" "t' = foldl f (f t i) js" by blast
  then have "Some i # xs = map Some (i # js) \<and> t' = foldl f t (i # js)" by simp
  then show ?l by (rule exI)
qed

lemma tally_lines_ok:
  "tally_lines decode n t ls = Inr t' \<longleftrightarrow>
     list_all (\<lambda>l. length l < maxRowLine) ls \<and>
     (\<exists>is. map (read_item decode) (filter (\<lambda>l. l \<noteq> []) (map drop_cr ls)) = map Some is \<and> t' = foldl tally_item t is)"
proof (induction decode n t ls rule: tally_lines.induct)
  case (1 decode n t)
  show ?case by auto
next
  case (2 decode n t raw ls)
  show ?case
  proof (cases "maxRowLine \<le> length raw \<or> drop_cr raw = []")
    case True
    then show ?thesis using "2.IH"(1) by auto
  next
    case False
    show ?thesis
    proof (cases "add_row_line decode t (drop_cr raw)")
      case (Inl e)
      then have "read_item decode (drop_cr raw) = None"
        using add_row_line_ok [of decode t "drop_cr raw"] by (cases "read_item decode (drop_cr raw)") auto
      then show ?thesis using False Inl by (auto simp: map_eq_Cons_conv Cons_eq_map_conv)
    next
      case (Inr u)
      then obtain i where i: "read_item decode (drop_cr raw) = Some i" "u = tally_item t i"
        using add_row_line_ok by blast
      let ?rest = "filter (\<lambda>l. l \<noteq> []) (map drop_cr ls)"
      have "(\<exists>is. map (read_item decode) (drop_cr raw # ?rest) = map Some is \<and> t' = foldl tally_item t is) \<longleftrightarrow>
          (\<exists>is. map (read_item decode) ?rest = map Some is \<and> t' = foldl tally_item u is)"
        by (simp only: list.map(2) i(1) ex_items i(2))
      then show ?thesis using False Inr "2.IH"(2) [of u] by simp
    qed
  qed
qed

lemma read_rows_items:
  "ReadRows decode source = Inr l \<longleftrightarrow>
     list_all (\<lambda>l. length l < maxRowLine) (raw_lines source) \<and>
     (\<exists>is. map (read_item decode) (row_lines source) = map Some is \<and> l = tally_ledger (foldl tally_item no_tally is))"
  by (auto simp: ReadRows_def result_eqs tally_lines_ok row_lines_def)

section \<open>The tally's tables\<close>

lemma note_fields:
  "ta_rows (note_row r t) = ta_rows t" "ta_figures (note_row r t) = ta_figures t" "ta_requests (note_row r t) = ta_requests t"
  "ta_rows (note_fallback r t) = ta_rows t" "ta_figures (note_fallback r t) = ta_figures t"
  "ta_requests (note_fallback r t) = ta_requests t"
  by (auto simp: note_row_def note_fallback_def Let_def split: option.splits)

definition figure_item :: "row_item \<Rightarrow> figure_tally \<Rightarrow> figure_tally" where
  "figure_item i = add_figure (it_row i) (it_priced i)"

definition budget_key :: "row_item \<Rightarrow> spendKey" where
  "budget_key i = (fst (it_key i), fst (snd (it_key i)))"

definition request_item :: "row_item \<Rightarrow> request_log \<Rightarrow> request_log" where
  "request_item i = log_request (it_row i) (it_priced i)"

lemma tally_item_fields:
  "ta_rows (tally_item t i) = ta_rows t + 1"
  "ta_figures (tally_item t i) = upsert (it_key i) no_figure (figure_item i) (ta_figures t)"
  "ta_requests (tally_item t i) = upsert (budget_key i) no_log (request_item i) (ta_requests t)"
  by (auto simp: tally_item_def tally_row_def figure_item_def request_item_def budget_key_def note_fields Let_def
      split: prod.splits)

lemma tally_fold:
  "ta_rows (foldl tally_item t is) = ta_rows t + length is"
  "ta_figures (foldl tally_item t is) = foldl (\<lambda>m i. upsert (it_key i) no_figure (figure_item i) m) (ta_figures t) is"
  "ta_requests (foldl tally_item t is) = foldl (\<lambda>m i. upsert (budget_key i) no_log (request_item i) m) (ta_requests t) is"
  by (induction "is" arbitrary: t) (simp_all add: tally_item_fields)

lemma keyed_fold_entries:
  "(k, v) \<in> set (foldl (\<lambda>m x. upsert (key x) (fresh (key x)) (upd x) m) [] xs) \<longleftrightarrow>
     k \<in> key ` set xs \<and> v = foldl (\<lambda>v x. upd x v) (fresh k) (filter (\<lambda>x. key x = k) xs)"
  (is "(k, v) \<in> set ?t \<longleftrightarrow> ?entry")
proof -
  have "distinct (map fst ?t)" by (rule distinct_keyed_fold) simp
  then have "(k, v) \<in> set ?t \<longleftrightarrow> map_of ?t k = Some v" by (rule sorted_table)
  also have "\<dots> \<longleftrightarrow> ?entry"
    unfolding map_of_keyed_fold by (auto simp: filter_empty_conv image_iff)
  finally show ?thesis .
qed

section \<open>One figure\<close>

lemma figure_item_fields:
  "ft_Cost (figure_item i f) = Add (ft_Cost f) (tr_Cost (it_priced i))"
  "ft_Rows (figure_item i f) = ft_Rows f + 1"
  "ft_FallbackRows (figure_item i f) = ft_FallbackRows f + (if is_fallback (it_row i) then 1 else 0)"
  "ft_Tokens (figure_item i f) = upsert (tr_Class (it_priced i)) zero_decimal (\<lambda>d. Add d (tr_Tokens (it_priced i))) (ft_Tokens f)"
  "ft_traces (figure_item i f) =
     upsert (trace_key_of (it_priced i)) ((it_priced i)\<lparr>tr_Tokens := zero_decimal, tr_Cost := zero_decimal\<rparr>)
       (\<lambda>l. l\<lparr>tr_Tokens := Add (tr_Tokens l) (tr_Tokens (it_priced i)), tr_Cost := Add (tr_Cost l) (tr_Cost (it_priced i))\<rparr>)
       (ft_traces f)"
  by (simp_all add: figure_item_def add_figure_def add_priced_def Let_def)

lemma figure_fold:
  "ft_Cost (foldl (\<lambda>f i. figure_item i f) f is) = foldl Add (ft_Cost f) (map (\<lambda>i. tr_Cost (it_priced i)) is)"
  "ft_Rows (foldl (\<lambda>f i. figure_item i f) f is) = ft_Rows f + length is"
  "ft_FallbackRows (foldl (\<lambda>f i. figure_item i f) f is) =
     ft_FallbackRows f + length (filter (\<lambda>i. is_fallback (it_row i)) is)"
  "ft_Tokens (foldl (\<lambda>f i. figure_item i f) f is) =
     foldl (\<lambda>m i. upsert (tr_Class (it_priced i)) zero_decimal (\<lambda>d. Add d (tr_Tokens (it_priced i))) m) (ft_Tokens f) is"
  by (induction "is" arbitrary: f) (simp_all add: figure_item_fields)

lemma parse_figure_wf: "parse_figure c t = Inr d \<Longrightarrow> canonical d" "parse_figure c t = Inr d \<Longrightarrow> 0 \<le> dval d"
  by (auto simp: parse_figure_def split: if_splits sum.splits dest: Parse_canonical)

text \<open>A row's own arithmetic holds, so its trace recomputes.\<close>

definition unit_size :: "trace_line \<Rightarrow> rat" where
  "unit_size t = (case unitSize (tr_Class t) (tr_Unit t) of Inl _ \<Rightarrow> 0 | Inr d \<Rightarrow> dval d)"

lemma unitSize_wf: "unitSize c u = Inr d \<Longrightarrow> wf_decimal d"
  by (auto simp: unitSize_def split: if_splits option.splits sum.splits dest: Parse_canonical intro: canonical_wf)

lemma arithmetic_ok:
  assumes "arithmetic r = Inr p"
  shows "canonical (tr_UnitPrice p)" "0 \<le> dval (tr_UnitPrice p)" "wf_decimal (tr_Tokens p)" "wf_decimal (tr_Cost p)"
    "dval (tr_Cost p) * unit_size p = dval (tr_UnitPrice p) * dval (tr_Tokens p)"
    "tr_Class p \<in> set tokenClasses" "Informational (tr_Class p) \<Longrightarrow> dval (tr_Cost p) = 0"
    "0 \<le> dval (tr_Tokens p)" "0 \<le> dval (tr_Cost p)"
proof -
  from assms obtain cost price quantity tokens size where
    f: "parse_figure ''ListCost'' (cr_ListCost r) = Inr cost" "parse_figure ''ListUnitPrice'' (cr_ListUnitPrice r) = Inr price"
      "parse_figure ''PricingQuantity'' (cr_PricingQuantity r) = Inr quantity"
      "parse_figure ''ConsumedQuantity'' (cr_ConsumedQuantity r) = Inr tokens"
    and k: "cr_SkuMeter r \<in> set tokenClasses" "unitSize (cr_SkuMeter r) (cr_PricingUnit r) = Inr size"
    and q: "Cmp tokens (Mul quantity size) = 0" "Cmp cost (Mul price quantity) = 0"
    and i: "\<not> (Informational (cr_SkuMeter r) \<and> Sign cost \<noteq> 0)"
    and p: "p = \<lparr>tr_Catalog = row_catalog r, tr_Class = cr_SkuMeter r, tr_PriceID = Clean (cr_SkuPriceID r),
                 tr_UnitPrice = price, tr_Unit = cr_PricingUnit r, tr_Tokens = tokens, tr_Cost = cost\<rparr>"
    unfolding arithmetic_def by (auto simp: result_eqs split: if_splits)
  note wf = f [THEN parse_figure_wf(1), THEN canonical_wf] unitSize_wf [OF k(2)]
  have "dval tokens = dval quantity * dval size" "dval cost = dval price * dval quantity"
    using q wf by simp_all
  then show "dval (tr_Cost p) * unit_size p = dval (tr_UnitPrice p) * dval (tr_Tokens p)"
    by (simp add: p unit_size_def k)
  show "canonical (tr_UnitPrice p)" "0 \<le> dval (tr_UnitPrice p)" "wf_decimal (tr_Tokens p)" "wf_decimal (tr_Cost p)" "tr_Class p \<in> set tokenClasses"
    using f k wf by (simp_all add: p parse_figure_wf(1) parse_figure_wf(2) [OF f(2)])
  show "0 \<le> dval (tr_Tokens p)" "0 \<le> dval (tr_Cost p)"
    using f(1,4) by (simp_all add: p parse_figure_wf(2))
  show "dval (tr_Cost p) = 0" if "Informational (tr_Class p)"
    using i that wf by (simp add: p)
qed

section \<open>The arithmetic of one figure\<close>

definition sound_line :: "trace_line \<Rightarrow> bool" where
  "sound_line p \<longleftrightarrow> canonical (tr_UnitPrice p) \<and> 0 \<le> dval (tr_UnitPrice p) \<and> wf_decimal (tr_Tokens p) \<and> wf_decimal (tr_Cost p) \<and>
     dval (tr_Cost p) * unit_size p = dval (tr_UnitPrice p) * dval (tr_Tokens p)"

abbreviation it_trace :: "row_item \<Rightarrow> trace_key" where "it_trace i \<equiv> trace_key_of (it_priced i)"

abbreviation figure_traces :: "row_item list \<Rightarrow> (trace_key \<times> trace_line) list" where
  "figure_traces is \<equiv> ft_traces (foldl (\<lambda>f i. figure_item i f) no_figure is)"

lemma trace_key_update: "trace_key_of (p\<lparr>tr_Tokens := a, tr_Cost := b\<rparr>) = trace_key_of p"
  by (simp add: trace_key_of_def)

lemma trace_fold:
  assumes "\<forall>i\<in>set is. sound_line (it_priced i)"
  shows "distinct (map fst (figure_traces is)) \<and> fst ` set (figure_traces is) = it_trace ` set is \<and>
    (\<forall>k t. map_of (figure_traces is) k = Some t \<longrightarrow>
       trace_key_of t = k \<and> canonical (tr_UnitPrice t) \<and> 0 \<le> dval (tr_UnitPrice t) \<and> wf_decimal (tr_Tokens t) \<and> wf_decimal (tr_Cost t) \<and>
       dval (tr_Tokens t) = (\<Sum>i\<leftarrow>filter (\<lambda>i. it_trace i = k) is. dval (tr_Tokens (it_priced i))) \<and>
       dval (tr_Cost t) = (\<Sum>i\<leftarrow>filter (\<lambda>i. it_trace i = k) is. dval (tr_Cost (it_priced i))))"
  using assms
proof (induction "is" rule: rev_induct)
  case Nil
  show ?case by (simp add: no_figure_def)
next
  case (snoc i "is")
  let ?m = "figure_traces is" and ?p = "it_priced i"
  let ?fresh = "?p\<lparr>tr_Tokens := zero_decimal, tr_Cost := zero_decimal\<rparr>"
  let ?more = "\<lambda>l. l\<lparr>tr_Tokens := Add (tr_Tokens l) (tr_Tokens ?p), tr_Cost := Add (tr_Cost l) (tr_Cost ?p)\<rparr>"
  have prems: "\<forall>i\<in>set is. sound_line (it_priced i)" using snoc.prems by simp
  note ih = snoc.IH [OF prems]
  have IH: "distinct (map fst ?m)" "fst ` set ?m = it_trace ` set is"
    "\<And>k t. map_of ?m k = Some t \<Longrightarrow>
       trace_key_of t = k \<and> canonical (tr_UnitPrice t) \<and> 0 \<le> dval (tr_UnitPrice t) \<and> wf_decimal (tr_Tokens t) \<and> wf_decimal (tr_Cost t) \<and>
       dval (tr_Tokens t) = (\<Sum>i\<leftarrow>filter (\<lambda>i. it_trace i = k) is. dval (tr_Tokens (it_priced i))) \<and>
       dval (tr_Cost t) = (\<Sum>i\<leftarrow>filter (\<lambda>i. it_trace i = k) is. dval (tr_Cost (it_priced i)))"
    using ih by blast+
  have p: "sound_line ?p" using snoc by simp
  have m: "figure_traces (is @ [i]) = upsert (it_trace i) ?fresh ?more ?m"
    by (simp add: figure_item_fields)
  have none: "filter (\<lambda>j. it_trace j = it_trace i) is = []" if "map_of ?m (it_trace i) = None"
  proof -
    have "it_trace i \<notin> it_trace ` set is" using that unfolding map_of_eq_None_iff IH(2) .
    then show ?thesis by (intro filter_False ballI) (metis imageI)
  qed
  have "trace_key_of t = k \<and> canonical (tr_UnitPrice t) \<and> 0 \<le> dval (tr_UnitPrice t) \<and> wf_decimal (tr_Tokens t) \<and> wf_decimal (tr_Cost t) \<and>
       dval (tr_Tokens t) = (\<Sum>i\<leftarrow>filter (\<lambda>i. it_trace i = k) (is @ [i]). dval (tr_Tokens (it_priced i))) \<and>
       dval (tr_Cost t) = (\<Sum>i\<leftarrow>filter (\<lambda>i. it_trace i = k) (is @ [i]). dval (tr_Cost (it_priced i)))"
    if t: "map_of (figure_traces (is @ [i])) k = Some t" for k t
  proof (cases "k = it_trace i")
    case False
    then show ?thesis using t IH(3) [of k t] unfolding m map_of_upsert by auto
  next
    case True
    show ?thesis
    proof (cases "map_of ?m (it_trace i)")
      case None
      then have "t = ?more ?fresh" using t True unfolding m map_of_upsert by simp
      then show ?thesis using p none [OF None] True
        by (simp add: sound_line_def trace_key_of_def)
    next
      case (Some l)
      then have "t = ?more l" using t True unfolding m map_of_upsert by simp
      then show ?thesis using p IH(3) [OF Some] True
        by (simp add: sound_line_def trace_key_update)
    qed
  qed
  moreover have "distinct (map fst (figure_traces (is @ [i])))" "fst ` set (figure_traces (is @ [i])) = it_trace ` set (is @ [i])"
    using IH(1,2) unfolding m by (simp_all add: distinct_upsert keys_upsert)
  ultimately show ?case by blast
qed

lemma trace_recomputes:
  assumes fine: "\<forall>i\<in>set is. sound_line (it_priced i)" and t: "map_of (figure_traces is) k = Some t"
  shows "dval (tr_Cost t) * unit_size t = dval (tr_UnitPrice t) * dval (tr_Tokens t)"
proof -
  let ?mine = "filter (\<lambda>i. it_trace i = k) is"
  have l: "trace_key_of t = k" "canonical (tr_UnitPrice t)" "0 \<le> dval (tr_UnitPrice t)"
    "dval (tr_Tokens t) = (\<Sum>i\<leftarrow>?mine. dval (tr_Tokens (it_priced i)))"
    "dval (tr_Cost t) = (\<Sum>i\<leftarrow>?mine. dval (tr_Cost (it_priced i)))"
    using trace_fold [OF fine] t by blast+
  have each: "dval (tr_Cost (it_priced i)) * unit_size t = dval (tr_UnitPrice t) * dval (tr_Tokens (it_priced i))"
    if "i \<in> set ?mine" for i
  proof -
    have "sound_line (it_priced i)" "it_trace i = trace_key_of t" using that fine l(1) by auto
    then have s: "sound_line (it_priced i)" "tr_Class (it_priced i) = tr_Class t" "tr_Unit (it_priced i) = tr_Unit t"
      "String (tr_UnitPrice (it_priced i)) = String (tr_UnitPrice t)"
      by (simp_all add: trace_key_of_def)
    have "tr_UnitPrice (it_priced i) = tr_UnitPrice t"
      using Parse_String_canonical [of "tr_UnitPrice t"] Parse_String_canonical [of "tr_UnitPrice (it_priced i)"] s l(2,3)
      by (simp add: sound_line_def)
    moreover have "unit_size (it_priced i) = unit_size t" using s by (simp add: unit_size_def)
    ultimately show ?thesis using s(1) by (simp add: sound_line_def)
  qed
  have "(\<Sum>i\<leftarrow>?mine. dval (tr_Cost (it_priced i)) * unit_size t) =
      (\<Sum>i\<leftarrow>?mine. dval (tr_UnitPrice t) * dval (tr_Tokens (it_priced i)))"
    using each by (intro arg_cong [where f = sum_list] map_cong) auto
  then show ?thesis by (simp add: l sum_list_mult_const sum_list_const_mult)
qed

text \<open>The unit of a priced row holds at least one token.\<close>

lemma unit_size_positive:
  assumes "arithmetic r = Inr p"
  shows "0 < unit_size p"
proof -
  have k: "\<exists>d. unitSize (tr_Class p) (tr_Unit p) = Inr d \<and> tr_Class p = cr_SkuMeter r"
    using assms unfolding arithmetic_def by (auto simp: result_eqs split: if_splits)
  then obtain d where d: "unitSize (tr_Class p) (tr_Unit p) = Inr d" by blast
  have "0 < dval d"
  proof (cases "Informational (tr_Class p)")
    case True
    then show ?thesis using d by (auto simp: unitSize_def split: if_splits)
  next
    case False
    with d obtain n where n: "pricing_unit (tr_Unit p) = Some n" "Parse n = Inr d"
      by (auto simp: unitSize_def split: option.splits sum.splits)
    then obtain c cs where c: "n = c # cs" "is_digit c" "c \<noteq> CHR ''0''" "list_all is_digit cs"
      by (cases n) (auto simp: pricing_unit_def Let_def split: prod.splits if_splits)
    then have "Parse n = Inr \<lparr>coefficient = Some (int (digits_val n)), scale = 0\<rparr>"
      by (intro Parse_whole) (simp add: canonical_digits_def)
    moreover have "0 < digits_val n"
    proof -
      have "digits_val n = digit_val c * 10 ^ length cs + digits_val cs"
        using digits_val_acc [of "digit_val c" cs] by (simp add: c digits_val_def)
      moreover have "0 < digit_val c" using digit_val_0_iff [OF c(2)] c(3) by simp
      ultimately show ?thesis by simp
    qed
    ultimately show ?thesis using n by (simp add: dval_def)
  qed
  then show ?thesis by (simp add: unit_size_def d)
qed

lemma read_item_sound:
  assumes "read_item decode line = Some i"
  shows "sound_line (it_priced i)" "0 < unit_size (it_priced i)" "fst (snd (snd (it_key i))) = artifactAttribution"
    "decode line = Some (it_row i)" "arithmetic (it_row i) = Inr (it_priced i)"
proof -
  obtain r k p where i: "i = (r, k, p)" "decode line = Some r" "arithmetic r = Inr p" "figure_key_of r = Inr k"
    using assms by (auto simp: read_item_def split: option.splits if_splits sum.splits)
  show "sound_line (it_priced i)" "0 < unit_size (it_priced i)"
    using arithmetic_ok [OF i(3)] unit_size_positive [OF i(3)] by (simp_all add: i(1) sound_line_def)
  show "fst (snd (snd (it_key i))) = artifactAttribution"
    using i(4) by (auto simp: i(1) figure_key_of_def result_eqs)
  show "decode line = Some (it_row i)" "arithmetic (it_row i) = Inr (it_priced i)" using i by simp_all
qed

lemma read_all_items:
  assumes "map (read_item decode) ls = map Some items" "i \<in> set items"
  shows "\<exists>line. read_item decode line = Some i"
proof -
  have "Some i \<in> set (map (read_item decode) ls)" unfolding assms(1) using assms(2) by (simp only: set_map) (rule imageI)
  then show ?thesis by (metis ex_map_conv)
qed

section \<open>What is shown\<close>

definition fkey :: "comment_figure \<Rightarrow> figure_key" where
  "fkey f = (fi_Currency f, fi_Basis f, fi_Attribution f, fi_Enforcement f)"

lemma capTraces_keys: "map fkey (capTraces left fs) = map fkey fs" "length (capTraces left fs) = length fs"
  by (induction left fs rule: capTraces.induct) (simp_all add: fkey_def Let_def)

lemma capTraces_shown:
  "g \<in> set (capTraces left fs) \<Longrightarrow>
     \<exists>f\<in>set fs. \<exists>n\<le>length (fi_Trace f). n \<le> maxTraceLines \<and>
       g = f\<lparr>fi_TraceOmitted := length (fi_Trace f) - n, fi_Trace := take n (fi_Trace f)\<rparr>"
proof (induction left fs rule: capTraces.induct)
  case (1 left)
  then show ?case by simp
next
  case (2 left f fs)
  let ?n = "min (min (length (fi_Trace f)) maxTraceLines) left"
  consider "g = f\<lparr>fi_TraceOmitted := length (fi_Trace f) - ?n, fi_Trace := take ?n (fi_Trace f)\<rparr>"
    | "g \<in> set (capTraces (left - ?n) fs)"
    using 2(2) by (auto simp: Let_def)
  then show ?case
  proof cases
    case 1
    have "?n \<le> length (fi_Trace f)" "?n \<le> maxTraceLines" by simp_all
    then show ?thesis using 1 unfolding list.set(2) by blast
  next
    case g: 2
    then show ?thesis using "2.IH" [OF refl] by auto
  qed
qed

lemma capTraces_total: "(\<Sum>f\<leftarrow>capTraces left fs. length (fi_Trace f)) \<le> left"
proof (induction left fs rule: capTraces.induct)
  case (2 left f fs)
  then show ?case by (simp add: Let_def) linarith
qed simp

lemma capped_shown:
  "length (fst (capped ns)) \<le> maxNames" "length (fst (capped ns)) + snd (capped ns) = length ns"
  "set (fst (capped ns)) \<subseteq> set ns" "sorted (fst (capped ns))"
  using set_take_subset [of "min (length ns) maxNames" "sort ns"] by (auto simp: capped_def Let_def sorted_wrt_take)

abbreviation figure_sum :: "row_item list \<Rightarrow> figure_tally" where
  "figure_sum is \<equiv> foldl (\<lambda>f i. figure_item i f) no_figure is"

lemma withTrace_fields:
  "fkey (withTrace (k, f)) = k" "fi_Cost (withTrace (k, f)) = ft_Cost f" "fi_Rows (withTrace (k, f)) = ft_Rows f"
  "fi_FallbackRows (withTrace (k, f)) = ft_FallbackRows f" "fi_Tokens (withTrace (k, f)) = ft_Tokens f"
  "set (fi_Trace (withTrace (k, f))) = snd ` set (ft_traces f)" "length (fi_Trace (withTrace (k, f))) = length (ft_traces f)"
  by (cases k; simp add: withTrace_def fkey_def)+

text \<open>The figures a ledger shows are those of its items' keys, each the fold of its own items.\<close>

lemma shown_figure:
  assumes "g \<in> set (le_Figures (tally_ledger (foldl tally_item no_tally is)))"
  shows "\<exists>n f. fkey g \<in> it_key ` set is \<and> f = withTrace (fkey g, figure_sum (filter (\<lambda>i. it_key i = fkey g) is)) \<and>
    n \<le> length (fi_Trace f) \<and> n \<le> maxTraceLines \<and>
    g = f\<lparr>fi_TraceOmitted := length (fi_Trace f) - n, fi_Trace := take n (fi_Trace f)\<rparr>"
proof -
  let ?t = "foldl tally_item no_tally is"
  obtain f n where f: "f \<in> withTrace ` set (ta_figures ?t)" and n: "n \<le> length (fi_Trace f)" "n \<le> maxTraceLines"
    and g: "g = f\<lparr>fi_TraceOmitted := length (fi_Trace f) - n, fi_Trace := take n (fi_Trace f)\<rparr>"
    using assms unfolding tally_ledger_def Let_def
    by (auto dest!: capTraces_shown in_set_takeD)
  from f obtain k v where kv: "(k, v) \<in> set (ta_figures ?t)" "f = withTrace (k, v)" by auto
  have "fkey g = fkey f" by (simp add: g fkey_def)
  then have k: "fkey g = k" by (simp add: kv(2) withTrace_fields)
  have v: "k \<in> it_key ` set is \<and> v = figure_sum (filter (\<lambda>i. it_key i = k) is)"
    using kv(1) unfolding tally_fold
    by (simp add: no_tally_def
        keyed_fold_entries [where key = it_key and fresh = "\<lambda>_. no_figure" and upd = figure_item])
  show ?thesis
  proof (intro exI conjI)
    show "fkey g \<in> it_key ` set is" using v k by simp
    show "f = withTrace (fkey g, figure_sum (filter (\<lambda>i. it_key i = fkey g) is))" using v unfolding k kv(2) by simp
  qed (rule n g)+
qed

lemma shown_figures:
  fixes items :: "row_item list"
  defines "l \<equiv> tally_ledger (foldl tally_item no_tally items)"
  shows "distinct (map fkey (le_Figures l))" "length (le_Figures l) \<le> maxFigures"
    "length (le_Figures l) + le_FiguresOmitted l = card (it_key ` set items)"
    "(\<Sum>f\<leftarrow>le_Figures l. length (fi_Trace f)) \<le> maxTraceTotal" "le_Rows l = length items"
    "le_FiguresOmitted l = card (it_key ` set items) - maxFigures"
proof -
  let ?m = "ta_figures (foldl tally_item no_tally items)"
  have m: "?m = foldl (\<lambda>m i. upsert (it_key i) no_figure (figure_item i) m) [] items"
    by (simp add: tally_fold no_tally_def)
  have dist: "distinct (map fst ?m)" unfolding m
    by (rule distinct_keyed_fold [where key = it_key and fresh = "\<lambda>_. no_figure" and upd = figure_item]) simp
  have keys: "fst ` set ?m = it_key ` set items" unfolding m
    using keys_keyed_fold [where key = it_key and fresh = "\<lambda>_. no_figure" and upd = figure_item and m = "[]"] by simp
  let ?by = "\<lambda>f. (fi_Currency f, fi_Basis f, fi_Attribution f, index_of enforcementOrder (fi_Enforcement f))"
  let ?fs = "sort_key ?by (map withTrace ?m)"
  have "map fkey (map withTrace ?m) = map fst ?m" by (auto simp: withTrace_fields)
  then have names: "mset (map fkey (map withTrace ?m)) = mset (map fst ?m)" by (rule arg_cong)
  have "mset (map fkey ?fs) = mset (map fkey (map withTrace ?m))" by (simp only: mset_map mset_sort)
  then have "mset (map fkey ?fs) = mset (map fst ?m)" using names by (rule trans)
  then have dfs: "distinct (map fkey ?fs)" using dist mset_eq_imp_distinct_iff by blast
  have l: "le_Figures l = capTraces maxTraceTotal (take (min (length ?fs) maxFigures) ?fs)"
    by (simp add: l_def tally_ledger_def Let_def)
  show "distinct (map fkey (le_Figures l))" unfolding l capTraces_keys take_map [symmetric]
    by (rule distinct_take [OF dfs])
  show "length (le_Figures l) \<le> maxFigures" by (simp add: l capTraces_keys)
  have size: "length ?m = card (it_key ` set items)" using distinct_card [OF dist] by (simp add: keys)
  show "le_FiguresOmitted l = card (it_key ` set items) - maxFigures"
    by (simp add: l_def tally_ledger_def Let_def size)
  show "length (le_Figures l) + le_FiguresOmitted l = card (it_key ` set items)"
    by (simp add: l capTraces_keys size) (simp add: l_def tally_ledger_def Let_def size)
  show "(\<Sum>f\<leftarrow>le_Figures l. length (fi_Trace f)) \<le> maxTraceTotal" unfolding l by (rule capTraces_total)
  show "le_Rows l = length items" by (simp add: l_def tally_ledger_def Let_def tally_fold) (simp add: no_tally_def)
qed

definition class_tokens :: "(token_class \<times> decimal) list \<Rightarrow> token_class \<Rightarrow> rat" where
  "class_tokens m c = (case map_of m c of None \<Rightarrow> 0 | Some d \<Rightarrow> dval d)"

lemma figure_sums:
  assumes "\<forall>i\<in>set is. sound_line (it_priced i)"
  shows "dval (ft_Cost (figure_sum is)) = (\<Sum>i\<leftarrow>is. dval (tr_Cost (it_priced i)))"
    "ft_Rows (figure_sum is) = length is"
    "ft_FallbackRows (figure_sum is) = length (filter (\<lambda>i. is_fallback (it_row i)) is)"
    "class_tokens (ft_Tokens (figure_sum is)) c =
       (\<Sum>i\<leftarrow>filter (\<lambda>i. tr_Class (it_priced i) = c) is. dval (tr_Tokens (it_priced i)))"
    "length (ft_traces (figure_sum is)) = card (it_trace ` set is)"
proof -
  have wf: "\<forall>i\<in>set is. wf_decimal (tr_Cost (it_priced i))" "\<forall>i\<in>set is. wf_decimal (tr_Tokens (it_priced i))"
    using assms by (simp_all add: sound_line_def)
  show "dval (ft_Cost (figure_sum is)) = (\<Sum>i\<leftarrow>is. dval (tr_Cost (it_priced i)))"
    using wf(1) unfolding figure_fold by (subst dec.val_foldl) (simp_all add: no_figure_def comp_def)
  show "ft_Rows (figure_sum is) = length is"
    "ft_FallbackRows (figure_sum is) = length (filter (\<lambda>i. is_fallback (it_row i)) is)"
    unfolding figure_fold by (simp_all add: no_figure_def)
  show "class_tokens (ft_Tokens (figure_sum is)) c =
      (\<Sum>i\<leftarrow>filter (\<lambda>i. tr_Class (it_priced i) = c) is. dval (tr_Tokens (it_priced i)))"
    unfolding figure_fold class_tokens_def using wf(2) by (subst dec.keyed_total) (simp_all add: no_figure_def)
  show "length (ft_traces (figure_sum is)) = card (it_trace ` set is)"
    using trace_fold [OF assms, THEN conjunct1, THEN distinct_card]
      trace_fold [OF assms, THEN conjunct2, THEN conjunct1] by simp
qed

lemma shown_trace:
  assumes "\<forall>i\<in>set is. sound_line (it_priced i)" "t \<in> snd ` set (figure_traces is)"
  shows "\<exists>own. own = filter (\<lambda>i. it_trace i = trace_key_of t) is \<and> own \<noteq> [] \<and>
    dval (tr_Tokens t) = (\<Sum>i\<leftarrow>own. dval (tr_Tokens (it_priced i))) \<and>
    dval (tr_Cost t) = (\<Sum>i\<leftarrow>own. dval (tr_Cost (it_priced i))) \<and>
    dval (tr_Cost t) * unit_size t = dval (tr_UnitPrice t) * dval (tr_Tokens t)"
proof -
  note all = trace_fold [OF assms(1)]
  obtain k where kt: "(k, t) \<in> set (figure_traces is)" using assms(2) by auto
  have m: "map_of (figure_traces is) k = Some t"
    using kt by (rule sorted_table [OF all [THEN conjunct1], THEN iffD1])
  have "k \<in> fst ` set (figure_traces is)" using kt by (rule image_eqI [rotated]) simp
  then have k: "k \<in> it_trace ` set is" unfolding all [THEN conjunct2, THEN conjunct1] .
  note sp = all [THEN conjunct2, THEN conjunct2, rule_format, OF m]
  have key: "trace_key_of t = k" by (rule sp [THEN conjunct1])
  obtain i where "i \<in> set is" "it_trace i = k" using k by blast
  then have "filter (\<lambda>i. it_trace i = k) is \<noteq> []" unfolding filter_empty_conv by blast
  then show ?thesis unfolding key
    using sp trace_recomputes [OF assms(1) m] by (intro exI [of _ "filter (\<lambda>i. it_trace i = k) is"] conjI refl) (elim conjE, assumption)+
qed

section \<open>The comment states every row\<close>

text \<open>
  C37. A rows file the comment reads is one item per line, and a line at fault refuses the file. Each
  figure shown states its own items exactly: their cost, their number, the rows at the fallback tier and
  the tokens of every class, always as unattributed. Each line of its arithmetic is the exact sum of the
  rows of one catalog, price and unit, and recomputes: its cost is its unit price times its tokens over
  the unit's size, which is positive. At most 20 figures, 8 lines of a figure and 40 lines are shown, and the ones left
  out are counted.
\<close>

theorem comment_states_every_row:
  assumes "ReadRows decode source = Inr l"
  shows "\<exists>items. map (read_item decode) (row_lines source) = map Some items \<and> le_Rows l = length items \<and>
    distinct (map fkey (le_Figures l)) \<and> length (le_Figures l) \<le> 20 \<and>
    length (le_Figures l) + le_FiguresOmitted l = card (it_key ` set items) \<and>
    (\<Sum>f\<leftarrow>le_Figures l. length (fi_Trace f)) \<le> 40 \<and>
    (\<forall>f\<in>set (le_Figures l).
       let own = filter (\<lambda>i. it_key i = fkey f) items
       in own \<noteq> [] \<and> fi_Attribution f = ''unattributed'' \<and> fi_Rows f = length own \<and>
          fi_FallbackRows f = length (filter (\<lambda>i. is_fallback (it_row i)) own) \<and>
          dval (fi_Cost f) = (\<Sum>i\<leftarrow>own. dval (tr_Cost (it_priced i))) \<and>
          (\<forall>c. class_tokens (fi_Tokens f) c =
             (\<Sum>i\<leftarrow>filter (\<lambda>i. tr_Class (it_priced i) = c) own. dval (tr_Tokens (it_priced i)))) \<and>
          length (fi_Trace f) \<le> 8 \<and> length (fi_Trace f) + fi_TraceOmitted f = card (it_trace ` set own) \<and>
          (\<forall>t\<in>set (fi_Trace f).
             let same = filter (\<lambda>i. it_trace i = trace_key_of t) own
             in same \<noteq> [] \<and> dval (tr_Tokens t) = (\<Sum>i\<leftarrow>same. dval (tr_Tokens (it_priced i))) \<and>
                dval (tr_Cost t) = (\<Sum>i\<leftarrow>same. dval (tr_Cost (it_priced i))) \<and> 0 < unit_size t \<and>
                dval (tr_Cost t) = dval (tr_UnitPrice t) * dval (tr_Tokens t) / unit_size t))"
proof -
  obtain items where items: "map (read_item decode) (row_lines source) = map Some items"
    and l: "l = tally_ledger (foldl tally_item no_tally items)"
    using assms unfolding read_rows_items by blast
  have sound: "sound_line (it_priced i)" "0 < unit_size (it_priced i)" "fst (snd (snd (it_key i))) = artifactAttribution"
    if i: "i \<in> set items" for i
    using read_all_items [OF items i] read_item_sound by blast+
  have f: "let own = filter (\<lambda>i. it_key i = fkey f) items
       in own \<noteq> [] \<and> fi_Attribution f = ''unattributed'' \<and> fi_Rows f = length own \<and>
          fi_FallbackRows f = length (filter (\<lambda>i. is_fallback (it_row i)) own) \<and>
          dval (fi_Cost f) = (\<Sum>i\<leftarrow>own. dval (tr_Cost (it_priced i))) \<and>
          (\<forall>c. class_tokens (fi_Tokens f) c =
             (\<Sum>i\<leftarrow>filter (\<lambda>i. tr_Class (it_priced i) = c) own. dval (tr_Tokens (it_priced i)))) \<and>
          length (fi_Trace f) \<le> 8 \<and> length (fi_Trace f) + fi_TraceOmitted f = card (it_trace ` set own) \<and>
          (\<forall>t\<in>set (fi_Trace f).
             let same = filter (\<lambda>i. it_trace i = trace_key_of t) own
             in same \<noteq> [] \<and> dval (tr_Tokens t) = (\<Sum>i\<leftarrow>same. dval (tr_Tokens (it_priced i))) \<and>
                dval (tr_Cost t) = (\<Sum>i\<leftarrow>same. dval (tr_Cost (it_priced i))) \<and> 0 < unit_size t \<and>
                dval (tr_Cost t) = dval (tr_UnitPrice t) * dval (tr_Tokens t) / unit_size t)"
    if f: "f \<in> set (le_Figures l)" for f
  proof -
    let ?own = "filter (\<lambda>i. it_key i = fkey f) items"
    obtain n g where k: "fkey f \<in> it_key ` set items" and g: "g = withTrace (fkey f, figure_sum ?own)"
      and n: "n \<le> length (fi_Trace g)" "n \<le> maxTraceLines"
      and fg: "f = g\<lparr>fi_TraceOmitted := length (fi_Trace g) - n, fi_Trace := take n (fi_Trace g)\<rparr>"
      using shown_figure [OF f [unfolded l]] by blast
    have own: "\<forall>i\<in>set ?own. sound_line (it_priced i)" using sound by simp
    note sums = figure_sums [OF own]
    have fl: "fi_Trace f = take n (fi_Trace g)" "fi_TraceOmitted f = length (fi_Trace g) - n" "fi_Rows f = fi_Rows g"
      "fi_FallbackRows f = fi_FallbackRows g" "fi_Cost f = fi_Cost g" "fi_Tokens f = fi_Tokens g"
      by (simp_all add: fg)
    have gl: "length (fi_Trace g) = card (it_trace ` set ?own)" unfolding g withTrace_fields sums ..
    from k obtain i where fi: "fkey f = it_key i" and i: "i \<in> set items" by (rule imageE)
    from fi have ik: "it_key i = fkey f" by (rule sym)
    have "?own \<noteq> []" using i ik unfolding filter_empty_conv by blast
    moreover have "fi_Attribution f = ''unattributed''" using sound(3) [OF i] unfolding ik by (simp add: fkey_def)
    moreover have "fi_Rows f = length ?own" "fi_FallbackRows f = length (filter (\<lambda>i. is_fallback (it_row i)) ?own)"
      "dval (fi_Cost f) = (\<Sum>i\<leftarrow>?own. dval (tr_Cost (it_priced i)))"
      "\<forall>c. class_tokens (fi_Tokens f) c =
         (\<Sum>i\<leftarrow>filter (\<lambda>i. tr_Class (it_priced i) = c) ?own. dval (tr_Tokens (it_priced i)))"
      unfolding fl unfolding g withTrace_fields sums by simp_all
    moreover have "length (fi_Trace f) \<le> 8" using n(2) by (simp add: fl maxTraceLines_def)
    moreover have "length (fi_Trace f) + fi_TraceOmitted f = card (it_trace ` set ?own)"
      using n(1) unfolding fl gl [symmetric] by simp
    moreover have "let same = filter (\<lambda>i. it_trace i = trace_key_of t) ?own
       in same \<noteq> [] \<and> dval (tr_Tokens t) = (\<Sum>i\<leftarrow>same. dval (tr_Tokens (it_priced i))) \<and>
          dval (tr_Cost t) = (\<Sum>i\<leftarrow>same. dval (tr_Cost (it_priced i))) \<and> 0 < unit_size t \<and>
          dval (tr_Cost t) = dval (tr_UnitPrice t) * dval (tr_Tokens t) / unit_size t"
      if t: "t \<in> set (fi_Trace f)" for t
    proof -
      have "t \<in> set (fi_Trace g)" using t unfolding fl by (rule in_set_takeD)
      then have t: "t \<in> snd ` set (figure_traces ?own)" unfolding g withTrace_fields .
      note tr = shown_trace [OF own t]
      then have "filter (\<lambda>i. it_trace i = trace_key_of t) ?own \<noteq> []" by blast
      then have "hd (filter (\<lambda>i. it_trace i = trace_key_of t) ?own) \<in> set (filter (\<lambda>i. it_trace i = trace_key_of t) ?own)"
        by (rule hd_in_set)
      then obtain j where j: "j \<in> set items" "it_trace j = trace_key_of t" unfolding set_filter by blast
      then have "unit_size t = unit_size (it_priced j)" by (simp add: trace_key_of_def unit_size_def)
      then have "0 < unit_size t" using sound(2) [OF j(1)] by simp
      moreover from this have "dval (tr_Cost t) = dval (tr_UnitPrice t) * dval (tr_Tokens t) / unit_size t"
        using tr by (elim exE conjE) (simp add: field_simps)
      ultimately show ?thesis using tr unfolding Let_def by blast
    qed
    ultimately show ?thesis unfolding Let_def by blast
  qed
  show ?thesis
    using items f shown_figures [of items, folded l, unfolded maxFigures_def maxTraceTotal_def] by blast
qed

definition sample_comment_row :: "string \<Rightarrow> string \<Rightarrow> string \<Rightarrow> comment_row" where
  "sample_comment_row amount quantity tokens =
     \<lparr>cr_BillingCurrency = ''USD'', cr_ChargePeriodStart = ''2026-01-02T00:00:00Z'',
      cr_ChargePeriodEnd = ''2026-01-02T00:01:00Z'', cr_ListCost = amount, cr_ListUnitPrice = ''2'',
      cr_PricingQuantity = quantity, cr_PricingUnit = ''1000 Tokens'', cr_ConsumedQuantity = tokens, cr_SkuMeter = Output,
      cr_SkuPriceID = ''m/out'', cr_ChargeDescription = [],
      cr_Tags = [''costroid/cost_basis'' \<mapsto> JString Measured, ''costroid/attribution_grade'' \<mapsto> JString ''exact'',
        ''costroid/enforcement_grade'' \<mapsto> JString ''none''],
      cr_CatalogVersion = Some ''2026.1''\<rparr>"

definition sample_comment_rows :: "string \<Rightarrow> comment_row option" where
  "sample_comment_rows line =
     (if line = ''a'' then Some (sample_comment_row ''0.5'' ''0.25'' ''250'')
      else if line = ''b'' then Some (sample_comment_row ''3'' ''1.5'' ''1500'') else None)"

definition sample_comment_file :: string where
  "sample_comment_file = ''a'' @ [CHR 0x0A] @ ''b'' @ [CHR 0x0A]"

lemma read_item_reads:
  assumes "decode line = Some r" "currency_code (cr_BillingCurrency r)" "is_ok (arithmetic r)" "is_ok (figure_key_of r)"
  shows "\<exists>i. read_item decode line = Some i"
  using assms by (cases "arithmetic r"; cases "figure_key_of r") (auto simp: read_item_def is_ok_def)

lemma sample_comment_items:
  "\<exists>i. read_item sample_comment_rows ''a'' = Some i" "\<exists>i. read_item sample_comment_rows ''b'' = Some i"
proof -
  have "is_ok (arithmetic (sample_comment_row ''0.5'' ''0.25'' ''250''))"
    "is_ok (arithmetic (sample_comment_row ''3'' ''1.5'' ''1500''))"
    by code_simp+
  moreover have "is_ok (figure_key_of (sample_comment_row a q t))" for a q t by code_simp
  moreover have "currency_code (cr_BillingCurrency (sample_comment_row a q t))" for a q t by code_simp
  ultimately show "\<exists>i. read_item sample_comment_rows ''a'' = Some i" "\<exists>i. read_item sample_comment_rows ''b'' = Some i"
    using read_item_reads [of sample_comment_rows "''a''" "sample_comment_row ''0.5'' ''0.25'' ''250''"]
      read_item_reads [of sample_comment_rows "''b''" "sample_comment_row ''3'' ''1.5'' ''1500''"]
    by (simp_all add: sample_comment_rows_def)
qed

lemma sample_comment_reads: "\<exists>l. ReadRows sample_comment_rows sample_comment_file = Inr l"
proof -
  have raw: "raw_lines sample_comment_file = [''a'', ''b'']" by code_simp
  have ok: "row_lines sample_comment_file = [''a'', ''b'']" by code_simp
  obtain i j where ij: "read_item sample_comment_rows ''a'' = Some i" "read_item sample_comment_rows ''b'' = Some j"
    using sample_comment_items by blast
  show ?thesis unfolding read_rows_items raw ok
    by (intro exI conjI refl exI [of _ "[i, j]"]) (simp_all add: maxRowLine_def ij)
qed

lemma comment_states_every_row_witness:
  "\<exists>l. ReadRows sample_comment_rows sample_comment_file = Inr l \<and> le_Rows l = 2"
proof -
  obtain l where l: "ReadRows sample_comment_rows sample_comment_file = Inr l" using sample_comment_reads by blast
  obtain items where items: "map (read_item sample_comment_rows) (row_lines sample_comment_file) = map Some items"
      "le_Rows l = length items"
    using comment_states_every_row [OF l] by blast
  have "row_lines sample_comment_file = [''a'', ''b'']" by code_simp
  then have "length items = 2" using arg_cong [OF items(1), of length] by simp
  then show ?thesis using l items(2) by simp
qed

end
