(* ===== verification/CommentBlock.thy ===== *)
theory CommentBlock
  imports CommentLedger Policy Run
begin

text \<open>
  \<open>internal/comment\<close>, part two: the result object, the check's conclusion, the cap, the step outputs and
  the pull request's lifetime (\<open>render.go\<close>, \<open>budget.go\<close>, \<open>outputs.go\<close>, \<open>lifetime.go\<close>), with the reader's
  error line of \<open>run.go\<close>. The JSON text of the object is the parameter \<open>encode\<close>.
\<close>

section \<open>Text that came from outside\<close>

text \<open>
  The bytes of the first rune of a text, as \<open>unicode/utf8\<close> decodes it: one byte when the text does not
  start with a valid encoding.
\<close>

definition byte_in :: "nat \<Rightarrow> nat \<Rightarrow> char \<Rightarrow> bool" where
  "byte_in lo hi c \<longleftrightarrow> lo \<le> of_char c \<and> of_char c \<le> hi"

definition follows :: "nat \<Rightarrow> (char \<Rightarrow> bool) \<Rightarrow> string \<Rightarrow> bool" where
  "follows n first rest \<longleftrightarrow>
     n \<le> length rest \<and> first (hd rest) \<and> list_all (byte_in 0x80 0xBF) (take (n - 1) (tl rest))"

definition rune_width :: "char \<Rightarrow> string \<Rightarrow> nat" where
  "rune_width c rest =
     (if byte_in 0xC2 0xDF c then (if follows 1 (byte_in 0x80 0xBF) rest then 2 else 1)
      else if byte_in 0xE0 0xEF c
      then (if follows 2 (if byte_in 0xE0 0xE0 c then byte_in 0xA0 0xBF
                else if byte_in 0xED 0xED c then byte_in 0x80 0x9F else byte_in 0x80 0xBF) rest then 3 else 1)
      else if byte_in 0xF0 0xF4 c
      then (if follows 3 (if byte_in 0xF0 0xF0 c then byte_in 0x90 0xBF
                else if byte_in 0xF4 0xF4 c then byte_in 0x80 0x8F else byte_in 0x80 0xBF) rest then 4 else 1)
      else 1)"

text \<open>Every rune outside an ASCII allowlist becomes a question mark.\<close>

fun mask_runes :: "(char \<Rightarrow> bool) \<Rightarrow> string \<Rightarrow> string" where
  "mask_runes ok [] = []"
| "mask_runes ok (c # rest) =
     (if byte_in 0 0x7F c \<and> ok c then c else CHR ''?'') # mask_runes ok (drop (rune_width c rest - 1) rest)"

text \<open>\<open>strings.TrimSpace\<close>: the encodings of the runes \<open>unicode.IsSpace\<close> holds of.\<close>

definition space_runes :: "string list" where
  "space_runes =
     map (\<lambda>b. [char_of b]) [0x09, 0x0A, 0x0B, 0x0C, 0x0D, 0x20 :: nat] @
     map (map char_of)
       ([[0xC2, 0x85], [0xC2, 0xA0], [0xE1, 0x9A, 0x80]] @ map (\<lambda>b. [0xE2, 0x80, b]) [0x80 ..< 0x8B] @
        [[0xE2, 0x80, 0xA8], [0xE2, 0x80, 0xA9], [0xE2, 0x80, 0xAF], [0xE2, 0x81, 0x9F], [0xE3, 0x80, 0x80 :: nat]])"

fun strip_front :: "string list \<Rightarrow> nat \<Rightarrow> string \<Rightarrow> string" where
  "strip_front spaces 0 s = s"
| "strip_front spaces (Suc n) s =
     (case filter (\<lambda>sp. take (length sp) s = sp) spaces of
        [] \<Rightarrow> s
      | sp # _ \<Rightarrow> strip_front spaces n (drop (length sp) s))"

definition TrimSpace :: "string \<Rightarrow> string" where
  "TrimSpace s =
     (let front = strip_front space_runes (length s) s
      in rev (strip_front (map rev space_runes) (length front) (rev front)))"

definition maxReaderLine :: nat where
  "maxReaderLine = 160"

definition reader_char :: "char \<Rightarrow> bool" where
  "reader_char c \<longleftrightarrow> is_alnum c \<or> c \<in> set '' .,:;()=_/+-'' \<or> c = CHR 0x27"

definition ReaderLine :: "string \<Rightarrow> string" where
  "ReaderLine t = take maxReaderLine (mask_runes reader_char (TrimSpace (fst (cut_str t [CHR 0x0A]))))"

section \<open>The input of a render\<close>

definition Marker :: string where
  "Marker = ''<!-- costroid:comment -->''"

abbreviation Reported :: string where "Reported \<equiv> ''reported''"

abbreviation NoRows :: string where "NoRows \<equiv> ''no_rows''"

abbreviation Unreadable_rows :: string where "Unreadable_rows \<equiv> ''rows_unreadable''"

abbreviation NoRowsFile :: string where "NoRowsFile \<equiv> ''no_rows_file''"

abbreviation EmptyRowsFile :: string where "EmptyRowsFile \<equiv> ''empty_rows_file''"

abbreviation NotAFile :: string where "NotAFile \<equiv> ''rows_path_not_a_file''"

abbreviation UnreadRowsFile :: string where "UnreadRowsFile \<equiv> ''rows_file_unread''"

abbreviation InvalidRow :: string where "InvalidRow \<equiv> ''invalid_row''"

abbreviation ForkNoRows :: string where "ForkNoRows \<equiv> ''fork_no_rows''"

abbreviation AgentSkipped :: string where "AgentSkipped \<equiv> ''agent_skipped''"

abbreviation ArtifactRefused :: string where "ArtifactRefused \<equiv> ''artifact_refused''"

datatype amounts_setting = AmountsUnsettled | AmountsOff | AmountsShown

record refused_artifact =
  rf_Count :: int
  rf_Entries :: "string list"

record block_ci_run =
  bc_ID :: int
  bc_Attempt :: int

record lifetime_figure =
  lg_Currency :: string
  lg_Basis :: string
  lg_Cost :: decimal
  lg_Reports :: int
  lg_Undigested :: bool

record comment_lifetime =
  cl_Figures :: "lifetime_figure list"
  cl_Capped :: bool
  cl_Unread :: int

record approval =
  ap_Approver :: string
  ap_HeadSHA :: string
  ap_At :: instant

record reconciliation =
  rn_Credential :: string
  rn_Day :: string
  rn_State :: string

record comment_input =
  ip_Ledger :: comment_ledger
  ip_State :: string
  ip_HeadSHA :: string
  ip_Budget :: "decimal option"
  ip_Installation :: string
  ip_AccountHost :: string
  ip_CheckRunID :: "int option"
  ip_IDInCheck :: bool
  ip_Amounts :: amounts_setting
  ip_Reason :: string
  ip_ReasonLine :: int
  ip_RunReason :: string
  ip_ReaderLine :: string
  ip_AgentError :: agent_error
  ip_AgentSkipped :: "bool option"
  ip_CIRun :: "block_ci_run option"
  ip_RowsSHA256 :: string
  ip_RowsFileSHA256 :: string
  ip_Lifetime :: "comment_lifetime option"
  ip_RunURL :: string
  ip_BeforeCheck :: bool
  ip_Reconciliations :: "reconciliation list"
  ip_Verdict :: "verdict option"
  ip_Approval :: "approval option"
  ip_Refused :: "refused_artifact option"

section \<open>The conclusion\<close>

text \<open>\<open>^[A-Za-z0-9][A-Za-z0-9-]{0,38}$\<close>.\<close>

definition loginPattern :: "string \<Rightarrow> bool" where
  "loginPattern s =
     (case s of [] \<Rightarrow> False | c # cs \<Rightarrow> is_alnum c \<and> length cs \<le> 38 \<and> list_all (\<lambda>d. is_alnum d \<or> d = CHR ''-'') cs)"

definition binds :: "approval option \<Rightarrow> string \<Rightarrow> bool" where
  "binds a head =
     (case a of
        None \<Rightarrow> False
      | Some a \<Rightarrow> commitPattern head \<and> ap_HeadSHA a = head \<and> loginPattern (ap_Approver a) \<and> ap_At a \<noteq> zero_time)"

definition refused :: "comment_input \<Rightarrow> bool" where
  "refused i = (case ip_Refused i of None \<Rightarrow> False | Some r \<Rightarrow> 0 < rf_Count r \<and> ip_State i \<noteq> Reported)"

definition approved :: "comment_input \<Rightarrow> bool" where
  "approved i =
     (case ip_Verdict i of
        None \<Rightarrow> False
      | Some v \<Rightarrow> ve_Conclusion v = Failure \<and> binds (ip_Approval i) (ip_HeadSHA i))"

definition Conclusion :: "comment_input \<Rightarrow> string" where
  "Conclusion i =
     (if refused i then Failure
      else (case ip_Verdict i of
              None \<Rightarrow> Neutral
            | Some v \<Rightarrow> if approved i then Neutral else ve_Conclusion v))"

definition ApprovedConclusion :: "string \<Rightarrow> approval option \<Rightarrow> string \<Rightarrow> string" where
  "ApprovedConclusion verdict a head = (if verdict = Failure \<and> binds a head then Neutral else verdict)"

definition conclusion_shown :: "comment_input \<Rightarrow> string option" where
  "conclusion_shown i = (if ip_BeforeCheck i then None else Some (Conclusion i))"

section \<open>The reasons a report states\<close>

definition runReason :: "comment_input \<Rightarrow> string" where
  "runReason i =
     (if refused i then ArtifactRefused
      else if ip_State i \<noteq> NoRows \<or> ip_Reason i = AgentSkipped \<or> Sentence (ip_RunReason i) = [] then []
      else if ip_RunReason i = ReasonAgentError \<and> AgentErrorFix (ip_AgentError i) = [] then []
      else ip_RunReason i)"

definition agentError :: "comment_input \<Rightarrow> agent_error" where
  "agentError i =
     (if AgentErrorFix (ip_AgentError i) = [] then []
      else if ip_State i \<noteq> Reported \<and> runReason i \<noteq> ReasonAgentError then []
      else ip_AgentError i)"

definition agentSkipped :: "comment_input \<Rightarrow> bool option" where
  "agentSkipped i =
     (let skipped = (ip_Reason i = AgentSkipped)
      in if skipped \<or> ip_AgentSkipped i = Some False then Some skipped else None)"

definition ciRun :: "comment_input \<Rightarrow> block_ci_run option" where
  "ciRun i =
     (case ip_CIRun i of
        None \<Rightarrow> None
      | Some r \<Rightarrow> if bc_ID r < 1 \<or> bc_Attempt r < 1 then None else Some r)"

definition digestOrNil :: "string \<Rightarrow> string option" where
  "digestOrNil digest = (if hex64 digest then Some digest else None)"

definition comment_rowsDigest :: "comment_input \<Rightarrow> string option" where
  "comment_rowsDigest i = (if ip_State i \<noteq> Reported then None else digestOrNil (ip_RowsSHA256 i))"

definition readerLine :: "comment_input \<Rightarrow> string" where
  "readerLine i = (if runReason i \<noteq> ReasonReaderRefused then [] else ReaderLine (ip_ReaderLine i))"

definition headSHA :: "comment_input \<Rightarrow> string" where
  "headSHA i = (if \<not> commitPattern (ip_HeadSHA i) then [] else ip_HeadSHA i)"

section \<open>The cap\<close>

abbreviation budgetCurrency :: string where "budgetCurrency \<equiv> ''USD''"

record cap_check =
  cc_amount :: decimal
  cc_grade :: string
  cc_compared :: bool
  cc_cost :: decimal
  cc_basis :: string
  cc_remainder :: decimal
  cc_overshoot :: decimal
  cc_overshootTokens :: "decimal option"

text \<open>
  \<open>slices.Index\<close> answers -1 for a grade outside the order, and indexing with it panics; \<open>ReadRows\<close> admits
  no such grade.
\<close>

definition weakest :: "comment_figure list \<Rightarrow> nat" where
  "weakest figures =
     foldl (\<lambda>w f. min w (index_of enforcementOrder (fi_Enforcement f))) (length enforcementOrder) figures"

definition weakestGrade :: "comment_figure list \<Rightarrow> string" where
  "weakestGrade figures =
     (if weakest figures = length enforcementOrder then [] else enforcementOrder ! weakest figures)"

definition bare_check :: "decimal \<Rightarrow> string \<Rightarrow> cap_check" where
  "bare_check amount grade =
     \<lparr>cc_amount = amount, cc_grade = grade, cc_compared = False, cc_cost = zero_decimal, cc_basis = [],
      cc_remainder = zero_decimal, cc_overshoot = zero_decimal, cc_overshootTokens = None\<rparr>"

definition capCheck :: "comment_input \<Rightarrow> cap_check option" where
  "capCheck i =
     (case ip_Budget i of
        None \<Rightarrow> None
      | Some amount \<Rightarrow>
          (let figures = le_Figures (ip_Ledger i);
               check = bare_check amount (weakestGrade figures);
               held = filter (\<lambda>f. fi_Currency f = budgetCurrency) figures;
               bases = remdups (map fi_Basis held);
               cost = foldl Add zero_decimal (map fi_Cost held)
           in if length bases \<noteq> 1 \<or> 0 < le_FiguresOmitted (ip_Ledger i) then Some check
              else (let basis = fi_Basis (last held);
                        over = Sub cost amount
                    in Some (check\<lparr>cc_compared := True, cc_cost := cost, cc_basis := basis,
                          cc_overshoot := (if 0 < Sign over then over else zero_decimal),
                          cc_remainder := (if 0 < Sign over then zero_decimal else Sub amount cost),
                          cc_overshootTokens := overshootTokens (ip_Ledger i) budgetCurrency basis amount\<rparr>))))"

record block_cap =
  bp_Currency :: string
  bp_Amount :: string
  bp_EnforcementGrade :: "string option"
  bp_Cost :: "string option"
  bp_CostBasis :: "string option"
  bp_Remainder :: "string option"
  bp_Overshoot :: "string option"
  bp_OvershootTokens :: "string option"

definition block_cap_of :: "cap_check option \<Rightarrow> block_cap option" where
  "block_cap_of c =
     (case c of
        None \<Rightarrow> None
      | Some c \<Rightarrow>
          (let held = \<lparr>bp_Currency = budgetCurrency, bp_Amount = String (cc_amount c),
                 bp_EnforcementGrade = (if cc_grade c \<noteq> [] then Some (cc_grade c) else None), bp_Cost = None,
                 bp_CostBasis = None, bp_Remainder = None, bp_Overshoot = None, bp_OvershootTokens = None\<rparr>
           in Some (if \<not> cc_compared c then held
                else held\<lparr>bp_Cost := Some (String (cc_cost c)), bp_CostBasis := Some (cc_basis c),
                       bp_Remainder := Some (String (cc_remainder c)), bp_Overshoot := Some (String (cc_overshoot c)),
                       bp_OvershootTokens := map_option String (cc_overshootTokens c)\<rparr>)))"

section \<open>The result object\<close>

definition basisLabels :: "(string \<times> string) list" where
  "basisLabels =
     [(''measured'', ''Measured''), (''list_equivalent'', ''List-equivalent, not billed''), (''estimate'', ''Estimate''),
      (''billed'', ''Billed''), (''derived'', ''Derived'')]"

record block_figure =
  bf_Currency :: string
  bf_ListCost :: string
  bf_CostBasis :: string
  bf_AttributionGrade :: string
  bf_EnforcementGrade :: string
  bf_Rows :: nat
  bf_FallbackRows :: nat
  bf_Tokens :: "(string \<times> string) list"

record block_data =
  bd_Agents :: "string list"
  bd_Models :: "string list"
  bd_ModelsOmitted :: nat
  bd_Catalogs :: "string list"
  bd_FallbackModels :: "string list"
  bd_FallbackModelsOmitted :: nat
  bd_FallbackPrices :: "string list"
  bd_FallbackPricesOmitted :: nat

record block_lifetime_figure =
  bl_Currency :: string
  bl_CostBasis :: string
  bl_ListCost :: string
  bl_Reports :: int
  bl_MayRepeat :: bool

record block_lifetime =
  bt_Figures :: "block_lifetime_figure list"
  bt_FiguresOmitted :: nat
  bt_Capped :: bool
  bt_Unread :: int

definition comment_schema :: string where
  "comment_schema = ''costroid.result/0.6''"

definition artifactIdentity :: string where
  "artifactIdentity = ''unverified''"

record result_object =
  bk_Schema :: string
  bk_CheckRunID :: "int option"
  bk_Conclusion :: "string option"
  bk_State :: string
  bk_Reason :: string
  bk_ReasonLine :: int
  bk_RunReason :: string
  bk_ReaderError :: string
  bk_AgentError :: "string option"
  bk_AgentSkipped :: "bool option"
  bk_HeadSHA :: string
  bk_CIRun :: "block_ci_run option"
  bk_RowsSHA256 :: "string option"
  bk_RowsFileSHA256 :: "string option"
  bk_Amounts :: string
  bk_Rows :: nat
  bk_RunIdentity :: string
  bk_Figures :: "block_figure list"
  bk_FiguresOmitted :: nat
  bk_Cap :: "block_cap option"
  bk_Data :: block_data
  bk_Lifetime :: "block_lifetime option"
  bk_Policy :: "verdict option"

definition tokenStrings :: "(token_class \<times> decimal) list \<Rightarrow> (string \<times> string) list" where
  "tokenStrings tokens = map (\<lambda>(c, n). (c, String n)) tokens"

definition maxLifetimeFigures :: nat where
  "maxLifetimeFigures = 10"

definition block_lifetime_of :: "comment_lifetime option \<Rightarrow> block_lifetime option" where
  "block_lifetime_of l =
     (case l of
        None \<Rightarrow> None
      | Some l \<Rightarrow>
          (let shown = take (min (length (cl_Figures l)) maxLifetimeFigures) (cl_Figures l)
           in Some \<lparr>bt_Figures = map (\<lambda>f. \<lparr>bl_Currency = lg_Currency f, bl_CostBasis = lg_Basis f,
                       bl_ListCost = String (lg_Cost f), bl_Reports = lg_Reports f,
                       bl_MayRepeat = (lg_Undigested f \<and> 1 < lg_Reports f)\<rparr>) shown,
                bt_FiguresOmitted = length (cl_Figures l) - length shown, bt_Capped = cl_Capped l,
                bt_Unread = cl_Unread l\<rparr>))"

definition blockVerdict :: "verdict option \<Rightarrow> bool \<Rightarrow> verdict option" where
  "blockVerdict v shown = (if v = None \<or> shown then v else map_option WithoutAmounts v)"

definition block_figure_of :: "bool \<Rightarrow> comment_figure \<Rightarrow> block_figure" where
  "block_figure_of shown f =
     \<lparr>bf_Currency = fi_Currency f, bf_ListCost = (if shown then String (fi_Cost f) else []),
      bf_CostBasis = fi_Basis f, bf_AttributionGrade = fi_Attribution f, bf_EnforcementGrade = fi_Enforcement f,
      bf_Rows = fi_Rows f, bf_FallbackRows = fi_FallbackRows f,
      bf_Tokens = (if shown then tokenStrings (fi_Tokens f) else [])\<rparr>"

definition result_block :: "comment_input \<Rightarrow> result_object" where
  "result_block i =
     (let l = ip_Ledger i; shown = (ip_Amounts i = AmountsShown)
      in \<lparr>bk_Schema = comment_schema, bk_CheckRunID = ip_CheckRunID i, bk_Conclusion = conclusion_shown i,
          bk_State = ip_State i, bk_Reason = ip_Reason i, bk_ReasonLine = ip_ReasonLine i, bk_RunReason = runReason i,
          bk_ReaderError = readerLine i, bk_AgentError = (if agentError i = [] then None else Some (agentError i)),
          bk_AgentSkipped = agentSkipped i, bk_HeadSHA = headSHA i, bk_CIRun = ciRun i,
          bk_RowsSHA256 = comment_rowsDigest i, bk_RowsFileSHA256 = digestOrNil (ip_RowsFileSHA256 i),
          bk_Amounts = (if shown then ''shown'' else ''withheld''), bk_Rows = le_Rows l,
          bk_RunIdentity = artifactIdentity, bk_Figures = map (block_figure_of shown) (le_Figures l),
          bk_FiguresOmitted = le_FiguresOmitted l, bk_Cap = (if shown then block_cap_of (capCheck i) else None),
          bk_Data = \<lparr>bd_Agents = le_Agents l, bd_Models = le_Models l, bd_ModelsOmitted = le_ModelsOmitted l,
            bd_Catalogs = le_Catalogs l, bd_FallbackModels = le_FallbackModels l,
            bd_FallbackModelsOmitted = le_FallbackModelsOmitted l, bd_FallbackPrices = le_FallbackPrices l,
            bd_FallbackPricesOmitted = le_FallbackPricesOmitted l\<rparr>,
          bk_Lifetime = (if shown then block_lifetime_of (ip_Lifetime i) else None),
          bk_Policy = blockVerdict (ip_Verdict i) shown\<rparr>)"

text \<open>The object the check carries: every amount in it, and the check run's id once the check names it.\<close>

definition authoritative :: "comment_input \<Rightarrow> comment_input" where
  "authoritative i =
     (let i' = i\<lparr>ip_Amounts := AmountsShown\<rparr>
      in if \<not> ip_IDInCheck i then i'\<lparr>ip_CheckRunID := None\<rparr> else i')"

definition Result :: "(result_object \<Rightarrow> string) \<Rightarrow> comment_input \<Rightarrow> string" where
  "Result encode i = encode (result_block (authoritative i))"

definition fenced :: "string \<Rightarrow> string" where
  "fenced block = ''```json'' @ [CHR 0x0A] @ block @ [CHR 0x0A] @ ''```''"

section \<open>The step's outputs\<close>

definition Multiple :: string where
  "Multiple = ''multiple''"

definition class_count :: "(token_class \<times> decimal) list \<Rightarrow> token_class \<Rightarrow> decimal" where
  "class_count tokens c = (case map_of tokens c of None \<Rightarrow> zero_decimal | Some d \<Rightarrow> d)"

definition tokenColumns :: "(token_class \<times> decimal) list \<Rightarrow> (string \<times> string) list" where
  "tokenColumns tokens =
     (let writes = Add (Add (Add (class_count tokens CacheWrite5m) (class_count tokens CacheWrite30m))
            (class_count tokens CacheWrite1h)) (class_count tokens CacheWrite12h)
      in [(''tokens_input_uncached'', String (class_count tokens InputUncached)),
          (''tokens_cache_read'', String (class_count tokens CacheRead)),
          (''tokens_cache_write'', String writes),
          (''tokens_output'', String (class_count tokens Output))])"

definition figureOutputs :: "comment_ledger \<Rightarrow> (string \<times> string) list" where
  "figureOutputs l =
     (let figures = le_Figures l;
          currencies = remdups (map fi_Currency figures);
          bases = remdups (map fi_Basis figures);
          named = [(''currency'', if length currencies = 1 then fi_Currency (hd figures) else Multiple),
                   (''cost_basis'', if length bases = 1 then fi_Basis (hd figures) else Multiple)]
      in if figures = [] then []
         else if 1 < length currencies \<or> 1 < length bases \<or> 0 < le_FiguresOmitted l then named
         else (let cost = foldl Add zero_decimal (map fi_Cost figures);
                   tokens = foldl (\<lambda>m (c, n). upsert c zero_decimal (\<lambda>d. Add d n) m) [] (concat (map fi_Tokens figures))
               in named @ [(''cost'', String cost)] @ tokenColumns tokens))"

fun only :: "string list \<Rightarrow> string" where
  "only [] = []"
| "only [name] = name"
| "only _ = Multiple"

definition OutputNames :: "string list" where
  "OutputNames =
     [''cost'', ''currency'', ''cost_basis'', ''tokens_input_uncached'', ''tokens_cache_read'', ''tokens_cache_write'',
      ''tokens_output'', ''enforcement_grade'', ''catalog_version'', ''check_run_id'', ''conclusion'', ''result'']"

definition output_values :: "(result_object \<Rightarrow> string) \<Rightarrow> comment_input \<Rightarrow> (string \<times> string) list" where
  "output_values compacted i =
     [(''enforcement_grade'', weakestGrade (le_Figures (ip_Ledger i))),
      (''catalog_version'', only (le_Catalogs (ip_Ledger i))),
      (''check_run_id'', case ip_CheckRunID i of None \<Rightarrow> [] | Some n \<Rightarrow> int_string n),
      (''conclusion'', Conclusion i), (''result'', Result compacted i)] @ figureOutputs (ip_Ledger i)"

text \<open>A value with a line break refuses the outputs, and names the output.\<close>

definition Outputs :: "(result_object \<Rightarrow> string) \<Rightarrow> comment_input \<Rightarrow> string + (string \<times> string) list" where
  "Outputs compacted i =
     rtraverse (\<lambda>name. let value = (case map_of (output_values compacted i) name of None \<Rightarrow> [] | Some v \<Rightarrow> v)
        in if CHR 0x0D \<in> set value \<or> CHR 0x0A \<in> set value then Inl name else Inr (name, value)) OutputNames"

section \<open>Figures read back\<close>

datatype figure_fault = FigureCurrency string | FigureBasis string | FigureAmount decimal_error

definition FigureCost :: "block_figure \<Rightarrow> figure_fault + decimal" where
  "FigureCost f =
     (if \<not> currency_code (bf_Currency f) then Inl (FigureCurrency (Clean (bf_Currency f)))
      else if map_of basisLabels (bf_CostBasis f) = None then Inl (FigureBasis (Clean (bf_CostBasis f)))
      else (case Parse (bf_ListCost f) of Inl e \<Rightarrow> Inl (FigureAmount e) | Inr d \<Rightarrow> Inr d))"

definition block_conclusion :: "result_object \<Rightarrow> string" where
  "block_conclusion b = (case bk_Policy b of None \<Rightarrow> Neutral | Some v \<Rightarrow> ve_Conclusion v)"

definition Block_ApprovedConclusion :: "result_object \<Rightarrow> approval option \<Rightarrow> string" where
  "Block_ApprovedConclusion b a = ApprovedConclusion (block_conclusion b) a (bk_HeadSHA b)"

text \<open>The object an approval repeats: its own conclusion and nothing else.\<close>

definition Reconclude_block :: "result_object \<Rightarrow> approval option \<Rightarrow> result_object" where
  "Reconclude_block b a = b\<lparr>bk_Conclusion := Some (Block_ApprovedConclusion b a)\<rparr>"

datatype result_fault = NotFenced | HoldsBacktick | UnreadResult | OtherSchema string | NotOurs

definition ParseResult :: "(string \<Rightarrow> result_object option) \<Rightarrow> (result_object \<Rightarrow> string) \<Rightarrow> string \<Rightarrow> result_fault + result_object" where
  "ParseResult decode encode t =
     (let (object, opens) = cut_prefix t (''```json'' @ [CHR 0x0A]);
          (object', closes) = cut_suffix object ([CHR 0x0A] @ ''```'')
      in if \<not> opens \<or> \<not> closes then Inl NotFenced
         else if contains_str object' ''`'' then Inl HoldsBacktick
         else (case decode object' of
                 None \<Rightarrow> Inl UnreadResult
               | Some b \<Rightarrow>
                   if bk_Schema b \<noteq> comment_schema then Inl (OtherSchema (Clean (bk_Schema b)))
                   else if encode b \<noteq> object' then Inl NotOurs else Inr b))"

end
