(* ===== verification/CommentWords.thy ===== *)
theory CommentWords
  imports CommentBlock
begin

text \<open>
  \<open>internal/comment\<close>, part three: the sentences of the check and the comment, as the template receives them
  (\<open>view\<close> and what it calls). Every sentence is built from closed words, counts, amounts and strings that
  passed an allowlist. The template itself, which lays the view out as Markdown, is not modelled.
\<close>

section \<open>Lists, labels and links\<close>

definition plural :: "int \<Rightarrow> string \<Rightarrow> string \<Rightarrow> string" where
  "plural n one many = (if n = 1 then one else many)"

definition more :: "nat \<Rightarrow> string" where
  "more omitted = (if omitted = 0 then [] else '' and '' @ nat_string omitted @ '' more'')"

definition spans :: "string list \<Rightarrow> string" where
  "spans names = join (map Code names) '', ''"

definition listed :: "string list \<Rightarrow> nat \<Rightarrow> string" where
  "listed items omitted =
     (if 0 < omitted then join items '', '' @ more omitted
      else if length items < 2 then join items []
      else join (butlast items) '', '' @ '' and '' @ last items)"

definition word_of :: "(string \<times> string) list \<Rightarrow> string \<Rightarrow> string" where
  "word_of table key = (case map_of table key of None \<Rightarrow> [] | Some v \<Rightarrow> v)"

definition enforcementNotes :: "(string \<times> string) list" where
  "enforcementNotes =
     [(''none'', ''nothing held the run to a budget''), (''provider'', ''only the vendor's budget applies''),
      (''agent-flag'', ''client-side estimate, can pass the cap''),
      (''wrapper-watchdog'', ''the wrapper stops the process at the cap''),
      (''gateway-precheck'', ''checked before each request'')]"

fun grouped :: "string \<Rightarrow> string" where
  "grouped [] = []"
| "grouped (c # cs) = c # (if cs \<noteq> [] \<and> length cs mod 3 = 0 then CHR '','' # grouped cs else grouped cs)"

definition unitWords :: "string \<Rightarrow> string" where
  "unitWords u = (case pricing_unit u of None \<Rightarrow> u | Some n \<Rightarrow> grouped n @ '' tokens'')"

definition catalogCell :: "string \<Rightarrow> string" where
  "catalogCell catalog = (if catalog = [] then [] else Code catalog)"

definition trace_price :: "string \<Rightarrow> trace_line \<Rightarrow> string" where
  "trace_price currency t =
     (if Informational (tr_Class t) then ''informational, not priced''
      else currency @ '' '' @ String (tr_UnitPrice t) @ '' per '' @ unitWords (tr_Unit t))"

text \<open>\<open>url.QueryEscape\<close>.\<close>

definition query_hex :: "nat \<Rightarrow> char" where
  "query_hex n = (if n < 10 then digit_char n else char_of (55 + n))"

definition escape_byte :: "char \<Rightarrow> string" where
  "escape_byte c =
     (if is_alnum c \<or> c \<in> {CHR ''-'', CHR ''_'', CHR ''.'', CHR ''~''} then [c]
      else if c = CHR '' '' then ''+''
      else [CHR ''%'', query_hex (of_char c div 16), query_hex (of_char c mod 16)])"

abbreviation AccountGitHub :: string where "AccountGitHub \<equiv> ''github''"

abbreviation AccountGitLab :: string where "AccountGitLab \<equiv> ''gitlab''"

definition accountURL :: string where
  "accountURL = ''https://app.costroid.com/''"

definition accountLink :: "string \<Rightarrow> string \<Rightarrow> string" where
  "accountLink host installation =
     (if \<not> of_class is_digit 1 20 installation then accountURL
      else accountURL @ ''?installation='' @
        concat (map escape_byte ((if host = [] then AccountGitHub else host) @ '':'' @ installation)))"

text \<open>\<open>^https?://[A-Za-z0-9.-]+(:[0-9]{1,5})?(/[A-Za-z0-9._~-]+)+$\<close>.\<close>

definition url_host_char :: "char \<Rightarrow> bool" where
  "url_host_char c \<longleftrightarrow> is_alnum c \<or> c = CHR ''.'' \<or> c = CHR ''-''"

definition segment_char :: "char \<Rightarrow> bool" where
  "segment_char c \<longleftrightarrow> is_alnum c \<or> c \<in> {CHR ''.'', CHR ''_'', CHR ''~'', CHR ''-''}"

definition url_path :: "string \<Rightarrow> bool" where
  "url_path p \<longleftrightarrow>
     (case split_at p (CHR ''/'') of
        [] \<Rightarrow> False
      | first # segments \<Rightarrow> first = [] \<and> segments \<noteq> [] \<and> list_all (\<lambda>s. s \<noteq> [] \<and> list_all segment_char s) segments)"

definition runURLPattern :: "string \<Rightarrow> bool" where
  "runURLPattern s =
     (let (http, found) = cut_prefix s ''http'';
          (rest, opens) = cut_prefix (fst (cut_prefix http ''s'')) ''://'';
          host = takeWhile url_host_char rest;
          after = dropWhile url_host_char rest;
          port = (if after \<noteq> [] \<and> hd after = CHR '':'' then takeWhile is_digit (tl after) else []);
          path = (if after \<noteq> [] \<and> hd after = CHR '':'' then dropWhile is_digit (tl after) else after)
      in found \<and> opens \<and> host \<noteq> [] \<and>
         (after = [] \<or> hd after \<noteq> CHR '':'' \<or> 1 \<le> length port \<and> length port \<le> 5) \<and> url_path path)"

definition maxRunURLLength :: nat where
  "maxRunURLLength = 512"

definition shortCommitLength :: nat where
  "shortCommitLength = 7"

definition runLine :: "string \<Rightarrow> string \<Rightarrow> string" where
  "runLine head link =
     (if commitPattern head
      then ''This is one run at commit `'' @ take shortCommitLength head @ ''`, not a total across runs.''
      else ''This is one run, not a total across runs.'') @
     (if length link \<le> maxRunURLLength \<and> runURLPattern link then '' [CI run]('' @ link @ '')'' else [])"

section \<open>The first line\<close>

definition firstFigures :: nat where
  "firstFigures = 3"

definition heldSentence :: "string \<Rightarrow> string" where
  "heldSentence grade =
     (if grade = ''none'' then ''Nothing held it to a budget.''
      else ''Held by '' @ grade @ '': '' @ word_of enforcementNotes grade @ ''.'')"

definition firstLine :: "comment_input \<Rightarrow> bool \<Rightarrow> string" where
  "firstLine i shown =
     (let all = le_Figures (ip_Ledger i);
          figures = take (min (length all) firstFigures) all;
          omitted = length all - length figures + le_FiguresOmitted (ip_Ledger i);
          line = (if shown
             then ''This run cost '' @ listed (map (\<lambda>f. fi_Currency f @ '' '' @ String (fi_Cost f) @ '' at list ('' @
                    word_of basisLabels (fi_Basis f) @ '')'') figures) omitted @ ''.''
             else ''This run was priced '' @ listed (rev (remdups (rev (map (\<lambda>f. ''at list ('' @
                    word_of basisLabels (fi_Basis f) @ '')'') all)))) 0 @ ''.'')
      in if ip_State i \<noteq> Reported \<or> all = [] then [] else line @ '' '' @ heldSentence (weakestGrade all))"

section \<open>Why there are no figures\<close>

definition maxRefusedEntries :: nat where
  "maxRefusedEntries = 10"

definition maxRefusedName :: nat where
  "maxRefusedName = 128"

definition refused_char :: "char \<Rightarrow> bool" where
  "refused_char c \<longleftrightarrow> is_alnum c \<or> c \<in> {CHR ''.'', CHR ''_'', CHR ''/'', CHR ''-''}"

definition refusedLine :: "refused_artifact \<Rightarrow> string" where
  "refusedLine r =
     (let entries = take (min (min (length (rf_Entries r)) maxRefusedEntries) (nat (rf_Count r))) (rf_Entries r);
          names = map (\<lambda>e. ''`'' @ mask_runes refused_char (take (min (length e) maxRefusedName) e) @ ''`'') entries;
          line = ''This report shows no figures. Reason `'' @ ArtifactRefused @ ''`: the `costroid-rows` artifact held '' @
            int_string (rf_Count r) @ '' '' @ plural (rf_Count r) ''entry'' ''entries'' @
            '' besides the rows and the run object, so the check fails and this report read none of it''
      in if names = [] then line @ ''.''
         else line @ '': '' @ listed names (nat (rf_Count r - int (length names))) @ ''.'')"

definition no_figures :: string where
  "no_figures = ''so this report shows no figures.''"

definition why :: "comment_input \<Rightarrow> string" where
  "why i =
     (if ip_State i = Reported then []
      else if refused i then (case ip_Refused i of None \<Rightarrow> [] | Some r \<Rightarrow> refusedLine r)
      else if ip_Reason i = NoRowsFile \<or> ip_Reason i = ForkNoRows
      then ''No rows file reached this report, so it shows no figures. The agent's job log says why it wrote none.''
      else if ip_Reason i = NotAFile
      then ''The rows path is not a regular file, so this report did not read it and shows no figures.''
      else if ip_Reason i = InvalidRow \<and> 0 < ip_ReasonLine i
      then ''Line '' @ int_string (ip_ReasonLine i) @ '' of the rows file is not a valid row, '' @ no_figures @
           '' A partial total would read as a smaller cost.''
      else if ip_Reason i = InvalidRow
      then ''A line of the rows file is not a valid row, '' @ no_figures @ '' A partial total would read as a smaller cost.''
      else if ip_Reason i = AgentSkipped
      then ''The agent did not run on this pull request: the workflow skipped its job, as the recipes do for a first-time contributor without the `costroid-agent` label and for a fork's pull request.''
      else if readerLine i \<noteq> []
      then ''This report shows no figures. Reason `'' @ ip_RunReason i @ ''`: '' @ Sentence (ip_RunReason i) @
           ''. The reader's first error: `'' @ readerLine i @ ''`.''
      else if agentError i \<noteq> []
      then ''This report shows no figures. Reason `'' @ ip_RunReason i @ ''`: '' @ Sentence (ip_RunReason i) @
           ''. It ended with `'' @ ip_AgentError i @ ''`: '' @ AgentErrorFix (ip_AgentError i) @ ''.''
      else if runReason i \<noteq> []
      then ''This report shows no figures. Reason `'' @ ip_RunReason i @ ''`: '' @ Sentence (ip_RunReason i) @ ''.''
      else if ip_State i = NoRows
      then ''The rows file holds no rows, '' @ no_figures @
           '' Either the agent printed no usage or its job stopped before it wrote a row, and that job's log says which.''
      else ''The rows file could not be read, '' @ no_figures)"

definition agentErrorBesideFigures :: "comment_input \<Rightarrow> string" where
  "agentErrorBesideFigures i =
     (if ip_State i \<noteq> Reported \<or> agentError i = [] then []
      else ''The agent ended with `'' @ ip_AgentError i @ ''` after the requests these figures cover: '' @
           AgentErrorFix (ip_AgentError i) @ ''.'')"

definition fallbackSentence :: "comment_ledger \<Rightarrow> string" where
  "fallbackSentence l =
     (let several = (1 < length (le_FallbackModels l) + le_FallbackModelsOmitted l);
          catalog = (if le_FallbackCatalogs l = [] then ''the catalog'' else ''catalog '' @ spans (le_FallbackCatalogs l))
      in if le_FallbackModels l = [] then []
         else ''Fallback price: '' @ spans (le_FallbackModels l) @ more (le_FallbackModelsOmitted l) @ '' '' @
              (if several then ''are'' else ''is'') @ '' not in '' @ catalog @
              '' for the tier and token class used, so '' @ spans (le_FallbackPrices l) @ more (le_FallbackPricesOmitted l) @
              '' priced '' @ (if several then ''them'' else ''it'') @ ''.'')"

section \<open>The cap and the limits\<close>

definition noCap :: string where
  "noCap = ''No cap held this run: its enforcement grade is none.''"

definition cap_line_of :: "cap_check \<Rightarrow> string" where
  "cap_line_of c =
     (let held = ''Cap: '' @ budgetCurrency @ '' '' @ String (cc_amount c) @ '' ('' @ cc_grade c @ '': '' @
            word_of enforcementNotes (cc_grade c) @ '').'';
          spent = '' Cost: '' @ budgetCurrency @ '' '' @ String (cc_cost c) @ '', '' @ word_of basisLabels (cc_basis c) @ ''.''
      in if cc_grade c = ''none'' then noCap
         else if \<not> cc_compared c
         then held @ '' The figures above are not one '' @ budgetCurrency @
              '' figure of one basis, so none is compared with the cap.''
         else if Sign (cc_overshoot c) = 0
         then held @ spent @ '' Under the cap by '' @ budgetCurrency @ '' '' @ String (cc_remainder c) @ ''.''
         else held @ spent @ '' Over the cap by '' @ budgetCurrency @ '' '' @ String (cc_overshoot c) @
              (case cc_overshootTokens c of None \<Rightarrow> [] | Some n \<Rightarrow> '' and '' @ String n @ '' tokens'') @ ''.'')"

definition capLine :: "comment_input \<Rightarrow> string" where
  "capLine i =
     (case capCheck i of
        Some c \<Rightarrow> cap_line_of c
      | None \<Rightarrow>
          (let grade = weakestGrade (le_Figures (ip_Ledger i))
           in if grade = [] then []
              else if grade = ''none'' then noCap
              else ''Cap: held by '' @ grade @ '' ('' @ word_of enforcementNotes grade @
                   ''). The rows do not record its amount, and the report was not given it.''))"

definition day_text :: "string \<Rightarrow> bool" where
  "day_text s \<longleftrightarrow> length s = 10 \<and> s ! 4 = CHR ''-'' \<and> s ! 7 = CHR ''-'' \<and>
     list_all is_digit (take 4 s) \<and> list_all is_digit (take 2 (drop 5 s)) \<and> list_all is_digit (drop 8 s)"

definition reconciliationNotes :: "(string \<times> string) list" where
  "reconciliationNotes =
     [(''matched'', ''tokens matched the provider's report within 1%''),
      (''tokens_miss'', ''a token class missed the provider's report by more than 1%''),
      (''pending'', ''the provider had not finished reporting the day'')]"

definition reconciliationLines :: "reconciliation list \<Rightarrow> string list" where
  "reconciliationLines rs =
     map (\<lambda>r. ''Last reconciliation of '' @ Code (rn_Credential r) @ '': '' @ rn_Day r @ '', '' @
            word_of reconciliationNotes (rn_State r) @ ''.'')
       (filter (\<lambda>r. map_of reconciliationNotes (rn_State r) \<noteq> None \<and> day_text (rn_Day r)) rs)"

definition ruleLabels :: "(string \<times> string) list" where
  "ruleLabels =
     [(RuleRunBudget, ''Run budget''), (RuleRunCostThreshold, ''Run cost threshold''),
      (RuleRunIncrease, ''Increase over baseline''), (RuleRunIncreasePercent, ''Percent increase over baseline''),
      (RulePullRequestBudget, ''Pull request budget''), (RuleMonthlyBudget, ''Monthly budget''),
      (RuleModelAllowlist, ''Model allowlist''), (RuleAttribution, ''Attribution'')]"

definition limitNouns :: "(string \<times> string) list" where
  "limitNouns =
     [(RuleRunBudget, ''budget''), (RuleRunCostThreshold, ''threshold''), (RuleRunIncrease, ''limit''),
      (RuleRunIncreasePercent, ''limit''), (RulePullRequestBudget, ''budget''), (RuleMonthlyBudget, ''budget'')]"

definition limitSettings :: "(string \<times> string) list" where
  "limitSettings = [(RuleRunBudget, ''policy.run_budget_usd''), (RuleRunCostThreshold, ''policy.max_run_cost_usd'')]"

definition limitLines :: "verdict option \<Rightarrow> string \<Rightarrow> string list" where
  "limitLines v grade =
     (case v of
        None \<Rightarrow> []
      | Some v \<Rightarrow>
          map (\<lambda>r. word_of ruleLabels (re_Rule r) @ '': USD '' @ re_LimitUSD r @ '', from `'' @
                 word_of limitSettings (re_Rule r) @ ''` in `costroid.yml`.'' @
                 (if grade \<noteq> ''none''
                  then '' The verdict checks this '' @ word_of limitNouns (re_Rule r) @ '', never the cap.'' else []))
            (filter (\<lambda>r. map_of limitSettings (re_Rule r) \<noteq> None \<and> re_LimitUSD r \<noteq> []) (ve_Results v)))"

section \<open>The verdict in words\<close>

definition basisOrder :: "string list" where
  "basisOrder = [''measured'', ''list_equivalent'', ''billed'', ''estimate'', ''derived'']"

definition lifetimeBases :: "comment_input \<Rightarrow> string list" where
  "lifetimeBases i =
     (case ip_Lifetime i of
        None \<Rightarrow> []
      | Some l \<Rightarrow>
          filter (\<lambda>b. list_ex (\<lambda>f. lg_Currency f = budgetCurrency \<and> lg_Basis f = b) (cl_Figures l)) basisOrder)"

definition totalBases :: "string list \<Rightarrow> string" where
  "totalBases bases =
     (case bases of
        [] \<Rightarrow> ''The total adds every basis together, at list.''
      | [b] \<Rightarrow> ''The total is at list ('' @ word_of basisLabels b @ '').''
      | _ \<Rightarrow> ''The total adds '' @ listed (map (\<lambda>b. fst (cut_str (word_of basisLabels b) '','')) bases) 0 @
             '' together, at list.'')"

definition allowlistSentence :: "result \<Rightarrow> string" where
  "allowlistSentence r =
     (let names = map (\<lambda>m. Code (Clean m)) (re_Models r)
      in if re_Reason r = ReasonOutsideAllowlist
         then (case names of
                 [] \<Rightarrow> ''the run used a model that is not on the list.''
               | [n] \<Rightarrow> ''the run used '' @ n @ '', which is not on the list.''
               | _ \<Rightarrow> ''the run used '' @ join names '', '' @ '', which are not on the list.'')
         else if re_Reason r = ''models_on_allowlist'' then ''every row names a model on the list.''
         else if re_Reason r = ''unreadable_model''
         then ''a row names no model this check can read, so the rule cannot pass.''
         else if re_Reason r = ''unverified_rows''
         then ''unverified rows cannot show that every model was on the list.''
         else if re_Reason r = ''unattributed_rows''
         then ''unattributed rows cannot show that every model was on the list.''
         else ''this check read no rows, so it cannot pass.'')"

definition increaseSentence :: "result \<Rightarrow> bool \<Rightarrow> string" where
  "increaseSentence r shown =
     (let amounts = (shown \<and> re_CostUSD r \<noteq> [] \<and> re_BaselineUSD r \<noteq> []);
          allowed = (if amounts \<and> re_LimitUSD r \<noteq> [] then ''USD '' @ re_LimitUSD r
            else if re_LimitPercent r \<noteq> [] then re_LimitPercent r @ ''%'' else ''the allowed increase'')
      in if re_Reason r = ''over_baseline''
         then (if amounts
               then ''USD '' @ re_CostUSD r @ '' is more than '' @ allowed @ '' over the USD '' @ re_BaselineUSD r @
                    '' median of earlier runs.''
               else ''the run is more than '' @ allowed @ '' over the median of earlier runs.'')
         else if re_Reason r = ''within_limit''
         then (if amounts
               then ''USD '' @ re_CostUSD r @ '' is at most '' @ allowed @ '' over the USD '' @ re_BaselineUSD r @
                    '' median of earlier runs.''
               else ''the run is at most '' @ allowed @ '' over the median of earlier runs.'')
         else if re_Reason r = ReasonNoBaseline
         then ''no baseline of '' @ int_string MinBaselineRuns @
              '' or more earlier runs reached this check, so the rule did not run.''
         else [])"

definition pullRequestSentence :: "result \<Rightarrow> bool \<Rightarrow> string list \<Rightarrow> string" where
  "pullRequestSentence r shown bases =
     (let amounts = (shown \<and> re_CostUSD r \<noteq> [] \<and> re_LimitUSD r \<noteq> [])
      in if re_Reason r = ''over_limit''
         then (if amounts
               then ''USD '' @ re_CostUSD r @ '' over this pull request's runs is over the USD '' @ re_LimitUSD r @
                    '' budget. '' @ totalBases bases
               else ''this pull request's runs are over the budget. '' @ totalBases bases)
         else if re_Reason r = ''within_limit''
         then (if amounts
               then ''USD '' @ re_CostUSD r @ '' over this pull request's runs is within the USD '' @ re_LimitUSD r @
                    '' budget. '' @ totalBases bases
               else ''this pull request's runs are within the budget. '' @ totalBases bases)
         else if re_Reason r = ReasonNoLifetime
         then ''this check read no total for the pull request's earlier runs, so the rule did not run.''
         else if re_Reason r = ''repeat_possible''
         then ''the pull request's total may count a report twice, so it cannot show the budget broken or kept.''
         else [])"

definition common_sentence :: "result \<Rightarrow> int \<Rightarrow> bool \<Rightarrow> string" where
  "common_sentence r joinable shown =
     (let label = word_of ruleLabels (re_Rule r); noun = word_of limitNouns (re_Rule r);
          amounts = (shown \<and> re_CostUSD r \<noteq> [] \<and> re_LimitUSD r \<noteq> [])
      in if re_Reason r = ''over_limit''
         then (if amounts then label @ '': USD '' @ re_CostUSD r @ '' is over the USD '' @ re_LimitUSD r @ '' '' @ noun @ ''.''
               else label @ '': the run is over the '' @ noun @ ''.'')
         else if re_Reason r = ''within_limit''
         then (if amounts then label @ '': USD '' @ re_CostUSD r @ '' is within the USD '' @ re_LimitUSD r @ '' '' @ noun @ ''.''
               else label @ '': the run is within the '' @ noun @ ''.'')
         else if re_Reason r = ''unverified_rows'' then label @ '': unverified rows cannot satisfy a budget.''
         else if re_Reason r = ''unattributed_rows'' then label @ '': unattributed rows cannot satisfy a budget.''
         else if re_Reason r = ReasonNoRows then label @ '': this check read no rows, so it cannot pass.''
         else if re_Reason r = ''other_currency''
         then label @ '': rows in another currency are never held to a USD '' @ noun @ '', so it cannot pass.''
         else if re_Reason r = ''no_ledger''
         then label @ '': the month to date comes only from a ledger, and this check has none, so the rule did not run.''
         else label @ '': '' @ int_string joinable @ '' '' @ plural joinable ''row names'' ''rows name'' @
              '' a credential, a pull request and a head commit, and stay unattributed until a ledger checks them against the job's OIDC token.'')"

definition resultSentence :: "result \<Rightarrow> int \<Rightarrow> bool \<Rightarrow> string list \<Rightarrow> string" where
  "resultSentence r joinable shown bases =
     (let own = (if re_Rule r = RuleModelAllowlist then allowlistSentence r
            else if re_Rule r = RuleRunIncrease \<or> re_Rule r = RuleRunIncreasePercent then increaseSentence r shown
            else if re_Rule r = RulePullRequestBudget then pullRequestSentence r shown bases else [])
      in if own \<noteq> [] then word_of ruleLabels (re_Rule r) @ '': '' @ own else common_sentence r joinable shown)"

definition enforceNow :: string where
  "enforceNow = ''Add `enforce: true` under `policy` in `costroid.yml` to enforce now.''"

text \<open>\<open>t.UTC().Format("2006-01-02 15:04 UTC")\<close>.\<close>

definition format_minute :: "instant \<Rightarrow> string" where
  "format_minute t =
     (let s = (t mod day_ns) div second_ns
      in format_day t @ '' '' @ pad 2 (s div 3600) @ '':'' @ pad 2 ((s mod 3600) div 60) @ '' UTC'')"

definition warnOnlySentence :: "warn_only \<Rightarrow> string" where
  "warnOnlySentence period =
     (let unread = ''Warn-only: the commit that added this workflow to the base branch could not be read, so a rule that fails warns. '' @ enforceNow
      in if wo_Reason period = PeriodNotOnBase
         then ''Warn-only: this workflow is not on the base branch yet, so a rule that fails warns. '' @ enforceNow
         else if wo_Reason period = PeriodRunning
         then (case parse_rfc3339 (wo_Ends period) of
                 None \<Rightarrow> unread
               | Some ends \<Rightarrow> ''Warn-only until '' @ format_minute ends @ '': for '' @ int_string (WarnOnlyPeriod div day_ns) @
                   '' days from the commit that added this workflow to the base branch, a rule that fails warns. '' @ enforceNow)
         else unread)"

definition verdictSentences :: "verdict \<Rightarrow> bool \<Rightarrow> string list \<Rightarrow> string list" where
  "verdictSentences v shown bases =
     (let opening = (if ve_Config v = ''invalid''
            then [''No rule ran, so the check concludes neutral: `costroid.yml` on the base branch is not valid, and `costroid validate` names the problem.'']
            else if ve_Config v = ''unread''
            then [''No rule ran, so the check concludes neutral: `costroid.yml` on the base branch could not be read, and a missing input never blocks a merge.'']
            else []);
          stated = opening @ map (\<lambda>r. resultSentence r (ve_JoinableRows v) shown bases) (ve_Results v);
          stated = (if stated = [] then [''No rule applied: `costroid.yml` on the base branch sets no budget and no threshold.''] else stated);
          stated = (if list_ex re_HeldByWarnOnly (ve_Results v) then stated @ [warnOnlySentence (ve_WarnOnly v)] else stated)
      in if ve_ConfigFromBase v
         then stated @ [''A change to `costroid.yml` in this pull request applies after the merge, because the verdict reads the base branch's file.'']
         else stated)"

definition VerdictSentences :: "verdict \<Rightarrow> bool \<Rightarrow> string list" where
  "VerdictSentences v shown = verdictSentences v shown []"

definition verdict_words :: "verdict option \<Rightarrow> bool \<Rightarrow> string list \<Rightarrow> string" where
  "verdict_words v shown bases =
     (case v of None \<Rightarrow> ''No policy ran on this change.'' | Some v \<Rightarrow> join (verdictSentences v shown bases) '' '')"

definition approvalLine :: "approval \<Rightarrow> string" where
  "approvalLine a =
     ''`'' @ ap_Approver a @ ''` approved commit `'' @ take shortCommitLength (ap_HeadSHA a) @ ''` at '' @
     format_minute (ap_At a) @
     '', so the check concludes neutral. The policy's verdict stays failure, and a new push ends the approval.''"

definition verdictLine :: "comment_input \<Rightarrow> bool \<Rightarrow> string" where
  "verdictLine i shown =
     (let line = verdict_words (ip_Verdict i) shown (lifetimeBases i)
      in case ip_Approval i of
           Some a \<Rightarrow> if approved i then approvalLine a @ '' '' @ line else line
         | None \<Rightarrow> line)"

section \<open>The view\<close>

record figure_line =
  fl_Cost :: string
  fl_Basis :: string
  fl_Attribution :: string
  fl_Enforcement :: string
  fl_Note :: string
  fl_Mark :: string
  fl_Catalogs :: string
  fl_Tokens :: "(string \<times> string) list"

record trace_cells =
  tl_Catalog :: string
  tl_Class :: string
  tl_PriceID :: string
  tl_UnitPrice :: string
  tl_Tokens :: string
  tl_Cost :: string

record trace_block =
  tb_Shown :: bool
  tb_Summary :: string
  tb_Lines :: "trace_cells list"
  tb_Omitted :: nat
  tb_Withheld :: string

definition withheldTrace :: "comment_figure \<Rightarrow> nat \<Rightarrow> bool \<Rightarrow> trace_block" where
  "withheldTrace f number checkRuns =
     \<lparr>tb_Shown = False, tb_Summary = ''Token classes behind line '' @ nat_string number,
      tb_Lines = rev (remdups (rev (map (\<lambda>t. \<lparr>tl_Catalog = catalogCell (tr_Catalog t), tl_Class = Code (tr_Class t), tl_PriceID = [],
          tl_UnitPrice = [], tl_Tokens = [], tl_Cost = []\<rparr>) (fi_Trace f)))),
      tb_Omitted = 0,
      tb_Withheld = (if checkRuns
         then ''Token counts are withheld with the amounts. The rows carry them, and the check run's machine block carries the amounts.''
         else ''Token counts are withheld with the amounts. The rows carry them.'')\<rparr>"

definition traceOf :: "comment_figure \<Rightarrow> nat \<Rightarrow> bool \<Rightarrow> bool \<Rightarrow> trace_block" where
  "traceOf f number shown checkRuns =
     (if \<not> shown then withheldTrace f number checkRuns
      else \<lparr>tb_Shown = True, tb_Summary = ''How '' @ fi_Currency f @ '' '' @ String (fi_Cost f) @ '' was computed'',
        tb_Lines = map (\<lambda>t. \<lparr>tl_Catalog = catalogCell (tr_Catalog t), tl_Class = Code (tr_Class t),
            tl_PriceID = Code (tr_PriceID t), tl_UnitPrice = trace_price (fi_Currency f) t, tl_Tokens = String (tr_Tokens t),
            tl_Cost = fi_Currency f @ '' '' @ String (tr_Cost t)\<rparr>) (fi_Trace f),
        tb_Omitted = fi_TraceOmitted f, tb_Withheld = []\<rparr>)"

definition fallbackMark :: string where
  "fallbackMark = '', fallback price''"

definition figure_line_of :: "comment_figure \<Rightarrow> figure_line" where
  "figure_line_of f =
     \<lparr>fl_Cost = fi_Currency f @ '' '' @ String (fi_Cost f), fl_Basis = word_of basisLabels (fi_Basis f),
      fl_Attribution = fi_Attribution f, fl_Enforcement = fi_Enforcement f,
      fl_Note = word_of enforcementNotes (fi_Enforcement f), fl_Mark = (if 0 < fi_FallbackRows f then fallbackMark else []),
      fl_Catalogs = spans (fi_Catalogs f), fl_Tokens = tokenColumns (fi_Tokens f)\<rparr>"

record report_view =
  vw_Marker :: string
  vw_FirstLine :: string
  vw_Conclusion :: string
  vw_VerdictLine :: string
  vw_RunLine :: string
  vw_Why :: string
  vw_AgentError :: string
  vw_CheckRuns :: bool
  vw_ShowAmounts :: bool
  vw_AmountsOff :: bool
  vw_CapLine :: string
  vw_LimitLines :: "string list"
  vw_Reconciliations :: "string list"
  vw_Lines :: "figure_line list"
  vw_FiguresOmitted :: nat
  vw_Fallback :: string
  vw_Traces :: "trace_block list"
  vw_Agents :: string
  vw_Models :: string
  vw_ModelsOmitted :: nat
  vw_Catalogs :: string
  vw_Rows :: nat
  vw_AccountURL :: string
  vw_ExportURL :: string
  vw_CheckRunID :: "int option"
  vw_Block :: string

definition comment_view :: "comment_input \<Rightarrow> report_view" where
  "comment_view i =
     (let l = ip_Ledger i; figures = le_Figures l; shown = (ip_Amounts i = AmountsShown);
          checkRuns = (ip_AccountHost i \<noteq> AccountGitLab)
      in \<lparr>vw_Marker = Marker, vw_FirstLine = firstLine i shown, vw_Conclusion = Conclusion i,
          vw_VerdictLine = verdictLine i shown, vw_RunLine = runLine (ip_HeadSHA i) (ip_RunURL i), vw_Why = why i,
          vw_AgentError = agentErrorBesideFigures i, vw_CheckRuns = checkRuns, vw_ShowAmounts = shown,
          vw_AmountsOff = (ip_Amounts i = AmountsOff), vw_CapLine = capLine i,
          vw_LimitLines = (if shown then limitLines (ip_Verdict i) (weakestGrade figures) else []),
          vw_Reconciliations = reconciliationLines (ip_Reconciliations i), vw_Lines = map figure_line_of figures,
          vw_FiguresOmitted = le_FiguresOmitted l, vw_Fallback = fallbackSentence l,
          vw_Traces = map (\<lambda>(n, f). traceOf f (n + 1) shown checkRuns) (enumerate 0 figures),
          vw_Agents = spans (le_Agents l), vw_Models = spans (le_Models l), vw_ModelsOmitted = le_ModelsOmitted l,
          vw_Catalogs = spans (le_Catalogs l), vw_Rows = le_Rows l,
          vw_AccountURL = accountLink (ip_AccountHost i) (ip_Installation i),
          vw_ExportURL = ''https://docs.costroid.com/export'', vw_CheckRunID = ip_CheckRunID i, vw_Block = []\<rparr>)"

text \<open>The lifetime's lines, shown with the amounts only.\<close>

definition lifetime_sentences :: "comment_lifetime \<Rightarrow> string list" where
  "lifetime_sentences l =
     (let shown = take (min (length (cl_Figures l)) maxLifetimeFigures) (cl_Figures l);
          omitted = length (cl_Figures l) - length shown
      in map (\<lambda>f. ''Across this pull request: '' @ lg_Currency f @ '' '' @ String (lg_Cost f) @ '' at list ('' @
            word_of basisLabels (lg_Basis f) @ ''), from '' @ int_string (lg_Reports f) @ '' '' @
            plural (lg_Reports f) ''report'' ''reports'' @
            (if lg_Undigested f \<and> 1 < lg_Reports f then '', which may include a repeated report'' else []) @ ''.'') shown @
         (if 0 < omitted
          then [nat_string omitted @ '' more '' @ plural (int omitted) ''total'' ''totals'' @ '' in other currencies or bases are left out.'']
          else []) @
         (if cl_Capped l
          then [''GitHub lists at most 250 commits of a pull request, so these totals can leave out later commits.''] else []) @
         (if 0 < cl_Unread l
          then [int_string (cl_Unread l) @ '' '' @ plural (cl_Unread l) ''check run is'' ''check runs are'' @
                '' left out of these totals: this release cannot read or add up '' @ plural (cl_Unread l) ''its'' ''their'' @
                '' result '' @ plural (cl_Unread l) ''object'' ''objects'' @ ''.''] else []))"

definition lifetime_lines :: "comment_input \<Rightarrow> comment_lifetime option \<Rightarrow> string list" where
  "lifetime_lines i lifetime =
     (case lifetime of
        None \<Rightarrow> []
      | Some l \<Rightarrow> if ip_Amounts i = AmountsShown then lifetime_sentences l else [])"

section \<open>What is posted\<close>

record check_output =
  co_Title :: string
  co_Summary :: string
  co_Text :: string

text \<open>\<open>render\<close> is the template: it lays a view out under a name.\<close>

definition Check_output :: "(result_object \<Rightarrow> string) \<Rightarrow> (string \<Rightarrow> report_view \<Rightarrow> string) \<Rightarrow> comment_input \<Rightarrow> check_output" where
  "Check_output encode render i =
     \<lparr>co_Title = ''Verdict: '' @ Conclusion i, co_Summary = render ''facts'' (comment_view i),
      co_Text = fenced (Result encode i)\<rparr>"

definition Comment_text :: "(result_object \<Rightarrow> string) \<Rightarrow> (string \<Rightarrow> report_view \<Rightarrow> string) \<Rightarrow> comment_input \<Rightarrow> string" where
  "Comment_text encode render i =
     render ''comment'' ((comment_view i)\<lparr>vw_Block := fenced (encode (result_block i))\<rparr>)"

definition Reconclude :: "(result_object \<Rightarrow> string) \<Rightarrow> result_object \<Rightarrow> approval option \<Rightarrow> int \<Rightarrow> check_output" where
  "Reconclude encode b a previous =
     (let verdict = block_conclusion b; conclusion = Block_ApprovedConclusion b a;
          line = (case a of
             Some x \<Rightarrow> if conclusion \<noteq> verdict then approvalLine x else []
           | None \<Rightarrow> []);
          line = (if conclusion \<noteq> verdict then line
             else ''No approval binds commit `'' @ take (min (length (bk_HeadSHA b)) shortCommitLength) (bk_HeadSHA b) @
                  ''`, so the check concludes as the policy does.'')
      in \<lparr>co_Title = ''Verdict: '' @ conclusion,
          co_Summary = ''**Verdict: '' @ conclusion @ ''.** '' @ line @ [CHR 0x0A, CHR 0x0A] @ ''Check run '' @
            int_string previous @ '' carries this report in full.'' @ [CHR 0x0A],
          co_Text = fenced (encode (Reconclude_block b a))\<rparr>)"

end
