(* ===== verification/CommentSafety.thy ===== *)
theory CommentSafety
  imports CommentWords
begin

text \<open>
  What the comment may not do: publish an amount it withholds, let an approval pass a check, or state a
  cap against anything but the exact total of the rows it holds.
\<close>

section \<open>Amounts that are withheld\<close>

text \<open>An input with every amount in it erased.\<close>

definition hide_trace :: "trace_line \<Rightarrow> trace_line" where
  "hide_trace t = t\<lparr>tr_UnitPrice := zero_decimal, tr_Tokens := zero_decimal, tr_Cost := zero_decimal\<rparr>"

definition hide_figure :: "comment_figure \<Rightarrow> comment_figure" where
  "hide_figure f = f\<lparr>fi_Cost := zero_decimal, fi_Tokens := [], fi_Trace := map hide_trace (fi_Trace f)\<rparr>"

definition hide_ledger :: "comment_ledger \<Rightarrow> comment_ledger" where
  "hide_ledger l = l\<lparr>le_Figures := map hide_figure (le_Figures l), le_requests := []\<rparr>"

definition hide_lifetime :: "comment_lifetime \<Rightarrow> comment_lifetime" where
  "hide_lifetime l = l\<lparr>cl_Figures := map (\<lambda>f. f\<lparr>lg_Cost := zero_decimal\<rparr>) (cl_Figures l)\<rparr>"

definition hide :: "comment_input \<Rightarrow> comment_input" where
  "hide i =
     i\<lparr>ip_Ledger := hide_ledger (ip_Ledger i), ip_Budget := None,
       ip_Lifetime := map_option hide_lifetime (ip_Lifetime i),
       ip_Verdict := map_option WithoutAmounts (ip_Verdict i)\<rparr>"

text \<open>What the templates print of a view: without amounts, no cap line and no cost or token column.\<close>

definition printed :: "report_view \<Rightarrow> report_view" where
  "printed v =
     (if vw_ShowAmounts v then v
      else v\<lparr>vw_CapLine := [], vw_Lines := map (\<lambda>f. f\<lparr>fl_Cost := [], fl_Tokens := []\<rparr>) (vw_Lines v)\<rparr>)"

lemma hide_figures [simp]: "le_Figures (hide_ledger l) = map hide_figure (le_Figures l)"
  "fi_Currency (hide_figure f) = fi_Currency f" "fi_Basis (hide_figure f) = fi_Basis f"
  "fi_Attribution (hide_figure f) = fi_Attribution f" "fi_Enforcement (hide_figure f) = fi_Enforcement f"
  "fi_Rows (hide_figure f) = fi_Rows f" "fi_FallbackRows (hide_figure f) = fi_FallbackRows f"
  "fi_Catalogs (hide_figure f) = fi_Catalogs f" "fi_Trace (hide_figure f) = map hide_trace (fi_Trace f)"
  "tr_Catalog (hide_trace t) = tr_Catalog t" "tr_Class (hide_trace t) = tr_Class t"
  by (simp_all add: hide_ledger_def hide_figure_def hide_trace_def)

lemma hide_ledger_rest [simp]:
  "le_Rows (hide_ledger l) = le_Rows l" "le_FiguresOmitted (hide_ledger l) = le_FiguresOmitted l"
  "le_Agents (hide_ledger l) = le_Agents l" "le_Models (hide_ledger l) = le_Models l"
  "le_ModelsOmitted (hide_ledger l) = le_ModelsOmitted l" "le_Catalogs (hide_ledger l) = le_Catalogs l"
  "le_FallbackModels (hide_ledger l) = le_FallbackModels l"
  "le_FallbackModelsOmitted (hide_ledger l) = le_FallbackModelsOmitted l"
  "le_FallbackPrices (hide_ledger l) = le_FallbackPrices l"
  "le_FallbackPricesOmitted (hide_ledger l) = le_FallbackPricesOmitted l"
  "le_FallbackCatalogs (hide_ledger l) = le_FallbackCatalogs l"
  by (simp_all add: hide_ledger_def)

lemma hide_input [simp]:
  "ip_Ledger (hide i) = hide_ledger (ip_Ledger i)" "ip_State (hide i) = ip_State i" "ip_HeadSHA (hide i) = ip_HeadSHA i"
  "ip_Installation (hide i) = ip_Installation i" "ip_AccountHost (hide i) = ip_AccountHost i"
  "ip_CheckRunID (hide i) = ip_CheckRunID i" "ip_Amounts (hide i) = ip_Amounts i" "ip_Reason (hide i) = ip_Reason i"
  "ip_ReasonLine (hide i) = ip_ReasonLine i" "ip_RunReason (hide i) = ip_RunReason i"
  "ip_ReaderLine (hide i) = ip_ReaderLine i" "ip_AgentError (hide i) = ip_AgentError i"
  "ip_AgentSkipped (hide i) = ip_AgentSkipped i" "ip_CIRun (hide i) = ip_CIRun i"
  "ip_RowsSHA256 (hide i) = ip_RowsSHA256 i" "ip_RowsFileSHA256 (hide i) = ip_RowsFileSHA256 i"
  "ip_RunURL (hide i) = ip_RunURL i" "ip_BeforeCheck (hide i) = ip_BeforeCheck i"
  "ip_Reconciliations (hide i) = ip_Reconciliations i" "ip_Approval (hide i) = ip_Approval i"
  "ip_Refused (hide i) = ip_Refused i" "ip_Verdict (hide i) = map_option WithoutAmounts (ip_Verdict i)"
  "ip_Lifetime (hide i) = map_option hide_lifetime (ip_Lifetime i)"
  by (simp_all add: hide_def)

lemma hide_reasons [simp]:
  "refused (hide i) = refused i" "approved (hide i) = approved i" "Conclusion (hide i) = Conclusion i"
  "conclusion_shown (hide i) = conclusion_shown i" "runReason (hide i) = runReason i" "agentError (hide i) = agentError i"
  "agentSkipped (hide i) = agentSkipped i" "ciRun (hide i) = ciRun i"
  "comment_rowsDigest (hide i) = comment_rowsDigest i" "readerLine (hide i) = readerLine i" "headSHA (hide i) = headSHA i"
proof -
  show r: "refused (hide i) = refused i" by (simp add: refused_def cong: option.case_cong)
  show a: "approved (hide i) = approved i"
    by (cases "ip_Verdict i") (simp_all add: approved_def WithoutAmounts_keeps)
  show c: "Conclusion (hide i) = Conclusion i"
    by (cases "ip_Verdict i") (simp_all add: Conclusion_def r a WithoutAmounts_keeps)
  show "conclusion_shown (hide i) = conclusion_shown i" by (simp add: conclusion_shown_def c)
  show rr: "runReason (hide i) = runReason i" by (simp add: runReason_def r)
  show "agentError (hide i) = agentError i" by (simp add: agentError_def rr)
  show "agentSkipped (hide i) = agentSkipped i" by (simp add: agentSkipped_def)
  show "ciRun (hide i) = ciRun i" by (simp add: ciRun_def)
  show "comment_rowsDigest (hide i) = comment_rowsDigest i" by (simp add: comment_rowsDigest_def)
  show "readerLine (hide i) = readerLine i" by (simp add: readerLine_def rr)
  show "headSHA (hide i) = headSHA i" by (simp add: headSHA_def)
qed

lemma weakest_hidden [simp]: "weakestGrade (map hide_figure fs) = weakestGrade fs"
proof -
  have "weakest (map hide_figure fs) = weakest fs" by (simp add: weakest_def foldl_map)
  then show ?thesis by (simp add: weakestGrade_def)
qed

lemma WithoutAmounts_again [simp]: "WithoutAmounts (WithoutAmounts v) = WithoutAmounts v"
  by (simp add: WithoutAmounts_def)

lemma block_hidden:
  assumes "ip_Amounts i \<noteq> AmountsShown"
  shows "result_block (hide i) = result_block i"
  using assms
  by (cases "ip_Verdict i")
    (simp_all add: result_block_def Let_def block_figure_of_def blockVerdict_def comp_def)

abbreviation bare_result :: "result \<Rightarrow> result" where
  "bare_result r \<equiv> r\<lparr>re_LimitUSD := [], re_CostUSD := [], re_BaselineUSD := []\<rparr>"

lemma bare_fields:
  "re_Rule (bare_result r) = re_Rule r" "re_Reason (bare_result r) = re_Reason r"
  "re_LimitPercent (bare_result r) = re_LimitPercent r" "re_Models (bare_result r) = re_Models r"
  "re_HeldByWarnOnly (bare_result r) = re_HeldByWarnOnly r"
  by simp_all

lemma sentences_hidden:
  "allowlistSentence (bare_result r) = allowlistSentence r"
  "increaseSentence (bare_result r) False = increaseSentence r False"
  "pullRequestSentence (bare_result r) False bases = pullRequestSentence r False bases"
  "common_sentence (bare_result r) j False = common_sentence r j False"
  by (simp_all only: allowlistSentence_def increaseSentence_def pullRequestSentence_def common_sentence_def
      bare_fields Let_def simp_thms if_False)

lemma sentence_hidden: "resultSentence (bare_result r) j False bases = resultSentence r j False bases"
  by (simp only: resultSentence_def sentences_hidden bare_fields)

lemma without_fields:
  "ve_Config (WithoutAmounts v) = ve_Config v" "ve_JoinableRows (WithoutAmounts v) = ve_JoinableRows v"
  "ve_WarnOnly (WithoutAmounts v) = ve_WarnOnly v" "ve_ConfigFromBase (WithoutAmounts v) = ve_ConfigFromBase v"
  "list_ex re_HeldByWarnOnly (ve_Results (WithoutAmounts v)) = list_ex re_HeldByWarnOnly (ve_Results v)"
  "map (\<lambda>r. resultSentence r j False bases) (ve_Results (WithoutAmounts v)) =
     map (\<lambda>r. resultSentence r j False bases) (ve_Results v)"
  by (simp_all add: WithoutAmounts_def list_ex_iff sentence_hidden)

lemma verdict_hidden: "verdictSentences (WithoutAmounts v) False bases = verdictSentences v False bases"
  by (simp only: verdictSentences_def without_fields)

lemma bases_hidden: "lifetimeBases (hide i) = lifetimeBases i"
  by (cases "ip_Lifetime i") (simp_all add: lifetimeBases_def hide_lifetime_def list_ex_iff)

lemma words_hidden:
  "verdictLine (hide i) False = verdictLine i False" "firstLine (hide i) False = firstLine i False"
  "why (hide i) = why i" "agentErrorBesideFigures (hide i) = agentErrorBesideFigures i"
  "fallbackSentence (hide_ledger l) = fallbackSentence l"
proof -
  have "verdict_words (map_option WithoutAmounts v) False b = verdict_words v False b" for v b
    by (cases v) (simp_all add: verdict_words_def verdict_hidden)
  then show "verdictLine (hide i) False = verdictLine i False"
    by (cases "ip_Approval i") (simp_all add: verdictLine_def bases_hidden)
  show "firstLine (hide i) False = firstLine i False" by (simp add: firstLine_def comp_def Let_def)
  show "why (hide i) = why i" unfolding why_def hide_input hide_reasons ..
  show "agentErrorBesideFigures (hide i) = agentErrorBesideFigures i" unfolding agentErrorBesideFigures_def hide_input hide_reasons ..
  show "fallbackSentence (hide_ledger l) = fallbackSentence l" unfolding fallbackSentence_def hide_ledger_rest ..
qed

lemma trace_hidden: "traceOf (hide_figure f) n False c = traceOf f n False c"
  by (simp add: traceOf_def withheldTrace_def comp_def)

lemma line_hidden:
  "(figure_line_of (hide_figure f))\<lparr>fl_Cost := [], fl_Tokens := []\<rparr> = (figure_line_of f)\<lparr>fl_Cost := [], fl_Tokens := []\<rparr>"
  by (simp add: figure_line_of_def)

lemma view_hidden:
  assumes "ip_Amounts i \<noteq> AmountsShown"
  shows "printed (comment_view (hide i)) = printed (comment_view i)"
proof -
  have "map (\<lambda>(n, f). traceOf f (n + 1) False c) (enumerate m (map hide_figure fs)) =
      map (\<lambda>(n, f). traceOf f (n + 1) False c) (enumerate m fs)" for c fs m
    by (induction fs arbitrary: m) (simp_all add: trace_hidden)
  then show ?thesis using assms
    by (simp add: printed_def comment_view_def Let_def words_hidden line_hidden comp_def)
qed

text \<open>
  C39. A comment that withholds amounts depends on none of them: two inputs that differ only in amounts
  (the costs, prices and token counts of the figures and their traces, the cap, the lifetime's costs, the
  amounts of the verdict) give the same machine block and the same printed comment, and no line of the
  pull request's total.
\<close>

theorem withheld_amounts_never_shown:
  assumes "ip_Amounts i \<noteq> AmountsShown" "hide i = hide j"
  shows "result_block i = result_block j \<and> printed (comment_view i) = printed (comment_view j) \<and>
    lifetime_lines i (ip_Lifetime i) = [] \<and>
    (\<forall>f\<in>set (bk_Figures (result_block i)). bf_ListCost f = [] \<and> bf_Tokens f = []) \<and>
    bk_Cap (result_block i) = None \<and> bk_Lifetime (result_block i) = None"
proof -
  have j: "ip_Amounts j \<noteq> AmountsShown" using assms hide_input(7) by metis
  have "result_block i = result_block j"
    using block_hidden [OF assms(1)] block_hidden [OF j] assms(2) by simp
  moreover have "printed (comment_view i) = printed (comment_view j)"
    using view_hidden [OF assms(1)] view_hidden [OF j] assms(2) by simp
  moreover have "\<forall>f\<in>set (bk_Figures (result_block i)). bf_ListCost f = [] \<and> bf_Tokens f = []"
    "bk_Cap (result_block i) = None" "bk_Lifetime (result_block i) = None" "lifetime_lines i (ip_Lifetime i) = []"
    using assms(1) by (auto simp: result_block_def Let_def block_figure_of_def lifetime_lines_def split: option.split)
  ultimately show ?thesis by blast
qed

definition no_ledger :: comment_ledger where
  "no_ledger = tally_ledger no_tally"

definition sample_input :: comment_input where
  "sample_input =
     \<lparr>ip_Ledger = no_ledger, ip_State = Reported, ip_HeadSHA = replicate 40 (CHR ''a''), ip_Budget = None,
      ip_Installation = [], ip_AccountHost = [], ip_CheckRunID = None, ip_IDInCheck = False, ip_Amounts = AmountsOff,
      ip_Reason = [], ip_ReasonLine = 0, ip_RunReason = [], ip_ReaderLine = [], ip_AgentError = [],
      ip_AgentSkipped = None, ip_CIRun = None, ip_RowsSHA256 = [], ip_RowsFileSHA256 = [], ip_Lifetime = None,
      ip_RunURL = [], ip_BeforeCheck = False, ip_Reconciliations = [], ip_Verdict = None, ip_Approval = None,
      ip_Refused = None\<rparr>"

definition sample_figure :: "decimal \<Rightarrow> comment_figure" where
  "sample_figure d =
     \<lparr>fi_Currency = ''USD'', fi_Basis = ''measured'', fi_Attribution = ''unattributed'', fi_Enforcement = ''none'',
      fi_Cost = d, fi_Rows = 1, fi_FallbackRows = 0, fi_Trace = [], fi_TraceOmitted = 0, fi_Tokens = [(Output, d)],
      fi_Catalogs = []\<rparr>"

theorem withheld_amounts_never_shown_witness:
  "\<exists>i j. ip_Amounts i \<noteq> AmountsShown \<and> i \<noteq> j \<and> result_block i = result_block j"
proof -
  let ?i = "\<lambda>d. sample_input\<lparr>ip_Ledger := no_ledger\<lparr>le_Figures := [sample_figure d]\<rparr>, ip_Budget := Some d\<rparr>"
  have s: "ip_Amounts (?i d) \<noteq> AmountsShown" for d by (simp add: sample_input_def)
  have "hide (?i (FromInt 1)) = hide (?i (FromInt 2))"
    by (simp add: hide_def hide_ledger_def hide_figure_def sample_figure_def)
  from withheld_amounts_never_shown [OF s this]
  have "result_block (?i (FromInt 1)) = result_block (?i (FromInt 2))" by blast
  moreover have "ip_Budget (?i (FromInt 1)) \<noteq> ip_Budget (?i (FromInt 2))" by (simp add: FromInt_def)
  then have "?i (FromInt 1) \<noteq> ?i (FromInt 2)" by metis
  ultimately show ?thesis using s by blast
qed

section \<open>The check's conclusion\<close>

lemma Conclusion_cases:
  "Conclusion i = (if refused i then Failure
     else case ip_Verdict i of None \<Rightarrow> Neutral
       | Some v \<Rightarrow> ApprovedConclusion (ve_Conclusion v) (ip_Approval i) (ip_HeadSHA i))"
  by (auto simp: Conclusion_def approved_def ApprovedConclusion_def split: option.split)

lemma refused_approval: "refused (i\<lparr>ip_Approval := a\<rparr>) = refused i"
  by (cases "ip_Refused i") (simp_all add: refused_def)

lemma binds_head: "binds a (headSHA i) = binds a (ip_HeadSHA i)"
proof -
  have "\<not> commitPattern []" by (simp add: commitPattern_def of_class_def)
  then show ?thesis by (auto simp: binds_def headSHA_def split: option.split)
qed


definition sample_verdict :: "string \<Rightarrow> verdict" where
  "sample_verdict conclusion =
     \<lparr>ve_Conclusion = conclusion, ve_Trust = Unverified, ve_PackSHA256 = [], ve_ConfigSHA256 = [], ve_ConfigRef = [],
      ve_Config = [], ve_ConfigFromBase = False, ve_EvaluatedAt = [],
      ve_WarnOnly = \<lparr>wo_Active = False, wo_Reason = [], wo_Started = [], wo_Ends = []\<rparr>, ve_Results = [],
      ve_JoinableRows = 0, ve_Evidence = AgentCounts, ve_problem = None\<rparr>"

definition sample_approval :: approval where
  "sample_approval = \<lparr>ap_Approver = ''ada'', ap_HeadSHA = replicate 40 (CHR ''a''), ap_At = 0\<rparr>"


end
