(* ===== verification/CommentCap.thy ===== *)
theory CommentCap
  imports CommentSafety
begin

text \<open>
  The cap of a run beside the figures it holds (\<open>budget.go\<close>, \<open>overshootTokens\<close> of \<open>rows.go\<close>): it is compared
  with the exact total of the rows of one currency and basis, and the tokens past it are those of the
  request that passed it and of the requests that ended later.
\<close>

section \<open>The requests of one currency and basis\<close>

definition billed_tokens :: "trace_line \<Rightarrow> rat" where
  "billed_tokens p = (if Informational (tr_Class p) then 0 else dval (tr_Tokens p))"

definition fine_request :: "request_spend \<Rightarrow> bool" where
  "fine_request q \<longleftrightarrow> wf_decimal (rq_cost q) \<and> wf_decimal (rq_tokens q) \<and> 0 \<le> dval (rq_cost q) \<and> 0 \<le> dval (rq_tokens q)"

definition priced_fine :: "trace_line \<Rightarrow> bool" where
  "priced_fine p \<longleftrightarrow> wf_decimal (tr_Cost p) \<and> wf_decimal (tr_Tokens p) \<and> 0 \<le> dval (tr_Cost p) \<and> 0 \<le> dval (tr_Tokens p)"

definition request_costs :: "request_log \<Rightarrow> rat" where
  "request_costs l = (\<Sum>q\<leftarrow>rg_requests l. dval (rq_cost q))"

definition request_tokens :: "request_log \<Rightarrow> rat" where
  "request_tokens l = (\<Sum>q\<leftarrow>rg_requests l. dval (rq_tokens q))"

lemma spend_more_fine:
  assumes "fine_request q" "priced_fine p"
  shows "fine_request (spend_more p q)" "dval (rq_cost (spend_more p q)) = dval (rq_cost q) + dval (tr_Cost p)"
    "dval (rq_tokens (spend_more p q)) = dval (rq_tokens q) + billed_tokens p"
  using assms by (auto simp: fine_request_def priced_fine_def spend_more_def billed_tokens_def)

lemma spend_last:
  assumes "qs \<noteq> []" "list_all fine_request qs" "priced_fine p"
  defines "qs' \<equiv> butlast qs @ [spend_more p (last qs)]"
  shows "list_all fine_request qs' \<and>
    (\<Sum>q\<leftarrow>qs'. dval (rq_cost q)) = (\<Sum>q\<leftarrow>qs. dval (rq_cost q)) + dval (tr_Cost p) \<and>
    (\<Sum>q\<leftarrow>qs'. dval (rq_tokens q)) = (\<Sum>q\<leftarrow>qs. dval (rq_tokens q)) + billed_tokens p"
proof -
  obtain init x where qs: "qs = init @ [x]" using assms(1) by (metis append_butlast_last_id)
  have x: "fine_request x" using assms(2) by (simp add: qs)
  show ?thesis using assms(2) spend_more_fine [OF x assms(3)] by (simp add: qs'_def qs)
qed

lemma log_request_step:
  fixes r :: comment_row
  assumes "priced_fine p" "list_all fine_request (rg_requests l)"
  defines "l' \<equiv> log_request r p l"
  shows "list_all fine_request (rg_requests l')" "rg_overflow l \<Longrightarrow> rg_overflow l'"
    "\<not> rg_overflow l' \<Longrightarrow> request_costs l' = request_costs l + dval (tr_Cost p) \<and>
       request_tokens l' = request_tokens l + billed_tokens p"
proof -
  let ?opens = "rg_requests l = [] \<or> request_of r \<noteq> rg_current l \<or> tr_Class p \<in> set (rg_classes l)"
  let ?new = "\<lparr>rq_end = cr_ChargePeriodEnd r, rq_cost = zero_decimal, rq_tokens = zero_decimal\<rparr>"
  let ?qs = "if ?opens then rg_requests l @ [?new] else rg_requests l"
  have qs: "?qs \<noteq> []" "list_all fine_request ?qs" using assms(2) by (auto simp: fine_request_def)
  have sums: "(\<Sum>q\<leftarrow>?qs. dval (rq_cost q)) = request_costs l" "(\<Sum>q\<leftarrow>?qs. dval (rq_tokens q)) = request_tokens l"
    by (auto simp: request_costs_def request_tokens_def)
  note spent = spend_last [OF qs assms(1), unfolded sums]
  consider (over) "rg_overflow l" | (full) "\<not> rg_overflow l" "?opens \<and> length (rg_requests l) = maxRequests"
    | (adds) "\<not> rg_overflow l" "\<not> (?opens \<and> length (rg_requests l) = maxRequests)" by blast
  then have "list_all fine_request (rg_requests l') \<and> (rg_overflow l \<longrightarrow> rg_overflow l') \<and>
     (\<not> rg_overflow l' \<longrightarrow> request_costs l' = request_costs l + dval (tr_Cost p) \<and>
        request_tokens l' = request_tokens l + billed_tokens p)"
  proof cases
    case over
    then show ?thesis using assms(2) by (simp add: l'_def log_request_def)
  next
    case full
    then show ?thesis by (simp add: l'_def log_request_def Let_def)
  next
    case adds
    have "rg_requests l' = butlast ?qs @ [spend_more p (last ?qs)]"
    proof (cases ?opens)
      case True
      then have "length (rg_requests l) \<noteq> maxRequests" using adds(2) by blast
      then show ?thesis using True adds(1) by (simp add: l'_def log_request_def Let_def)
    next
      case False
      then show ?thesis using adds(1) by (simp add: l'_def log_request_def Let_def)
    qed
    then show ?thesis using spent adds(1) by (simp add: request_costs_def request_tokens_def)
  qed
  then show "list_all fine_request (rg_requests l')" "rg_overflow l \<Longrightarrow> rg_overflow l'"
    "\<not> rg_overflow l' \<Longrightarrow> request_costs l' = request_costs l + dval (tr_Cost p) \<and>
       request_tokens l' = request_tokens l + billed_tokens p"
    by blast+
qed

lemma request_fold:
  assumes "\<forall>i\<in>set is. priced_fine (it_priced i)" "list_all fine_request (rg_requests l)"
  defines "l' \<equiv> foldl (\<lambda>l i. request_item i l) l is"
  shows "list_all fine_request (rg_requests l') \<and> (rg_overflow l \<longrightarrow> rg_overflow l') \<and>
    (\<not> rg_overflow l' \<longrightarrow> request_costs l' = request_costs l + (\<Sum>i\<leftarrow>is. dval (tr_Cost (it_priced i))) \<and>
       request_tokens l' = request_tokens l + (\<Sum>i\<leftarrow>is. billed_tokens (it_priced i)))"
  using assms(1,2) unfolding l'_def
proof (induction "is" arbitrary: l)
  case Nil
  then show ?case by simp
next
  case (Cons i "is")
  let ?m = "request_item i l"
  have p: "priced_fine (it_priced i)" and rest: "\<forall>i\<in>set is. priced_fine (it_priced i)" using Cons.prems by simp_all
  note step = log_request_step [OF p Cons.prems(2), of "it_row i", folded request_item_def]
  show ?case using Cons.IH [OF rest step(1)] step(2,3) by auto
qed

section \<open>The request that passes the cap\<close>

lemma overshoot_fold:
  assumes "list_all fine_request qs" "wf_decimal spent" "wf_decimal tokens" "wf_decimal cap"
  shows "\<exists>t'. fst (snd (foldl (overshoot_step cap) (spent, tokens, True) qs)) = t' \<and>
    dval t' = dval tokens + (\<Sum>q\<leftarrow>qs. dval (rq_tokens q))"
  using assms
proof (induction qs arbitrary: spent tokens)
  case Nil
  then show ?case by simp
next
  case (Cons q qs)
  then show ?case by (auto simp: overshoot_step_def Let_def fine_request_def)
qed

lemma overshoot_split:
  assumes "list_all fine_request qs" "wf_decimal spent" "wf_decimal tokens" "wf_decimal cap"
  shows "\<exists>k\<le>length qs.
    (\<forall>m. 0 < m \<and> m \<le> k \<longrightarrow> dval spent + (\<Sum>q\<leftarrow>take m qs. dval (rq_cost q)) \<le> dval cap) \<and>
    (k < length qs \<longrightarrow> dval cap < dval spent + (\<Sum>q\<leftarrow>take (Suc k) qs. dval (rq_cost q))) \<and>
    dval (fst (snd (foldl (overshoot_step cap) (spent, tokens, False) qs))) =
      dval tokens + (\<Sum>q\<leftarrow>drop k qs. dval (rq_tokens q))"
  using assms
proof (induction qs arbitrary: spent)
  case Nil
  then show ?case by simp
next
  case (Cons q qs)
  let ?s = "Add spent (rq_cost q)"
  have q: "wf_decimal (rq_cost q)" "wf_decimal (rq_tokens q)" "list_all fine_request qs"
    using Cons.prems(1) fine_request_def [of q] by simp_all
  have s: "dval ?s = dval spent + dval (rq_cost q)" "wf_decimal ?s" using q Cons.prems by simp_all
  show ?case
  proof (cases "dval cap < dval ?s")
    case True
    have "wf_decimal (Add tokens (rq_tokens q))" using q Cons.prems by simp
    from overshoot_fold [OF q(3) s(2) this Cons.prems(4)]
    have "dval (fst (snd (foldl (overshoot_step cap) (?s, Add tokens (rq_tokens q), True) qs))) =
        dval tokens + dval (rq_tokens q) + (\<Sum>q\<leftarrow>qs. dval (rq_tokens q))"
      using q Cons.prems(3) by simp
    moreover have "overshoot_step cap (spent, tokens, False) q = (?s, Add tokens (rq_tokens q), True)"
      using True s q Cons.prems by (simp add: overshoot_step_def Let_def)
    ultimately show ?thesis using True s(1) by (intro exI [of _ 0]) (simp add: add.assoc)
  next
    case False
    from Cons.IH [OF q(3) s(2) Cons.prems(3,4)] obtain k where k: "k \<le> length qs"
      "\<forall>m. 0 < m \<and> m \<le> k \<longrightarrow> dval ?s + (\<Sum>q\<leftarrow>take m qs. dval (rq_cost q)) \<le> dval cap"
      "k < length qs \<longrightarrow> dval cap < dval ?s + (\<Sum>q\<leftarrow>take (Suc k) qs. dval (rq_cost q))"
      "dval (fst (snd (foldl (overshoot_step cap) (?s, tokens, False) qs))) =
         dval tokens + (\<Sum>q\<leftarrow>drop k qs. dval (rq_tokens q))"
      by blast
    have "dval spent + (\<Sum>q\<leftarrow>take m (q # qs). dval (rq_cost q)) \<le> dval cap" if pos: "0 < m" "m \<le> Suc k" for m
    proof (cases "m = 1")
      case True
      then show ?thesis using False s by simp
    next
      case f: False
      then obtain n where "m = Suc n" "0 < n" "n \<le> k" using pos f by (cases m) auto
      then show ?thesis using k(2) s(1) by (simp add: add.assoc)
    qed
    moreover have "overshoot_step cap (spent, tokens, False) q = (?s, tokens, False)"
      using False s q Cons.prems by (simp add: overshoot_step_def Let_def)
    ultimately show ?thesis using k s(1) by (intro exI [of _ "Suc k"]) (simp add: add.assoc)
  qed
qed

section \<open>The total of the figures\<close>

lemma sum_by_keys:
  fixes f :: "'x \<Rightarrow> rat"
  assumes "distinct ks"
  shows "(\<Sum>k\<leftarrow>ks. \<Sum>x\<leftarrow>filter (\<lambda>x. key x = k) xs. f x) = (\<Sum>x\<leftarrow>filter (\<lambda>x. key x \<in> set ks) xs. f x)"
proof (induction xs)
  case Nil
  show ?case by simp
next
  case (Cons x xs)
  have "(\<Sum>k\<leftarrow>ks. \<Sum>y\<leftarrow>filter (\<lambda>x. key x = k) (x # xs). f y) =
      (\<Sum>k\<leftarrow>ks. (if key x = k then f x else 0) + (\<Sum>y\<leftarrow>filter (\<lambda>x. key x = k) xs. f y))"
    by (intro arg_cong [where f = sum_list] map_cong) simp_all
  also have "\<dots> = (\<Sum>k\<leftarrow>ks. if key x = k then f x else 0) + (\<Sum>y\<leftarrow>filter (\<lambda>x. key x \<in> set ks) xs. f y)"
    by (simp add: sum_list_addf Cons)
  also have "(\<Sum>k\<leftarrow>ks. if key x = k then f x else 0) = (if key x \<in> set ks then f x else 0)"
    using assms by (simp add: sum_list_distinct_conv_sum_set sum.delta')
  finally show ?case by simp
qed

lemma shown_cost:
  assumes "f \<in> set (le_Figures (tally_ledger (foldl tally_item no_tally items)))"
    and "\<forall>i\<in>set items. sound_line (it_priced i)"
  shows "wf_decimal (fi_Cost f)" "dval (fi_Cost f) = (\<Sum>i\<leftarrow>filter (\<lambda>i. it_key i = fkey f) items. dval (tr_Cost (it_priced i)))"
    "fkey f \<in> it_key ` set items"
proof -
  let ?own = "filter (\<lambda>i. it_key i = fkey f) items"
  have own: "\<forall>i\<in>set ?own. sound_line (it_priced i)" using assms(2) by simp
  obtain n g where k: "fkey f \<in> it_key ` set items" and g: "g = withTrace (fkey f, figure_sum ?own)"
    and fg: "f = g\<lparr>fi_TraceOmitted := length (fi_Trace g) - n, fi_Trace := take n (fi_Trace g)\<rparr>"
    using shown_figure [OF assms(1)] by blast
  have c: "fi_Cost f = ft_Cost (figure_sum ?own)"
  proof -
    have "fi_Cost f = fi_Cost g" by (simp add: fg)
    then show ?thesis unfolding g withTrace_fields .
  qed
  show "fkey f \<in> it_key ` set items" by (rule k)
  show "dval (fi_Cost f) = (\<Sum>i\<leftarrow>?own. dval (tr_Cost (it_priced i)))"
    unfolding c by (rule figure_sums(1) [OF own])
  have "\<forall>x\<in>set (map (\<lambda>i. tr_Cost (it_priced i)) ?own). wf_decimal x"
    using own by (auto simp: sound_line_def simp del: split_paired_All)
  then show "wf_decimal (fi_Cost f)"
    unfolding c figure_fold by (intro dec.ok_foldl) (simp_all add: no_figure_def)
qed

lemma shown_total:
  fixes items :: "row_item list"
  defines "l \<equiv> tally_ledger (foldl tally_item no_tally items)"
  assumes "\<forall>i\<in>set items. sound_line (it_priced i)" "le_FiguresOmitted l = 0"
  shows "wf_decimal (foldl Add zero_decimal (map fi_Cost (filter P (le_Figures l))))"
    "dval (foldl Add zero_decimal (map fi_Cost (filter (\<lambda>f. fi_Currency f = c) (le_Figures l)))) =
       (\<Sum>i\<leftarrow>filter (\<lambda>i. fst (it_key i) = c) items. dval (tr_Cost (it_priced i)))"
    "fkey ` set (le_Figures l) = it_key ` set items"
proof -
  note fig = shown_cost [OF _ assms(2), folded l_def]
  note figs = shown_figures [of items, folded l_def]
  let ?fs = "filter (\<lambda>f. fi_Currency f = c) (le_Figures l)"
  have wf: "\<forall>x\<in>set (map fi_Cost (filter Q (le_Figures l))). wf_decimal x" for Q using fig(1) by auto
  then show "wf_decimal (foldl Add zero_decimal (map fi_Cost (filter P (le_Figures l))))" by (rule dec.ok_total)
  have "fkey ` set (le_Figures l) \<subseteq> it_key ` set items" using fig(3) by blast
  moreover have "card (fkey ` set (le_Figures l)) = card (it_key ` set items)"
    using distinct_card [OF figs(1)] figs(3) assms(3) by simp
  ultimately show keys: "fkey ` set (le_Figures l) = it_key ` set items" by (simp add: card_subset_eq)
  have dist: "distinct (map fkey ?fs)" using figs(1) by (simp add: distinct_map_filter)
  have fst_key: "fst (fkey f) = fi_Currency f" for f by (simp add: fkey_def)
  have "dval (foldl Add zero_decimal (map fi_Cost ?fs)) = (\<Sum>f\<leftarrow>?fs. dval (fi_Cost f))"
    using dec.val_total [OF wf] by (simp add: comp_def)
  also have "\<dots> = (\<Sum>f\<leftarrow>?fs. \<Sum>i\<leftarrow>filter (\<lambda>i. it_key i = fkey f) items. dval (tr_Cost (it_priced i)))"
    using fig(2) by (intro arg_cong [where f = sum_list] map_cong) auto
  also have "\<dots> = (\<Sum>k\<leftarrow>map fkey ?fs. \<Sum>i\<leftarrow>filter (\<lambda>i. it_key i = k) items. dval (tr_Cost (it_priced i)))"
    by (simp only: map_map comp_def)
  also have "\<dots> = (\<Sum>i\<leftarrow>filter (\<lambda>i. it_key i \<in> set (map fkey ?fs)) items. dval (tr_Cost (it_priced i)))"
    by (rule sum_by_keys [OF dist])
  also have "filter (\<lambda>i. it_key i \<in> set (map fkey ?fs)) items = filter (\<lambda>i. fst (it_key i) = c) items"
  proof (rule filter_cong [OF refl])
    fix i assume i: "i \<in> set items"
    then have "it_key i \<in> fkey ` set (le_Figures l)" unfolding keys by (rule imageI)
    then obtain f where f: "f \<in> set (le_Figures l)" "it_key i = fkey f" by blast
    show "it_key i \<in> set (map fkey ?fs) \<longleftrightarrow> fst (it_key i) = c"
    proof
      assume "it_key i \<in> set (map fkey ?fs)"
      then obtain g where "it_key i = fkey g" "fi_Currency g = c" by auto
      then show "fst (it_key i) = c" by (simp only: fst_key)
    next
      assume "fst (it_key i) = c"
      then have "f \<in> set ?fs" using f by (simp add: fst_key)
      then show "it_key i \<in> set (map fkey ?fs)" unfolding f(2) set_map by (rule imageI)
    qed
  qed
  finally show "dval (foldl Add zero_decimal (map fi_Cost ?fs)) =
      (\<Sum>i\<leftarrow>filter (\<lambda>i. fst (it_key i) = c) items. dval (tr_Cost (it_priced i)))" .
qed

text \<open>The requests a ledger keeps of one currency and basis.\<close>

lemma kept_requests:
  fixes items :: "row_item list"
  assumes "map_of (le_requests (tally_ledger (foldl tally_item no_tally items))) k = Some g"
    and "\<forall>i\<in>set items. priced_fine (it_priced i)" "\<not> rg_overflow g"
  shows "list_all fine_request (rg_requests g)"
    "request_costs g = (\<Sum>i\<leftarrow>filter (\<lambda>i. budget_key i = k) items. dval (tr_Cost (it_priced i)))"
    "request_tokens g = (\<Sum>i\<leftarrow>filter (\<lambda>i. budget_key i = k) items. billed_tokens (it_priced i))"
proof -
  let ?own = "filter (\<lambda>i. budget_key i = k) items"
  have "map_of (foldl (\<lambda>m i. upsert (budget_key i) no_log (request_item i) m) [] items) k = Some g"
    using assms(1) by (simp add: tally_ledger_def Let_def tally_fold) (simp add: no_tally_def)
  then have g: "g = foldl (\<lambda>l i. request_item i l) no_log ?own"
    unfolding map_of_keyed_fold [where key = budget_key and fresh = "\<lambda>_. no_log" and upd = request_item]
    by (cases "?own = []") simp_all
  have p: "\<forall>i\<in>set ?own. priced_fine (it_priced i)" using assms(2) by simp
  have "list_all fine_request (rg_requests no_log)" by (simp add: no_log_def)
  note folded = request_fold [OF p this, folded g]
  have z: "request_costs no_log = 0" "request_tokens no_log = 0"
    by (simp_all add: request_costs_def request_tokens_def no_log_def)
  show "list_all fine_request (rg_requests g)" using folded by blast
  show "request_costs g = (\<Sum>i\<leftarrow>?own. dval (tr_Cost (it_priced i)))"
    "request_tokens g = (\<Sum>i\<leftarrow>?own. billed_tokens (it_priced i))"
    using folded assms(3) z by simp_all
qed

section \<open>The cap is exact\<close>

lemma priced_from_row: "read_item decode line = Some i \<Longrightarrow> priced_fine (it_priced i)"
  using arithmetic_ok [OF read_item_sound(5)] by (simp add: priced_fine_def)

lemma overshoot_exact:
  fixes items :: "row_item list"
  defines "l \<equiv> tally_ledger (foldl tally_item no_tally items)"
  assumes fine: "\<forall>i\<in>set items. priced_fine (it_priced i)" and cap: "wf_decimal cap"
    and n: "overshootTokens l currency basis cap = Some n"
    and own: "own = filter (\<lambda>i. budget_key i = (currency, basis)) items"
  shows "0 \<le> dval n" "dval n \<le> (\<Sum>i\<leftarrow>own. billed_tokens (it_priced i))"
    "own \<noteq> [] \<Longrightarrow> (\<Sum>i\<leftarrow>own. dval (tr_Cost (it_priced i))) \<le> dval cap \<Longrightarrow> dval n = 0"
proof -
  obtain g where g: "map_of (le_requests l) (currency, basis) = Some g" "\<not> rg_overflow g"
    and n': "n = fst (snd (foldl (overshoot_step cap) (zero_decimal, zero_decimal, False) (sort_key rq_end (rg_requests g))))"
    using n by (auto simp: overshootTokens_def split: option.splits if_splits)
  note kept = kept_requests [OF g(1) [unfolded l_def] fine g(2), folded own]
  let ?qs = "sort_key rq_end (rg_requests g)"
  have qs: "list_all fine_request ?qs" using kept(1) by (simp add: list_all_iff)
  have sums: "(\<Sum>q\<leftarrow>?qs. dval (rq_cost q)) = request_costs g" "(\<Sum>q\<leftarrow>?qs. dval (rq_tokens q)) = request_tokens g"
    unfolding request_costs_def request_tokens_def
    by (simp_all only: sum_mset_sum_list [symmetric] mset_map mset_sort)
  obtain k where k: "k \<le> length ?qs"
    "k < length ?qs \<longrightarrow> dval cap < 0 + (\<Sum>q\<leftarrow>take (Suc k) ?qs. dval (rq_cost q))"
    "dval n = 0 + (\<Sum>q\<leftarrow>drop k ?qs. dval (rq_tokens q))"
    using overshoot_split [OF qs zero_decimal_wf zero_decimal_wf cap] unfolding n' by auto
  have part: "(\<Sum>q\<leftarrow>?qs. h q) = (\<Sum>q\<leftarrow>take m ?qs. h q) + (\<Sum>q\<leftarrow>drop m ?qs. h q)" for m and h :: "_ \<Rightarrow> rat"
    by (metis append_take_drop_id map_append sum_list_append)
  have pos: "0 \<le> (\<Sum>q\<leftarrow>take m ?qs. dval (rq_tokens q))" "0 \<le> (\<Sum>q\<leftarrow>drop m ?qs. dval (rq_tokens q))"
    "0 \<le> (\<Sum>q\<leftarrow>drop m ?qs. dval (rq_cost q))" for m
    using qs by (auto intro!: sum_list_nonneg simp: list_all_iff fine_request_def dest!: in_set_takeD in_set_dropD)
  show "0 \<le> dval n" using k(3) pos(2) by simp
  show "dval n \<le> (\<Sum>i\<leftarrow>own. billed_tokens (it_priced i))"
    using k(3) part [of "\<lambda>q. dval (rq_tokens q)" k] pos(1) [of k] sums kept by simp
  show "dval n = 0" if "(\<Sum>i\<leftarrow>own. dval (tr_Cost (it_priced i))) \<le> dval cap"
  proof (cases "k < length ?qs")
    case True
    then have "dval cap < (\<Sum>q\<leftarrow>take (Suc k) ?qs. dval (rq_cost q))" using k(2) by simp
    also have "\<dots> \<le> (\<Sum>q\<leftarrow>?qs. dval (rq_cost q))" using part [of "\<lambda>q. dval (rq_cost q)" "Suc k"] pos(3) by simp
    finally show ?thesis using that sums kept by simp
  next
    case False
    then show ?thesis using k(1,3) by simp
  qed
qed

text \<open>
  C38. A cap compared with the figures is compared with the exact total: every row in the cap's currency
  has the basis it names, the cost is the sum of those rows' costs, and the cost and the remainder add up
  to the cap and the overshoot, one of which is zero. The tokens past the cap, when stated, are at most
  the billed tokens of those rows, and none when the rows stay within the cap.
\<close>

theorem cap_check_exact:
  assumes reads: "ReadRows decode source = Inr (ip_Ledger i)" and budget: "ip_Budget i = Some amount" "wf_decimal amount"
    and check: "capCheck i = Some c" "cc_compared c"
  shows "\<exists>items held. map (read_item decode) (row_lines source) = map Some items \<and>
    held = filter (\<lambda>h. fst (it_key h) = ''USD'') items \<and> held \<noteq> [] \<and>
    (\<forall>h\<in>set held. fst (snd (it_key h)) = cc_basis c) \<and>
    dval (cc_cost c) = (\<Sum>h\<leftarrow>held. dval (tr_Cost (it_priced h))) \<and>
    dval (cc_cost c) + dval (cc_remainder c) = dval amount + dval (cc_overshoot c) \<and>
    0 \<le> dval (cc_remainder c) \<and> 0 \<le> dval (cc_overshoot c) \<and>
    (dval (cc_remainder c) = 0 \<or> dval (cc_overshoot c) = 0) \<and>
    (\<forall>n. cc_overshootTokens c = Some n \<longrightarrow>
       0 \<le> dval n \<and> dval n \<le> (\<Sum>h\<leftarrow>held. billed_tokens (it_priced h)) \<and>
       (dval (cc_overshoot c) = 0 \<longrightarrow> dval n = 0))"
proof -
  obtain items where items: "map (read_item decode) (row_lines source) = map Some items"
    and l: "ip_Ledger i = tally_ledger (foldl tally_item no_tally items)"
    using reads unfolding read_rows_items by blast
  have sound: "\<forall>h\<in>set items. sound_line (it_priced h)" "\<forall>h\<in>set items. priced_fine (it_priced h)"
    using read_all_items [OF items] read_item_sound(1) priced_from_row by blast+
  let ?figs = "le_Figures (ip_Ledger i)"
  let ?held = "filter (\<lambda>f. fi_Currency f = ''USD'') ?figs"
  let ?cost = "foldl Add zero_decimal (map fi_Cost ?held)"
  let ?basis = "fi_Basis (last ?held)"
  let ?over = "Sub ?cost amount"
  have one: "length (remdups (map fi_Basis ?held)) = 1" "le_FiguresOmitted (ip_Ledger i) = 0"
    using check budget by (auto simp: capCheck_def Let_def bare_check_def split: if_splits)
  have c: "cc_cost c = ?cost" "cc_basis c = ?basis" "cc_overshoot c = (if 0 < Sign ?over then ?over else zero_decimal)"
    "cc_remainder c = (if 0 < Sign ?over then zero_decimal else Sub amount ?cost)"
    "cc_overshootTokens c = overshootTokens (ip_Ledger i) ''USD'' ?basis amount"
    using check budget one by (auto simp: capCheck_def Let_def bare_check_def)
  note total = shown_total [OF sound(1) one(2) [unfolded l], folded l]
  let ?own = "filter (\<lambda>h. fst (it_key h) = ''USD'') items"
  have cost: "dval (cc_cost c) = (\<Sum>h\<leftarrow>?own. dval (tr_Cost (it_priced h)))" unfolding c(1) by (rule total(2))
  have wf: "wf_decimal ?cost" by (rule total(1))
  have bases: "fi_Basis f = ?basis" if "f \<in> set ?held" for f
  proof -
    have "card (fi_Basis ` set ?held) = 1" using one(1) by (simp add: length_remdups_card_conv)
    then obtain b where b: "fi_Basis ` set ?held = {b}" by (rule card_1_singletonE)
    have only: "fi_Basis g = b" if "g \<in> set ?held" for g
    proof -
      have "fi_Basis g \<in> fi_Basis ` set ?held" using that by (rule imageI)
      then show ?thesis unfolding b by (rule singletonD)
    qed
    have "?held \<noteq> []" using that by (auto simp: filter_empty_conv)
    then have "last ?held \<in> set ?held" by (rule last_in_set)
    then show ?thesis using only that by simp
  qed
  have owned: "fst (snd (it_key h)) = cc_basis c" if h: "h \<in> set ?own" for h
  proof -
    have "it_key h \<in> fkey ` set ?figs" unfolding total(3) using h by (intro imageI) simp
    then obtain f where f: "f \<in> set ?figs" "it_key h = fkey f" by blast
    then have "f \<in> set ?held" using h by (simp add: fkey_def)
    then show ?thesis unfolding c(2) f(2) using bases by (simp add: fkey_def)
  qed
  have "?held \<noteq> []" using one(1) by force
  then obtain f where f: "f \<in> set ?figs" "fi_Currency f = ''USD''" by (auto simp: filter_empty_conv)
  have "fkey f \<in> it_key ` set items" unfolding total(3) [symmetric] using f(1) by (rule imageI)
  then obtain h where h: "h \<in> set items" "fkey f = it_key h" by blast
  then have "fst (it_key h) = ''USD''" using f(2) by (metis fkey_def fst_conv)
  then have ne: "?own \<noteq> []" using h(1) unfolding filter_empty_conv by blast
  have same: "?own = filter (\<lambda>h. budget_key h = (''USD'', cc_basis c)) items"
    using owned by (intro filter_cong refl) (auto simp: budget_key_def simp del: split_paired_All)
  have sums: "dval (cc_cost c) + dval (cc_remainder c) = dval amount + dval (cc_overshoot c)"
    "0 \<le> dval (cc_remainder c)" "0 \<le> dval (cc_overshoot c)"
    "dval (cc_remainder c) = 0 \<or> dval (cc_overshoot c) = 0"
    "dval (cc_overshoot c) = 0 \<longrightarrow> dval (cc_cost c) \<le> dval amount"
    using wf budget(2) by (simp_all add: c)
  have tokens: "0 \<le> dval n \<and> dval n \<le> (\<Sum>h\<leftarrow>?own. billed_tokens (it_priced h)) \<and>
       (dval (cc_overshoot c) = 0 \<longrightarrow> dval n = 0)"
    if n: "cc_overshootTokens c = Some n" for n
  proof -
    have "overshootTokens (tally_ledger (foldl tally_item no_tally items)) ''USD'' (cc_basis c) amount = Some n"
      using n unfolding c(5) c(2) l .
    note exact = overshoot_exact [OF sound(2) budget(2) this same]
    show ?thesis using exact(1,2) exact(3) [OF ne] sums(5) cost by linarith
  qed
  show ?thesis
    using items ne owned cost sums tokens by (intro exI [of _ items] exI [of _ ?own]) blast
qed

lemma one_key:
  fixes items :: "row_item list"
  defines "l \<equiv> tally_ledger (foldl tally_item no_tally items)"
  assumes "it_key ` set items = {k}"
  shows "le_FiguresOmitted l = 0" "\<exists>f. le_Figures l = [f] \<and> fkey f = k"
proof -
  note figs = shown_figures [of items, folded l_def, unfolded assms(2)]
  show z: "le_FiguresOmitted l = 0" using figs(6) by (simp add: maxFigures_def)
  then obtain f where f: "le_Figures l = [f]" using figs(3) by (auto simp: length_Suc_conv)
  then have "f \<in> set (le_Figures (tally_ledger (foldl tally_item no_tally items)))" by (simp add: l_def)
  from shown_figure [OF this] have "fkey f \<in> it_key ` set items" by blast
  then show "\<exists>f. le_Figures l = [f] \<and> fkey f = k" using f assms(2) by simp
qed

lemma sample_key: "figure_key_of (sample_comment_row a q t) = Inr (''USD'', ''measured'', ''unattributed'', ''none'')"
  by code_simp

theorem cap_check_exact_witness:
  "\<exists>i c. capCheck i = Some c \<and> cc_compared c \<and> dval (cc_cost c) + dval (cc_remainder c) = 5 + dval (cc_overshoot c)"
proof -
  obtain l where l: "ReadRows sample_comment_rows sample_comment_file = Inr l" using sample_comment_reads by blast
  then obtain items where items: "map (read_item sample_comment_rows) (row_lines sample_comment_file) = map Some items"
      "l = tally_ledger (foldl tally_item no_tally items)"
    unfolding read_rows_items by blast
  have "row_lines sample_comment_file = [''a'', ''b'']" by code_simp
  then have len: "length items = 2" using arg_cong [OF items(1), of length] by simp
  have key: "it_key h = (''USD'', ''measured'', ''unattributed'', ''none'')" if h: "h \<in> set items" for h
  proof -
    obtain line where "read_item sample_comment_rows line = Some h" using read_all_items [OF items(1) h] by blast
    then show ?thesis
      by (auto simp: read_item_def sample_comment_rows_def sample_key split: option.splits if_splits sum.splits)
  qed
  have "it_key ` set items = {(''USD'', ''measured'', ''unattributed'', ''none'')}"
    using key len by (cases items) auto
  from one_key [OF this, folded items(2)] obtain f where f: "le_Figures l = [f]" "le_FiguresOmitted l = 0"
    "fkey f = (''USD'', ''measured'', ''unattributed'', ''none'')" by blast
  let ?i = "sample_input\<lparr>ip_Ledger := l, ip_Budget := Some (FromInt 5)\<rparr>"
  have "fi_Currency f = ''USD''" using f(3) by (simp add: fkey_def)
  then obtain c where c: "capCheck ?i = Some c" "cc_compared c" using f by (simp add: capCheck_def Let_def)
  have r: "ReadRows sample_comment_rows sample_comment_file = Inr (ip_Ledger ?i)" using l by simp
  have b: "ip_Budget ?i = Some (FromInt 5)" "wf_decimal (FromInt 5)" by simp_all
  have "dval (cc_cost c) + dval (cc_remainder c) = dval (FromInt 5) + dval (cc_overshoot c)"
    using cap_check_exact [OF r b c] by blast
  then show ?thesis using c by (intro exI [of _ ?i] exI [of _ c]) simp
qed

end
