(* ===== verification/CommentConfig.thy ===== *)
theory CommentConfig
  imports PolicyUsage
begin

text \<open>
  \<open>internal/comment/config.go\<close>: what the comment reads of \<open>costroid.yml\<close>, and the keys it names as unread.
  \<open>parse\<close> is the YAML parser, as in \<open>PolicyUsage\<close>; \<open>decode_bool\<close> is its reading of a scalar node, by tag
  and text, into a bool.
\<close>

datatype config_fault = UnparsedConfig | NotAMapping | CommentNotAMapping | BadShowCost

text \<open>The value of a mapping's key: the first of that name, and an alias as the node it names.\<close>

definition yaml_child :: "yaml \<Rightarrow> string \<Rightarrow> yaml option" where
  "yaml_child node key =
     (case node of
        YMapping _ kvs \<Rightarrow>
          (case map_of kvs key of None \<Rightarrow> None | Some v \<Rightarrow> Some (case v of YAlias target \<Rightarrow> target | _ \<Rightarrow> v))
      | _ \<Rightarrow> None)"

definition is_mapping :: "yaml \<Rightarrow> bool" where
  "is_mapping node = (case node of YMapping _ _ \<Rightarrow> True | _ \<Rightarrow> False)"

definition readShowCost :: "(string \<Rightarrow> string \<Rightarrow> bool option) \<Rightarrow> yaml option \<Rightarrow> config_fault + bool" where
  "readShowCost decode_bool doc =
     (case Option.bind doc (\<lambda>n. yaml_child n ''comment'') of
        None \<Rightarrow> Inr True
      | Some section_node \<Rightarrow>
          if y_tag section_node = ''!!null'' then Inr True
          else if \<not> is_mapping section_node then Inl CommentNotAMapping
          else (case yaml_child section_node ''show_cost'' of
                  None \<Rightarrow> Inr True
                | Some (YScalar tag value) \<Rightarrow>
                    if tag = ''!!bool'' then Inr (value = ''true'')
                    else (case decode_bool tag value of None \<Rightarrow> Inl BadShowCost | Some show \<Rightarrow> Inr show)
                | Some _ \<Rightarrow> Inl BadShowCost))"

definition reservedKeys :: "string list" where
  "reservedKeys = [''policy_pack'', ''budget_owner'', ''assumptions'', ''catalog'', ''agents'']"

text \<open>The keys read under a mapping; the policy's own package names its keys.\<close>

definition knownKeys :: "string list \<Rightarrow> string list \<Rightarrow> string \<Rightarrow> string list option" where
  "knownKeys policy_keys approval_keys parent =
     (if parent = [] then Some [''comment'', ''policy'', ''approval'']
      else if parent = ''comment'' then Some [''show_cost'']
      else if parent = ''policy'' then Some policy_keys
      else if parent = ''approval'' then Some approval_keys else None)"

definition printableKey :: "string \<Rightarrow> bool" where
  "printableKey = of_class (\<lambda>c. is_alnum c \<or> c \<in> {CHR ''_'', CHR ''.'', CHR ''-''}) 1 64"

definition unknownKey :: "string \<Rightarrow> string" where
  "unknownKey path =
     (if \<not> printableKey path
      then ''a key with characters outside A-Z, a-z, 0-9, _, . and - is not one Costroid reads, so it has no effect''
      else path @ '' is not a key Costroid reads, so it has no effect'')"

text \<open>
  The walk visits a mapping's keys in the file's order and goes into a key that names a mapping of its
  own. An alias is not a mapping here. A document is two mappings deep, which bounds the walk.
\<close>

definition key_path :: "string \<Rightarrow> string \<Rightarrow> string" where
  "key_path parent key = (if parent = [] then key else parent @ ''.'' @ key)"

fun unread_walk :: "(string \<Rightarrow> string list option) \<Rightarrow> nat \<Rightarrow> string \<Rightarrow> yaml \<Rightarrow> string list" where
  "unread_walk known 0 parent node = []"
| "unread_walk known (Suc n) parent node =
     (case node of
        YMapping _ kvs \<Rightarrow>
          concat (map (\<lambda>(key, value).
            let path = key_path parent key
            in if parent = [] \<and> key \<in> set reservedKeys
               then [key @ '' is reserved and not read yet, so it has no effect'']
               else if key \<notin> set (case known parent of None \<Rightarrow> [] | Some ks \<Rightarrow> ks) then [unknownKey path]
               else if known path \<noteq> None then unread_walk known n path value else []) kvs)
      | _ \<Rightarrow> [])"

definition unreadKeys :: "(string \<Rightarrow> string list option) \<Rightarrow> yaml option \<Rightarrow> string list" where
  "unreadKeys known doc = (case doc of None \<Rightarrow> [] | Some node \<Rightarrow> unread_walk known 3 [] node)"

text \<open>The settings with the warnings the report's log shows.\<close>

definition ParseConfig ::
    "(string \<Rightarrow> yaml option option) \<Rightarrow> (string \<Rightarrow> string \<Rightarrow> bool option) \<Rightarrow> (string \<Rightarrow> string list option) \<Rightarrow>
     string \<Rightarrow> config_fault + (bool \<times> string list)" where
  "ParseConfig parse decode_bool known data =
     (case parse data of
        None \<Rightarrow> Inl UnparsedConfig
      | Some doc \<Rightarrow>
          if (case doc of None \<Rightarrow> False | Some node \<Rightarrow> \<not> is_mapping node \<and> y_tag node \<noteq> ''!!null'') then Inl NotAMapping
          else rmap (\<lambda>show. (show, unreadKeys known doc)) (readShowCost decode_bool doc))"

text \<open>No warning repeats a character outside the printable ones, so a job log carries no command.\<close>

definition plain_char :: "char \<Rightarrow> bool" where
  "plain_char c \<longleftrightarrow> is_alnum c \<or> c \<in> {CHR ''_'', CHR ''.'', CHR ''-'', CHR '','', CHR '' ''}"

lemma unknownKey_plain: "list_all plain_char (unknownKey path)"
proof (cases "printableKey path")
  case True
  have "list_all plain_char '' is not a key Costroid reads, so it has no effect''" by code_simp
  moreover have "list_all plain_char path"
    using True by (auto simp: printableKey_def of_class_def list_all_iff plain_char_def)
  ultimately show ?thesis using True by (simp add: unknownKey_def)
next
  case False
  have "list_all plain_char ''a key with characters outside A-Z, a-z, 0-9, _, . and - is not one Costroid reads, so it has no effect''"
    by code_simp
  then show ?thesis using False by (simp add: unknownKey_def)
qed

lemma unreadKeys_plain: "w \<in> set (unread_walk known n parent node) \<Longrightarrow> list_all plain_char w"
proof (induction known n parent node rule: unread_walk.induct)
  case (1 known parent node)
  then show ?case by simp
next
  case (2 known n parent node)
  have r: "list_all plain_char (key @ '' is reserved and not read yet, so it has no effect'')" if "key \<in> set reservedKeys" for key
  proof -
    have "list_all (\<lambda>key. list_all plain_char (key @ '' is reserved and not read yet, so it has no effect'')) reservedKeys"
      by code_simp
    then show ?thesis using that unfolding list_all_iff [of _ reservedKeys] by (rule bspec)
  qed
  from "2.prems" obtain tag kvs where node: "node = YMapping tag kvs" by (auto split: yaml.splits)
  with "2.prems" obtain key v where kv: "(key, v) \<in> set kvs"
    "w \<in> set (let path = key_path parent key
            in if parent = [] \<and> key \<in> set reservedKeys
               then [key @ '' is reserved and not read yet, so it has no effect'']
               else if key \<notin> set (case known parent of None \<Rightarrow> [] | Some ks \<Rightarrow> ks) then [unknownKey path]
               else if known path \<noteq> None then unread_walk known n path v else [])"
    by (auto simp del: unread_walk.simps(2) simp: unread_walk.simps(2) [of known n parent "YMapping tag kvs"])
  consider "w = key @ '' is reserved and not read yet, so it has no effect''" "key \<in> set reservedKeys"
    | "w = unknownKey (key_path parent key)"
    | "\<not> (parent = [] \<and> key \<in> set reservedKeys)" "\<not> key \<notin> set (case known parent of None \<Rightarrow> [] | Some ks \<Rightarrow> ks)"
      "known (key_path parent key) \<noteq> None" "w \<in> set (unread_walk known n (key_path parent key) v)"
    using kv(2) unfolding Let_def by (auto split: if_splits)
  then show ?case
  proof cases
    case 1
    then show ?thesis using r by simp
  next
    case 2
    then show ?thesis by (simp only: unknownKey_plain)
  next
    case 3
    show ?thesis using "2.IH" [OF node kv(1) refl refl 3] by simp
  qed
qed

end
