(* ===== verification/History.thy ===== *)
theory History
  imports CommentCap Fanout
begin

text \<open>
  \<open>internal/history\<close>: the result objects earlier reports posted on a pull request's commits, read back and
  added up. \<open>decode\<close> is \<open>encoding/json\<close>'s reading of a result object; the host's lists of commits and check
  runs are the parameters \<open>commits_of\<close> and \<open>checks_of\<close>. The goroutines of \<open>readCommits\<close> each fill a slot of
  their own, so their result is a map over the commits.
\<close>

section \<open>Reading one object\<close>

definition maxText :: nat where
  "maxText = 1048576"

abbreviation fence :: string where "fence \<equiv> ''```json'' @ [CHR 0x0A]"

abbreviation fenceEnd :: string where "fenceEnd \<equiv> [CHR 0x0A] @ ''```''"

abbreviation digestSchema :: string where "digestSchema \<equiv> ''costroid.result/0.6''"

definition schemas :: "string list" where
  "schemas = [''costroid.result/0.3'', ''costroid.result/0.4'', ''costroid.result/0.5'', digestSchema]"

record history_report =
  hr_CheckRun :: int
  hr_Block :: result_object
  hr_RowsSHA256 :: string

datatype history_error =
    ObjectUnread
  | OtherResultSchema string
  | AmountsWithheld
  | FiguresLeftOut
  | NotADigest
  | FigureRefused figure_fault
  | TextTooLong
  | TextNotFenced
  | HostError string

fun check_figures :: "block_figure list \<Rightarrow> history_error option" where
  "check_figures [] = None"
| "check_figures (f # fs) = (case FigureCost f of Inl e \<Rightarrow> Some (FigureRefused e) | Inr _ \<Rightarrow> check_figures fs)"

definition ParseObject :: "(string \<Rightarrow> result_object option) \<Rightarrow> string \<Rightarrow> history_error + history_report" where
  "ParseObject decode object =
     (case decode object of
        None \<Rightarrow> Inl ObjectUnread
      | Some b \<Rightarrow>
          if bk_Schema b \<notin> set schemas then Inl (OtherResultSchema (Clean (bk_Schema b)))
          else if bk_Amounts b \<noteq> ''shown'' then Inl AmountsWithheld
          else if bk_FiguresOmitted b \<noteq> 0 then Inl FiguresLeftOut
          else if (case bk_RowsSHA256 b of None \<Rightarrow> False | Some d \<Rightarrow> \<not> hex64 d) then Inl NotADigest
          else (case check_figures (bk_Figures b) of
                  Some e \<Rightarrow> Inl e
                | None \<Rightarrow> Inr \<lparr>hr_CheckRun = 0, hr_Block = b,
                    hr_RowsSHA256 = (if bk_Schema b = digestSchema
                       then (case bk_RowsSHA256 b of None \<Rightarrow> [] | Some d \<Rightarrow> d) else [])\<rparr>))"

definition parseText :: "(string \<Rightarrow> result_object option) \<Rightarrow> string \<Rightarrow> history_error + history_report" where
  "parseText decode t =
     (if maxText < length t then Inl TextTooLong
      else (let (object, opens) = cut_prefix t fence; (object', closes) = cut_suffix object fenceEnd
            in if \<not> opens \<or> \<not> closes then Inl TextNotFenced else ParseObject decode object'))"

type_synonym listed_check = "int \<times> string"

definition CheckRunBlocks ::
    "(string \<Rightarrow> result_object option) \<Rightarrow> (string \<Rightarrow> string + listed_check list) \<Rightarrow> string \<Rightarrow>
     history_error + (history_report list \<times> nat)" where
  "CheckRunBlocks decode checks_of sha =
     (case checks_of sha of
        Inl e \<Rightarrow> Inl (HostError e)
      | Inr checks \<Rightarrow>
          Inr (concat (map (\<lambda>(i, t). case parseText decode t of Inl _ \<Rightarrow> [] | Inr r \<Rightarrow> [r\<lparr>hr_CheckRun := i\<rparr>]) checks),
               length (filter (\<lambda>(i, t). \<not> is_ok (parseText decode t)) checks)))"

section \<open>Adding reports up\<close>

text \<open>A report whose digest was stated before is a repeat; one without a digest never is.\<close>

fun not_repeated :: "string set \<Rightarrow> history_report list \<Rightarrow> history_report list" where
  "not_repeated seen [] = []"
| "not_repeated seen (r # rs) =
     (if hr_RowsSHA256 r \<noteq> [] \<and> hr_RowsSHA256 r \<in> seen then not_repeated seen rs
      else r # not_repeated (if hr_RowsSHA256 r \<noteq> [] then insert (hr_RowsSHA256 r) seen else seen) rs)"

definition add_total_figure ::
    "history_report \<Rightarrow> (string \<times> string) list \<times> ((string \<times> string) \<times> lifetime_figure) list \<Rightarrow> block_figure \<Rightarrow>
     history_error + ((string \<times> string) list \<times> ((string \<times> string) \<times> lifetime_figure) list)" where
  "add_total_figure r acc f =
     (let (counted, tots) = acc; k = (bf_Currency f, bf_CostBasis f)
      in case FigureCost f of
           Inl e \<Rightarrow> Inl (FigureRefused e)
         | Inr cost \<Rightarrow>
             Inr (if k \<in> set counted then counted else k # counted,
               upsert k \<lparr>lg_Currency = fst k, lg_Basis = snd k, lg_Cost = zero_decimal, lg_Reports = 0, lg_Undigested = False\<rparr>
                 (\<lambda>s. let s = s\<lparr>lg_Cost := Add (lg_Cost s) cost\<rparr>
                      in if k \<in> set counted then s
                         else s\<lparr>lg_Reports := lg_Reports s + 1,
                                lg_Undigested := (lg_Undigested s \<or> hr_RowsSHA256 r = [])\<rparr>) tots))"

definition add_total_report ::
    "((string \<times> string) \<times> lifetime_figure) list \<Rightarrow> history_report \<Rightarrow>
     history_error + ((string \<times> string) \<times> lifetime_figure) list" where
  "add_total_report tots r = rmap snd (rfold (add_total_figure r) ([], tots) (bk_Figures (hr_Block r)))"

definition Total :: "history_report list \<Rightarrow> history_error + lifetime_figure list" where
  "Total reports =
     rmap (\<lambda>tots. sort_key (\<lambda>f. (lg_Currency f, lg_Basis f)) (map snd tots))
       (rfold add_total_report [] (not_repeated {} reports))"

definition add_earlier_figure :: "lifetime \<Rightarrow> block_figure \<Rightarrow> history_error + lifetime" where
  "add_earlier_figure l f =
     (case FigureCost f of
        Inl e \<Rightarrow> Inl (FigureRefused e)
      | Inr cost \<Rightarrow>
          if bf_Currency f \<noteq> ''USD'' then Inr (l\<lparr>lf_OtherCurrency := True\<rparr>)
          else Inr (l\<lparr>lf_USD := Add (lf_USD l) cost\<rparr>))"

definition add_earlier_report :: "history_report \<Rightarrow> lifetime \<Rightarrow> history_report \<Rightarrow> history_error + lifetime" where
  "add_earlier_report own l r =
     (let l = (if bk_Figures (hr_Block r) \<noteq> [] \<and> (hr_RowsSHA256 r = [] \<or> hr_RowsSHA256 own = [])
          then l\<lparr>lf_MayRepeat := True\<rparr> else l)
      in rfold add_earlier_figure l (bk_Figures (hr_Block r)))"

definition Earlier :: "history_report list \<Rightarrow> history_report \<Rightarrow> history_error + lifetime" where
  "Earlier reports own =
     rfold (add_earlier_report own)
       \<lparr>lf_USD = zero_decimal, lf_OtherCurrency = False, lf_MayRepeat = False, lf_Trust = Unverified\<rparr>
       (not_repeated (if hr_RowsSHA256 own \<noteq> [] then {hr_RowsSHA256 own} else {}) reports)"

section \<open>The whole pull request\<close>

fun gather :: "(history_error + (history_report list \<times> nat)) list \<Rightarrow> history_error + (history_report list \<times> nat)" where
  "gather [] = Inr ([], 0)"
| "gather (x # xs) = rbind x (\<lambda>(rs, n). rmap (\<lambda>(rs', m). (rs @ rs', n + m)) (gather xs))"

definition readCommits ::
    "(string \<Rightarrow> result_object option) \<Rightarrow> (string \<Rightarrow> string + listed_check list) \<Rightarrow> string list \<Rightarrow>
     history_error + (history_report list \<times> nat)" where
  "readCommits decode checks_of commits = gather (map (CheckRunBlocks decode checks_of) commits)"

record history_totals =
  ht_Lifetime :: comment_lifetime
  ht_Earlier :: lifetime

definition Read ::
    "(string \<Rightarrow> result_object option) \<Rightarrow> (int \<Rightarrow> string + (string list \<times> bool)) \<Rightarrow>
     (string \<Rightarrow> string + listed_check list) \<Rightarrow> int \<Rightarrow> string \<Rightarrow> history_report \<Rightarrow> history_error + history_totals" where
  "Read decode commits_of checks_of number head own =
     (case commits_of number of
        Inl e \<Rightarrow> Inl (HostError e)
      | Inr (commits, at_limit) \<Rightarrow>
          rbind (readCommits decode checks_of (if head \<in> set commits then commits else commits @ [head])) (\<lambda>(reports, unread).
          rbind (Total (reports @ [own])) (\<lambda>figures.
          rmap (\<lambda>earlier. \<lparr>ht_Lifetime = \<lparr>cl_Figures = figures, cl_Capped = at_limit, cl_Unread = int unread\<rparr>,
                  ht_Earlier = earlier\<rparr>) (Earlier reports own))))"

section \<open>Each report counts once\<close>

definition figure_value :: "block_figure \<Rightarrow> rat" where
  "figure_value f = (case FigureCost f of Inl _ \<Rightarrow> 0 | Inr d \<Rightarrow> dval d)"

definition figure_amount :: "block_figure \<Rightarrow> decimal" where
  "figure_amount f = (case FigureCost f of Inl _ \<Rightarrow> zero_decimal | Inr d \<Rightarrow> d)"

abbreviation figure_of :: "block_figure \<Rightarrow> string \<times> string" where
  "figure_of f \<equiv> (bf_Currency f, bf_CostBasis f)"

definition report_figures :: "history_report \<Rightarrow> block_figure list" where
  "report_figures r = bk_Figures (hr_Block r)"

lemma FigureCost_wf: "FigureCost f = Inr d \<Longrightarrow> wf_decimal d"
  by (auto simp: FigureCost_def split: if_splits sum.splits dest: Parse_canonical intro: canonical_wf)

lemma figure_amount_wf [simp]: "wf_decimal (figure_amount f)" "dval (figure_amount f) = figure_value f"
  by (auto simp: figure_amount_def figure_value_def split: sum.split dest: FigureCost_wf)

text \<open>What is kept of the reports: every report without a digest, and the first of each digest.\<close>

lemma not_repeated_spec:
  "set (not_repeated seen rs) \<subseteq> set rs \<and>
   filter (\<lambda>r. hr_RowsSHA256 r = []) (not_repeated seen rs) = filter (\<lambda>r. hr_RowsSHA256 r = []) rs \<and>
   distinct (map hr_RowsSHA256 (filter (\<lambda>r. hr_RowsSHA256 r \<noteq> []) (not_repeated seen rs))) \<and>
   hr_RowsSHA256 ` set (filter (\<lambda>r. hr_RowsSHA256 r \<noteq> []) (not_repeated seen rs)) = hr_RowsSHA256 ` set rs - {[]} - seen"
proof (induction rs arbitrary: seen)
  case Nil
  show ?case by simp
next
  case (Cons r rs)
  show ?case
  proof (cases "hr_RowsSHA256 r \<noteq> [] \<and> hr_RowsSHA256 r \<in> seen")
    case True
    then show ?thesis using Cons [of seen] by auto
  next
    case False
    show ?thesis
    proof (cases "hr_RowsSHA256 r = []")
      case True
      then show ?thesis using Cons [of seen] by auto
    next
      case digest: False
      then show ?thesis using False Cons [of "insert (hr_RowsSHA256 r) seen"] by auto
    qed
  qed
qed

section \<open>What the totals state\<close>

type_synonym total_sums = "((string \<times> string) \<times> lifetime_figure) list"

definition fresh_total :: "string \<times> string \<Rightarrow> lifetime_figure" where
  "fresh_total k = \<lparr>lg_Currency = fst k, lg_Basis = snd k, lg_Cost = zero_decimal, lg_Reports = 0, lg_Undigested = False\<rparr>"

definition total_at :: "total_sums \<Rightarrow> string \<times> string \<Rightarrow> lifetime_figure" where
  "total_at tots k = (case map_of tots k of None \<Rightarrow> fresh_total k | Some s \<Rightarrow> s)"

definition wf_sums :: "total_sums \<Rightarrow> bool" where
  "wf_sums tots \<longleftrightarrow> distinct (map fst tots) \<and>
     (\<forall>k. wf_decimal (lg_Cost (total_at tots k)) \<and> lg_Currency (total_at tots k) = fst k \<and> lg_Basis (total_at tots k) = snd k)"

lemma total_at_wf: "wf_sums tots \<Longrightarrow> wf_decimal (lg_Cost (total_at tots k))"
  "wf_sums tots \<Longrightarrow> lg_Currency (total_at tots k) = fst k" "wf_sums tots \<Longrightarrow> lg_Basis (total_at tots k) = snd k"
  unfolding wf_sums_def by blast+

text \<open>One figure of a report, the keys counted so far in the report given.\<close>

lemma add_total_figure_ok:
  assumes "add_total_figure r (counted, tots) f = Inr (counted', tots')" "wf_sums tots"
  shows "is_ok (FigureCost f)" "set counted' = insert (figure_of f) (set counted)" "wf_sums tots'"
    "fst ` set tots' = insert (figure_of f) (fst ` set tots)"
    "dval (lg_Cost (total_at tots' k)) = dval (lg_Cost (total_at tots k)) + (if figure_of f = k then figure_value f else 0)"
    "lg_Reports (total_at tots' k) = lg_Reports (total_at tots k) + (if figure_of f = k \<and> k \<notin> set counted then 1 else 0)"
    "lg_Undigested (total_at tots' k) \<longleftrightarrow>
       lg_Undigested (total_at tots k) \<or> figure_of f = k \<and> k \<notin> set counted \<and> hr_RowsSHA256 r = []"
proof -
  let ?k = "figure_of f"
  obtain cost where c: "FigureCost f = Inr cost" using assms(1) by (auto simp: add_total_figure_def Let_def split: sum.splits)
  let ?upd = "\<lambda>s. let s = s\<lparr>lg_Cost := Add (lg_Cost s) cost\<rparr>
     in if ?k \<in> set counted then s
        else s\<lparr>lg_Reports := lg_Reports s + 1, lg_Undigested := (lg_Undigested s \<or> hr_RowsSHA256 r = [])\<rparr>"
  have s: "tots' = upsert ?k (fresh_total ?k) ?upd tots" "counted' = (if ?k \<in> set counted then counted else ?k # counted)"
    using assms(1) by (simp_all add: add_total_figure_def Let_def c fresh_total_def)
  have m: "map_of tots' k = (if k = ?k then Some (?upd (total_at tots ?k)) else map_of tots k)" for k
    unfolding s map_of_upsert total_at_def by simp
  have cost: "wf_decimal cost" "figure_value f = dval cost" using c by (simp_all add: FigureCost_wf figure_value_def)
  note old = total_at_wf [OF assms(2)]
  have new: "total_at tots' ?k = ?upd (total_at tots ?k)" "k \<noteq> ?k \<Longrightarrow> total_at tots' k = total_at tots k" for k
    by (simp_all add: total_at_def [of tots'] m) (simp add: total_at_def)
  show "is_ok (FigureCost f)" by (simp add: c is_ok_def)
  show "set counted' = insert ?k (set counted)" by (auto simp: s)
  show "fst ` set tots' = insert ?k (fst ` set tots)" unfolding s by (rule keys_upsert)
  have "distinct (map fst tots')" unfolding s using assms(2) by (intro distinct_upsert) (simp add: wf_sums_def)
  moreover have "wf_decimal (lg_Cost (total_at tots' j)) \<and> lg_Currency (total_at tots' j) = fst j \<and>
      lg_Basis (total_at tots' j) = snd j" for j
  proof (cases "j = ?k")
    case True
    then show ?thesis using old [of ?k] cost unfolding True new(1) by (simp add: Let_def)
  next
    case False
    then show ?thesis using old [of j] unfolding new(2) [OF False] by blast
  qed
  ultimately show "wf_sums tots'" unfolding wf_sums_def by blast
  have "dval (lg_Cost (total_at tots' k)) = dval (lg_Cost (total_at tots k)) + (if ?k = k then figure_value f else 0) \<and>
    lg_Reports (total_at tots' k) = lg_Reports (total_at tots k) + (if ?k = k \<and> k \<notin> set counted then 1 else 0) \<and>
    (lg_Undigested (total_at tots' k) \<longleftrightarrow>
       lg_Undigested (total_at tots k) \<or> ?k = k \<and> k \<notin> set counted \<and> hr_RowsSHA256 r = [])"
  proof (cases "k = ?k")
    case True
    then show ?thesis using old(1) [of ?k] cost unfolding True new(1) by (simp add: Let_def)
  next
    case False
    then show ?thesis unfolding new(2) [OF False] by auto
  qed
  then show "dval (lg_Cost (total_at tots' k)) = dval (lg_Cost (total_at tots k)) + (if ?k = k then figure_value f else 0)"
    "lg_Reports (total_at tots' k) = lg_Reports (total_at tots k) + (if ?k = k \<and> k \<notin> set counted then 1 else 0)"
    "lg_Undigested (total_at tots' k) \<longleftrightarrow>
       lg_Undigested (total_at tots k) \<or> ?k = k \<and> k \<notin> set counted \<and> hr_RowsSHA256 r = []"
    by blast+
qed

definition value_of_key :: "string \<times> string \<Rightarrow> block_figure list \<Rightarrow> rat" where
  "value_of_key k fs = (\<Sum>f\<leftarrow>filter (\<lambda>f. figure_of f = k) fs. figure_value f)"

lemma value_of_key_simps [simp]:
  "value_of_key k [] = 0"
  "value_of_key k (f # fs) = (if figure_of f = k then figure_value f else 0) + value_of_key k fs"
  "value_of_key k (fs @ gs) = value_of_key k fs + value_of_key k gs"
  by (simp_all add: value_of_key_def)

lemma add_figures_ok:
  assumes "rfold (add_total_figure r) (counted, tots) fs = Inr (counted', tots')" "wf_sums tots"
  shows "wf_sums tots' \<and> list_all (\<lambda>f. is_ok (FigureCost f)) fs \<and> fst ` set tots' = fst ` set tots \<union> figure_of ` set fs \<and>
    dval (lg_Cost (total_at tots' k)) = dval (lg_Cost (total_at tots k)) + value_of_key k fs \<and>
    lg_Reports (total_at tots' k) =
      lg_Reports (total_at tots k) + (if k \<in> figure_of ` set fs \<and> k \<notin> set counted then 1 else 0) \<and>
    (lg_Undigested (total_at tots' k) \<longleftrightarrow>
      lg_Undigested (total_at tots k) \<or> k \<in> figure_of ` set fs \<and> k \<notin> set counted \<and> hr_RowsSHA256 r = [])"
  using assms
proof (induction fs arbitrary: counted tots)
  case Nil
  then show ?case by simp
next
  case (Cons f fs)
  then obtain c s where step: "add_total_figure r (counted, tots) f = Inr (c, s)"
    and rest: "rfold (add_total_figure r) (c, s) fs = Inr (counted', tots')"
    by (auto simp: result_eqs)
  note one = add_total_figure_ok [OF step Cons.prems(2)]
  have IH: "wf_sums tots'" "list_all (\<lambda>f. is_ok (FigureCost f)) fs" "fst ` set tots' = fst ` set s \<union> figure_of ` set fs"
    "dval (lg_Cost (total_at tots' k)) = dval (lg_Cost (total_at s k)) + value_of_key k fs"
    "lg_Reports (total_at tots' k) =
      lg_Reports (total_at s k) + (if k \<in> figure_of ` set fs \<and> k \<notin> set c then 1 else 0)"
    "lg_Undigested (total_at tots' k) \<longleftrightarrow>
      lg_Undigested (total_at s k) \<or> k \<in> figure_of ` set fs \<and> k \<notin> set c \<and> hr_RowsSHA256 r = []"
    using Cons.IH [OF rest one(3)] by blast+
  have "fst ` set tots' = fst ` set tots \<union> figure_of ` set (f # fs)" using IH(3) one(4) by auto
  moreover have "dval (lg_Cost (total_at tots' k)) = dval (lg_Cost (total_at tots k)) + value_of_key k (f # fs)"
    using IH(4) one(5) [of k] by simp
  moreover have "lg_Reports (total_at tots' k) =
      lg_Reports (total_at tots k) + (if k \<in> figure_of ` set (f # fs) \<and> k \<notin> set counted then 1 else 0)"
    using IH(5) one(6) [of k] one(2) by auto
  moreover have "lg_Undigested (total_at tots' k) \<longleftrightarrow>
      lg_Undigested (total_at tots k) \<or> k \<in> figure_of ` set (f # fs) \<and> k \<notin> set counted \<and> hr_RowsSHA256 r = []"
    using IH(6) one(7) [of k] one(2) by auto
  ultimately show ?case using IH(1,2) one(1) by simp
qed

lemma add_reports_ok:
  assumes "rfold add_total_report tots rs = Inr tots'" "wf_sums tots"
  shows "wf_sums tots' \<and> list_all (\<lambda>f. is_ok (FigureCost f)) (concat (map report_figures rs)) \<and>
    fst ` set tots' = fst ` set tots \<union> figure_of ` set (concat (map report_figures rs)) \<and>
    dval (lg_Cost (total_at tots' k)) = dval (lg_Cost (total_at tots k)) + value_of_key k (concat (map report_figures rs)) \<and>
    lg_Reports (total_at tots' k) =
      lg_Reports (total_at tots k) + int (length (filter (\<lambda>r. k \<in> figure_of ` set (report_figures r)) rs)) \<and>
    (lg_Undigested (total_at tots' k) \<longleftrightarrow>
      lg_Undigested (total_at tots k) \<or> (\<exists>r\<in>set rs. k \<in> figure_of ` set (report_figures r) \<and> hr_RowsSHA256 r = []))"
  using assms
proof (induction rs arbitrary: tots)
  case Nil
  then show ?case by simp
next
  case (Cons r rs)
  then obtain s where step: "add_total_report tots r = Inr s" and rest: "rfold add_total_report s rs = Inr tots'"
    by (auto simp: result_eqs)
  then obtain c where "rfold (add_total_figure r) ([], tots) (report_figures r) = Inr (c, s)"
    by (auto simp: add_total_report_def report_figures_def result_eqs)
  note one = add_figures_ok [OF this Cons.prems(2), of k]
  have w: "wf_sums s" using one by blast
  note IH = Cons.IH [OF rest w]
  have "fst ` set tots' = fst ` set tots \<union> figure_of ` set (concat (map report_figures (r # rs)))"
    using IH one by auto
  moreover have "dval (lg_Cost (total_at tots' k)) =
      dval (lg_Cost (total_at tots k)) + value_of_key k (concat (map report_figures (r # rs)))"
    using IH one by simp
  moreover have "lg_Reports (total_at tots' k) =
      lg_Reports (total_at tots k) + int (length (filter (\<lambda>r. k \<in> figure_of ` set (report_figures r)) (r # rs)))"
    using IH one by simp
  moreover have "lg_Undigested (total_at tots' k) \<longleftrightarrow>
      lg_Undigested (total_at tots k) \<or> (\<exists>x\<in>set (r # rs). k \<in> figure_of ` set (report_figures x) \<and> hr_RowsSHA256 x = [])"
    using IH one by simp
  ultimately show ?case using IH one by simp
qed

definition usd_value :: "block_figure list \<Rightarrow> rat" where
  "usd_value fs = (\<Sum>f\<leftarrow>filter (\<lambda>f. bf_Currency f = ''USD'') fs. figure_value f)"

lemma usd_value_simps [simp]:
  "usd_value [] = 0"
  "usd_value (f # fs) = (if bf_Currency f = ''USD'' then figure_value f else 0) + usd_value fs"
  "usd_value (fs @ gs) = usd_value fs + usd_value gs"
  by (simp_all add: usd_value_def)

lemma earlier_figures:
  assumes "rfold add_earlier_figure l fs = Inr l'" "wf_decimal (lf_USD l)"
  shows "wf_decimal (lf_USD l') \<and> dval (lf_USD l') = dval (lf_USD l) + usd_value fs \<and> lf_Trust l' = lf_Trust l \<and>
    lf_MayRepeat l' = lf_MayRepeat l \<and>
    (lf_OtherCurrency l' \<longleftrightarrow> lf_OtherCurrency l \<or> (\<exists>f\<in>set fs. bf_Currency f \<noteq> ''USD''))"
  using assms
proof (induction fs arbitrary: l)
  case Nil
  then show ?case by simp
next
  case (Cons f fs)
  then obtain m where m: "add_earlier_figure l f = Inr m" "rfold add_earlier_figure m fs = Inr l'"
    by (auto simp: result_eqs)
  then obtain cost where c: "FigureCost f = Inr cost" by (auto simp: add_earlier_figure_def split: sum.splits)
  have m': "m = (if bf_Currency f \<noteq> ''USD'' then l\<lparr>lf_OtherCurrency := True\<rparr> else l\<lparr>lf_USD := Add (lf_USD l) cost\<rparr>)"
    using m(1) by (simp add: add_earlier_figure_def c split: if_splits)
  have v: "figure_value f = dval cost" "wf_decimal cost" using c by (simp_all add: figure_value_def FigureCost_wf)
  have "wf_decimal (lf_USD m)" using Cons.prems(2) v by (simp add: m')
  note IH = Cons.IH [OF m(2) this]
  show ?case using IH v Cons.prems(2) by (simp add: m' split: if_splits)
qed

lemma earlier_reports:
  assumes "rfold (add_earlier_report own) l rs = Inr l'" "wf_decimal (lf_USD l)"
  shows "dval (lf_USD l') = dval (lf_USD l) + usd_value (concat (map report_figures rs)) \<and> lf_Trust l' = lf_Trust l \<and>
    (lf_OtherCurrency l' \<longleftrightarrow> lf_OtherCurrency l \<or> (\<exists>f\<in>set (concat (map report_figures rs)). bf_Currency f \<noteq> ''USD'')) \<and>
    (lf_MayRepeat l' \<longleftrightarrow> lf_MayRepeat l \<or>
       (\<exists>r\<in>set rs. report_figures r \<noteq> [] \<and> (hr_RowsSHA256 r = [] \<or> hr_RowsSHA256 own = [])))"
  using assms
proof (induction rs arbitrary: l)
  case Nil
  then show ?case by simp
next
  case (Cons r rs)
  let ?flag = "report_figures r \<noteq> [] \<and> (hr_RowsSHA256 r = [] \<or> hr_RowsSHA256 own = [])"
  let ?l = "if ?flag then l\<lparr>lf_MayRepeat := True\<rparr> else l"
  obtain m where m: "add_earlier_report own l r = Inr m" "rfold (add_earlier_report own) m rs = Inr l'"
    using Cons.prems(1) by (auto simp: result_eqs)
  have step: "rfold add_earlier_figure ?l (report_figures r) = Inr m"
    using m(1) unfolding add_earlier_report_def Let_def report_figures_def .
  have "wf_decimal (lf_USD ?l)" using Cons.prems(2) by simp
  note one = earlier_figures [OF step this]
  have w: "wf_decimal (lf_USD m)" using one by blast
  note IH = Cons.IH [OF m(2) w]
  have "dval (lf_USD m) = dval (lf_USD l) + usd_value (report_figures r)" "lf_Trust m = lf_Trust l"
    "lf_MayRepeat m \<longleftrightarrow> lf_MayRepeat l \<or> ?flag"
    "lf_OtherCurrency m \<longleftrightarrow> lf_OtherCurrency l \<or> (\<exists>f\<in>set (report_figures r). bf_Currency f \<noteq> ''USD'')"
    using one by (simp_all split: if_splits)
  then show ?case using IH by auto
qed

definition total_key :: "lifetime_figure \<Rightarrow> string \<times> string" where
  "total_key f = (lg_Currency f, lg_Basis f)"

lemma Total_states:
  assumes "Total reports = Inr fs"
  defines "firsts \<equiv> not_repeated {} reports"
  defines "figs \<equiv> concat (map report_figures firsts)"
  shows "distinct (map total_key fs)" "total_key ` set fs = figure_of ` set figs"
    "f \<in> set fs \<Longrightarrow> dval (lg_Cost f) = value_of_key (total_key f) figs \<and>
       lg_Reports f = int (length (filter (\<lambda>r. total_key f \<in> figure_of ` set (report_figures r)) firsts)) \<and>
       (lg_Undigested f \<longleftrightarrow> (\<exists>r\<in>set firsts. total_key f \<in> figure_of ` set (report_figures r) \<and> hr_RowsSHA256 r = []))"
    "list_all (\<lambda>f. is_ok (FigureCost f)) figs"
proof -
  obtain tots where t0: "rfold add_total_report [] (not_repeated {} reports) = Inr tots"
    and fs: "fs = sort_key (\<lambda>f. (lg_Currency f, lg_Basis f)) (map snd tots)"
    using assms(1) by (auto simp: Total_def result_eqs)
  have t: "rfold add_total_report [] firsts = Inr tots" unfolding firsts_def by (rule t0)
  have w0: "wf_sums []" by (simp add: wf_sums_def total_at_def fresh_total_def)
  have all: "wf_sums tots" "list_all (\<lambda>f. is_ok (FigureCost f)) figs" "fst ` set tots = figure_of ` set figs"
    "dval (lg_Cost (total_at tots k)) = value_of_key k figs"
    "lg_Reports (total_at tots k) = int (length (filter (\<lambda>r. k \<in> figure_of ` set (report_figures r)) firsts))"
    "lg_Undigested (total_at tots k) \<longleftrightarrow> (\<exists>r\<in>set firsts. k \<in> figure_of ` set (report_figures r) \<and> hr_RowsSHA256 r = [])" for k
    using add_reports_ok [OF t w0, of k] unfolding figs_def by (simp_all add: total_at_def [of "[]"] fresh_total_def)
  show "list_all (\<lambda>f. is_ok (FigureCost f)) figs" by (rule all(2))
  have dist: "distinct (map fst tots)" using all(1) by (simp add: wf_sums_def)
  have at: "total_at tots k = s" "total_key s = k" if ks: "(k, s) \<in> set tots" for k s
  proof -
    have "map_of tots k = Some s" using ks dist by simp
    then show "total_at tots k = s" by (simp add: total_at_def)
    then show "total_key s = k" using total_at_wf(2,3) [OF all(1), of k] by (simp add: total_key_def prod_eq_iff)
  qed
  have keys: "map total_key (map snd tots) = map fst tots" unfolding map_map using at(2) by (intro map_cong refl) auto
  have "mset (map total_key fs) = mset (map total_key (map snd tots))" by (simp only: fs mset_map mset_sort)
  then have m: "mset (map total_key fs) = mset (map fst tots)" by (simp only: keys)
  show "distinct (map total_key fs)" using mset_eq_imp_distinct_iff [OF m] dist by blast
  have "set (map total_key fs) = set (map fst tots)" using m by (rule mset_eq_setD)
  then show "total_key ` set fs = figure_of ` set figs" using all(3) by simp
  show "dval (lg_Cost f) = value_of_key (total_key f) figs \<and>
       lg_Reports f = int (length (filter (\<lambda>r. total_key f \<in> figure_of ` set (report_figures r)) firsts)) \<and>
       (lg_Undigested f \<longleftrightarrow> (\<exists>r\<in>set firsts. total_key f \<in> figure_of ` set (report_figures r) \<and> hr_RowsSHA256 r = []))"
    if f: "f \<in> set fs"
  proof -
    have "f \<in> snd ` set tots" using f by (simp add: fs)
    then obtain k where k: "(k, f) \<in> set tots" by auto
    show ?thesis unfolding at(2) [OF k] using all(4,5,6) [of k] unfolding at(1) [OF k] by blast
  qed
qed

lemma not_repeated_append:
  "not_repeated seen (rs @ [r]) = not_repeated seen rs @
     (if hr_RowsSHA256 r \<noteq> [] \<and> hr_RowsSHA256 r \<in> seen \<union> hr_RowsSHA256 ` set rs then [] else [r])"
  by (induction rs arbitrary: seen) auto

lemma not_repeated_unseen:
  "d \<notin> hr_RowsSHA256 ` set rs \<Longrightarrow> not_repeated (insert d seen) rs = not_repeated seen rs"
proof (induction rs arbitrary: seen)
  case Nil
  show ?case by simp
next
  case (Cons r rs)
  then show ?case by (auto simp: insert_commute)
qed

text \<open>
  C23. The pull request's total counts each report once: of the reports of one digest only the first, and
  every report without a digest. Each figure is the exact sum of the kept reports' figures of its
  currency and basis, with the number of reports that carry it and a mark where one of them states no
  digest. The policy's total of the earlier runs leaves out this run's rows reported again, is always
  unverified, and says when it may repeat; where this run's rows were not reported before, the two totals
  agree: the comment's USD figures add up to the earlier runs' total and this run's own.
\<close>

theorem reports_count_once:
  assumes total: "Total (reports @ [own]) = Inr fs" and earlier: "Earlier reports own = Inr e"
    and firsts: "firsts = not_repeated {} (reports @ [own])"
  shows "distinct (map total_key fs) \<and> total_key ` set fs = figure_of ` set (concat (map report_figures firsts)) \<and>
    (\<forall>f\<in>set fs. dval (lg_Cost f) = value_of_key (total_key f) (concat (map report_figures firsts)) \<and>
       lg_Reports f = int (length (filter (\<lambda>r. total_key f \<in> figure_of ` set (report_figures r)) firsts)) \<and>
       (lg_Undigested f \<longleftrightarrow> (\<exists>r\<in>set firsts. total_key f \<in> figure_of ` set (report_figures r) \<and> hr_RowsSHA256 r = []))) \<and>
    distinct (map hr_RowsSHA256 (filter (\<lambda>r. hr_RowsSHA256 r \<noteq> []) firsts)) \<and>
    lf_Trust e = Unverified \<and>
    dval (lf_USD e) = usd_value (concat (map report_figures
      (not_repeated (if hr_RowsSHA256 own \<noteq> [] then {hr_RowsSHA256 own} else {}) reports))) \<and>
    (hr_RowsSHA256 own \<notin> hr_RowsSHA256 ` set reports - {[]} \<longrightarrow>
      (\<Sum>f\<leftarrow>filter (\<lambda>f. lg_Currency f = ''USD'') fs. dval (lg_Cost f)) = dval (lf_USD e) + usd_value (report_figures own))"
proof -
  let ?figs = "concat (map report_figures firsts)"
  note tot = Total_states [OF total, folded firsts]
  have e: "lf_Trust e = Unverified" "dval (lf_USD e) = usd_value (concat (map report_figures
      (not_repeated (if hr_RowsSHA256 own \<noteq> [] then {hr_RowsSHA256 own} else {}) reports)))"
    using earlier_reports [OF earlier [unfolded Earlier_def]] by simp_all
  have agree: "(\<Sum>f\<leftarrow>filter (\<lambda>f. lg_Currency f = ''USD'') fs. dval (lg_Cost f)) = dval (lf_USD e) + usd_value (report_figures own)"
    if new: "hr_RowsSHA256 own \<notin> hr_RowsSHA256 ` set reports - {[]}"
  proof -
    let ?usd = "filter (\<lambda>f. lg_Currency f = ''USD'') fs"
    have dist: "distinct (map total_key ?usd)" using tot(1) by (simp add: distinct_map_filter)
    have "(\<Sum>f\<leftarrow>?usd. dval (lg_Cost f)) = (\<Sum>k\<leftarrow>map total_key ?usd. \<Sum>g\<leftarrow>filter (\<lambda>g. figure_of g = k) ?figs. figure_value g)"
      unfolding map_map comp_def using tot(3)
      by (intro arg_cong [where f = sum_list] map_cong refl) (auto simp: value_of_key_def)
    also have "\<dots> = (\<Sum>g\<leftarrow>filter (\<lambda>g. figure_of g \<in> set (map total_key ?usd)) ?figs. figure_value g)"
      by (rule sum_by_keys [OF dist])
    also have "filter (\<lambda>g. figure_of g \<in> set (map total_key ?usd)) ?figs = filter (\<lambda>g. bf_Currency g = ''USD'') ?figs"
    proof (rule filter_cong [OF refl])
      fix g assume "g \<in> set ?figs"
      then have "figure_of g \<in> total_key ` set fs" unfolding tot(2) by (rule imageI)
      then show "figure_of g \<in> set (map total_key ?usd) \<longleftrightarrow> bf_Currency g = ''USD''"
        by (auto simp: total_key_def image_iff)
    qed
    finally have "(\<Sum>f\<leftarrow>?usd. dval (lg_Cost f)) = usd_value ?figs" by (simp add: usd_value_def)
    moreover have "firsts = not_repeated (if hr_RowsSHA256 own \<noteq> [] then {hr_RowsSHA256 own} else {}) reports @ [own]"
    proof (cases "hr_RowsSHA256 own = []")
      case True
      then show ?thesis by (simp add: firsts not_repeated_append)
    next
      case False
      then have "hr_RowsSHA256 own \<notin> hr_RowsSHA256 ` set reports" using new by simp
      then show ?thesis using False by (simp add: firsts not_repeated_append not_repeated_unseen)
    qed
    ultimately show ?thesis using e(2) by simp
  qed
  have "distinct (map hr_RowsSHA256 (filter (\<lambda>r. hr_RowsSHA256 r \<noteq> []) firsts))"
    unfolding firsts using not_repeated_spec by blast
  then show ?thesis using tot(1,2,3) e agree by blast
qed

definition sample_object :: "string \<Rightarrow> string \<Rightarrow> history_report" where
  "sample_object digest amount =
     \<lparr>hr_CheckRun = 0,
      hr_Block = (result_block sample_input)\<lparr>bk_Figures :=
        [\<lparr>bf_Currency = ''USD'', bf_ListCost = amount, bf_CostBasis = ''measured'', bf_AttributionGrade = [],
          bf_EnforcementGrade = [], bf_Rows = 1, bf_FallbackRows = 0, bf_Tokens = []\<rparr>]\<rparr>,
      hr_RowsSHA256 = digest\<rparr>"

lemma sample_totals:
  "is_ok (Total ([sample_object ''a'' ''1'', sample_object ''a'' ''1''] @ [sample_object ''b'' ''2'']))"
  "is_ok (Earlier [sample_object ''a'' ''1'', sample_object ''a'' ''1''] (sample_object ''b'' ''2''))"
proof -
  have c: "is_ok (FigureCost f)" if "bf_ListCost f \<in> {''1'', ''2''}" "bf_Currency f = ''USD''" "bf_CostBasis f = ''measured''" for f
  proof -
    have "is_ok (Parse ''1'')" "is_ok (Parse ''2'')" "currency_code ''USD''" "map_of basisLabels ''measured'' \<noteq> None"
      by code_simp+
    then show ?thesis using that by (auto simp: FigureCost_def is_ok_def split: sum.splits)
  qed
  have figs: "report_figures (sample_object d a) = [\<lparr>bf_Currency = ''USD'', bf_ListCost = a, bf_CostBasis = ''measured'',
      bf_AttributionGrade = [], bf_EnforcementGrade = [], bf_Rows = 1, bf_FallbackRows = 0, bf_Tokens = []\<rparr>]" for d a
    by (simp add: report_figures_def sample_object_def)
  have tot: "is_ok (add_total_report tots (sample_object d a))" if "a \<in> {''1'', ''2''}" for tots d a
    using c [of "hd (report_figures (sample_object d a))"] that unfolding add_total_report_def report_figures_def [symmetric] figs
    by (auto simp: add_total_figure_def Let_def is_ok_def rmap_def rbind_def split: sum.splits)
  have ear: "is_ok (add_earlier_report own l (sample_object d a))" if "a \<in> {''1'', ''2''}" for own l d a
    using c [of "hd (report_figures (sample_object d a))"] that
    unfolding add_earlier_report_def Let_def report_figures_def [symmetric] figs
    by (auto simp: add_earlier_figure_def is_ok_def rbind_def split: sum.splits)
  have ok: "is_ok (rfold step s xs)" if "\<And>s x. x \<in> set xs \<Longrightarrow> is_ok (step s x)" for step :: "'s \<Rightarrow> 'x \<Rightarrow> 'e + 's" and s xs
    using that
  proof (induction xs arbitrary: s)
    case Nil
    show ?case by (simp add: is_ok_def)
  next
    case (Cons x xs)
    have "is_ok (step s x)" using Cons.prems by simp
    then obtain t where "step s x = Inr t" by (auto simp: is_ok_def split: sum.splits)
    then show ?case using Cons by simp
  qed
  have d: "hr_RowsSHA256 (sample_object d a) = d" for d a by (simp add: sample_object_def)
  have "is_ok (rfold add_total_report [] [sample_object ''a'' ''1'', sample_object ''b'' ''2''])"
    by (rule ok) (auto simp: tot)
  then obtain tots where "rfold add_total_report [] [sample_object ''a'' ''1'', sample_object ''b'' ''2''] = Inr tots"
    unfolding is_ok_def by (auto split: sum.splits simp del: rfold.simps)
  moreover have "not_repeated {} ([sample_object ''a'' ''1'', sample_object ''a'' ''1''] @ [sample_object ''b'' ''2'']) =
      [sample_object ''a'' ''1'', sample_object ''b'' ''2'']" by (simp add: d)
  ultimately show "is_ok (Total ([sample_object ''a'' ''1'', sample_object ''a'' ''1''] @ [sample_object ''b'' ''2'']))"
    unfolding Total_def by (simp only: rmap_def is_ok_def sum.case)
  show "is_ok (Earlier [sample_object ''a'' ''1'', sample_object ''a'' ''1''] (sample_object ''b'' ''2''))"
    unfolding Earlier_def by (rule ok) (auto simp: d ear)
qed

theorem reports_count_once_witness:
  "\<exists>fs e. Total ([sample_object ''a'' ''1'', sample_object ''a'' ''1''] @ [sample_object ''b'' ''2'']) = Inr fs \<and>
     Earlier [sample_object ''a'' ''1'', sample_object ''a'' ''1''] (sample_object ''b'' ''2'') = Inr e \<and>
     (\<Sum>f\<leftarrow>filter (\<lambda>f. lg_Currency f = ''USD'') fs. dval (lg_Cost f)) = 3 \<and> dval (lf_USD e) = 1"
proof -
  obtain fs e where t: "Total ([sample_object ''a'' ''1'', sample_object ''a'' ''1''] @ [sample_object ''b'' ''2'']) = Inr fs"
    and e: "Earlier [sample_object ''a'' ''1'', sample_object ''a'' ''1''] (sample_object ''b'' ''2'') = Inr e"
    using sample_totals by (auto simp: is_ok_def split: sum.splits)
  have d: "hr_RowsSHA256 (sample_object d a) = d" for d a by (simp add: sample_object_def)
  have "Parse ''1'' = Inr \<lparr>coefficient = Some 1, scale = 0\<rparr>" "Parse ''2'' = Inr \<lparr>coefficient = Some 2, scale = 0\<rparr>"
    "currency_code ''USD''" "map_of basisLabels ''measured'' \<noteq> None" by code_simp+
  then have v: "usd_value (report_figures (sample_object d ''1'')) = 1" "usd_value (report_figures (sample_object d ''2'')) = 2" for d
    by (auto simp: report_figures_def sample_object_def figure_value_def FigureCost_def dval_def)
  show ?thesis
    using reports_count_once [OF t e refl] t e by (intro exI [of _ fs] exI [of _ e]) (simp add: d v)
qed

end
