(* ===== verification/ScmLimiter.thy ===== *)
theory ScmLimiter
  imports Instant "HOL-Library.Multiset"
begin

text \<open>
  \<open>internal/scm/limiter.go\<close>: the limits GitHub sets an installation of the App. A bucket is the ring of
  instants its tokens were spent at; a slot never used reads \<open>time.Time{}\<close>. The mutex makes each call one
  step, and the clock is an argument of the step that reads it.
\<close>

section \<open>The limits\<close>

definition writesPerMinute :: nat where
  "writesPerMinute = 80"

definition writesPerHour :: nat where
  "writesPerHour = 500"

definition maxConcurrent :: int where
  "maxConcurrent = 100"

definition concurrentWait :: int where
  "concurrentWait = second_ns"

abbreviation minute_ns :: int where "minute_ns \<equiv> 60 * second_ns"

abbreviation hour_ns :: int where "hour_ns \<equiv> 3600 * second_ns"

section \<open>The bucket\<close>

record bucket =
  bu_spent :: "instant list"
  bu_next :: nat
  bu_period :: int

definition newBucket :: "nat \<Rightarrow> int \<Rightarrow> bucket" where
  "newBucket limit period = \<lparr>bu_spent = replicate limit zero_time, bu_next = 0, bu_period = period\<rparr>"

definition bucket_wait :: "bucket \<Rightarrow> instant \<Rightarrow> int" where
  "bucket_wait b now =
     (let oldest = bu_spent b ! bu_next b
      in if oldest = zero_time then 0 else max (oldest + bu_period b - now) 0)"

definition bucket_take :: "bucket \<Rightarrow> instant \<Rightarrow> bucket" where
  "bucket_take b now =
     b\<lparr>bu_spent := (bu_spent b)[bu_next b := now], bu_next := (bu_next b + 1) mod length (bu_spent b)\<rparr>"

section \<open>The limiter\<close>

record quota =
  qu_minute :: bucket
  qu_hour :: bucket
  qu_active :: int

type_synonym limiter = "int \<rightharpoonup> quota"

definition NewLimiter :: limiter where
  "NewLimiter = Map.empty"

definition fresh_quota :: quota where
  "fresh_quota =
     \<lparr>qu_minute = newBucket writesPerMinute minute_ns, qu_hour = newBucket writesPerHour hour_ns, qu_active = 0\<rparr>"

definition quota_of :: "limiter \<Rightarrow> int \<Rightarrow> quota" where
  "quota_of l installation = (case l installation of None \<Rightarrow> fresh_quota | Some q \<Rightarrow> q)"

text \<open>
  A refusal is the time to wait. An admitted request owes one release, which \<open>Release_place\<close> is: it takes
  the place back from the quota the request was admitted to.
\<close>

definition Admit :: "limiter \<Rightarrow> instant \<Rightarrow> int \<Rightarrow> bool \<Rightarrow> limiter \<times> (int + unit)" where
  "Admit l now installation write =
     (let q = quota_of l installation; l = l(installation \<mapsto> q)
      in if maxConcurrent \<le> qu_active q then (l, Inl concurrentWait)
         else if write \<and> 0 < max (bucket_wait (qu_minute q) now) (bucket_wait (qu_hour q) now)
              then (l, Inl (max (bucket_wait (qu_minute q) now) (bucket_wait (qu_hour q) now)))
         else (let q = (if write then q\<lparr>qu_minute := bucket_take (qu_minute q) now, qu_hour := bucket_take (qu_hour q) now\<rparr>
                        else q)
               in (l(installation \<mapsto> q\<lparr>qu_active := qu_active q + 1\<rparr>), Inr ())))"

definition Release_place :: "limiter \<Rightarrow> int \<Rightarrow> limiter" where
  "Release_place l installation =
     (let q = quota_of l installation in l(installation \<mapsto> q\<lparr>qu_active := qu_active q - 1\<rparr>))"

section \<open>A bucket spreads its writes\<close>

text \<open>The ring against the history of the writes it let through, oldest first.\<close>

definition holds_history :: "bucket \<Rightarrow> nat \<Rightarrow> int \<Rightarrow> instant list \<Rightarrow> bool" where
  "holds_history b n p h \<longleftrightarrow>
     length (bu_spent b) = n \<and> bu_period b = p \<and> bu_next b = length h mod n \<and>
     (\<forall>j<length h. length h \<le> j + n \<longrightarrow> bu_spent b ! (j mod n) = h ! j) \<and>
     (\<forall>j<n. length h \<le> j \<longrightarrow> bu_spent b ! j = zero_time)"

definition spread :: "nat \<Rightarrow> int \<Rightarrow> instant list \<Rightarrow> bool" where
  "spread n p h \<longleftrightarrow> (\<forall>j. j + n < length h \<longrightarrow> h ! j + p \<le> h ! (j + n))"

lemma new_bucket_history: "0 < n \<Longrightarrow> holds_history (newBucket n p) n p []"
  by (simp add: holds_history_def newBucket_def)

lemma take_history:
  assumes "holds_history b n p h" "0 < n"
  shows "holds_history (bucket_take b now) n p (h @ [now])"
proof -
  let ?m = "length h"
  have b: "length (bu_spent b) = n" "bu_period b = p" "bu_next b = ?m mod n"
    and old: "\<And>j. j < ?m \<Longrightarrow> ?m \<le> j + n \<Longrightarrow> bu_spent b ! (j mod n) = h ! j"
    and unset: "\<And>j. j < n \<Longrightarrow> ?m \<le> j \<Longrightarrow> bu_spent b ! j = zero_time"
    using assms(1) by (auto simp: holds_history_def)
  have other: "j mod n \<noteq> ?m mod n" if "j < ?m" "?m < j + n" for j
  proof
    assume "j mod n = ?m mod n"
    then have "n dvd ?m - j" using that(1) by (metis less_imp_le_nat mod_eq_dvd_iff_nat)
    then show False using that by (auto dest: dvd_imp_le)
  qed
  show ?thesis
    unfolding holds_history_def
  proof (intro conjI allI impI)
    show "length (bu_spent (bucket_take b now)) = n" "bu_period (bucket_take b now) = p"
      "bu_next (bucket_take b now) = length (h @ [now]) mod n"
      using b by (simp_all add: bucket_take_def mod_Suc_eq)
    fix j assume j: "j < length (h @ [now])" "length (h @ [now]) \<le> j + n"
    show "bu_spent (bucket_take b now) ! (j mod n) = (h @ [now]) ! j"
    proof (cases "j = ?m")
      case True
      then show ?thesis using b assms(2) by (simp add: bucket_take_def)
    next
      case False
      then have "j < ?m" "?m < j + n" using j by auto
      then show ?thesis using other [THEN not_sym] old b by (simp add: bucket_take_def nth_append)
    qed
  next
    fix j assume j: "j < n" "length (h @ [now]) \<le> j"
    then have "?m mod n = ?m" "?m \<noteq> j" by auto
    then show "bu_spent (bucket_take b now) ! j = zero_time"
      using j b unset by (simp add: bucket_take_def)
  qed
qed

lemma wait_of_history:
  assumes "holds_history b n p h" "0 < n" "\<forall>t\<in>set h. zero_time < t"
  shows "bucket_wait b now = (if length h < n then 0 else max (h ! (length h - n) + p - now) 0)"
proof (cases "length h < n")
  case True
  then show ?thesis using assms by (simp add: holds_history_def bucket_wait_def)
next
  case False
  let ?j = "length h - n"
  have j: "?j < length h" "length h \<le> ?j + n" "?j mod n = length h mod n"
    using False assms(2) by (auto simp: le_mod_geq)
  then have "bu_spent b ! bu_next b = h ! ?j" "bu_period b = p"
    using assms(1) unfolding holds_history_def by metis+
  moreover have "zero_time < h ! ?j" using assms(3) j(1) by simp
  ultimately show ?thesis using False by (simp add: bucket_wait_def)
qed

lemma take_spread:
  assumes "holds_history b n p h" "0 < n" "\<forall>t\<in>set h. zero_time < t" "spread n p h" "bucket_wait b now \<le> 0"
  shows "spread n p (h @ [now])"
  unfolding spread_def
proof (intro allI impI)
  fix j assume j: "j + n < length (h @ [now])"
  show "(h @ [now]) ! j + p \<le> (h @ [now]) ! (j + n)"
  proof (cases "j + n = length h")
    case True
    then have "length h - n = j" by simp
    then have "h ! j + p - now \<le> 0" using True assms(5) wait_of_history [OF assms(1-3)] by (auto split: if_splits)
    then show ?thesis using True assms(2) by (simp add: nth_append)
  next
    case False
    then show ?thesis using j assms(4) by (simp add: nth_append spread_def)
  qed
qed

text \<open>A history so spread has at most \<open>n\<close> writes in any window as long as the period.\<close>

lemma spread_window:
  assumes "sorted h" "spread n p h"
  shows "length (filter (\<lambda>t. since \<le> t \<and> t < since + p) h) \<le> n"
proof (cases "\<exists>i<length h. since \<le> h ! i")
  case False
  then have "filter (\<lambda>t. since \<le> t \<and> t < since + p) h = []" by (auto simp: filter_empty_conv in_set_conv_nth)
  then show ?thesis by simp
next
  case True
  define i where "i = (LEAST i. i < length h \<and> since \<le> h ! i)"
  have i: "i < length h" "since \<le> h ! i" using LeastI_ex [OF True] by (auto simp: i_def)
  have "{k. k < length h \<and> since \<le> h ! k \<and> h ! k < since + p} \<subseteq> {i..<i + n}"
  proof
    fix k assume k: "k \<in> {k. k < length h \<and> since \<le> h ! k \<and> h ! k < since + p}"
    then have "i \<le> k" unfolding i_def by (intro Least_le) simp
    moreover have "k < i + n"
    proof (rule ccontr)
      assume "\<not> k < i + n"
      then have "h ! i + p \<le> h ! (i + n)" "h ! (i + n) \<le> h ! k"
        using k assms by (auto simp: spread_def intro: sorted_nth_mono)
      then show False using i k by simp
    qed
    ultimately show "k \<in> {i..<i + n}" by simp
  qed
  then have "card {k. k < length h \<and> since \<le> h ! k \<and> h ! k < since + p} \<le> card {i..<i + n}"
    by (rule card_mono [rotated]) simp
  then show ?thesis by (simp add: length_filter_conv_card)
qed

section \<open>Every sequence of calls\<close>

text \<open>
  A limiter in use: calls to \<open>Admit\<close> at instants that never step back, and each admitted request's release
  at most once, in any order. \<open>written\<close> is the writes admitted, with their installation, oldest first, and
  \<open>places\<close> the requests still to be released.
\<close>

inductive limiter_run :: "limiter \<Rightarrow> instant \<Rightarrow> (int \<times> instant) list \<Rightarrow> int multiset \<Rightarrow> bool" where
  start: "zero_time < t \<Longrightarrow> limiter_run NewLimiter t [] {#}"
| admitted: "limiter_run l t written places \<Longrightarrow> t \<le> now \<Longrightarrow> Admit l now i write = (l', Inr ()) \<Longrightarrow>
    limiter_run l' now (if write then written @ [(i, now)] else written) (add_mset i places)"
| held_back: "limiter_run l t written places \<Longrightarrow> t \<le> now \<Longrightarrow> Admit l now i write = (l', Inl wait) \<Longrightarrow>
    limiter_run l' now written places"
| released: "limiter_run l t written places \<Longrightarrow> i \<in># places \<Longrightarrow>
    limiter_run (Release_place l i) t written (places - {#i#})"

definition writes_of :: "int \<Rightarrow> (int \<times> instant) list \<Rightarrow> instant list" where
  "writes_of i written = map snd (filter (\<lambda>w. fst w = i) written)"

lemma writes_of_simps [simp]:
  "writes_of i [] = []"
  "writes_of i (ws @ [(k, t)]) = writes_of i ws @ (if k = i then [t] else [])"
  by (simp_all add: writes_of_def)

lemma writes_of_set: "t \<in> set (writes_of i ws) \<Longrightarrow> t \<in> snd ` set ws"
  by (auto simp: writes_of_def)

definition quota_history :: "quota \<Rightarrow> instant list \<Rightarrow> bool" where
  "quota_history q h \<longleftrightarrow>
     holds_history (qu_minute q) writesPerMinute minute_ns h \<and> spread writesPerMinute minute_ns h \<and>
     holds_history (qu_hour q) writesPerHour hour_ns h \<and> spread writesPerHour hour_ns h"

lemma limits_pos [simp]: "0 < writesPerMinute" "0 < writesPerHour"
  by (simp_all add: writesPerMinute_def writesPerHour_def)

lemma fresh_history: "quota_history fresh_quota []"
  by (simp add: quota_history_def fresh_quota_def new_bucket_history spread_def)

lemma quota_takes:
  assumes "quota_history q h" "\<forall>t\<in>set h. zero_time < t"
    "max (bucket_wait (qu_minute q) now) (bucket_wait (qu_hour q) now) \<le> 0"
  shows "quota_history (q\<lparr>qu_minute := bucket_take (qu_minute q) now, qu_hour := bucket_take (qu_hour q) now\<rparr>) (h @ [now])"
  using assms unfolding quota_history_def by (auto intro: take_history take_spread)

lemma quota_history_active [simp]: "quota_history (q\<lparr>qu_active := n\<rparr>) h = quota_history q h"
  by (simp add: quota_history_def)

text \<open>What holds of a limiter after any run.\<close>

definition run_ok :: "limiter \<Rightarrow> instant \<Rightarrow> (int \<times> instant) list \<Rightarrow> int multiset \<Rightarrow> bool" where
  "run_ok l t written places \<longleftrightarrow>
     zero_time < t \<and> sorted (map snd written) \<and> (\<forall>s\<in>snd ` set written. zero_time < s \<and> s \<le> t) \<and>
     (\<forall>i. quota_history (quota_of l i) (writes_of i written) \<and>
          qu_active (quota_of l i) = int (count places i) \<and> int (count places i) \<le> maxConcurrent)"

lemma quota_of_update [simp]: "quota_of (l(i \<mapsto> q)) k = (if k = i then q else quota_of l k)"
  by (simp add: quota_of_def)

lemma run_ok_admitted:
  assumes "run_ok l t written places" "t \<le> now" "Admit l now i write = (l', Inr ())"
  shows "run_ok l' now (if write then written @ [(i, now)] else written) (add_mset i places)"
proof -
  have ok: "zero_time < t" "sorted (map snd written)" "\<And>s. s \<in> snd ` set written \<Longrightarrow> zero_time < s \<and> s \<le> t"
    and q: "\<And>k. quota_history (quota_of l k) (writes_of k written)"
      "\<And>k. qu_active (quota_of l k) = int (count places k)" "\<And>k. int (count places k) \<le> maxConcurrent"
    using assms(1) unfolding run_ok_def by blast+
  let ?q = "quota_of l i"
  let ?q' = "if write then ?q\<lparr>qu_minute := bucket_take (qu_minute ?q) now, qu_hour := bucket_take (qu_hour ?q) now\<rparr> else ?q"
  have below: "qu_active ?q < maxConcurrent" and free: "write \<Longrightarrow> max (bucket_wait (qu_minute ?q) now) (bucket_wait (qu_hour ?q) now) \<le> 0"
    and l': "l' = l(i \<mapsto> ?q'\<lparr>qu_active := qu_active ?q' + 1\<rparr>)"
    using assms(3) by (auto simp: Admit_def Let_def split: if_splits)
  have h: "\<forall>s\<in>set (writes_of i written). zero_time < s" using ok(3) writes_of_set by blast
  have hist: "quota_history ?q' (writes_of i written @ (if write then [now] else []))"
    using quota_takes [OF q(1) h] free q(1) by auto
  have active: "qu_active ?q' = qu_active ?q" by simp
  have srt: "sorted (map snd (written @ [(i, now)]))"
    using ok(2,3) assms(2) by (fastforce simp: sorted_append)
  have times: "zero_time < s \<and> s \<le> now" if "s \<in> snd ` set (written @ [(i, now)])" for s
  proof -
    have "s = now \<or> s \<in> snd ` set written" using that by auto
    then show ?thesis using ok(1) ok(3) [of s] assms(2) by linarith
  qed
  show ?thesis
    unfolding run_ok_def l'
  proof (intro conjI allI ballI)
    show "zero_time < now" using ok(1) assms(2) by simp
    show "sorted (map snd (if write then written @ [(i, now)] else written))" using ok(2) srt by simp
    fix s assume "s \<in> snd ` set (if write then written @ [(i, now)] else written)"
    then have "s \<in> snd ` set (written @ [(i, now)])" by (auto split: if_splits)
    then show "zero_time < s" "s \<le> now" using times by auto
  next
    fix k
    show "quota_history (quota_of (l(i \<mapsto> ?q'\<lparr>qu_active := qu_active ?q' + 1\<rparr>)) k)
        (writes_of k (if write then written @ [(i, now)] else written))"
      using hist q(1) [of k] by (cases "write") auto
    show "qu_active (quota_of (l(i \<mapsto> ?q'\<lparr>qu_active := qu_active ?q' + 1\<rparr>)) k) = int (count (add_mset i places) k)"
      using q(2) active by simp
    show "int (count (add_mset i places) k) \<le> maxConcurrent" using q(2) [of i] q(3) [of k] below by auto
  qed
qed

lemma held_back_changes_nothing:
  assumes "Admit l now i write = (l', Inl wait)"
  shows "quota_of l' k = quota_of l k"
  using assms by (auto simp: Admit_def Let_def split: if_splits)

lemma run_ok_released:
  assumes "run_ok l t written places" "i \<in># places"
  shows "run_ok (Release_place l i) t written (places - {#i#})"
proof -
  have c: "1 \<le> count places i" using assms(2) by simp
  have q: "quota_history (quota_of l k) (writes_of k written)" "qu_active (quota_of l k) = int (count places k)"
    "int (count places k) \<le> maxConcurrent" for k
    using assms(1) by (simp_all add: run_ok_def)
  have "int (count places i) - 1 \<le> maxConcurrent" using q(3) [of i] by simp
  then show ?thesis using assms(1) c q by (auto simp: run_ok_def Release_place_def Let_def of_nat_diff)
qed

lemma runs_ok: "limiter_run l t written places \<Longrightarrow> run_ok l t written places"
proof (induction rule: limiter_run.induct)
  case (start t)
  then show ?case by (simp add: run_ok_def NewLimiter_def quota_of_def fresh_history) (simp add: fresh_quota_def maxConcurrent_def)
next
  case (admitted l t written places now i w l')
  then show ?case by (intro run_ok_admitted) auto
next
  case (held_back l t written places now i w l' wait)
  then have "quota_of l' k = quota_of l k" for k by (blast intro: held_back_changes_nothing)
  then show ?case using held_back by (auto simp: run_ok_def)
next
  case (released l t written places i)
  then show ?case by (intro run_ok_released)
qed

section \<open>The limits hold in every window\<close>

lemma writes_of_sorted: "sorted (map snd written) \<Longrightarrow> sorted (writes_of i written)"
  unfolding writes_of_def by (rule sorted_filter)

text \<open>A bucket that makes a write wait has let through its limit less than a period ago.\<close>

lemma wait_is_needed:
  assumes "holds_history b n p h" "0 < n" "\<forall>t\<in>set h. zero_time < t" "sorted h" "0 < bucket_wait b now"
  shows "n \<le> length (filter (\<lambda>t. now - p < t) h)"
proof -
  let ?m = "length h"
  have w: "\<not> ?m < n" "bucket_wait b now = h ! (?m - n) + p - now"
    using wait_of_history [OF assms(1-3)] assms(5) by (auto split: if_splits)
  have "{?m - n..<?m} \<subseteq> {k. k < ?m \<and> now - p < h ! k}"
  proof
    fix k assume "k \<in> {?m - n..<?m}"
    then have "h ! (?m - n) \<le> h ! k" "k < ?m" using assms(4) by (auto intro: sorted_nth_mono)
    then show "k \<in> {k. k < ?m \<and> now - p < h ! k}" using w(2) assms(5) by simp
  qed
  then have "card {?m - n..<?m} \<le> card {k. k < ?m \<and> now - p < h ! k}" by (rule card_mono [rotated]) simp
  then show "n \<le> length (filter (\<lambda>t. now - p < t) h)" using w(1) by (simp add: length_filter_conv_card)
qed

lemma wait_goes_by:
  assumes "holds_history b n p h" "0 < n" "\<forall>t\<in>set h. zero_time < t" "0 \<le> x"
  shows "bucket_wait b (now + x) = max (bucket_wait b now - x) 0"
  using assms(4) by (auto simp: wait_of_history [OF assms(1-3)])

lemma quota_waits:
  assumes "quota_history q h" "\<forall>t\<in>set h. zero_time < t" "sorted h"
  defines "w \<equiv> \<lambda>t. max (bucket_wait (qu_minute q) t) (bucket_wait (qu_hour q) t)"
  shows "0 < w now \<Longrightarrow> writesPerMinute \<le> length (filter (\<lambda>t. now - minute_ns < t) h) \<or>
      writesPerHour \<le> length (filter (\<lambda>t. now - hour_ns < t) h)"
    "0 \<le> x \<Longrightarrow> w (now + x) = max (w now - x) 0"
proof -
  have q: "holds_history (qu_minute q) writesPerMinute minute_ns h" "holds_history (qu_hour q) writesPerHour hour_ns h"
    using assms(1) by (auto simp: quota_history_def)
  show "0 < w now \<Longrightarrow> writesPerMinute \<le> length (filter (\<lambda>t. now - minute_ns < t) h) \<or>
      writesPerHour \<le> length (filter (\<lambda>t. now - hour_ns < t) h)"
    using wait_is_needed(1) [OF q(1) limits_pos(1) assms(2,3)] wait_is_needed(1) [OF q(2) limits_pos(2) assms(2,3)]
    unfolding w_def by (auto simp: less_max_iff_disj)
  show "0 \<le> x \<Longrightarrow> w (now + x) = max (w now - x) 0"
    unfolding w_def by (simp add: wait_goes_by [OF q(1) limits_pos(1) assms(2)] wait_goes_by [OF q(2) limits_pos(2) assms(2)])
qed

text \<open>
  C29. In every window of a minute an installation's writes are at most 80, in every window of an hour at most
  500, and at most 100 of its requests are in flight, whatever the order of its calls. A request is held back
  only where a limit is reached: 100 in flight, or a full minute or hour of writes behind it. A write held
  back by the writes is told the exact wait: it is admitted when the wait is over and at no instant before.
\<close>

theorem limits_hold_in_every_window:
  assumes "limiter_run l t written places"
  shows "length (filter (\<lambda>s. since \<le> s \<and> s < since + minute_ns) (writes_of i written)) \<le> 80 \<and>
    length (filter (\<lambda>s. since \<le> s \<and> s < since + hour_ns) (writes_of i written)) \<le> 500 \<and>
    count places i \<le> 100 \<and>
    (t \<le> now \<and> Admit l now i w = (l', Inl wait) \<longrightarrow>
       count places i = 100 \<and> wait = second_ns \<or>
       count places i < 100 \<and> w \<and>
         (80 \<le> length (filter (\<lambda>s. now - minute_ns < s) (writes_of i written)) \<or>
          500 \<le> length (filter (\<lambda>s. now - hour_ns < s) (writes_of i written))) \<and>
         snd (Admit l' (now + wait) i w) = Inr () \<and>
         (\<forall>before. now \<le> before \<and> before < now + wait \<longrightarrow> snd (Admit l' before i w) \<noteq> Inr ()))"
proof -
  let ?h = "writes_of i written" and ?q = "quota_of l i"
  have ok: "sorted (map snd written)" "\<And>s. s \<in> snd ` set written \<Longrightarrow> zero_time < s"
    and q: "quota_history ?q ?h" "qu_active ?q = int (count places i)" "int (count places i) \<le> maxConcurrent"
    using runs_ok [OF assms] by (auto simp: run_ok_def)
  have h: "sorted ?h" "\<forall>s\<in>set ?h. zero_time < s" using writes_of_sorted [OF ok(1)] ok(2) writes_of_set by blast+
  have windows: "length (filter (\<lambda>s. since \<le> s \<and> s < since + minute_ns) ?h) \<le> 80"
    "length (filter (\<lambda>s. since \<le> s \<and> s < since + hour_ns) ?h) \<le> 500"
    using spread_window [OF h(1), of writesPerMinute minute_ns since] spread_window [OF h(1), of writesPerHour hour_ns since] q(1)
    by (simp_all add: quota_history_def writesPerMinute_def writesPerHour_def)
  define ws where "ws t = max (bucket_wait (qu_minute ?q) t) (bucket_wait (qu_hour ?q) t)" for t
  have held: "count places i = 100 \<and> wait = second_ns \<or>
       count places i < 100 \<and> w \<and>
         (80 \<le> length (filter (\<lambda>s. now - minute_ns < s) ?h) \<or> 500 \<le> length (filter (\<lambda>s. now - hour_ns < s) ?h)) \<and>
         snd (Admit l' (now + wait) i w) = Inr () \<and>
         (\<forall>before. now \<le> before \<and> before < now + wait \<longrightarrow> snd (Admit l' before i w) \<noteq> Inr ())"
    if admit: "Admit l now i w = (l', Inl wait)"
  proof (cases "maxConcurrent \<le> qu_active ?q")
    case True
    then show ?thesis using admit q(2,3) by (auto simp: Admit_def Let_def maxConcurrent_def concurrentWait_def)
  next
    case False
    then have held: "w" "0 < ws now" "wait = ws now" and below: "count places i < 100"
      using admit q(2) by (auto simp: Admit_def Let_def ws_def maxConcurrent_def split: if_splits)
    have waits: "80 \<le> length (filter (\<lambda>s. now - minute_ns < s) ?h) \<or> 500 \<le> length (filter (\<lambda>s. now - hour_ns < s) ?h)"
      "\<And>x. 0 \<le> x \<Longrightarrow> ws (now + x) = max (ws now - x) 0"
      using quota_waits [OF q(1) h(2,1)] held(2) by (auto simp: ws_def writesPerMinute_def writesPerHour_def)
    have same: "quota_of l' i = ?q" using held_back_changes_nothing [OF admit] .
    have free: "snd (Admit l' t i w) = Inr () \<longleftrightarrow> ws t \<le> 0" for t
      using False held(1) by (auto simp: Admit_def Let_def same ws_def)
    have "ws (now + wait) = 0" using waits(2) [of "wait"] held(2,3) by simp
    moreover have "0 < ws before" if "now \<le> before" "before < now + wait" for before
      using waits(2) [of "before - now"] that held(3) by simp
    ultimately show ?thesis
      using below held(1) waits(1) free by (auto dest: leD)
  qed
  have "count places i \<le> 100" using q(3) by (simp add: maxConcurrent_def)
  then show ?thesis using windows held by blast
qed

theorem limits_hold_in_every_window_witness:
  "\<exists>l. limiter_run l 5 [(7, 5)] {#7#} \<and>
     length (filter (\<lambda>s. (0::int) \<le> s \<and> s < 0 + minute_ns) (writes_of 7 [(7, 5)])) \<le> 80"
proof -
  have "limiter_run NewLimiter 1 [] {#}" by (rule limiter_run.start) (simp add: zero_time_def second_ns_def)
  moreover obtain l where "Admit NewLimiter 5 7 True = (l, Inr ())"
    by (auto simp: Admit_def Let_def NewLimiter_def quota_of_def fresh_quota_def maxConcurrent_def bucket_wait_def newBucket_def
      writesPerMinute_def writesPerHour_def)
  ultimately have "limiter_run l 5 [(7, 5)] {#7#}" using limiter_run.admitted [of NewLimiter 1 "[]" "{#}" 5 7 True l] by simp
  with limits_hold_in_every_window [OF this] show ?thesis by blast
qed

end
