(* ===== verification/ScmEvent.thy ===== *)
theory ScmEvent
  imports CIContext
begin

text \<open>
  \<open>internal/scm/event.go\<close>: the webhook events the App acts on. \<open>decode\<close> is \<open>encoding/json\<close>'s reading of
  the payload. Every string of an event the App goes on with passed the check of its own format, and every
  other event is an error or is ignored.
\<close>

section \<open>The formats\<close>

abbreviation EventPullRequest :: string where "EventPullRequest \<equiv> ''pull_request''"

abbreviation EventCheckRun :: string where "EventCheckRun \<equiv> ''check_run''"

abbreviation ApproveAction :: string where "ApproveAction \<equiv> ''approve''"

abbreviation requestedAction :: string where "requestedAction \<equiv> ''requested_action''"

text \<open>\<open>^[0-9a-f]{40}([0-9a-f]{24})?$\<close>.\<close>

definition shaPattern :: "string \<Rightarrow> bool" where
  "shaPattern s \<longleftrightarrow> of_class is_hex 40 40 s \<or> of_class is_hex 64 64 s"

text \<open>\<open>^[A-Za-z0-9][A-Za-z0-9-]{0,38}(\[bot\])?$\<close>.\<close>

definition login_name :: "string \<Rightarrow> bool" where
  "login_name s =
     (case s of
        [] \<Rightarrow> False
      | c # cs \<Rightarrow> is_alnum c \<and> of_class (\<lambda>d. is_alnum d \<or> d = CHR ''-'') 0 38 cs)"

definition scm_loginPattern :: "string \<Rightarrow> bool" where
  "scm_loginPattern s \<longleftrightarrow> (let (name, bot) = cut_suffix s ''[bot]'' in login_name s \<or> bot \<and> login_name name)"

definition actionPattern :: "string \<Rightarrow> bool" where
  "actionPattern = of_class (\<lambda>c. is_lower c \<or> c = CHR ''_'') 1 64"

definition button_char :: "char \<Rightarrow> bool" where
  "button_char c \<longleftrightarrow> is_alnum c \<or> c = CHR ''_'' \<or> c = CHR ''-''"

definition buttonPattern :: "string \<Rightarrow> bool" where
  "buttonPattern = of_class button_char 1 20"

text \<open>\<open>^[A-Za-z0-9_.-]{1,100}/[A-Za-z0-9_.-]{1,100}$\<close>.\<close>

definition scm_repositoryPattern :: "string \<Rightarrow> bool" where
  "scm_repositoryPattern s =
     (case split_at s (CHR ''/'') of
        [owner, name] \<Rightarrow> of_class (\<lambda>c. button_char c \<or> c = CHR ''.'') 1 100 owner \<and>
          of_class (\<lambda>c. button_char c \<or> c = CHR ''.'') 1 100 name
      | _ \<Rightarrow> False)"

section \<open>The event\<close>

record scm_event =
  ev_Delivery :: string
  ev_Name :: string
  ev_Action :: string
  ev_Installation :: int
  ev_Repository :: string
  ev_Sender :: string
  ev_PullRequest :: int
  ev_HeadSHA :: string
  ev_RequestedAction :: string
  ev_At :: instant

record payload_pull =
  pp_Number :: int
  pp_UpdatedAt :: instant
  pp_HeadSHA :: string

record payload_check =
  pc_HeadSHA :: string
  pc_PullRequests :: "int list"

record event_payload =
  py_Action :: string
  py_Installation :: "int option"
  py_Repository :: "string option"
  py_Sender :: "string option"
  py_PullRequest :: "payload_pull option"
  py_CheckRun :: "payload_check option"
  py_RequestedAction :: "string option"

datatype event_error =
    IgnoredEvent
  | PayloadUnread
  | NoAction
  | NoInstallation
  | NoRepository
  | NoSender
  | NoPullRequest
  | NoCheckRun
  | InvalidPullRequest
  | NoRequestedAction

definition common_event :: "event_payload \<Rightarrow> string \<Rightarrow> event_error + scm_event" where
  "common_event p name =
     (if \<not> actionPattern (py_Action p) then Inl NoAction
      else case py_Installation p of
        None \<Rightarrow> Inl NoInstallation
      | Some installation \<Rightarrow>
      if installation \<le> 0 then Inl NoInstallation
      else case py_Repository p of
        None \<Rightarrow> Inl NoRepository
      | Some repository \<Rightarrow>
      if \<not> scm_repositoryPattern repository then Inl NoRepository
      else case py_Sender p of
        None \<Rightarrow> Inl NoSender
      | Some sender \<Rightarrow>
      if \<not> scm_loginPattern sender then Inl NoSender
      else Inr \<lparr>ev_Delivery = [], ev_Name = name, ev_Action = py_Action p, ev_Installation = installation,
                ev_Repository = repository, ev_Sender = sender, ev_PullRequest = 0, ev_HeadSHA = [],
                ev_RequestedAction = [], ev_At = zero_time\<rparr>)"

definition payload_pull_event :: "event_payload \<Rightarrow> scm_event \<Rightarrow> event_error + scm_event" where
  "payload_pull_event p e =
     (case py_PullRequest p of
        None \<Rightarrow> Inl NoPullRequest
      | Some pr \<Rightarrow>
          if pp_Number pr \<le> 0 \<or> \<not> shaPattern (pp_HeadSHA pr) \<or> pp_UpdatedAt pr = zero_time then Inl NoPullRequest
          else Inr (e\<lparr>ev_PullRequest := pp_Number pr, ev_HeadSHA := pp_HeadSHA pr, ev_At := pp_UpdatedAt pr\<rparr>))"

definition payload_check_event :: "event_payload \<Rightarrow> scm_event \<Rightarrow> event_error + scm_event" where
  "payload_check_event p e =
     (case py_CheckRun p of
        None \<Rightarrow> Inl NoCheckRun
      | Some run \<Rightarrow>
          if \<not> shaPattern (pc_HeadSHA run) then Inl NoCheckRun
          else if py_Action p \<noteq> requestedAction then Inl IgnoredEvent
          else (let e = e\<lparr>ev_HeadSHA := pc_HeadSHA run,
                          ev_PullRequest := (case pc_PullRequests run of [] \<Rightarrow> ev_PullRequest e | n # _ \<Rightarrow> n)\<rparr>
                in if ev_PullRequest e < 0 then Inl InvalidPullRequest
                   else case py_RequestedAction p of
                     None \<Rightarrow> Inr e
                   | Some button \<Rightarrow>
                       if \<not> buttonPattern button then Inl NoRequestedAction
                       else Inr (e\<lparr>ev_RequestedAction := button\<rparr>)))"

definition ParseEvent :: "(string \<Rightarrow> event_payload option) \<Rightarrow> string \<Rightarrow> string \<Rightarrow> event_error + scm_event" where
  "ParseEvent decode name body =
     (if name \<noteq> EventPullRequest \<and> name \<noteq> EventCheckRun then Inl IgnoredEvent
      else case decode body of
        None \<Rightarrow> Inl PayloadUnread
      | Some p \<Rightarrow>
          rbind (common_event p name) (\<lambda>e.
            if name = EventPullRequest then payload_pull_event p e else payload_check_event p e))"

section \<open>Every event passed its checks\<close>

definition event_checked :: "scm_event \<Rightarrow> bool" where
  "event_checked e \<longleftrightarrow>
     actionPattern (ev_Action e) \<and> 0 < ev_Installation e \<and> scm_repositoryPattern (ev_Repository e) \<and>
     scm_loginPattern (ev_Sender e) \<and> shaPattern (ev_HeadSHA e) \<and>
     (ev_Name e = EventPullRequest \<and> 0 < ev_PullRequest e \<and> ev_RequestedAction e = [] \<and> ev_At e \<noteq> zero_time \<or>
      ev_Name e = EventCheckRun \<and> ev_Action e = requestedAction \<and> 0 \<le> ev_PullRequest e \<and> ev_At e = zero_time \<and>
        (ev_RequestedAction e = [] \<or> buttonPattern (ev_RequestedAction e)))"

lemma common_event_ok:
  assumes "common_event p name = Inr e"
  shows "actionPattern (ev_Action e) \<and> 0 < ev_Installation e \<and> scm_repositoryPattern (ev_Repository e) \<and>
    scm_loginPattern (ev_Sender e) \<and> ev_Name e = name \<and> ev_Action e = py_Action p \<and> ev_PullRequest e = 0 \<and>
    ev_RequestedAction e = [] \<and> ev_At e = zero_time"
  using assms by (auto simp: common_event_def split: if_splits option.splits)

lemma parsed_event_checked:
  assumes "ParseEvent decode name body = Inr e"
  shows "event_checked e" "ev_Name e = name"
proof -
  obtain p c where c: "common_event p name = Inr c"
    and e: "(if name = EventPullRequest then payload_pull_event p c else payload_check_event p c) = Inr e"
    and name: "name = EventPullRequest \<or> name = EventCheckRun"
    using assms by (auto simp: ParseEvent_def result_eqs split: if_splits option.splits)
  note co = common_event_ok [OF c]
  have "event_checked e \<and> ev_Name e = name"
  proof (cases "name = EventPullRequest")
    case True
    then have "payload_pull_event p c = Inr e" using e by simp
    then show ?thesis using co True unfolding payload_pull_event_def event_checked_def
      by (auto split: if_splits option.splits)
  next
    case False
    then have "payload_check_event p c = Inr e" "name = EventCheckRun" using e name by auto
    then show ?thesis using co unfolding payload_check_event_def event_checked_def Let_def
      by (auto split: if_splits option.splits list.splits)
  qed
  then show "event_checked e" "ev_Name e = name" by auto
qed

end
