(* ===== verification/ScmWebhook.thy ===== *)
theory ScmWebhook
  imports ScmEvent
begin

text \<open>
  \<open>internal/scm/webhook.go\<close>: the handler that verifies GitHub's deliveries and queues them. HMAC-SHA-256 is
  the parameter \<open>hmac\<close>. A delivery store is an interface, so the handler takes its two operations, and the
  laws of the interface are the locale \<open>delivery_store\<close>, which the store of one process provides. The channel
  of the queue is the list of its events with its capacity.
\<close>

section \<open>The store of one process\<close>

abbreviation ReplayWindow :: int where "ReplayWindow \<equiv> 600 * second_ns"

abbreviation DeliveryRetention :: int where "DeliveryRetention \<equiv> 72 * 3600 * second_ns"

definition deliveryPattern :: "string \<Rightarrow> bool" where
  "deliveryPattern = of_class (\<lambda>c. is_alnum c \<or> c = CHR ''-'') 1 64"

record memory_deliveries =
  md_seen :: "string set"
  md_claims :: "(string \<times> instant) list"

definition NewMemoryDeliveries :: memory_deliveries where
  "NewMemoryDeliveries = \<lparr>md_seen = {}, md_claims = []\<rparr>"

fun forget_expired :: "instant \<Rightarrow> string set \<Rightarrow> (string \<times> instant) list \<Rightarrow> string set \<times> (string \<times> instant) list" where
  "forget_expired now seen [] = (seen, [])"
| "forget_expired now seen ((d, t) # claims) =
     (if DeliveryRetention < now - t then forget_expired now (seen - {d}) claims else (seen, (d, t) # claims))"

definition Claim :: "memory_deliveries \<Rightarrow> string \<Rightarrow> instant \<Rightarrow> memory_deliveries \<times> bool" where
  "Claim m delivery now =
     (let (seen, claims) = forget_expired now (md_seen m) (md_claims m)
      in if delivery \<in> seen then (\<lparr>md_seen = seen, md_claims = claims\<rparr>, False)
         else (\<lparr>md_seen = insert delivery seen, md_claims = claims @ [(delivery, now)]\<rparr>, True))"

definition Release :: "memory_deliveries \<Rightarrow> string \<Rightarrow> memory_deliveries" where
  "Release m delivery = m\<lparr>md_seen := md_seen m - {delivery}\<rparr>"

section \<open>The queue and the signature\<close>

record event_queue =
  eq_events :: "scm_event list"
  eq_size :: nat

definition Offer :: "event_queue \<Rightarrow> scm_event \<Rightarrow> event_queue \<times> bool" where
  "Offer q e = (if length (eq_events q) < eq_size q then (q\<lparr>eq_events := eq_events q @ [e]\<rparr>, True) else (q, False))"

definition hex_value :: "char \<Rightarrow> nat option" where
  "hex_value c =
     (if is_digit c then Some (of_char c - 48)
      else if CHR ''a'' \<le> c \<and> c \<le> CHR ''f'' then Some (of_char c - 87)
      else if CHR ''A'' \<le> c \<and> c \<le> CHR ''F'' then Some (of_char c - 55)
      else None)"

text \<open>\<open>hex.DecodeString\<close>: digits of either case, two a byte, and an odd one is an error.\<close>

fun hex_decode :: "string \<Rightarrow> string option" where
  "hex_decode [] = Some []"
| "hex_decode [c] = None"
| "hex_decode (a # b # cs) =
     (case (hex_value a, hex_value b, hex_decode cs) of
        (Some x, Some y, Some rest) \<Rightarrow> Some (char_of (16 * x + y) # rest)
      | _ \<Rightarrow> None)"

definition Verify :: "(string \<Rightarrow> string \<Rightarrow> string) \<Rightarrow> string \<Rightarrow> string \<Rightarrow> string \<Rightarrow> bool" where
  "Verify hmac secret body header =
     (if secret = [] then False
      else (let (encoded, found) = cut_prefix header ''sha256=''
            in if \<not> found then False
               else case hex_decode encoded of None \<Rightarrow> False | Some signature \<Rightarrow> signature = hmac secret body))"

section \<open>The handler\<close>

definition maxWebhookBody :: nat where
  "maxWebhookBody = 26214400"

definition outsideWindow :: "instant \<Rightarrow> instant \<Rightarrow> bool" where
  "outsideWindow t now =
     (if t = zero_time then False else t < now - ReplayWindow \<or> now + ReplayWindow < t)"

text \<open>
  One delivery as the server hands it over: \<open>hk_Body\<close> is \<open>None\<close> where the client stalls past the read
  deadline or the connection breaks.
\<close>

record hook_request =
  hk_Method :: string
  hk_Header :: "string \<Rightarrow> string"
  hk_Body :: "string option"

definition readBody :: "hook_request \<Rightarrow> string option" where
  "readBody r = (case hk_Body r of None \<Rightarrow> None | Some b \<Rightarrow> if maxWebhookBody < length b then None else Some b)"

datatype hook_answer =
    StatusOK
  | StatusAccepted
  | StatusBadRequest
  | StatusUnauthorized
  | StatusForbidden
  | StatusMethodNotAllowed
  | StatusInternalServerError
  | StatusServiceUnavailable

definition enqueue ::
    "('s \<Rightarrow> string \<Rightarrow> instant \<Rightarrow> 's \<times> (string + bool)) \<Rightarrow> ('s \<Rightarrow> string \<Rightarrow> 's \<times> string option) \<Rightarrow>
     's \<Rightarrow> event_queue \<Rightarrow> scm_event \<Rightarrow> instant \<Rightarrow> 's \<times> event_queue \<times> hook_answer" where
  "enqueue claim release s q e now =
     (case claim s (ev_Delivery e) now of
        (s, Inl _) \<Rightarrow> (s, q, StatusServiceUnavailable)
      | (s, Inr False) \<Rightarrow> (s, q, StatusOK)
      | (s, Inr True) \<Rightarrow>
          (case Offer q e of
             (q, True) \<Rightarrow> (s, q, StatusAccepted)
           | (q, False) \<Rightarrow>
               (case release s (ev_Delivery e) of
                  (s, Some _) \<Rightarrow> (s, q, StatusInternalServerError)
                | (s, None) \<Rightarrow> (s, q, StatusServiceUnavailable))))"

definition hook_status ::
    "(string \<Rightarrow> string \<Rightarrow> string) \<Rightarrow> (string \<Rightarrow> event_payload option) \<Rightarrow>
     ('s \<Rightarrow> string \<Rightarrow> instant \<Rightarrow> 's \<times> (string + bool)) \<Rightarrow> ('s \<Rightarrow> string \<Rightarrow> 's \<times> string option) \<Rightarrow>
     string \<Rightarrow> instant \<Rightarrow> 's \<Rightarrow> event_queue \<Rightarrow> hook_request \<Rightarrow> 's \<times> event_queue \<times> hook_answer" where
  "hook_status hmac decode claim release secret now s q r =
     (if hk_Method r \<noteq> ''POST'' then (s, q, StatusMethodNotAllowed)
      else case readBody r of
        None \<Rightarrow> (s, q, StatusBadRequest)
      | Some body \<Rightarrow>
      if \<not> Verify hmac secret body (hk_Header r ''X-Hub-Signature-256'') then (s, q, StatusUnauthorized)
      else (let delivery = hk_Header r ''X-GitHub-Delivery''
            in if \<not> deliveryPattern delivery then (s, q, StatusBadRequest)
               else case ParseEvent decode (hk_Header r ''X-GitHub-Event'') body of
                 Inl IgnoredEvent \<Rightarrow> (s, q, StatusAccepted)
               | Inl _ \<Rightarrow> (s, q, StatusBadRequest)
               | Inr e \<Rightarrow>
                   if outsideWindow (ev_At e) now then (s, q, StatusForbidden)
                   else enqueue claim release s q (e\<lparr>ev_Delivery := delivery\<rparr>) now))"

lemma enqueue_cases:
  assumes "enqueue claim release s q e now = (s', q', answer)"
  obtains (unclaimed) x where "claim s (ev_Delivery e) now = (s', Inl x)" "q' = q" "answer = StatusServiceUnavailable"
    | (repeated) "claim s (ev_Delivery e) now = (s', Inr False)" "q' = q" "answer = StatusOK"
    | (queued) "claim s (ev_Delivery e) now = (s', Inr True)" "length (eq_events q) < eq_size q"
        "q' = q\<lparr>eq_events := eq_events q @ [e]\<rparr>" "answer = StatusAccepted"
    | (full) s1 where "claim s (ev_Delivery e) now = (s1, Inr True)" "\<not> length (eq_events q) < eq_size q" "q' = q"
        "release s1 (ev_Delivery e) = (s', None)" "answer = StatusServiceUnavailable"
    | (stuck) s1 x where "claim s (ev_Delivery e) now = (s1, Inr True)" "\<not> length (eq_events q) < eq_size q" "q' = q"
        "release s1 (ev_Delivery e) = (s', Some x)" "answer = StatusInternalServerError"
proof -
  obtain s1 r where c: "claim s (ev_Delivery e) now = (s1, r)" by fastforce
  obtain s2 f where f: "release s1 (ev_Delivery e) = (s2, f)" by fastforce
  show thesis
  proof (cases r)
    case (Inl x)
    then show thesis using that(1) assms c by (simp add: enqueue_def)
  next
    case (Inr first)
    show thesis
    proof (cases first)
      case False
      then have "s' = s1" "q' = q" "answer = StatusOK" using assms c Inr by (simp_all add: enqueue_def)
      then show thesis using that(2) c Inr False by simp
    next
      case True
      show thesis
      proof (cases "length (eq_events q) < eq_size q")
        case fits: True
        then have "s' = s1" "q' = q\<lparr>eq_events := eq_events q @ [e]\<rparr>" "answer = StatusAccepted"
          using assms c Inr True by (simp_all add: enqueue_def Offer_def)
        then show thesis using that(3) c Inr True fits by simp
      next
        case False
        then have "s' = s2" "q' = q" "answer = (case f of None \<Rightarrow> StatusServiceUnavailable | Some _ \<Rightarrow> StatusInternalServerError)"
          using assms c f Inr True by (auto simp add: enqueue_def Offer_def split: option.splits)
        then show thesis using that(4,5) c f Inr True False by (cases f) auto
      qed
    qed
  qed
qed

section \<open>What a delivery store promises\<close>

text \<open>\<open>holds s d t\<close>: the id \<open>d\<close> is claimed at \<open>t\<close>.\<close>

locale delivery_store =
  fixes claim :: "'s \<Rightarrow> string \<Rightarrow> instant \<Rightarrow> 's \<times> (string + bool)"
    and release :: "'s \<Rightarrow> string \<Rightarrow> 's \<times> string option"
    and holds :: "'s \<Rightarrow> string \<Rightarrow> instant \<Rightarrow> bool"
  assumes claim_first: "claim s d t = (s', Inr first) \<Longrightarrow> first \<longleftrightarrow> \<not> holds s d t"
    and claim_holds: "claim s d t = (s', Inr first) \<Longrightarrow> holds s' d t"
    and claim_others: "claim s d t = (s', Inr first) \<Longrightarrow> e \<noteq> d \<Longrightarrow> t \<le> u \<Longrightarrow> holds s' e u \<longleftrightarrow> holds s e u"
    and release_forgets: "release s d = (s', None) \<Longrightarrow> \<not> holds s' d t"
    and release_others: "release s d = (s', None) \<Longrightarrow> e \<noteq> d \<Longrightarrow> holds s' e u \<longleftrightarrow> holds s e u"
begin

text \<open>
  An event the handler queues was claimed by nobody before and is claimed after; one that did not fit is
  free for a redelivery; a second delivery of a claimed id is answered and dropped.
\<close>

lemma queued_is_first:
  assumes "enqueue claim release s q e now = (s', q', StatusAccepted)"
  shows "\<not> holds s (ev_Delivery e) now \<and> holds s' (ev_Delivery e) now \<and> eq_events q' = eq_events q @ [e] \<and>
    length (eq_events q) < eq_size q"
  using assms
proof (cases rule: enqueue_cases)
  case queued
  then show ?thesis using claim_first claim_holds by simp
qed auto

lemma repeat_is_dropped:
  assumes "enqueue claim release s q e now = (s', q', StatusOK)"
  shows "holds s (ev_Delivery e) now \<and> q' = q"
  using assms
proof (cases rule: enqueue_cases)
  case repeated
  then show ?thesis using claim_first by blast
qed auto

lemma unqueued_is_free:
  assumes "enqueue claim release s q e now = (s', q', StatusServiceUnavailable)" "\<And>s d t. is_ok (snd (claim s d t))"
  shows "\<not> holds s' (ev_Delivery e) t \<and> q' = q"
  using assms(1)
proof (cases rule: enqueue_cases)
  case (unclaimed x)
  then show ?thesis using assms(2) [of s "ev_Delivery e" now] by simp
next
  case (full s1)
  then show ?thesis using release_forgets by blast
qed auto

lemma others_stay:
  assumes "enqueue claim release s q e now = (s', q', answer)" "answer \<in> {StatusOK, StatusAccepted}"
    "d \<noteq> ev_Delivery e" "now \<le> u"
  shows "holds s' d u \<longleftrightarrow> holds s d u"
  using assms(1)
proof (cases rule: enqueue_cases)
  case repeated
  then show ?thesis using claim_others assms(3,4) by blast
next
  case queued
  then show ?thesis using claim_others assms(3,4) by blast
qed (use assms(2) in auto)

end

section \<open>The store of one process keeps the promises\<close>

definition memory_claim :: "memory_deliveries \<Rightarrow> string \<Rightarrow> instant \<Rightarrow> memory_deliveries \<times> (string + bool)" where
  "memory_claim m d now = (let (m, first) = Claim m d now in (m, Inr first))"

definition memory_release :: "memory_deliveries \<Rightarrow> string \<Rightarrow> memory_deliveries \<times> string option" where
  "memory_release m d = (Release m d, None)"

definition memory_holds :: "memory_deliveries \<Rightarrow> string \<Rightarrow> instant \<Rightarrow> bool" where
  "memory_holds m d now \<longleftrightarrow> d \<in> fst (forget_expired now (md_seen m) (md_claims m))"

lemma forget_seen:
  "fst (forget_expired now seen claims) =
     seen - fst ` set (takeWhile (\<lambda>c. DeliveryRetention < now - snd c) claims)"
  by (induction now seen claims rule: forget_expired.induct) (auto simp: image_iff)

lemma forget_claims:
  "snd (forget_expired now seen claims) = dropWhile (\<lambda>c. DeliveryRetention < now - snd c) claims"
  by (induction now seen claims rule: forget_expired.induct) auto

lemma takeWhile_later:
  assumes "\<And>x. P x \<Longrightarrow> Q x"
  shows "set (takeWhile Q xs) = set (takeWhile P xs) \<union> set (takeWhile Q (dropWhile P xs))"
  by (induction xs) (auto simp: assms)

lemma takeWhile_snoc:
  "set (takeWhile Q (xs @ [y])) - {y} = set (takeWhile Q xs) - {y}"
  by (induction xs) auto

abbreviation expired_at :: "instant \<Rightarrow> string \<times> instant \<Rightarrow> bool" where
  "expired_at now \<equiv> \<lambda>c. DeliveryRetention < now - snd c"

lemma memory_holds_iff:
  "memory_holds m d now \<longleftrightarrow> d \<in> md_seen m \<and> d \<notin> fst ` set (takeWhile (expired_at now) (md_claims m))"
  by (simp add: memory_holds_def forget_seen)

lemma Claim_cases:
  obtains "\<not> memory_holds m d now" "snd (Claim m d now)"
      "md_seen (fst (Claim m d now)) = insert d (fst (forget_expired now (md_seen m) (md_claims m)))"
      "md_claims (fst (Claim m d now)) = dropWhile (expired_at now) (md_claims m) @ [(d, now)]"
    | "memory_holds m d now" "\<not> snd (Claim m d now)"
      "md_seen (fst (Claim m d now)) = fst (forget_expired now (md_seen m) (md_claims m))"
      "md_claims (fst (Claim m d now)) = dropWhile (expired_at now) (md_claims m)"
proof -
  obtain seen claims where f: "forget_expired now (md_seen m) (md_claims m) = (seen, claims)" by fastforce
  then have c: "claims = dropWhile (expired_at now) (md_claims m)"
    using forget_claims [of now "md_seen m" "md_claims m"] by simp
  show thesis
    by (cases "d \<in> seen") (use that f c in \<open>simp_all add: Claim_def memory_holds_def\<close>)
qed

lemma drop_no_prefix [simp]: "takeWhile P (dropWhile P xs) = []"
  by (induction xs) auto

lemma drop_no_prefix_snoc: "\<not> P y \<Longrightarrow> takeWhile P (dropWhile P xs @ [y]) = []"
  by (induction xs) auto

lemma claim_is_held: "memory_holds (fst (Claim m d now)) d now"
proof (cases rule: Claim_cases [of m d now])
  case 1
  have "takeWhile (expired_at now) (dropWhile (expired_at now) (md_claims m) @ [(d, now)]) = []"
    by (rule drop_no_prefix_snoc) (simp add: second_ns_def)
  then show ?thesis using 1 by (simp add: memory_holds_iff)
next
  case 2
  then show ?thesis by (simp add: memory_holds_iff forget_seen)
qed

lemma claim_keeps_others:
  assumes "e \<noteq> d" "now \<le> u"
  shows "memory_holds (fst (Claim m d now)) e u \<longleftrightarrow> memory_holds m e u"
proof -
  let ?xs = "dropWhile (expired_at now) (md_claims m)"
  have later: "set (takeWhile (expired_at u) (md_claims m)) =
      set (takeWhile (expired_at now) (md_claims m)) \<union> set (takeWhile (expired_at u) ?xs)"
    using assms(2) by (intro takeWhile_later) auto
  have "e \<in> fst ` set (takeWhile (expired_at u) (?xs @ [(d, now)])) \<longleftrightarrow>
      e \<in> fst ` (set (takeWhile (expired_at u) (?xs @ [(d, now)])) - {(d, now)})"
    using assms(1) by auto
  also have "\<dots> \<longleftrightarrow> e \<in> fst ` set (takeWhile (expired_at u) ?xs)"
    unfolding takeWhile_snoc using assms(1) by auto
  finally have new: "e \<in> fst ` set (takeWhile (expired_at u) (?xs @ [(d, now)])) \<longleftrightarrow> e \<in> fst ` set (takeWhile (expired_at u) ?xs)" .
  have gone: "e \<in> fst ` set (takeWhile (expired_at u) (md_claims m)) \<longleftrightarrow>
      e \<in> fst ` set (takeWhile (expired_at now) (md_claims m)) \<or> e \<in> fst ` set (takeWhile (expired_at u) ?xs)"
    unfolding later by (simp add: image_Un)
  show ?thesis
  proof (cases rule: Claim_cases [of m d now])
    case 1
    show ?thesis unfolding memory_holds_iff 1(3,4) new gone forget_seen using assms(1) by blast
  next
    case 2
    show ?thesis unfolding memory_holds_iff 2(3,4) gone forget_seen by blast
  qed
qed

interpretation memory: delivery_store memory_claim memory_release memory_holds
proof
  fix s s' :: memory_deliveries and d t first
  assume c: "memory_claim s d t = (s', Inr first)"
  then have s': "s' = fst (Claim s d t)" "first = snd (Claim s d t)"
    by (auto simp: memory_claim_def split: prod.splits)
  show "first \<longleftrightarrow> \<not> memory_holds s d t" unfolding s' by (cases rule: Claim_cases [of s d t]) auto
  show "memory_holds s' d t" unfolding s' by (rule claim_is_held)
  show "memory_holds s' e u \<longleftrightarrow> memory_holds s e u" if "e \<noteq> d" "t \<le> u" for e u
    unfolding s' using that by (rule claim_keeps_others)
next
  fix s s' :: memory_deliveries and d e t u
  assume "memory_release s d = (s', None)"
  then have s': "s' = Release s d" by (simp add: memory_release_def)
  show "\<not> memory_holds s' d t" unfolding s' by (simp add: memory_holds_iff Release_def)
  show "memory_holds s' e u \<longleftrightarrow> memory_holds s e u" if "e \<noteq> d"
    unfolding s' using that by (simp add: memory_holds_iff Release_def)
qed

section \<open>Only verified events, each once\<close>

text \<open>The handler over the store of one process.\<close>

definition serve_hook ::
    "(string \<Rightarrow> string \<Rightarrow> string) \<Rightarrow> (string \<Rightarrow> event_payload option) \<Rightarrow> string \<Rightarrow> instant \<Rightarrow>
     memory_deliveries \<Rightarrow> event_queue \<Rightarrow> hook_request \<Rightarrow> memory_deliveries \<times> event_queue \<times> hook_answer" where
  "serve_hook hmac decode = hook_status hmac decode memory_claim memory_release"

lemma hook_cases:
  assumes "hook_status hmac decode claim release secret now s q r = (s', q', answer)"
  obtains (turned_away) "s' = s" "q' = q"
      "answer \<in> {StatusMethodNotAllowed, StatusBadRequest, StatusUnauthorized, StatusAccepted, StatusForbidden}"
    | (offered) body e where "hk_Method r = ''POST''" "readBody r = Some body"
    "Verify hmac secret body (hk_Header r ''X-Hub-Signature-256'')" "deliveryPattern (hk_Header r ''X-GitHub-Delivery'')"
    "ParseEvent decode (hk_Header r ''X-GitHub-Event'') body = Inr e" "\<not> outsideWindow (ev_At e) now"
    "enqueue claim release s q (e\<lparr>ev_Delivery := hk_Header r ''X-GitHub-Delivery''\<rparr>) now = (s', q', answer)"
  using assms unfolding hook_status_def Let_def
  by (auto split: if_splits option.splits sum.splits event_error.splits)

lemma Verify_iff:
  "Verify hmac secret body header \<longleftrightarrow>
     secret \<noteq> [] \<and> (\<exists>encoded. header = ''sha256='' @ encoded \<and> hex_decode encoded = Some (hmac secret body))"
  by (auto simp: Verify_def cut_prefix_def prefix_def split: option.splits if_splits)

text \<open>
  C25. The queue only grows by an event of a POST whose signature under a secret that is not empty is the
  body's HMAC, whose delivery id has the id's format and was not claimed, whose every string has its own
  format, and whose stated instant is within ten minutes; a check run states none. The queue never passes its
  size. An event that is answered accepted and queued is claimed from then on; one that found no room is free
  for a redelivery, and a claimed id leaves the queue as it was.
\<close>

theorem webhook_queues_only_verified:
  assumes "serve_hook hmac decode secret now s q r = (s', q', answer)" "length (eq_events q) \<le> eq_size q"
  defines "d \<equiv> hk_Header r ''X-GitHub-Delivery''"
  shows "eq_size q' = eq_size q \<and> length (eq_events q') \<le> eq_size q' \<and>
    (memory_holds s d now \<longrightarrow> q' = q) \<and>
    (q' \<noteq> q \<longrightarrow> answer = StatusAccepted \<and> hk_Method r = ''POST'' \<and> deliveryPattern d \<and>
       \<not> memory_holds s d now \<and> memory_holds s' d now \<and>
       (\<exists>body encoded e. hk_Body r = Some body \<and> secret \<noteq> [] \<and>
          hk_Header r ''X-Hub-Signature-256'' = ''sha256='' @ encoded \<and> hex_decode encoded = Some (hmac secret body) \<and>
          eq_events q' = eq_events q @ [e] \<and> ev_Delivery e = d \<and> event_checked e \<and>
          (ev_At e = zero_time \<longleftrightarrow> ev_Name e = EventCheckRun) \<and>
          (ev_At e \<noteq> zero_time \<longrightarrow> \<bar>ev_At e - now\<bar> \<le> ReplayWindow))) \<and>
    (answer = StatusServiceUnavailable \<longrightarrow> q' = q \<and> \<not> memory_holds s' d now)"
  using assms(1) [unfolded serve_hook_def]
proof (cases rule: hook_cases)
  case turned_away
  then show ?thesis using assms(2) by auto
next
  case (offered body e)
  let ?e = "e\<lparr>ev_Delivery := d\<rparr>"
  have enq: "enqueue memory_claim memory_release s q ?e now = (s', q', answer)" using offered(7) unfolding d_def .
  have checked: "event_checked ?e" using parsed_event_checked(1) [OF offered(5)] by (simp add: event_checked_def)
  then have stated: "ev_At ?e = zero_time \<longleftrightarrow> ev_Name ?e = EventCheckRun" by (auto simp: event_checked_def)
  have inside: "ev_At ?e \<noteq> zero_time \<longrightarrow> \<bar>ev_At ?e - now\<bar> \<le> ReplayWindow" using offered(6) by (auto simp: outsideWindow_def)
  obtain encoded where signed: "secret \<noteq> []" "hk_Header r ''X-Hub-Signature-256'' = ''sha256='' @ encoded"
    "hex_decode encoded = Some (hmac secret body)"
    using offered(3) unfolding Verify_iff by blast
  have body: "hk_Body r = Some body" using offered(2) by (auto simp: readBody_def split: option.splits if_splits)
  have grown: "answer = StatusAccepted" "eq_size q' = eq_size q" if "q' \<noteq> q"
    using enq that by (cases rule: enqueue_cases; simp)+
  have size: "eq_size q' = eq_size q \<and> length (eq_events q') \<le> eq_size q'"
    using enq assms(2) by (cases rule: enqueue_cases) simp_all
  have queued: "\<not> memory_holds s d now \<and> memory_holds s' d now \<and> eq_events q' = eq_events q @ [?e]" if "q' \<noteq> q"
    using memory.queued_is_first [OF enq [unfolded grown(1) [OF that]]] by simp
  have free: "q' = q \<and> \<not> memory_holds s' d now" if "answer = StatusServiceUnavailable"
    using memory.unqueued_is_free [OF enq [unfolded that]] by (simp add: memory_claim_def split: prod.splits)
  show ?thesis
    using size queued free grown(1) offered(1,4) body signed checked stated inside unfolding d_def [symmetric]
    by (metis (no_types, lifting) scm_event.select_convs(1) scm_event.surjective scm_event.update_convs(1))
qed

text \<open>A request that delivers a pull request event, signed under a secret by a toy HMAC.\<close>

definition sample_payload :: event_payload where
  "sample_payload =
     \<lparr>py_Action = ''opened'', py_Installation = Some 7, py_Repository = Some ''acme/shop'', py_Sender = Some ''ada'',
      py_PullRequest = Some \<lparr>pp_Number = 3, pp_UpdatedAt = 0, pp_HeadSHA = replicate 40 (CHR ''a'')\<rparr>,
      py_CheckRun = None, py_RequestedAction = None\<rparr>"

definition sample_hook :: hook_request where
  "sample_hook =
     \<lparr>hk_Method = ''POST'',
      hk_Header = (\<lambda>h. if h = ''X-Hub-Signature-256'' then ''sha256=4b'' else if h = ''X-GitHub-Delivery'' then ''d-1''
        else ''pull_request''), hk_Body = Some ''body''\<rparr>"

lemma sample_hook_queued:
  "\<exists>s' q'. serve_hook (\<lambda>k b. k) (\<lambda>b. Some sample_payload) ''K'' 5 NewMemoryDeliveries \<lparr>eq_events = [], eq_size = 1\<rparr> sample_hook =
     (s', q', StatusAccepted) \<and> length (eq_events q') = 1"
proof -
  have "length ''body'' \<le> maxWebhookBody" by (simp add: maxWebhookBody_def)
  then have "readBody sample_hook = Some ''body''" by (simp add: readBody_def sample_hook_def)
  moreover have "Verify (\<lambda>k b. k) ''K'' ''body'' ''sha256=4b''" "deliveryPattern ''d-1''" by code_simp+
  moreover obtain e where "ParseEvent (\<lambda>b. Some sample_payload) ''pull_request'' ''body'' = Inr e" "ev_At e = 0"
  proof -
    have "(case ParseEvent (\<lambda>b. Some sample_payload) ''pull_request'' ''body'' of Inl _ \<Rightarrow> False | Inr e \<Rightarrow> ev_At e = 0)"
      by code_simp
    then show thesis using that by (auto split: sum.splits)
  qed
  moreover have "\<not> outsideWindow 0 5" by (simp add: outsideWindow_def second_ns_def)
  ultimately show ?thesis
    unfolding serve_hook_def hook_status_def
    by (simp add: sample_hook_def enqueue_def Offer_def memory_claim_def Claim_def NewMemoryDeliveries_def Let_def)
qed

theorem webhook_queues_only_verified_witness:
  "\<exists>s' q'. serve_hook (\<lambda>k b. k) (\<lambda>b. Some sample_payload) ''K'' 5 NewMemoryDeliveries \<lparr>eq_events = [], eq_size = 1\<rparr> sample_hook =
     (s', q', StatusAccepted) \<and> memory_holds s' ''d-1'' 5 \<and> \<not> memory_holds NewMemoryDeliveries ''d-1'' 5"
proof -
  obtain s' q' where run: "serve_hook (\<lambda>k b. k) (\<lambda>b. Some sample_payload) ''K'' 5 NewMemoryDeliveries \<lparr>eq_events = [], eq_size = 1\<rparr> sample_hook =
     (s', q', StatusAccepted)" and one: "length (eq_events q') = 1"
    using sample_hook_queued by blast
  then have "q' \<noteq> \<lparr>eq_events = [], eq_size = 1\<rparr>" by auto
  then show ?thesis
    using webhook_queues_only_verified [OF run] run by (simp add: sample_hook_def)
qed

section \<open>How long a claim lasts\<close>

datatype store_op =
    ClaimAt string instant
  | ReleaseOf string

fun store_step :: "memory_deliveries \<Rightarrow> store_op \<Rightarrow> memory_deliveries" where
  "store_step m (ClaimAt d t) = fst (Claim m d t)"
| "store_step m (ReleaseOf d) = Release m d"

text \<open>The id is claimed, and none of its entries is older than the claim made at \<open>t\<close>.\<close>

definition claimed_since :: "memory_deliveries \<Rightarrow> string \<Rightarrow> instant \<Rightarrow> bool" where
  "claimed_since m d t \<longleftrightarrow> d \<in> md_seen m \<and> (\<forall>u. (d, u) \<in> set (md_claims m) \<longrightarrow> t \<le> u)"

lemma claimed_since_holds:
  assumes "claimed_since m d t" "u \<le> t + DeliveryRetention"
  shows "memory_holds m d u" "d \<in> fst (forget_expired u (md_seen m) (md_claims m))"
proof -
  show "memory_holds m d u"
    using assms set_takeWhileD by (fastforce simp: claimed_since_def memory_holds_iff)
  then show "d \<in> fst (forget_expired u (md_seen m) (md_claims m))" by (simp add: memory_holds_def)
qed

lemma claimed_since_step:
  assumes "claimed_since m d t" "p \<noteq> ReleaseOf d" "\<And>e u. p = ClaimAt e u \<Longrightarrow> u \<le> t + DeliveryRetention"
  shows "claimed_since (store_step m p) d t"
proof (cases p)
  case (ReleaseOf e)
  then show ?thesis using assms(1,2) by (auto simp: claimed_since_def Release_def)
next
  case (ClaimAt e u)
  then have u: "u \<le> t + DeliveryRetention" using assms(3) by blast
  note d = claimed_since_holds [OF assms(1) u]
  have old: "t \<le> v" if "(d, v) \<in> set (dropWhile (expired_at u) (md_claims m))" for v
    using that assms(1) by (auto simp: claimed_since_def dest: set_dropWhileD)
  show ?thesis
    unfolding ClaimAt store_step.simps
  proof (cases rule: Claim_cases [of m e u])
    case 1
    then have "e \<noteq> d" using d(1) by auto
    then show "claimed_since (fst (Claim m e u)) d t"
      unfolding claimed_since_def 1(3,4) using d(2) old by auto
  next
    case 2
    show "claimed_since (fst (Claim m e u)) d t"
      unfolding claimed_since_def 2(3,4) using d(2) old by auto
  qed
qed

text \<open>
  An id claimed at \<open>t\<close> is refused to every later delivery up to 72 hours after \<open>t\<close>, whatever is claimed
  and released in between, unless the id itself is released or was released after an earlier claim whose
  entry still waits to expire.
\<close>

theorem claim_lasts_its_retention:
  assumes "Claim m d t = (m', True)" "\<forall>u. (d, u) \<in> set (md_claims m) \<longrightarrow> DeliveryRetention < t - u"
    "sorted (map snd (md_claims m))"
    "ReleaseOf d \<notin> set ops" "\<forall>e u. ClaimAt e u \<in> set ops \<longrightarrow> u \<le> t + DeliveryRetention" "v \<le> t + DeliveryRetention"
  shows "\<not> snd (Claim (fold (\<lambda>p m. store_step m p) ops m') d v)"
proof -
  have "(d, u) \<notin> set (dropWhile (expired_at t) (md_claims m))" for u
  proof
    assume mem: "(d, u) \<in> set (dropWhile (expired_at t) (md_claims m))"
    then obtain c cs where cs: "dropWhile (expired_at t) (md_claims m) = c # cs"
      by (metis empty_iff list.exhaust list.set(1))
    have "sorted (map snd (dropWhile (expired_at t) (md_claims m)))"
      using assms(3) by (simp add: sorted_map sorted_wrt_dropWhile)
    then have "snd c \<le> u" using mem cs by fastforce
    moreover have "\<not> expired_at t c" using cs hd_dropWhile [of "expired_at t" "md_claims m"] by fastforce
    moreover have "DeliveryRetention < t - u" using mem assms(2) by (auto dest: set_dropWhileD)
    ultimately show False by simp
  qed
  then have start: "claimed_since m' d t"
    using assms(1) by (cases rule: Claim_cases [of m d t]) (auto simp: claimed_since_def)
  have "claimed_since (fold (\<lambda>p m. store_step m p) ops m') d t"
    using start assms(4,5)
  proof (induction ops arbitrary: m')
    case (Cons p ops)
    then have "claimed_since (store_step m' p) d t" by (intro claimed_since_step) auto
    then show ?case using Cons by auto
  qed simp
  then have "memory_holds (fold (\<lambda>p m. store_step m p) ops m') d v" using assms(6) by (rule claimed_since_holds(1))
  then show ?thesis by (cases rule: Claim_cases [of "fold (\<lambda>p m. store_step m p) ops m'" d v]) auto
qed

theorem claim_lasts_its_retention_witness:
  "\<not> snd (Claim (fold (\<lambda>p m. store_step m p) [ClaimAt ''e'' 9, ReleaseOf ''e''] (fst (Claim NewMemoryDeliveries ''d'' 0))) ''d'' 10)"
  by (rule claim_lasts_its_retention [of NewMemoryDeliveries "''d''" 0])
    (auto simp: Claim_def NewMemoryDeliveries_def second_ns_def)


end
