(* ===== verification/ScmApproval.thy ===== *)
theory ScmApproval
  imports ScmEvent "HOL-Library.Product_Lexorder"
begin

text \<open>
  \<open>internal/scm/approval.go\<close>: who may approve a pull request's head. The host's answers, the pull request and
  the approver's role, are parameters. Logins and states are compared in ASCII case, which is what a login the
  pattern accepts is written in. Go's map of standing reviews has no order, so it is a list in the order of the
  reviewers' first decisive review, and reviews of one instant and one id keep that order where Go's sort
  leaves it open.
\<close>

section \<open>Approvals\<close>

abbreviation ReviewApproved :: string where "ReviewApproved \<equiv> ''APPROVED''"

abbreviation ReviewCommented :: string where "ReviewCommented \<equiv> ''COMMENTED''"

abbreviation ReviewPending :: string where "ReviewPending \<equiv> ''PENDING''"

definition upper_char :: "char \<Rightarrow> char" where
  "upper_char c = (if is_lower c then char_of (of_char c - 32 :: nat) else c)"

definition to_upper :: "string \<Rightarrow> string" where
  "to_upper s = map upper_char s"

definition same_fold :: "string \<Rightarrow> string \<Rightarrow> bool" where
  "same_fold a b \<longleftrightarrow> to_lower a = to_lower b"

record review =
  rv_ID :: int
  rv_Reviewer :: string
  rv_State :: string
  rv_CommitID :: string
  rv_SubmittedAt :: instant

record approval_rules =
  ru_AllowAuthor :: bool
  ru_Lasts :: int

record approval_request =
  aq_PullRequest :: int
  aq_Approver :: string
  aq_HeadSHA :: string
  aq_AllowAuthor :: bool

record scm_approval =
  sa_PullRequest :: int
  sa_Approver :: string
  sa_HeadSHA :: string
  sa_At :: instant
  sa_ReviewID :: int

record scm_pull =
  sp_Number :: int
  sp_HeadSHA :: string
  sp_Author :: string

datatype approval_error =
    AuthorApproval
  | NoWriteRole
  | StaleHead
  | NotAnApproval
  | NotApproved
  | NoApprover
  | BotApproval
  | OffHead
  | ExpiredReview
  | NoApproval
  | NewestRefused int approval_error
  | PullUnread string
  | RoleUnread string

definition RequestFrom :: "scm_event \<Rightarrow> approval_error + approval_request" where
  "RequestFrom e =
     (if ev_Name e \<noteq> EventCheckRun \<or> ev_Action e \<noteq> requestedAction \<or> ev_RequestedAction e \<noteq> ApproveAction \<or>
         ev_PullRequest e \<le> 0
      then Inl NotAnApproval
      else Inr \<lparr>aq_PullRequest = ev_PullRequest e, aq_Approver = ev_Sender e, aq_HeadSHA = ev_HeadSHA e,
                aq_AllowAuthor = False\<rparr>)"

definition approval_holds :: "scm_approval \<Rightarrow> string \<Rightarrow> bool" where
  "approval_holds a head \<longleftrightarrow> sa_HeadSHA a = head"

definition Approve ::
    "(int \<Rightarrow> string + scm_pull) \<Rightarrow> (string \<Rightarrow> string + bool) \<Rightarrow> approval_request \<Rightarrow> instant \<Rightarrow>
     approval_error + scm_approval" where
  "Approve pull_of can_write q now =
     (case pull_of (aq_PullRequest q) of
        Inl e \<Rightarrow> Inl (PullUnread e)
      | Inr pull \<Rightarrow>
          if sp_HeadSHA pull \<noteq> aq_HeadSHA q then Inl StaleHead
          else if \<not> aq_AllowAuthor q \<and> same_fold (sp_Author pull) (aq_Approver q) then Inl AuthorApproval
          else (case can_write (aq_Approver q) of
                  Inl e \<Rightarrow> Inl (RoleUnread e)
                | Inr False \<Rightarrow> Inl NoWriteRole
                | Inr True \<Rightarrow> Inr \<lparr>sa_PullRequest = sp_Number pull, sa_Approver = aq_Approver q,
                    sa_HeadSHA = sp_HeadSHA pull, sa_At = now, sa_ReviewID = 0\<rparr>))"

section \<open>One review\<close>

definition CountReview ::
    "(string \<Rightarrow> string + bool) \<Rightarrow> approval_rules \<Rightarrow> scm_pull \<Rightarrow> review \<Rightarrow> instant \<Rightarrow> approval_error + scm_approval" where
  "CountReview can_write rules pull r now =
     (if \<not> same_fold (rv_State r) ReviewApproved then Inl NotApproved
      else if \<not> scm_loginPattern (rv_Reviewer r) then Inl NoApprover
      else if snd (cut_suffix (to_lower (rv_Reviewer r)) ''[bot]'') then Inl BotApproval
      else if \<not> ru_AllowAuthor rules \<and> same_fold (sp_Author pull) (rv_Reviewer r) then Inl AuthorApproval
      else if \<not> shaPattern (sp_HeadSHA pull) \<or> rv_CommitID r \<noteq> sp_HeadSHA pull then Inl OffHead
      else if rv_SubmittedAt r = zero_time \<or> ru_Lasts rules \<le> now - rv_SubmittedAt r then Inl ExpiredReview
      else (case can_write (rv_Reviewer r) of
              Inl e \<Rightarrow> Inl (RoleUnread e)
            | Inr False \<Rightarrow> Inl NoWriteRole
            | Inr True \<Rightarrow> Inr \<lparr>sa_PullRequest = sp_Number pull, sa_Approver = rv_Reviewer r,
                sa_HeadSHA = sp_HeadSHA pull, sa_At = rv_SubmittedAt r, sa_ReviewID = rv_ID r\<rparr>))"

section \<open>All reviews\<close>

definition newer :: "review \<Rightarrow> review \<Rightarrow> bool" where
  "newer a b \<longleftrightarrow>
     rv_SubmittedAt b < rv_SubmittedAt a \<or> rv_SubmittedAt a = rv_SubmittedAt b \<and> rv_ID b < rv_ID a"

definition decisive :: "review \<Rightarrow> bool" where
  "decisive r \<longleftrightarrow> to_upper (rv_State r) \<noteq> ReviewCommented \<and> to_upper (rv_State r) \<noteq> ReviewPending"

definition stand :: "(string \<times> review) list \<Rightarrow> review \<Rightarrow> (string \<times> review) list" where
  "stand standing r =
     (if \<not> decisive r then standing
      else upsert (to_lower (rv_Reviewer r)) r (\<lambda>held. if newer r held then r else held) standing)"

definition standing_reviews :: "review list \<Rightarrow> review list" where
  "standing_reviews reviews = map snd (fold (\<lambda>r standing. stand standing r) reviews [])"

text \<open>The newest first.\<close>

definition newest_first :: "review list \<Rightarrow> review list" where
  "newest_first = sort_key (\<lambda>r. (- rv_SubmittedAt r, - rv_ID r))"

fun first_counted ::
    "(string \<Rightarrow> string + bool) \<Rightarrow> approval_rules \<Rightarrow> scm_pull \<Rightarrow> instant \<Rightarrow> approval_error \<Rightarrow> bool \<Rightarrow> review list \<Rightarrow>
     approval_error + scm_approval" where
  "first_counted can_write rules pull now refusal first [] = Inl refusal"
| "first_counted can_write rules pull now refusal first (r # rs) =
     (case CountReview can_write rules pull r now of
        Inr a \<Rightarrow> Inr a
      | Inl e \<Rightarrow> first_counted can_write rules pull now (if first then NewestRefused (rv_ID r) e else refusal) False rs)"

definition ApprovalOf ::
    "(string \<Rightarrow> string + bool) \<Rightarrow> approval_rules \<Rightarrow> scm_pull \<Rightarrow> review list \<Rightarrow> instant \<Rightarrow> approval_error + scm_approval" where
  "ApprovalOf can_write rules pull reviews now =
     first_counted can_write rules pull now NoApproval True
       (newest_first (filter (\<lambda>r. same_fold (rv_State r) ReviewApproved) (standing_reviews reviews)))"

section \<open>Whose approval counts\<close>

text \<open>A reviewer's standing: a decisive review that no other decisive review of the same reviewer is newer than.\<close>

definition stands :: "review list \<Rightarrow> review \<Rightarrow> bool" where
  "stands reviews r \<longleftrightarrow> r \<in> set reviews \<and> decisive r \<and>
     (\<forall>q\<in>set reviews. decisive q \<and> to_lower (rv_Reviewer q) = to_lower (rv_Reviewer r) \<longrightarrow> \<not> newer q r)"

abbreviation standing_table :: "review list \<Rightarrow> (string \<times> review) list" where
  "standing_table reviews \<equiv> fold (\<lambda>r standing. stand standing r) reviews []"

lemma newer_trans: "\<not> newer a b \<Longrightarrow> \<not> newer b c \<Longrightarrow> \<not> newer a c"
  by (auto simp: newer_def)

lemma newer_asym: "newer a b \<Longrightarrow> \<not> newer b a"
  by (auto simp: newer_def)

lemma newer_irrefl [simp]: "\<not> newer a a"
  by (simp add: newer_def)

lemma stands_snoc_other:
  "stands reviews r \<Longrightarrow> \<not> decisive n \<or> to_lower (rv_Reviewer n) \<noteq> to_lower (rv_Reviewer r) \<or> \<not> newer n r \<Longrightarrow>
     stands (reviews @ [n]) r"
  by (auto simp: stands_def)

lemma standing_table_ok:
  "distinct (map fst (standing_table reviews)) \<and>
   (\<forall>(k, r)\<in>set (standing_table reviews). k = to_lower (rv_Reviewer r) \<and> stands reviews r) \<and>
   (\<forall>r\<in>set reviews. decisive r \<longrightarrow> to_lower (rv_Reviewer r) \<in> fst ` set (standing_table reviews))"
proof (induction reviews rule: rev_induct)
  case Nil
  show ?case by simp
next
  case (snoc n reviews)
  let ?m = "standing_table reviews" and ?k = "to_lower (rv_Reviewer n)"
  have dist: "distinct (map fst ?m)"
    and old: "\<And>k r. (k, r) \<in> set ?m \<Longrightarrow> k = to_lower (rv_Reviewer r) \<and> stands reviews r"
    and keys: "\<And>r. r \<in> set reviews \<Longrightarrow> decisive r \<Longrightarrow> to_lower (rv_Reviewer r) \<in> fst ` set ?m"
    using snoc.IH by auto
  show ?case
  proof (cases "decisive n")
    case False
    then show ?thesis using dist old keys stands_snoc_other by (auto simp: stand_def)
  next
    case True
    let ?upd = "\<lambda>held. if newer n held then n else held"
    have tab: "standing_table (reviews @ [n]) = upsert ?k n ?upd ?m" using True by (simp add: stand_def)
    have newest: "stands (reviews @ [n]) (?upd r)" "to_lower (rv_Reviewer (?upd r)) = ?k" if r: "(?k, r) \<in> set ?m" for r
    proof -
      have r': "stands reviews r" "to_lower (rv_Reviewer r) = ?k" using old [OF r] by auto
      show "to_lower (rv_Reviewer (?upd r)) = ?k" using r'(2) by simp
      show "stands (reviews @ [n]) (?upd r)"
      proof (cases "newer n r")
        case newer: True
        have "\<not> newer q n" if "q \<in> set reviews" "decisive q" "to_lower (rv_Reviewer q) = ?k" for q
          using that r' newer newer_trans newer_asym unfolding stands_def by metis
        then show ?thesis using newer True by (auto simp: stands_def)
      next
        case False
        then show ?thesis using stands_snoc_other [OF r'(1)] by simp
      qed
    qed
    have first: "stands (reviews @ [n]) n" if "?k \<notin> fst ` set ?m"
    proof -
      have "\<not> (q \<in> set reviews \<and> decisive q \<and> to_lower (rv_Reviewer q) = ?k)" for q
        using that keys [of q] by metis
      then show ?thesis using True by (auto simp: stands_def)
    qed
    have entry: "k = to_lower (rv_Reviewer r) \<and> stands (reviews @ [n]) r" if mem: "(k, r) \<in> set (upsert ?k n ?upd ?m)" for k r
    proof (cases "k = ?k")
      case False
      then have "(k, r) \<in> set ?m" using upsert_values [OF mem] by auto
      then show ?thesis using old False stands_snoc_other by metis
    next
      case k: True
      have "map_of (upsert ?k n ?upd ?m) ?k = Some r"
        using mem k distinct_upsert [OF dist] by simp
      then have r: "r = ?upd (case map_of ?m ?k of None \<Rightarrow> n | Some v \<Rightarrow> v)" by (simp add: map_of_upsert)
      show ?thesis
      proof (cases "map_of ?m ?k")
        case None
        then have "?k \<notin> fst ` set ?m" by (simp add: map_of_eq_None_iff)
        then show ?thesis using first r None k by simp
      next
        case (Some v)
        then have v: "(?k, v) \<in> set ?m" by (rule map_of_SomeD)
        have "?upd v = r" unfolding r Some by simp
        then show ?thesis using newest [OF v] unfolding k by simp
      qed
    qed
    show ?thesis
      unfolding tab using distinct_upsert [OF dist] entry keys by (auto simp: keys_upsert)
  qed
qed

lemma standing_entry: "(k, r) \<in> set (standing_table reviews) \<Longrightarrow> k = to_lower (rv_Reviewer r) \<and> stands reviews r"
  using standing_table_ok [of reviews] by blast

lemma standing_key: "r \<in> set reviews \<Longrightarrow> decisive r \<Longrightarrow> to_lower (rv_Reviewer r) \<in> fst ` set (standing_table reviews)"
  using standing_table_ok [of reviews] by blast

lemma standing_reviews_iff:
  assumes "\<And>a b. a \<in> set reviews \<Longrightarrow> b \<in> set reviews \<Longrightarrow> decisive a \<Longrightarrow> decisive b \<Longrightarrow>
    to_lower (rv_Reviewer a) = to_lower (rv_Reviewer b) \<Longrightarrow> \<not> newer a b \<Longrightarrow> \<not> newer b a \<Longrightarrow> a = b"
  shows "r \<in> set (standing_reviews reviews) \<longleftrightarrow> stands reviews r"
proof
  assume "r \<in> set (standing_reviews reviews)"
  then obtain k where "(k, r) \<in> set (standing_table reviews)" by (auto simp: standing_reviews_def)
  then show "stands reviews r" using standing_entry by blast
next
  assume r: "stands reviews r"
  then have "to_lower (rv_Reviewer r) \<in> fst ` set (standing_table reviews)"
    using standing_key unfolding stands_def by blast
  then obtain s where s: "(to_lower (rv_Reviewer r), s) \<in> set (standing_table reviews)" by auto
  note e = standing_entry [OF s]
  have "r \<in> set reviews" "decisive r" "s \<in> set reviews" "decisive s"
    "\<not> newer r s" "\<not> newer s r"
    using r e unfolding stands_def by metis+
  then have "r = s" using e assms [of r s] by metis
  then show "r \<in> set (standing_reviews reviews)" using s by (force simp: standing_reviews_def)
qed

lemma first_counted_Inr:
  "first_counted can_write rules pull now refusal first rs = Inr a \<Longrightarrow>
     \<exists>xs r ys. rs = xs @ r # ys \<and> CountReview can_write rules pull r now = Inr a \<and>
       (\<forall>q\<in>set xs. \<not> is_ok (CountReview can_write rules pull q now))"
proof (induction rs arbitrary: refusal first)
  case (Cons r rs)
  show ?case
  proof (cases "CountReview can_write rules pull r now")
    case (Inr b)
    then have "r # rs = [] @ r # rs" "CountReview can_write rules pull r now = Inr a" using Cons.prems by auto
    then show ?thesis by (metis empty_iff list.set(1))
  next
    case (Inl e)
    then obtain xs q ys where "rs = xs @ q # ys" "CountReview can_write rules pull q now = Inr a"
      "\<forall>q\<in>set xs. \<not> is_ok (CountReview can_write rules pull q now)"
      using Cons.IH Cons.prems by fastforce
    then show ?thesis using Inl by (intro exI [of _ "r # xs"] exI [of _ q] exI [of _ ys]) auto
  qed
qed simp

lemma first_counted_Inl:
  "first_counted can_write rules pull now refusal first rs = Inl e \<Longrightarrow>
     \<forall>r\<in>set rs. \<not> is_ok (CountReview can_write rules pull r now)"
  by (induction rs arbitrary: refusal first) (auto split: sum.splits)

lemma newest_first_sorted:
  assumes "newest_first rs = xs @ r # ys" "q \<in> set ys"
  shows "\<not> newer q r"
proof -
  have "sorted (map (\<lambda>r. (- rv_SubmittedAt r, - rv_ID r)) (newest_first rs))"
    unfolding newest_first_def by (rule sorted_sort_key)
  then show ?thesis using assms by (auto simp: sorted_append newer_def less_eq_prod_def)
qed

text \<open>When one review counts, written out.\<close>

definition review_counts :: "(string \<Rightarrow> string + bool) \<Rightarrow> approval_rules \<Rightarrow> scm_pull \<Rightarrow> instant \<Rightarrow> review \<Rightarrow> bool" where
  "review_counts can_write rules pull now r \<longleftrightarrow>
     to_lower (rv_State r) = ''approved'' \<and> scm_loginPattern (rv_Reviewer r) \<and>
     \<not> suffix ''[bot]'' (to_lower (rv_Reviewer r)) \<and>
     (ru_AllowAuthor rules \<or> to_lower (sp_Author pull) \<noteq> to_lower (rv_Reviewer r)) \<and>
     shaPattern (sp_HeadSHA pull) \<and> rv_CommitID r = sp_HeadSHA pull \<and>
     rv_SubmittedAt r \<noteq> zero_time \<and> now - rv_SubmittedAt r < ru_Lasts rules \<and> can_write (rv_Reviewer r) = Inr True"

lemma CountReview_iff:
  "CountReview can_write rules pull r now = Inr a \<longleftrightarrow>
     review_counts can_write rules pull now r \<and>
     a = \<lparr>sa_PullRequest = sp_Number pull, sa_Approver = rv_Reviewer r, sa_HeadSHA = sp_HeadSHA pull,
          sa_At = rv_SubmittedAt r, sa_ReviewID = rv_ID r\<rparr>"
proof -
  have approved: "same_fold (rv_State r) ReviewApproved \<longleftrightarrow> to_lower (rv_State r) = ''approved''"
  proof -
    have "to_lower ReviewApproved = ''approved''" by code_simp
    then show ?thesis by (simp add: same_fold_def)
  qed
  have bot: "snd (cut_suffix (to_lower (rv_Reviewer r)) ''[bot]'') \<longleftrightarrow> suffix ''[bot]'' (to_lower (rv_Reviewer r))"
    by (simp add: cut_suffix_def)
  show ?thesis
    unfolding CountReview_def approved bot unfolding review_counts_def same_fold_def
    by (auto split: sum.splits bool.splits)
qed

lemma CountReview_ok: "is_ok (CountReview can_write rules pull r now) \<longleftrightarrow> review_counts can_write rules pull now r"
proof (cases "CountReview can_write rules pull r now")
  case (Inl e)
  then have "\<not> review_counts can_write rules pull now r"
    using CountReview_iff [of can_write rules pull r now] by auto
  then show ?thesis using Inl by simp
next
  case (Inr a)
  then show ?thesis using CountReview_iff [of can_write rules pull r now a] by simp
qed

text \<open>
  C24. An approval is always one of the listed reviews, and its reviewer's standing: the reviewer's newest
  review that is no comment and not pending approves, on the pull request's head as the host answers it, by a
  signed-in account that is no App, not the author unless the repository allows it, with a write role, and
  younger than an approval lasts. It is the newest review that does all this, and where there is no approval
  no reviewer's standing does.
\<close>

theorem approval_is_newest_that_counts:
  assumes "distinct (map rv_ID reviews)"
  shows "case ApprovalOf can_write rules pull reviews now of
      Inr a \<Rightarrow> \<exists>r. stands reviews r \<and> review_counts can_write rules pull now r \<and>
        a = \<lparr>sa_PullRequest = sp_Number pull, sa_Approver = rv_Reviewer r, sa_HeadSHA = sp_HeadSHA pull,
             sa_At = rv_SubmittedAt r, sa_ReviewID = rv_ID r\<rparr> \<and>
        (\<forall>q. stands reviews q \<and> review_counts can_write rules pull now q \<longrightarrow> \<not> newer q r)
    | Inl _ \<Rightarrow> \<forall>r. stands reviews r \<longrightarrow> \<not> review_counts can_write rules pull now r"
proof -
  let ?rs = "newest_first (filter (\<lambda>r. same_fold (rv_State r) ReviewApproved) (standing_reviews reviews))"
  have same: "a = b" if "a \<in> set reviews" "b \<in> set reviews" "\<not> newer a b" "\<not> newer b a" for a b
  proof -
    have "rv_ID a = rv_ID b" using that(3,4) by (auto simp: newer_def)
    then show ?thesis using that(1,2) assms by (metis (no_types) distinct_map inj_onD)
  qed
  have mem: "q \<in> set ?rs \<longleftrightarrow> stands reviews q \<and> same_fold (rv_State q) ReviewApproved" for q
    using standing_reviews_iff [of reviews q] same by (auto simp: newest_first_def)
  have all: "q \<in> set ?rs" if "stands reviews q" "review_counts can_write rules pull now q" for q
    using that unfolding mem by (simp add: review_counts_def same_fold_def) code_simp
  show ?thesis
  proof (cases "ApprovalOf can_write rules pull reviews now")
    case (Inl e)
    then have "\<forall>r\<in>set ?rs. \<not> review_counts can_write rules pull now r"
      unfolding ApprovalOf_def CountReview_ok [symmetric] by (rule first_counted_Inl)
    then show ?thesis using Inl all by auto
  next
    case (Inr a)
    then obtain xs r ys where rs: "?rs = xs @ r # ys" "CountReview can_write rules pull r now = Inr a"
      "\<forall>q\<in>set xs. \<not> review_counts can_write rules pull now q"
      unfolding ApprovalOf_def CountReview_ok [symmetric] by (blast dest: first_counted_Inr)
    have "\<not> newer q r" if "stands reviews q" "review_counts can_write rules pull now q" for q
      using all [OF that] rs(3) that(2) newest_first_sorted [OF rs(1)] unfolding rs(1) by auto
    moreover have "stands reviews r" using mem [of r] unfolding rs(1) by simp
    ultimately show ?thesis using Inr rs(2) unfolding CountReview_iff by auto
  qed
qed

definition sample_review :: "string \<Rightarrow> string \<Rightarrow> int \<Rightarrow> instant \<Rightarrow> review" where
  "sample_review who state i t =
     \<lparr>rv_ID = i, rv_Reviewer = who, rv_State = state, rv_CommitID = replicate 40 (CHR ''a''), rv_SubmittedAt = t\<rparr>"

theorem approval_is_newest_that_counts_witness:
  defines "reviews \<equiv> [sample_review ''bob'' ''APPROVED'' 1 10, sample_review ''eve'' ''APPROVED'' 2 20,
      sample_review ''eve'' ''DISMISSED'' 3 30, sample_review ''Bob'' ''COMMENTED'' 4 40]"
  defines "pull \<equiv> \<lparr>sp_Number = 3, sp_HeadSHA = replicate 40 (CHR ''a''), sp_Author = ''ada''\<rparr>"
  shows "ApprovalOf (\<lambda>l. Inr True) \<lparr>ru_AllowAuthor = False, ru_Lasts = 100\<rparr> pull reviews 50 =
      Inr \<lparr>sa_PullRequest = 3, sa_Approver = ''bob'', sa_HeadSHA = sp_HeadSHA pull, sa_At = 10, sa_ReviewID = 1\<rparr> \<and>
    (\<exists>r. stands reviews r \<and> rv_ID r = 1)"
proof -
  have run: "ApprovalOf (\<lambda>l. Inr True) \<lparr>ru_AllowAuthor = False, ru_Lasts = 100\<rparr> pull reviews 50 =
      Inr \<lparr>sa_PullRequest = 3, sa_Approver = ''bob'', sa_HeadSHA = sp_HeadSHA pull, sa_At = 10, sa_ReviewID = 1\<rparr>"
    unfolding pull_def reviews_def by code_simp
  have "distinct (map rv_ID reviews)" by (simp add: reviews_def sample_review_def)
  then have "\<exists>r. stands reviews r \<and> rv_ID r = 1"
    using approval_is_newest_that_counts [of reviews "\<lambda>l. Inr True" "\<lparr>ru_AllowAuthor = False, ru_Lasts = 100\<rparr>" pull 50]
    unfolding run by auto
  then show ?thesis using run by blast
qed

end
