(* ===== verification/ScmGitHub.thy ===== *)
theory ScmGitHub
  imports ScmApproval ScmLimiter "HOL-Library.List_Lexorder" "HOL-Library.Char_ord"
begin

text \<open>
  \<open>internal/scm/github.go\<close>: GitHub's adapter, and what GitLab's shares with it. One call to a host, with its
  transport, its JSON and its timeout, is a function of the path the adapter asks for: \<open>get\<close> gives the decoded
  answer or the error of \<open>do\<close>. What the adapter writes is a \<open>host_write\<close>, the method, the path and the content
  of the one request it sends. The lists the host serves in pages are read by loops over the page number, whose
  bound is the code's.
\<close>

section \<open>Paths\<close>

definition percent :: "char \<Rightarrow> string" where
  "percent c = [CHR ''%'', upper_hex (of_char c div 16), upper_hex (of_char c mod 16)]"

definition unreserved :: "char \<Rightarrow> bool" where
  "unreserved c \<longleftrightarrow> is_alnum c \<or> c \<in> {CHR ''-'', CHR ''_'', CHR ''.'', CHR ''~''}"

text \<open>\<open>url.QueryEscape\<close> and \<open>url.PathEscape\<close>.\<close>

definition query_escape :: "string \<Rightarrow> string" where
  "query_escape s = concat (map (\<lambda>c. if unreserved c then [c] else if c = CHR '' '' then ''+'' else percent c) s)"

definition path_escape :: "string \<Rightarrow> string" where
  "path_escape s =
     concat (map (\<lambda>c. if unreserved c \<or> c \<in> {CHR ''$'', CHR ''&'', CHR ''+'', CHR '':'', CHR ''='', CHR ''@''}
                      then [c] else percent c) s)"

text \<open>\<open>url.Values.Encode\<close>: the keys in order.\<close>

definition encode_query :: "(string \<times> string) list \<Rightarrow> string" where
  "encode_query kvs = join (map (\<lambda>(k, v). query_escape k @ ''='' @ query_escape v) (sort_key fst kvs)) ''&''"

section \<open>The adapter\<close>

abbreviation actionsApp :: string where "actionsApp \<equiv> ''github-actions''"

abbreviation botSuffix :: string where "botSuffix \<equiv> ''[bot]''"

abbreviation DefaultAPI :: string where "DefaultAPI \<equiv> ''https://api.github.com''"

datatype scm_error =
    CallFailed string string string
  | LimitReached int
  | NoToken string
  | StatusError string string int int
  | RepositoryFormat
  | ProjectFormat
  | InsecureRoot
  | NoClient
  | NoCommitTouched
  | NoDateStated
  | TooManyListed nat
  | NoHeadAsked
  | NotFullSHA
  | BranchAnswer string
  | NotAReadableFile
  | NotBase64
  | NoVisibility
  | NoUserID
  | NoCheckHere

text \<open>\<open>IsNotFound\<close> is \<open>StatusError.Is(ErrNotFound)\<close>.\<close>

definition is_not_found :: "scm_error \<Rightarrow> bool" where
  "is_not_found e = (case e of StatusError _ _ status _ \<Rightarrow> status = 404 | _ \<Rightarrow> False)"

text \<open>\<open>^[a-z0-9][a-z0-9-]{0,99}$\<close>.\<close>

definition appSlugPattern :: "string \<Rightarrow> bool" where
  "appSlugPattern s =
     (case s of
        [] \<Rightarrow> False
      | c # cs \<Rightarrow> (is_lower c \<or> is_digit c) \<and> of_class (\<lambda>d. is_lower d \<or> is_digit d \<or> d = CHR ''-'') 0 99 cs)"

record github =
  gh_api :: string
  gh_repository :: string
  gh_login :: string

text \<open>\<open>parse_url\<close> is \<open>url.Parse\<close>'s scheme and host name, \<open>loopback\<close> whether \<open>net.ParseIP\<close> reads a loopback address.\<close>

definition checkRoot :: "(string \<Rightarrow> (string \<times> string) option) \<Rightarrow> (string \<Rightarrow> bool) \<Rightarrow> string \<Rightarrow> bool" where
  "checkRoot parse_url loopback rt =
     (case parse_url rt of
        None \<Rightarrow> False
      | Some (scheme, host) \<Rightarrow> scheme = ''https'' \<or> scheme = ''http'' \<and> loopback host)"

definition NewGitHub ::
    "(string \<Rightarrow> (string \<times> string) option) \<Rightarrow> (string \<Rightarrow> bool) \<Rightarrow> bool \<Rightarrow> string \<Rightarrow> string \<Rightarrow> scm_error + github" where
  "NewGitHub parse_url loopback has_client api repository =
     (if \<not> scm_repositoryPattern repository then Inl RepositoryFormat
      else (let rt = (if api = [] then DefaultAPI else api)
            in if \<not> checkRoot parse_url loopback rt then Inl InsecureRoot
               else if \<not> has_client then Inl NoClient
               else Inr \<lparr>gh_api = trim_right rt (CHR ''/''), gh_repository = repository,
                         gh_login = actionsApp @ botSuffix\<rparr>))"

definition repo_path :: "github \<Rightarrow> string \<Rightarrow> string" where
  "repo_path g suff = ''/repos/'' @ gh_repository g @ suff"

section \<open>One request\<close>

record http_request =
  hq_method :: string
  hq_url :: string
  hq_headers :: "(string \<times> string) list"
  hq_body :: "json option"

record http_response =
  hr_Status :: int
  hr_RetryAfter :: string
  hr_Body :: string

definition maxResponse :: nat where
  "maxResponse = 2097152"

definition retryAfter :: "http_response \<Rightarrow> int" where
  "retryAfter r =
     (case parse_int64 (hr_RetryAfter r) of None \<Rightarrow> 0 | Some n \<Rightarrow> if n < 0 then 0 else wrap64 (n * second_ns))"

text \<open>
  \<open>transport\<close> is the HTTP client, \<open>decode\<close> the JSON decoder of the answer, \<open>None\<close> where the caller reads none.
\<close>

definition exchange ::
    "(http_request \<Rightarrow> string + http_response) \<Rightarrow> (string \<Rightarrow> 'a option) option \<Rightarrow> string \<Rightarrow> string \<Rightarrow> string \<Rightarrow>
     (string \<times> string) list \<Rightarrow> json option \<Rightarrow> scm_error + 'a option" where
  "exchange transport decode method rt path headers content =
     (case transport \<lparr>hq_method = method, hq_url = rt @ path,
             hq_headers = headers @ [(''User-Agent'', ''costroid'')] @
               (if content \<noteq> None then [(''Content-Type'', ''application/json'')] else []),
             hq_body = content\<rparr> of
        Inl e \<Rightarrow> Inl (CallFailed method path e)
      | Inr r \<Rightarrow>
          if hr_Status r < 200 \<or> 299 < hr_Status r then Inl (StatusError method path (hr_Status r) (retryAfter r))
          else (case decode of
                  None \<Rightarrow> Inr None
                | Some f \<Rightarrow> (case f (take maxResponse (hr_Body r)) of
                    None \<Rightarrow> Inl (CallFailed method path ''read'')
                  | Some x \<Rightarrow> Inr (Some x))))"

definition github_send ::
    "(http_request \<Rightarrow> string + http_response) \<Rightarrow> (string \<Rightarrow> 'a option) option \<Rightarrow> string \<Rightarrow> string \<Rightarrow> string \<Rightarrow> string \<Rightarrow>
     json option \<Rightarrow> scm_error + 'a option" where
  "github_send transport decode method rt path authorization content =
     exchange transport decode method rt path
       [(''Authorization'', authorization), (''Accept'', ''application/vnd.github+json''),
        (''X-GitHub-Api-Version'', ''2022-11-28'')] content"

text \<open>
  \<open>GitHub.do\<close>: an adapter of the App asks its installation's limiter first, and the place is released when the
  request ends, whatever it answers. An adapter with a token from CI has no limiter.
\<close>

definition github_do ::
    "(http_request \<Rightarrow> string + http_response) \<Rightarrow> (string \<Rightarrow> 'a option) option \<Rightarrow> string + string \<Rightarrow> instant \<Rightarrow>
     (limiter \<times> int) option \<Rightarrow> github \<Rightarrow> string \<Rightarrow> string \<Rightarrow> json option \<Rightarrow>
     limiter option \<times> (scm_error + 'a option)" where
  "github_do transport decode token now limits g method path content =
     (let call = (case token of
            Inl e \<Rightarrow> Inl (NoToken e)
          | Inr t \<Rightarrow> github_send transport decode method (gh_api g) path (''Bearer '' @ t) content)
      in case limits of
           None \<Rightarrow> (None, call)
         | Some (l, installation) \<Rightarrow>
             (case Admit l now installation (method \<noteq> ''GET'') of
                (l, Inl wait) \<Rightarrow> (Some l, Inl (LimitReached wait))
              | (l, Inr _) \<Rightarrow> (Some (Release_place l installation), call)))"

record host_write =
  hw_method :: string
  hw_path :: string
  hw_content :: json

section \<open>Checks\<close>

record check_post =
  cp_Name :: string
  cp_HeadSHA :: string
  cp_Conclusion :: string
  cp_Title :: string
  cp_Summary :: string
  cp_Text :: string
  cp_Completed :: instant

definition check_output_json :: "check_post \<Rightarrow> json" where
  "check_output_json c =
     JObject [(''title'', JString (cp_Title c)), (''summary'', JString (cp_Summary c)), (''text'', JString (cp_Text c))]"

definition PostCheck_request :: "github \<Rightarrow> check_post \<Rightarrow> host_write" where
  "PostCheck_request g c =
     \<lparr>hw_method = ''POST'', hw_path = repo_path g ''/check-runs'',
      hw_content = JObject
        [(''name'', JString (cp_Name c)), (''head_sha'', JString (cp_HeadSHA c)), (''status'', JString ''completed''),
         (''conclusion'', JString (cp_Conclusion c)), (''completed_at'', JString (format_instant (cp_Completed c))),
         (''output'', check_output_json c)]\<rparr>"

text \<open>The answer names the check run, and the App that posted it where the host says so.\<close>

definition PostCheck ::
    "(host_write \<Rightarrow> scm_error + (int \<times> string option)) \<Rightarrow> github \<Rightarrow> check_post \<Rightarrow> github \<times> (scm_error + int)" where
  "PostCheck post g c =
     (case post (PostCheck_request g c) of
        Inl e \<Rightarrow> (g, Inl e)
      | Inr (i, app) \<Rightarrow>
          (case app of
             None \<Rightarrow> (g, Inr i)
           | Some slug \<Rightarrow> (if appSlugPattern slug then g\<lparr>gh_login := slug @ botSuffix\<rparr> else g, Inr i)))"

definition UpdateCheck_request :: "github \<Rightarrow> int \<Rightarrow> check_post \<Rightarrow> host_write" where
  "UpdateCheck_request g i c =
     \<lparr>hw_method = ''PATCH'', hw_path = repo_path g (''/check-runs/'' @ int_string i),
      hw_content = JObject [(''output'', check_output_json c)]\<rparr>"

section \<open>The sticky comment\<close>

record issue_comment =
  ic_ID :: int
  ic_Body :: string
  ic_Login :: string

abbreviation maxCommentPages :: nat where "maxCommentPages \<equiv> 30"

abbreviation per_page :: nat where "per_page \<equiv> 100"

definition comments_path :: "github \<Rightarrow> int \<Rightarrow> nat \<Rightarrow> string" where
  "comments_path g pr page =
     repo_path g (''/issues/'' @ int_string pr @ ''/comments?per_page='' @ nat_string per_page @ ''&page='' @ nat_string page)"

definition own_comment :: "string \<Rightarrow> string \<Rightarrow> issue_comment \<Rightarrow> bool" where
  "own_comment login marker c \<longleftrightarrow> same_fold (ic_Login c) login \<and> prefix marker (ic_Body c)"

fun find_comment_from ::
    "(string \<Rightarrow> scm_error + issue_comment list) \<Rightarrow> github \<Rightarrow> int \<Rightarrow> string \<Rightarrow> string \<Rightarrow> nat \<Rightarrow> nat \<Rightarrow> scm_error + int" where
  "find_comment_from get g pr login marker 0 page = Inr 0"
| "find_comment_from get g pr login marker (Suc left) page =
     rbind (get (comments_path g pr page)) (\<lambda>cs.
       case List.find (own_comment login marker) cs of
         Some c \<Rightarrow> Inr (ic_ID c)
       | None \<Rightarrow> if length cs < per_page then Inr 0 else find_comment_from get g pr login marker left (Suc page))"

definition findComment :: "(string \<Rightarrow> scm_error + issue_comment list) \<Rightarrow> github \<Rightarrow> int \<Rightarrow> string \<Rightarrow> scm_error + int" where
  "findComment get g pr marker = find_comment_from get g pr (gh_login g) marker maxCommentPages 1"

definition UpsertComment ::
    "(string \<Rightarrow> scm_error + issue_comment list) \<Rightarrow> github \<Rightarrow> int \<Rightarrow> string \<Rightarrow> string \<Rightarrow> scm_error + host_write" where
  "UpsertComment get g pr marker body =
     rmap (\<lambda>i. if i = 0
               then \<lparr>hw_method = ''POST'', hw_path = repo_path g (''/issues/'' @ int_string pr @ ''/comments''),
                     hw_content = JObject [(''body'', JString body)]\<rparr>
               else \<lparr>hw_method = ''PATCH'', hw_path = repo_path g (''/issues/comments/'' @ int_string i),
                     hw_content = JObject [(''body'', JString body)]\<rparr>)
       (findComment get g pr marker)"

section \<open>Commits and branches\<close>

abbreviation maxCommitPages :: nat where "maxCommitPages \<equiv> 10"

definition commits_path :: "github \<Rightarrow> string \<Rightarrow> string \<Rightarrow> nat \<Rightarrow> string" where
  "commits_path g path r page =
     repo_path g (''/commits?'' @ encode_query
       [(''sha'', r), (''path'', path), (''per_page'', nat_string per_page), (''page'', nat_string page)])"

fun first_commit_from ::
    "(string \<Rightarrow> scm_error + instant list) \<Rightarrow> github \<Rightarrow> string \<Rightarrow> string \<Rightarrow> nat \<Rightarrow> nat \<Rightarrow> instant option \<Rightarrow> scm_error + instant" where
  "first_commit_from get g path r 0 page oldest = Inl (TooManyListed (maxCommitPages * per_page))"
| "first_commit_from get g path r (Suc left) page oldest =
     rbind (get (commits_path g path r page)) (\<lambda>dates.
       let oldest = (if dates \<noteq> [] then Some (last dates) else oldest)
       in if length dates < per_page
          then (case oldest of
                  None \<Rightarrow> Inl NoCommitTouched
                | Some t \<Rightarrow> if t = zero_time then Inl NoDateStated else Inr t)
          else first_commit_from get g path r left (Suc page) oldest)"

definition FirstCommit :: "(string \<Rightarrow> scm_error + instant list) \<Rightarrow> github \<Rightarrow> string \<Rightarrow> string \<Rightarrow> scm_error + instant" where
  "FirstCommit get g path r = first_commit_from get g path r maxCommitPages 1 None"

record branch_ref =
  br_Ref :: string
  br_SHA :: string
  br_Type :: string

definition BranchHead :: "(string \<Rightarrow> scm_error + branch_ref) \<Rightarrow> github \<Rightarrow> string \<Rightarrow> scm_error + string" where
  "BranchHead get g branch =
     rbind (get (repo_path g (''/git/ref/heads/'' @ join (map path_escape (split_at branch (CHR ''/''))) ''/''))) (\<lambda>r.
       if br_Ref r \<noteq> ''refs/heads/'' @ branch \<or> br_Type r \<noteq> ''commit'' \<or> \<not> shaPattern (br_SHA r)
       then Inl (BranchAnswer branch) else Inr (br_SHA r))"

definition BranchesAt :: "(string \<Rightarrow> scm_error + string list) \<Rightarrow> github \<Rightarrow> string \<Rightarrow> scm_error + string list" where
  "BranchesAt get g sha =
     (if \<not> shaPattern sha then Inl NotFullSHA
      else get (repo_path g (''/commits/'' @ sha @ ''/branches-where-head'')))"

section \<open>Lists in pages\<close>

text \<open>
  The loop \<open>OpenPullsFrom\<close> and \<open>Reviews\<close> share: page after page until one is not full, and an error where the
  last page allowed is full too.
\<close>

fun read_pages :: "(nat \<Rightarrow> scm_error + 'a list) \<Rightarrow> nat \<Rightarrow> nat \<Rightarrow> nat \<Rightarrow> 'a list \<Rightarrow> scm_error + 'a list" where
  "read_pages page_of most 0 page xs = Inl (TooManyListed most)"
| "read_pages page_of most (Suc left) page xs =
     rbind (page_of page) (\<lambda>answer.
       if length answer < per_page then Inr (xs @ answer)
       else read_pages page_of most left (Suc page) (xs @ answer))"

record open_pull =
  op_Number :: int
  op_HeadSHA :: string
  op_HeadRepository :: string

definition pulls_path :: "github \<Rightarrow> string \<Rightarrow> string \<Rightarrow> nat \<Rightarrow> string" where
  "pulls_path g owner branch page =
     repo_path g (''/pulls?'' @ encode_query
       [(''state'', ''open''), (''head'', owner @ '':'' @ branch), (''per_page'', nat_string per_page), (''page'', nat_string page)])"

definition open_pull_of :: "int \<times> string \<times> string option \<Rightarrow> open_pull" where
  "open_pull_of p =
     (case p of (number, sha, repo) \<Rightarrow>
        \<lparr>op_Number = number, op_HeadSHA = sha, op_HeadRepository = (case repo of None \<Rightarrow> [] | Some r \<Rightarrow> r)\<rparr>)"

definition OpenPullsFrom ::
    "(string \<Rightarrow> scm_error + (int \<times> string \<times> string option) list) \<Rightarrow> github \<Rightarrow> string \<Rightarrow> string \<Rightarrow> scm_error + open_pull list" where
  "OpenPullsFrom get g owner branch =
     (if owner = [] \<or> branch = [] then Inl NoHeadAsked
      else read_pages (\<lambda>page. rmap (map open_pull_of) (get (pulls_path g owner branch page))) 1000 10 1 [])"

definition reviews_path :: "github \<Rightarrow> int \<Rightarrow> nat \<Rightarrow> string" where
  "reviews_path g number page =
     repo_path g (''/pulls/'' @ int_string number @ ''/reviews?'' @
       encode_query [(''per_page'', nat_string per_page), (''page'', nat_string page)])"

text \<open>A listed review: a deleted account is no user, and a pending review states no time.\<close>

record listed_review =
  lr_ID :: int
  lr_User :: "string option"
  lr_State :: string
  lr_CommitID :: string
  lr_SubmittedAt :: instant

definition review_of :: "listed_review \<Rightarrow> review" where
  "review_of l =
     \<lparr>rv_ID = lr_ID l, rv_Reviewer = (case lr_User l of None \<Rightarrow> [] | Some u \<Rightarrow> u), rv_State = to_upper (lr_State l),
      rv_CommitID = lr_CommitID l, rv_SubmittedAt = lr_SubmittedAt l\<rparr>"

definition Reviews :: "(string \<Rightarrow> scm_error + listed_review list) \<Rightarrow> github \<Rightarrow> int \<Rightarrow> scm_error + review list" where
  "Reviews get g number =
     read_pages (\<lambda>page. rmap (map review_of) (get (reviews_path g number page))) 1000 10 1 []"

definition maxPullCommits :: nat where
  "maxPullCommits = 250"

definition pull_commits_path :: "github \<Rightarrow> int \<Rightarrow> nat \<Rightarrow> string" where
  "pull_commits_path g number page =
     repo_path g (''/pulls/'' @ int_string number @ ''/commits?'' @
       encode_query [(''per_page'', nat_string per_page), (''page'', nat_string page)])"

text \<open>The loop has no bound on its pages: it ends because each further page adds a hundred commits.\<close>

function pull_commits_from ::
    "(string \<Rightarrow> scm_error + string list) \<Rightarrow> github \<Rightarrow> int \<Rightarrow> nat \<Rightarrow> string list \<Rightarrow> scm_error + string list" where
  "pull_commits_from get g number page commits =
     (if maxPullCommits \<le> length commits then Inr commits
      else case get (pull_commits_path g number page) of
        Inl e \<Rightarrow> Inl e
      | Inr answer \<Rightarrow>
          if \<not> list_all shaPattern answer then Inl NotFullSHA
          else if length answer < per_page then Inr (commits @ answer)
          else pull_commits_from get g number (Suc page) (commits @ answer))"
  by pat_completeness auto

termination
  by (relation "measure (\<lambda>(get, g, number, page, commits). maxPullCommits - length commits)") auto

definition PullCommits :: "(string \<Rightarrow> scm_error + string list) \<Rightarrow> github \<Rightarrow> int \<Rightarrow> scm_error + (string list \<times> bool)" where
  "PullCommits get g number =
     rmap (\<lambda>commits. (commits, maxPullCommits \<le> length commits)) (pull_commits_from get g number 1 [])"

record listed_run =
  lu_ID :: int
  lu_Status :: string
  lu_App :: "string option"
  lu_Text :: string

definition check_runs_path :: "github \<Rightarrow> string \<Rightarrow> string \<Rightarrow> nat \<Rightarrow> string" where
  "check_runs_path g sha name page =
     repo_path g (''/commits/'' @ sha @ ''/check-runs?'' @ encode_query
       [(''check_name'', name), (''filter'', ''all''), (''per_page'', nat_string per_page), (''page'', nat_string page)])"

definition own_run :: "string list \<Rightarrow> listed_run \<Rightarrow> bool" where
  "own_run apps r \<longleftrightarrow> lu_Status r = ''completed'' \<and> (case lu_App r of None \<Rightarrow> False | Some slug \<Rightarrow> slug \<in> set apps)"

fun check_runs_from ::
    "(string \<Rightarrow> scm_error + (int \<times> listed_run list)) \<Rightarrow> github \<Rightarrow> string \<Rightarrow> string \<Rightarrow> string list \<Rightarrow> nat \<Rightarrow> nat \<Rightarrow>
     (int \<times> string) list \<Rightarrow> scm_error + (int \<times> string) list" where
  "check_runs_from get g sha name apps 0 page checks = Inl (TooManyListed 300)"
| "check_runs_from get g sha name apps (Suc left) page checks =
     rbind (get (check_runs_path g sha name page)) (\<lambda>(total, runs).
       let checks = checks @ map (\<lambda>r. (lu_ID r, lu_Text r)) (filter (own_run apps) runs)
       in if length runs < per_page \<or> total \<le> int (page * per_page) then Inr checks
          else check_runs_from get g sha name apps left (Suc page) checks)"

definition CheckRuns ::
    "(string \<Rightarrow> scm_error + (int \<times> listed_run list)) \<Rightarrow> github \<Rightarrow> string \<Rightarrow> string \<Rightarrow> scm_error + (int \<times> string) list" where
  "CheckRuns get g sha name =
     (if \<not> shaPattern sha then Inl NotFullSHA
      else check_runs_from get g sha name [actionsApp, fst (cut_suffix (gh_login g) botSuffix)] 3 1 [])"

section \<open>Files, visibility, pull requests and roles\<close>

definition decodeFile :: "(string \<Rightarrow> string option) \<Rightarrow> string \<Rightarrow> scm_error + string" where
  "decodeFile base64 encoded =
     (case base64 (filter (\<lambda>c. c \<noteq> CHR 0x0A) encoded) of None \<Rightarrow> Inl NotBase64 | Some content \<Rightarrow> Inr content)"

definition ReadFile ::
    "(string \<Rightarrow> string option) \<Rightarrow> (string \<Rightarrow> scm_error + (string \<times> string \<times> string)) \<Rightarrow> github \<Rightarrow> string \<Rightarrow> string \<Rightarrow>
     scm_error + string" where
  "ReadFile base64 get g path r =
     rbind (get (repo_path g (''/contents/'' @ path_escape path @ ''?ref='' @ query_escape r))) (\<lambda>(kind, encoding, content).
       if kind \<noteq> ''file'' \<or> encoding \<noteq> ''base64'' then Inl NotAReadableFile else decodeFile base64 content)"

datatype visibility = Private | Public

definition github_Visibility :: "(string \<Rightarrow> scm_error + bool option) \<Rightarrow> github \<Rightarrow> visibility \<times> scm_error option" where
  "github_Visibility get g =
     (case get (repo_path g []) of
        Inl e \<Rightarrow> (Public, Some e)
      | Inr None \<Rightarrow> (Public, Some NoVisibility)
      | Inr (Some True) \<Rightarrow> (Private, None)
      | Inr (Some False) \<Rightarrow> (Public, None))"

definition PullRequest_of :: "(string \<Rightarrow> scm_error + (string \<times> string)) \<Rightarrow> github \<Rightarrow> int \<Rightarrow> scm_error + scm_pull" where
  "PullRequest_of get g number =
     rmap (\<lambda>(sha, author). \<lparr>sp_Number = number, sp_HeadSHA = sha, sp_Author = author\<rparr>)
       (get (repo_path g (''/pulls/'' @ int_string number)))"

definition CanWrite :: "(string \<Rightarrow> scm_error + string) \<Rightarrow> github \<Rightarrow> string \<Rightarrow> scm_error + bool" where
  "CanWrite get g login =
     rmap (\<lambda>permission. permission = ''admin'' \<or> permission = ''write'')
       (get (repo_path g (''/collaborators/'' @ path_escape login @ ''/permission'')))"

end
