(* ===== verification/ScmGitLab.thy ===== *)
theory ScmGitLab
  imports ScmGitHub
begin

text \<open>
  \<open>internal/scm/gitlab.go\<close> and \<open>app.go\<close>: GitLab's adapter, and the tokens of the GitHub App. Base64, JSON text
  and the signer are parameters.
\<close>

section \<open>GitLab\<close>

text \<open>\<open>^[1-9][0-9]{0,19}$\<close>.\<close>

definition gitLabProjectPattern :: "string \<Rightarrow> bool" where
  "gitLabProjectPattern s =
     (case s of [] \<Rightarrow> False | c # cs \<Rightarrow> is_digit c \<and> c \<noteq> CHR ''0'' \<and> of_class is_digit 0 19 cs)"

record gitlab =
  gl_api :: string
  gl_project :: string

definition NewGitLab ::
    "(string \<Rightarrow> (string \<times> string) option) \<Rightarrow> (string \<Rightarrow> bool) \<Rightarrow> bool \<Rightarrow> string \<Rightarrow> string \<Rightarrow> scm_error + gitlab" where
  "NewGitLab parse_url loopback has_client api project =
     (if \<not> gitLabProjectPattern project then Inl ProjectFormat
      else if \<not> checkRoot parse_url loopback api then Inl InsecureRoot
      else if \<not> has_client then Inl NoClient
      else Inr \<lparr>gl_api = trim_right api (CHR ''/''), gl_project = project\<rparr>)"

definition projectPath :: "gitlab \<Rightarrow> string \<Rightarrow> string" where
  "projectPath g suff = ''/projects/'' @ gl_project g @ suff"

definition gitlab_do ::
    "(http_request \<Rightarrow> string + http_response) \<Rightarrow> (string \<Rightarrow> 'a option) option \<Rightarrow> string + string \<Rightarrow> gitlab \<Rightarrow>
     string \<Rightarrow> string \<Rightarrow> json option \<Rightarrow> scm_error + 'a option" where
  "gitlab_do transport decode token g method path content =
     (case token of
        Inl e \<Rightarrow> Inl (NoToken e)
      | Inr t \<Rightarrow> exchange transport decode method (gl_api g) path
          [(''PRIVATE-TOKEN'', t), (''Accept'', ''application/json'')] content)"

definition gitlab_PostCheck :: "check_post \<Rightarrow> scm_error + int" where
  "gitlab_PostCheck c = Inl NoCheckHere"

definition gitlab_UpdateCheck :: "int \<Rightarrow> check_post \<Rightarrow> scm_error option" where
  "gitlab_UpdateCheck i c = Some NoCheckHere"

record gitlab_note =
  gn_ID :: int
  gn_Body :: string
  gn_System :: bool
  gn_Author :: int

definition notes_path :: "gitlab \<Rightarrow> int \<Rightarrow> string" where
  "notes_path g mr = projectPath g (''/merge_requests/'' @ int_string mr @ ''/notes'')"

definition notes_page :: "gitlab \<Rightarrow> int \<Rightarrow> nat \<Rightarrow> string" where
  "notes_page g mr page =
     notes_path g mr @ ''?sort=asc&order_by=created_at&per_page='' @ nat_string per_page @ ''&page='' @ nat_string page"

definition own_note :: "int \<Rightarrow> string \<Rightarrow> gitlab_note \<Rightarrow> bool" where
  "own_note author marker n \<longleftrightarrow> \<not> gn_System n \<and> gn_Author n = author \<and> prefix marker (gn_Body n)"

fun find_note_from ::
    "(string \<Rightarrow> scm_error + gitlab_note list) \<Rightarrow> gitlab \<Rightarrow> int \<Rightarrow> int \<Rightarrow> string \<Rightarrow> nat \<Rightarrow> nat \<Rightarrow> scm_error + int" where
  "find_note_from get g mr author marker 0 page = Inl (TooManyListed (maxCommentPages * per_page))"
| "find_note_from get g mr author marker (Suc left) page =
     rbind (get (notes_page g mr page)) (\<lambda>ns.
       case List.find (own_note author marker) ns of
         Some n \<Rightarrow> Inr (gn_ID n)
       | None \<Rightarrow> if length ns < per_page then Inr 0 else find_note_from get g mr author marker left (Suc page))"

definition findNote ::
    "(string \<Rightarrow> scm_error + gitlab_note list) \<Rightarrow> gitlab \<Rightarrow> int \<Rightarrow> int \<Rightarrow> string \<Rightarrow> scm_error + int" where
  "findNote get g mr author marker = find_note_from get g mr author marker maxCommentPages 1"

definition currentUser :: "(string \<Rightarrow> scm_error + int) \<Rightarrow> scm_error + int" where
  "currentUser get_user = rbind (get_user ''/user'') (\<lambda>i. if i \<le> 0 then Inl NoUserID else Inr i)"

definition gitlab_UpsertComment ::
    "(string \<Rightarrow> scm_error + int) \<Rightarrow> (string \<Rightarrow> scm_error + gitlab_note list) \<Rightarrow> gitlab \<Rightarrow> int \<Rightarrow> string \<Rightarrow> string \<Rightarrow>
     scm_error + host_write" where
  "gitlab_UpsertComment get_user get g mr marker body =
     rbind (currentUser get_user) (\<lambda>author.
     rmap (\<lambda>i. if i = 0
               then \<lparr>hw_method = ''POST'', hw_path = notes_path g mr, hw_content = JObject [(''body'', JString body)]\<rparr>
               else \<lparr>hw_method = ''PUT'', hw_path = notes_path g mr @ ''/'' @ int_string i,
                     hw_content = JObject [(''body'', JString body)]\<rparr>)
       (findNote get g mr author marker))"

definition gitlab_BranchHead :: "(string \<Rightarrow> scm_error + (string \<times> string)) \<Rightarrow> gitlab \<Rightarrow> string \<Rightarrow> scm_error + string" where
  "gitlab_BranchHead get g branch =
     rbind (get (projectPath g (''/repository/branches/'' @ path_escape branch))) (\<lambda>(name, commit).
       if name \<noteq> branch \<or> \<not> shaPattern commit then Inl (BranchAnswer branch) else Inr commit)"

definition gitlab_ReadFile ::
    "(string \<Rightarrow> string option) \<Rightarrow> (string \<Rightarrow> scm_error + (string \<times> string)) \<Rightarrow> gitlab \<Rightarrow> string \<Rightarrow> string \<Rightarrow>
     scm_error + string" where
  "gitlab_ReadFile base64 get g path r =
     rbind (get (projectPath g (''/repository/files/'' @ path_escape path @ ''?ref='' @ query_escape r))) (\<lambda>(encoding, content).
       if encoding \<noteq> ''base64'' then Inl NotAReadableFile else decodeFile base64 content)"

definition gitlab_Visibility :: "(string \<Rightarrow> scm_error + string) \<Rightarrow> gitlab \<Rightarrow> visibility \<times> scm_error option" where
  "gitlab_Visibility get g =
     (case get (projectPath g []) of
        Inl e \<Rightarrow> (Public, Some e)
      | Inr v \<Rightarrow>
          if v = ''public'' then (Public, None)
          else if v = ''private'' \<or> v = ''internal'' then (Private, None)
          else (Public, Some NoVisibility))"

section \<open>The App's tokens\<close>

abbreviation jwtLifetime :: int where "jwtLifetime \<equiv> 600 * second_ns"

abbreviation jwtBackdate :: int where "jwtBackdate \<equiv> 60 * second_ns"

abbreviation tokenMargin :: int where "tokenMargin \<equiv> 300 * second_ns"

definition jwt_claims :: "string \<Rightarrow> instant \<Rightarrow> json" where
  "jwt_claims appID now =
     (let issued = now - jwtBackdate
      in JObject [(''iat'', JNumber (int_string (issued div second_ns))),
                  (''exp'', JNumber (int_string ((issued + jwtLifetime) div second_ns))), (''iss'', JString appID)])"

definition AppJWT ::
    "(json \<Rightarrow> string) \<Rightarrow> (string \<Rightarrow> string) \<Rightarrow> (string \<Rightarrow> string) \<Rightarrow> (string \<Rightarrow> string + string) \<Rightarrow> string \<Rightarrow> instant \<Rightarrow>
     string + string" where
  "AppJWT marshal base64url sha256 sign appID now =
     (let header = JObject [(''alg'', JString ''RS256''), (''typ'', JString ''JWT'')];
          inp = base64url (marshal header) @ ''.'' @ base64url (marshal (jwt_claims appID now))
      in rmap (\<lambda>signature. inp @ ''.'' @ base64url signature) (sign (sha256 inp)))"

record app_tokens =
  at_API :: string
  at_Installation :: int
  at_token :: string
  at_expires :: instant

definition token_path :: "app_tokens \<Rightarrow> string" where
  "token_path a = ''/app/installations/'' @ int_string (at_Installation a) @ ''/access_tokens''"

text \<open>The permissions a token is asked for.\<close>

definition token_permissions :: json where
  "token_permissions =
     JObject [(''permissions'', JObject [(''checks'', JString ''write''), (''contents'', JString ''read''),
        (''metadata'', JString ''read''), (''pull_requests'', JString ''write'')])]"

text \<open>
  \<open>assert\<close> mints the App's JWT at an instant and \<open>post\<close> exchanges it at the path for a token and its expiry.
\<close>

definition app_Token ::
    "(string \<Rightarrow> (string \<times> string) option) \<Rightarrow> (string \<Rightarrow> bool) \<Rightarrow> bool \<Rightarrow> (instant \<Rightarrow> string + string) \<Rightarrow>
     (string \<Rightarrow> string \<Rightarrow> string \<Rightarrow> json \<Rightarrow> scm_error + (string \<times> instant)) \<Rightarrow> app_tokens \<Rightarrow> instant \<Rightarrow>
     app_tokens \<times> (scm_error + string)" where
  "app_Token parse_url loopback has_client assert post a now =
     (if at_token a \<noteq> [] \<and> now + tokenMargin < at_expires a then (a, Inr (at_token a))
      else case assert now of
        Inl e \<Rightarrow> (a, Inl (NoToken e))
      | Inr assertion \<Rightarrow>
          (let rt = trim_right (if at_API a = [] then DefaultAPI else at_API a) (CHR ''/'')
           in if \<not> checkRoot parse_url loopback rt then (a, Inl InsecureRoot)
              else if \<not> has_client then (a, Inl NoClient)
              else (case post rt (token_path a) (''Bearer '' @ assertion) token_permissions of
                      Inl e \<Rightarrow> (a, Inl e)
                    | Inr (t, expires) \<Rightarrow> (a\<lparr>at_token := t, at_expires := expires\<rparr>, Inr t))))"

section \<open>Lists are read whole or refused\<close>

text \<open>A host that serves a list in pages of a hundred.\<close>

definition served :: "'a list \<Rightarrow> nat \<Rightarrow> 'a list" where
  "served xs page = take per_page (drop (per_page * (page - 1)) xs)"

lemma served_map: "served (map f xs) page = map f (served xs page)"
  by (simp add: served_def take_map drop_map)

lemma served_in: "x \<in> set (served xs page) \<Longrightarrow> x \<in> set xs"
  unfolding served_def by (meson in_set_dropD in_set_takeD)

lemma served_short:
  assumes "per_page * n \<le> length xs"
  shows "length (served xs (Suc n)) < per_page \<longleftrightarrow> length xs < per_page * Suc n"
  using assms by (auto simp: served_def min_def)

lemma served_joins: "take (per_page * n) xs @ served xs (Suc n) = take (per_page * Suc n) xs"
  by (simp add: served_def take_add [symmetric] add.commute)

lemma read_pages_served:
  assumes "\<And>p. 1 \<le> p \<Longrightarrow> page_of p = Inr (served xs p)" "per_page * n \<le> length xs"
  shows "read_pages page_of most left (Suc n) (take (per_page * n) xs) =
    (if length xs < per_page * (n + left) then Inr xs else Inl (TooManyListed most))"
  using assms(2)
proof (induction left arbitrary: n)
  case 0
  then show ?case by simp
next
  case (Suc left)
  show ?case
  proof (cases "length xs < per_page * Suc n")
    case True
    then have "take (per_page * n) xs @ served xs (Suc n) = xs" unfolding served_joins by simp
    then show ?thesis using True served_short [OF Suc.prems] by (simp add: assms(1))
  next
    case False
    then have "per_page * Suc n \<le> length xs" by simp
    note IH = Suc.IH [OF this]
    show ?thesis
      using served_short [OF Suc.prems] False IH
      by (simp only: read_pages.simps assms(1) rbind_simps served_joins if_False add_Suc_shift)
  qed
qed

lemma find_append: "List.find P (xs @ ys) = (case List.find P xs of None \<Rightarrow> List.find P ys | Some x \<Rightarrow> Some x)"
  by (induction xs) auto

lemma served_splits:
  "take (per_page * Suc left) (drop (per_page * n) xs) =
     served xs (Suc n) @ take (per_page * left) (drop (per_page * Suc n) xs)"
proof -
  have "take (per_page + per_page * left) (drop (per_page * n) xs) =
      take per_page (drop (per_page * n) xs) @ take (per_page * left) (drop per_page (drop (per_page * n) xs))"
    by (rule take_add)
  then show ?thesis by (simp add: served_def add.commute)
qed

lemma served_end:
  assumes "length (served xs (Suc n)) < per_page"
  shows "drop (per_page * Suc n) xs = []"
  using assms by (auto simp: served_def)

lemma find_comment_served:
  assumes "\<And>p. 1 \<le> p \<Longrightarrow> get (comments_path g pr p) = Inr (served cs p)"
  shows "find_comment_from get g pr login marker left (Suc n) =
    Inr (case List.find (own_comment login marker) (take (per_page * left) (drop (per_page * n) cs)) of
           Some c \<Rightarrow> ic_ID c | None \<Rightarrow> 0)"
proof (induction left arbitrary: n)
  case 0
  show ?case by simp
next
  case (Suc left)
  show ?case
    unfolding served_splits find_append using served_end [of cs n]
    by (auto simp: assms Suc.IH simp del: mult_Suc_right split: option.splits)
qed

lemma find_note_served:
  assumes "\<And>p. 1 \<le> p \<Longrightarrow> get (notes_page g mr p) = Inr (served ns p)" "per_page * n \<le> length ns"
  shows "find_note_from get g mr author marker left (Suc n) =
    (case List.find (own_note author marker) (take (per_page * left) (drop (per_page * n) ns)) of
       Some c \<Rightarrow> Inr (gn_ID c)
     | None \<Rightarrow> if length ns < per_page * (n + left) then Inr 0 else Inl (TooManyListed (maxCommentPages * per_page)))"
  using assms(2)
proof (induction left arbitrary: n)
  case 0
  then show ?case by simp
next
  case (Suc left)
  show ?case
  proof (cases "length (served ns (Suc n)) < per_page")
    case True
    then have "length ns < per_page * Suc n" using served_short [OF Suc.prems] by simp
    then show ?thesis
      unfolding served_splits find_append served_end [OF True] using True by (simp add: assms(1) split: option.split)
  next
    case False
    then have "per_page * Suc n \<le> length ns" using served_short [OF Suc.prems] by simp
    note IH = Suc.IH [OF this]
    show ?thesis
      unfolding served_splits find_append using False IH
      by (simp add: assms(1) del: mult_Suc_right split: option.split)
  qed
qed

lemma first_commit_served:
  assumes "\<And>p. 1 \<le> p \<Longrightarrow> get (commits_path g path r p) = Inr (served ts p)" "per_page * n \<le> length ts"
  shows "first_commit_from get g path r left (Suc n) (if n = 0 then None else Some (last (take (per_page * n) ts))) =
    (if per_page * (n + left) \<le> length ts then Inl (TooManyListed (maxCommitPages * per_page))
     else if ts = [] then Inl NoCommitTouched
     else if last ts = zero_time then Inl NoDateStated else Inr (last ts))"
  using assms(2)
proof (induction left arbitrary: n)
  case 0
  then show ?case by simp
next
  case (Suc left)
  let ?old = "if n = 0 then None else Some (last (take (per_page * n) ts))"
  let ?new = "if served ts (Suc n) \<noteq> [] then Some (last (served ts (Suc n))) else ?old"
  have step: "?new = (if take (per_page * Suc n) ts = [] then None else Some (last (take (per_page * Suc n) ts)))"
    unfolding served_joins [symmetric] using Suc.prems by auto
  show ?case
  proof (cases "length (served ts (Suc n)) < per_page")
    case True
    then have short: "length ts < per_page * Suc n" using served_short [OF Suc.prems] by simp
    then have "take (per_page * Suc n) ts = ts" by simp
    then have "?new = (if ts = [] then None else Some (last ts))" using step by simp
    then show ?thesis using True short by (simp add: assms(1))
  next
    case False
    then have long: "per_page * Suc n \<le> length ts" using served_short [OF Suc.prems] by simp
    then have "take (per_page * Suc n) ts \<noteq> []" by auto
    then have "?new = Some (last (take (per_page * Suc n) ts))" using step by simp
    then show ?thesis using False Suc.IH [OF long] by (simp add: assms(1) Let_def del: mult_Suc_right)
  qed
qed

lemma check_runs_served:
  assumes "\<And>p. 1 \<le> p \<Longrightarrow> get (check_runs_path g sha name p) = Inr (int (length rs), served rs p)"
    "per_page * n \<le> length rs" "0 < left"
  shows "check_runs_from get g sha name apps left (Suc n)
      (map (\<lambda>r. (lu_ID r, lu_Text r)) (filter (own_run apps) (take (per_page * n) rs))) =
    (if length rs \<le> per_page * (n + left) then Inr (map (\<lambda>r. (lu_ID r, lu_Text r)) (filter (own_run apps) rs))
     else Inl (TooManyListed 300))"
  using assms(2,3)
proof (induction left arbitrary: n)
  case 0
  then show ?case by simp
next
  case (Suc left)
  let ?keep = "\<lambda>rs. map (\<lambda>r. (lu_ID r, lu_Text r)) (filter (own_run apps) rs)"
  have joins: "?keep (take (per_page * n) rs) @ ?keep (served rs (Suc n)) = ?keep (take (per_page * Suc n) rs)"
    by (simp only: served_joins [symmetric] filter_append map_append)
  show ?case
  proof (cases "length rs \<le> per_page * Suc n")
    case True
    then have "take (per_page * Suc n) rs = rs" by simp
    moreover have "int (length rs) \<le> int (Suc n * per_page)" using True by (simp add: mult.commute)
    ultimately show ?thesis using True joins by (simp add: assms(1) Let_def)
  next
    case False
    then have long: "per_page * Suc n \<le> length rs" "\<not> int (length rs) \<le> int (Suc n * per_page)"
      "\<not> length (served rs (Suc n)) < per_page"
      using served_short [OF Suc.prems(1)] by (auto simp: mult.commute)
    have once: "check_runs_from get g sha name apps (Suc left) (Suc n) (?keep (take (per_page * n) rs)) =
        check_runs_from get g sha name apps left (Suc (Suc n)) (?keep (take (per_page * Suc n) rs))"
      using long(2,3) joins by (simp add: assms(1) Let_def del: mult_Suc_right mult_Suc)
    show ?thesis
    proof (cases left)
      case 0
      then show ?thesis unfolding once using False by simp
    next
      case (Suc l)
      then show ?thesis unfolding once using Suc.IH [OF long(1)] by simp
    qed
  qed
qed

lemma pull_commits_served:
  assumes "\<And>p. 1 \<le> p \<Longrightarrow> get (pull_commits_path g number p) = Inr (served cs p)"
    "length cs \<le> maxPullCommits" "list_all shaPattern cs" "per_page * n \<le> length cs"
  shows "pull_commits_from get g number (Suc n) (take (per_page * n) cs) = Inr cs"
  using assms(4)
proof (induction "maxPullCommits - per_page * n" arbitrary: n rule: less_induct)
  case less
  have sha: "list_all shaPattern (served cs (Suc n))"
    using assms(3) served_in unfolding list_all_iff by fast
  show ?case
  proof (cases "maxPullCommits \<le> length (take (per_page * n) cs)")
    case True
    then have "take (per_page * n) cs = cs" using assms(2) by simp
    then show ?thesis using True by (simp add: pull_commits_from.simps [of get g number "Suc n"])
  next
    case False
    then have below: "per_page * n < maxPullCommits" using less.prems by simp
    show ?thesis
    proof (cases "length (served cs (Suc n)) < per_page")
      case True
      then have "take (per_page * n) cs @ served cs (Suc n) = cs"
        unfolding served_joins using served_short [OF less.prems] by simp
      then show ?thesis using True False sha
        by (simp add: pull_commits_from.simps [of get g number "Suc n"] assms(1) del: pull_commits_from.simps) linarith
    next
      case long: False
      then have "per_page * Suc n \<le> length cs" using served_short [OF less.prems] by simp
      moreover have "maxPullCommits - per_page * Suc n < maxPullCommits - per_page * n" using below by simp
      ultimately have "pull_commits_from get g number (Suc (Suc n)) (take (per_page * Suc n) cs) = Inr cs"
        using less.hyps by blast
      then show ?thesis using long False sha
        by (simp add: pull_commits_from.simps [of get g number "Suc n"] assms(1) served_joins del: pull_commits_from.simps mult_Suc_right) linarith
    qed
  qed
qed


definition sample_github :: github where
  "sample_github = \<lparr>gh_api = DefaultAPI, gh_repository = ''acme/shop'', gh_login = actionsApp @ botSuffix\<rparr>"

lemma empty_served [simp]: "served [] p = []"
  by (simp add: served_def)

text \<open>A host that lists one comment, on the first page.\<close>

definition sample_comment :: issue_comment where
  "sample_comment = \<lparr>ic_ID = 9, ic_Body = ''m report'', ic_Login = ''github-actions[bot]''\<rparr>"

definition one_comment :: "string \<Rightarrow> scm_error + issue_comment list" where
  "one_comment path = Inr (if path = comments_path sample_github 3 1 then [sample_comment] else [])"

lemma one_comment_served: "1 \<le> p \<Longrightarrow> one_comment (comments_path sample_github 3 p) = Inr (served [sample_comment] p)"
proof -
  assume "1 \<le> p"
  have "comments_path sample_github 3 p = comments_path sample_github 3 1 \<longleftrightarrow> nat_string p = nat_string 1"
    by (simp add: comments_path_def repo_path_def)
  also have "\<dots> \<longleftrightarrow> p = 1" by (metis nat_string_val)
  finally show ?thesis using \<open>1 \<le> p\<close> by (auto simp: one_comment_def served_def)
qed


section \<open>The sticky comment is the adapter's own\<close>

text \<open>The adapter after any checks it posted: \<open>NewGitHub\<close> gives it GitHub Actions' login.\<close>

inductive github_in_use :: "github \<Rightarrow> bool" where
  fresh: "NewGitHub parse_url loopback has_client api repository = Inr g \<Longrightarrow> github_in_use g"
| posted: "github_in_use g \<Longrightarrow> PostCheck post g c = (g', answer) \<Longrightarrow> github_in_use g'"

lemma login_is_an_apps: "github_in_use g \<Longrightarrow> \<exists>slug. appSlugPattern slug \<and> gh_login g = slug @ botSuffix"
proof (induction rule: github_in_use.induct)
  case (fresh parse_url loopback has_client api repository g)
  have "appSlugPattern actionsApp" by code_simp
  moreover have "gh_login g = actionsApp @ botSuffix" using fresh by (auto simp: NewGitHub_def Let_def split: if_splits)
  ultimately show ?case by blast
next
  case (posted g post c g' answer)
  then show ?case by (auto simp: PostCheck_def split: sum.splits option.splits if_splits)
qed

lemma found_comment_is_own:
  "find_comment_from get g pr login marker left page = Inr i \<Longrightarrow> i \<noteq> 0 \<Longrightarrow>
     \<exists>p cs c. get (comments_path g pr p) = Inr cs \<and> c \<in> set cs \<and> own_comment login marker c \<and> ic_ID c = i"
proof (induction left arbitrary: page)
  case (Suc left)
  obtain cs where cs: "get (comments_path g pr page) = Inr cs" using Suc.prems(1) by (auto simp: result_eqs)
  show ?case
  proof (cases "List.find (own_comment login marker) cs")
    case None
    then have "find_comment_from get g pr login marker left (Suc page) = Inr i"
      using Suc.prems cs by (auto split: if_splits)
    then show ?thesis using Suc.IH Suc.prems(2) by blast
  next
    case (Some c)
    then have "c \<in> set cs" "own_comment login marker c" by (auto simp: find_Some_iff)
    moreover have "ic_ID c = i" using Suc.prems(1) cs Some by simp
    ultimately show ?thesis using cs by blast
  qed
qed simp

lemma lower_bot: "to_lower (slug @ botSuffix) = to_lower slug @ botSuffix"
proof -
  have "to_lower botSuffix = botSuffix" by code_simp
  then show ?thesis by (simp add: to_lower_def)
qed

text \<open>
  C31. The one request \<open>UpsertComment\<close> sends creates a comment on the pull request, or rewrites a comment the
  host listed for that pull request that opens with the marker and that an App's account wrote, the one the
  adapter posts as. A person's comment is never rewritten, whatever the host answers and whatever checks were
  posted before.
\<close>

theorem only_own_comments_rewritten:
  assumes "github_in_use g" "UpsertComment get g pr marker body = Inr w"
  shows "w = \<lparr>hw_method = ''POST'', hw_path = repo_path g (''/issues/'' @ int_string pr @ ''/comments''),
             hw_content = JObject [(''body'', JString body)]\<rparr> \<or>
    (\<exists>p cs c slug. get (comments_path g pr p) = Inr cs \<and> c \<in> set cs \<and> prefix marker (ic_Body c) \<and>
       appSlugPattern slug \<and> gh_login g = slug @ botSuffix \<and> to_lower (ic_Login c) = to_lower slug @ botSuffix \<and>
       w = \<lparr>hw_method = ''PATCH'', hw_path = repo_path g (''/issues/comments/'' @ int_string (ic_ID c)),
            hw_content = JObject [(''body'', JString body)]\<rparr>)"
proof -
  obtain i where i: "findComment get g pr marker = Inr i"
    "w = (if i = 0
          then \<lparr>hw_method = ''POST'', hw_path = repo_path g (''/issues/'' @ int_string pr @ ''/comments''),
                hw_content = JObject [(''body'', JString body)]\<rparr>
          else \<lparr>hw_method = ''PATCH'', hw_path = repo_path g (''/issues/comments/'' @ int_string i),
                hw_content = JObject [(''body'', JString body)]\<rparr>)"
    using assms(2) by (auto simp: UpsertComment_def result_eqs)
  show ?thesis
  proof (cases "i = 0")
    case True
    then show ?thesis using i(2) by simp
  next
    case False
    obtain slug where slug: "appSlugPattern slug" "gh_login g = slug @ botSuffix" using login_is_an_apps [OF assms(1)] by blast
    obtain p cs c where c: "get (comments_path g pr p) = Inr cs" "c \<in> set cs" "own_comment (gh_login g) marker c" "ic_ID c = i"
      using found_comment_is_own [OF i(1) [unfolded findComment_def] False] by blast
    have "to_lower (ic_Login c) = to_lower slug @ botSuffix" "prefix marker (ic_Body c)"
      using c(3) unfolding own_comment_def same_fold_def slug(2) lower_bot by auto
    then show ?thesis using c(1,2,4) slug i(2) False by auto
  qed
qed

theorem only_own_comments_rewritten_witness:
  "\<exists>w. UpsertComment (\<lambda>path. Inr [\<lparr>ic_ID = 9, ic_Body = ''m report'', ic_Login = ''github-actions[bot]''\<rparr>])
     sample_github 3 ''m'' ''new'' = Inr w \<and> hw_method w = ''PATCH'' \<and> hw_path w = ''/repos/acme/shop/issues/comments/9''"
proof -
  let ?get = "\<lambda>path. Inr [\<lparr>ic_ID = 9, ic_Body = ''m report'', ic_Login = ''github-actions[bot]''\<rparr>]"
  have "NewGitHub (\<lambda>u. Some (''https'', [])) (\<lambda>h. False) True [] ''acme/shop'' = Inr sample_github" by code_simp
  then have use: "github_in_use sample_github" by (rule github_in_use.fresh)
  have "(case UpsertComment ?get sample_github 3 ''m'' ''new'' of
      Inl _ \<Rightarrow> False | Inr w \<Rightarrow> hw_method w = ''PATCH'' \<and> hw_path w = ''/repos/acme/shop/issues/comments/9'')" by code_simp
  then obtain w where w: "UpsertComment ?get sample_github 3 ''m'' ''new'' = Inr w" "hw_method w = ''PATCH''"
    "hw_path w = ''/repos/acme/shop/issues/comments/9''"
    by (auto split: sum.splits)
  show ?thesis using only_own_comments_rewritten [OF use w(1)] w by blast
qed

end
