(* ===== verification/Egress.thy ===== *)
theory Egress
  imports Instant "HOL-Library.Multiset" "HOL-Library.List_Lexorder" "HOL-Library.Char_ord" "HOL-Library.Product_Lexorder"
begin

text \<open>
  \<open>internal/egress\<close>: the allowlist every call of the service passes, and the counters of its calls. \<open>parse_ip\<close>
  is whether \<open>net.ParseIP\<close> reads the text, \<open>hostname\<close> and \<open>split_host\<close> are \<open>net/url\<close>'s and \<open>net\<close>'s, and the
  transport and the dialer answer as parameters. The recorder is the log of the calls it counted, which
  \<open>Counters\<close> holds as a table.
\<close>

section \<open>Host names\<close>

abbreviation unnamed :: string where "unnamed \<equiv> ''(invalid)''"

definition maxHostBytes :: nat where
  "maxHostBytes = 253"

definition label_end :: "char \<Rightarrow> bool" where
  "label_end c \<longleftrightarrow> is_lower c \<or> is_digit c"

text \<open>\<open>[a-z0-9]([a-z0-9_-]*[a-z0-9])?\<close>, between dots.\<close>

definition host_label :: "string \<Rightarrow> bool" where
  "host_label l \<longleftrightarrow> l \<noteq> [] \<and> label_end (hd l) \<and> label_end (last l) \<and>
     list_all (\<lambda>c. label_end c \<or> c = CHR ''_'' \<or> c = CHR ''-'') l"

definition hostName :: "string \<Rightarrow> bool" where
  "hostName h \<longleftrightarrow> list_all host_label (split_at h (CHR ''.''))"

definition named :: "(string \<Rightarrow> bool) \<Rightarrow> string \<Rightarrow> string" where
  "named parse_ip host =
     (let host = fst (cut_suffix (to_lower host) ''.'')
      in if maxHostBytes < length host \<or> \<not> hostName host \<and> \<not> parse_ip host then unnamed else host)"

section \<open>The list\<close>

definition ParseList :: "(string \<Rightarrow> bool) \<Rightarrow> string list \<Rightarrow> string \<Rightarrow> string + string list" where
  "ParseList parse_ip values joined =
     rtraverse (\<lambda>e. let host = named parse_ip e in if host = unnamed then Inl e else Inr host)
       (values @ filter (\<lambda>e. e \<noteq> []) (map trim_space (split_at joined (CHR '',''))))"

type_synonym gate = "string set"

definition New_gate :: "(string \<Rightarrow> bool) \<Rightarrow> string list \<Rightarrow> gate" where
  "New_gate parse_ip hosts = named parse_ip ` set hosts - {unnamed}"

definition Hosts :: "gate \<Rightarrow> string list" where
  "Hosts g = sorted_list_of_set g"

definition Allows :: "(string \<Rightarrow> bool) \<Rightarrow> gate \<Rightarrow> string \<Rightarrow> bool" where
  "Allows parse_ip g host \<longleftrightarrow> named parse_ip host \<in> g"

section \<open>The gate\<close>

datatype outcome = Completed | Failed | Refused

text \<open>What a call did: the calls it counted, whether it reached the transport, and its answer.\<close>

type_synonym recorded = "(string \<times> outcome) list"

datatype egress_error =
    RefusedHost string
  | TransportError string
  | DialError string

definition gate_check :: "(string \<Rightarrow> bool) \<Rightarrow> gate \<Rightarrow> recorded \<Rightarrow> string \<Rightarrow> recorded \<times> (egress_error + string)" where
  "gate_check parse_ip g recs raw =
     (let host = named parse_ip raw
      in if host \<notin> g then (recs @ [(host, Refused)], Inl (RefusedHost host)) else (recs, Inr host))"

definition RoundTrip ::
    "(string \<Rightarrow> bool) \<Rightarrow> ('q \<Rightarrow> string) \<Rightarrow> ('q \<Rightarrow> string + 'r) \<Rightarrow> gate \<Rightarrow> recorded \<Rightarrow> 'q \<Rightarrow>
     recorded \<times> 'q list \<times> (egress_error + 'r)" where
  "RoundTrip parse_ip hostname transport g recs q =
     (case gate_check parse_ip g recs (hostname q) of
        (recs, Inl e) \<Rightarrow> (recs, [], Inl e)
      | (recs, Inr host) \<Rightarrow>
          (case transport q of
             Inl e \<Rightarrow> (recs @ [(host, Failed)], [q], Inl (TransportError e))
           | Inr r \<Rightarrow> (recs @ [(host, Completed)], [q], Inr r)))"

definition DialContext ::
    "(string \<Rightarrow> bool) \<Rightarrow> (string \<Rightarrow> string + string) \<Rightarrow> (string \<Rightarrow> string + 'c) \<Rightarrow> gate \<Rightarrow> recorded \<Rightarrow> string \<Rightarrow>
     recorded \<times> string list \<times> (egress_error + 'c)" where
  "DialContext parse_ip split_host dial g recs address =
     (case split_host address of
        Inl e \<Rightarrow> (recs, [], Inl (DialError e))
      | Inr host \<Rightarrow>
          (case gate_check parse_ip g recs host of
             (recs, Inl e) \<Rightarrow> (recs, [], Inl e)
           | (recs, Inr _) \<Rightarrow>
               (recs, [address], case dial address of Inl e \<Rightarrow> Inl (DialError e) | Inr c \<Rightarrow> Inr c)))"

section \<open>The counters\<close>

text \<open>A line of the report: the UTC day, the host and how the call ended.\<close>

type_synonym counter_key = "string \<times> string \<times> string"

type_synonym counts = "(counter_key \<times> int) list"

definition outcome_text :: "outcome \<Rightarrow> string" where
  "outcome_text r = (case r of Completed \<Rightarrow> ''completed'' | Failed \<Rightarrow> ''failed'' | Refused \<Rightarrow> ''refused'')"

definition bump_count :: "counter_key \<times> int \<Rightarrow> counts \<Rightarrow> counts" where
  "bump_count kc pending = upsert (fst kc) 0 (\<lambda>n. n + snd kc) pending"

definition counter_key_of :: "instant \<Rightarrow> string \<Rightarrow> outcome \<Rightarrow> counter_key" where
  "counter_key_of now host r = (format_day now, host, outcome_text r)"

definition Record_call :: "instant \<Rightarrow> string \<Rightarrow> outcome \<Rightarrow> counts \<Rightarrow> counts" where
  "Record_call now host r pending = bump_count (counter_key_of now host r, 1) pending"

definition putBack :: "counts \<Rightarrow> counts \<Rightarrow> counts" where
  "putBack taken pending = fold bump_count taken pending"

definition sorted_counts :: "counts \<Rightarrow> counts" where
  "sorted_counts taken = sort_key fst taken"

text \<open>
  A flush takes what is pending, writes it to the sink, and puts it back where the write fails. Other calls
  record between the two: \<open>counters\<close> holds what is pending and what a flush has in its hands.
\<close>

record counters =
  cn_pending :: counts
  cn_flying :: counts
  cn_stored :: counts

definition take_pending :: "counters \<Rightarrow> counters" where
  "take_pending c = c\<lparr>cn_pending := [], cn_flying := cn_pending c\<rparr>"

definition end_flush :: "bool \<Rightarrow> counters \<Rightarrow> counters" where
  "end_flush written c =
     (if cn_flying c = [] then c
      else if written then c\<lparr>cn_flying := [], cn_stored := cn_stored c @ sorted_counts (cn_flying c)\<rparr>
      else c\<lparr>cn_flying := [], cn_pending := putBack (cn_flying c) (cn_pending c)\<rparr>)"

section \<open>A refused call opens nothing\<close>

lemma lower_again: "to_lower (to_lower s) = to_lower s"
proof -
  have "\<not> is_upper (lower_char c)" for c
    by (auto simp: lower_char_def is_upper_def less_eq_char_def)
  then have "lower_char (lower_char c) = lower_char c" for c by (simp add: lower_char_def [of "lower_char c"])
  then show ?thesis by (simp add: to_lower_def)
qed

lemma split_at_snoc: "split_at (s @ [c]) c = split_at s c @ [[]]"
proof (induction s)
  case (Cons a s)
  then show ?case using split_at_nonempty [of s c] by (cases "split_at s c") auto
qed simp

lemma hostName_end: "hostName (h @ [c]) \<Longrightarrow> c \<noteq> CHR ''.''"
  using split_at_snoc [of h "CHR ''.''"] by (auto simp: hostName_def host_label_def)

text \<open>A name is in its one written form: \<open>named\<close> leaves it as it is.\<close>

lemma named_again:
  assumes "\<And>h. \<not> parse_ip (h @ ''.'')"
  shows "named parse_ip (named parse_ip h) = named parse_ip h"
proof (cases "named parse_ip h = unnamed")
  case True
  have "cut_suffix (to_lower unnamed) ''.'' = (unnamed, False)" by code_simp
  then show ?thesis unfolding True by (simp add: named_def)
next
  case False
  let ?x = "fst (cut_suffix (to_lower h) ''.'')"
  have x: "named parse_ip h = ?x" "length ?x \<le> maxHostBytes" "hostName ?x \<or> parse_ip ?x"
    using False by (auto simp: named_def Let_def split: if_splits)
  have "to_lower ?x = ?x"
  proof -
    have "to_lower (take n t) = take n (to_lower t)" for n t by (simp add: to_lower_def take_map)
    then have "to_lower (take n (to_lower h)) = take n (to_lower h)" for n using lower_again [of h] by metis
    then show ?thesis using lower_again [of h] by (simp add: cut_suffix_def)
  qed
  moreover have "cut_suffix ?x ''.'' = (?x, False)"
  proof -
    have "\<not> suffix ''.'' ?x"
    proof
      assume "suffix ''.'' ?x"
      then obtain y where "?x = y @ ''.''" by (auto simp: suffix_def)
      then show False using x(3) hostName_end [of y "CHR ''.''"] assms [of y] by simp
    qed
    then show ?thesis by (simp add: cut_suffix_def)
  qed
  ultimately have "named parse_ip ?x = ?x" using x(2,3) by (auto simp: named_def Let_def)
  then show ?thesis unfolding x(1) .
qed

lemma parsed_hosts:
  assumes "ParseList parse_ip values joined = Inr hosts" "h \<in> set hosts"
  shows "\<exists>e. h = named parse_ip e \<and> h \<noteq> unnamed"
proof -
  have "list_all2 (\<lambda>e h. (let host = named parse_ip e in if host = unnamed then Inl e else Inr host) = Inr h)
      (values @ filter (\<lambda>e. e \<noteq> []) (map trim_space (split_at joined (CHR '','')))) hosts"
    using assms(1) unfolding ParseList_def rtraverse_eq_Inr .
  then show ?thesis using assms(2)
    by (induction rule: list_all2_induct) (auto simp: Let_def split: if_splits)
qed

lemma gate_is_the_list:
  assumes "\<And>h. \<not> parse_ip (h @ ''.'')" "ParseList parse_ip values joined = Inr hosts"
  shows "New_gate parse_ip hosts = set hosts"
proof -
  have "named parse_ip h = h \<and> h \<noteq> unnamed" if "h \<in> set hosts" for h
    using parsed_hosts [OF assms(2) that] named_again [of parse_ip, OF assms(1)] by auto
  then show ?thesis unfolding New_gate_def by force
qed



section \<open>No count is lost\<close>

definition count_at :: "counter_key \<Rightarrow> counts \<Rightarrow> int" where
  "count_at k xs = (\<Sum>e\<leftarrow>filter (\<lambda>e. fst e = k) xs. snd e)"

lemma count_at_simps [simp]:
  "count_at k [] = 0"
  "count_at k (e # xs) = (if fst e = k then snd e else 0) + count_at k xs"
  "count_at k (xs @ ys) = count_at k xs + count_at k ys"
  by (simp_all add: count_at_def)

lemma count_at_bump [simp]: "count_at k (bump_count kc p) = count_at k p + (if fst kc = k then snd kc else 0)"
  unfolding bump_count_def by (induction p) auto

lemma count_at_put_back: "count_at k (putBack taken p) = count_at k taken + count_at k p"
  unfolding putBack_def by (induction taken arbitrary: p) auto

lemma count_at_mset: "count_at k xs = (\<Sum>e\<in>#filter_mset (\<lambda>e. fst e = k) (mset xs). snd e)"
  by (induction xs) auto

lemma count_at_sorted: "count_at k (sorted_counts xs) = count_at k xs"
  unfolding count_at_mset sorted_counts_def mset_sort ..

text \<open>
  The counters in use: calls are recorded at any time, and one flush runs at a time, as \<open>Run\<close> makes them.
  \<open>calls\<close> is every call recorded so far, under its day, host and outcome.
\<close>

inductive counters_run :: "counters \<Rightarrow> counter_key list \<Rightarrow> bool" where
  new: "counters_run \<lparr>cn_pending = [], cn_flying = [], cn_stored = []\<rparr> []"
| recorded: "counters_run c calls \<Longrightarrow>
    counters_run (c\<lparr>cn_pending := Record_call now host r (cn_pending c)\<rparr>) (calls @ [counter_key_of now host r])"
| taken: "counters_run c calls \<Longrightarrow> cn_flying c = [] \<Longrightarrow> counters_run (take_pending c) calls"
| flushed: "counters_run c calls \<Longrightarrow> counters_run (end_flush written c) calls"

text \<open>
  C28. Whatever calls are recorded while a flush writes, and however its writes end, no call is lost or counted
  twice: under each day, host and outcome the stored count, the count a flush holds and the pending one add up
  to the number of calls recorded.
\<close>

theorem no_count_is_lost:
  assumes "counters_run c calls"
  shows "count_at k (cn_stored c) + count_at k (cn_flying c) + count_at k (cn_pending c) =
    int (length (filter (\<lambda>e. e = k) calls))"
  using assms
proof (induction rule: counters_run.induct)
  case (recorded c calls now host r)
  then show ?case by (auto simp: Record_call_def)
next
  case (flushed c calls written)
  then show ?case by (cases "cn_flying c = []") (auto simp: end_flush_def count_at_put_back count_at_sorted)
qed (simp_all add: take_pending_def)

theorem no_count_is_lost_witness:
  "\<exists>c. counters_run c [counter_key_of 0 ''a'' Refused] \<and>
     count_at (counter_key_of 0 ''a'' Refused) (cn_stored c) + count_at (counter_key_of 0 ''a'' Refused) (cn_flying c) +
       count_at (counter_key_of 0 ''a'' Refused) (cn_pending c) = 1"
proof -
  have "\<exists>c. counters_run c ([] @ [counter_key_of 0 ''a'' Refused])"
    using counters_run.recorded [OF counters_run.new] by blast
  then obtain c where c: "counters_run c [counter_key_of 0 ''a'' Refused]" by auto
  show ?thesis using no_count_is_lost [OF c, of "counter_key_of 0 ''a'' Refused"] c by auto
qed

end
