(* ===== verification/ServerJoin.thy ===== *)
theory ServerJoin
  imports Store Run
begin

text \<open>
  \<open>internal/server\<close>, part one: what a charge is (\<open>charge.go\<close>), how the CI token joins it to a run,
  which credentials are proven minted (\<open>minted.go\<close>), and the row the pinned catalog makes of it. A
  refusal is the typed answer a sender gets; anything else is \<open>Internal\<close>. The per-tenant pseudonym of
  an address (an HMAC) is the parameter \<open>pseudonym\<close>.
\<close>

section \<open>Refusals\<close>

datatype server_error = Refused int string string | Internal string

abbreviation codeAuth :: string where "codeAuth \<equiv> ''AUTH_TOKEN_INVALID''"

abbreviation codeNoTenant :: string where "codeNoTenant \<equiv> ''TENANT_NOT_BOUND''"

abbreviation codeJoinKey :: string where "codeJoinKey \<equiv> ''JOIN_KEY_MISMATCH''"

abbreviation codeAttestation :: string where "codeAttestation \<equiv> ''ATTESTATION_FORBIDDEN''"

abbreviation codeInvalidRow :: string where "codeInvalidRow \<equiv> ''ROW_INVALID''"

abbreviation codeUnknownPrice :: string where "codeUnknownPrice \<equiv> ''PROVIDER_UNKNOWN''"

abbreviation codeMalformed :: string where "codeMalformed \<equiv> ''BODY_MALFORMED''"

abbreviation codeWrongRepo :: string where "codeWrongRepo \<equiv> ''REPOSITORY_FORBIDDEN''"

abbreviation codeBadQuery :: string where "codeBadQuery \<equiv> ''QUERY_INVALID''"

abbreviation codeNoSpend :: string where "codeNoSpend \<equiv> ''SPEND_NOT_KEPT''"

section \<open>The charge\<close>

abbreviation gradeExact :: string where "gradeExact \<equiv> ''exact''"

abbreviation gradeWindowed :: string where "gradeWindowed \<equiv> ''windowed''"

abbreviation gradeNone :: string where "gradeNone \<equiv> ''unattributed''"

abbreviation identityToken :: string where "identityToken \<equiv> ''token_verified''"

abbreviation identityNone :: string where "identityNone \<equiv> ''unverified''"

abbreviation sourceStream :: string where "sourceStream \<equiv> ''agent_stream''"

abbreviation sourceTelemetry :: string where "sourceTelemetry \<equiv> ''otlp''"

abbreviation sourceProviderReport :: string where "sourceProviderReport \<equiv> ''provider_report''"

abbreviation enforcementNone :: string where "enforcementNone \<equiv> ''none''"

abbreviation enforcementGateway :: string where "enforcementGateway \<equiv> ''gateway-precheck''"

definition futureSkew :: int where
  "futureSkew = 5 * 60 * second_ns"

definition repoTag :: "string \<Rightarrow> bool" where
  "repoTag = repositoryPattern"

definition prTag :: "string \<Rightarrow> bool" where
  "prTag = pullRequestPattern"

definition shaTag :: "string \<Rightarrow> bool" where
  "shaTag = commitPattern"

definition runTag :: "string \<Rightarrow> bool" where
  "runTag = runPattern"

definition sessionTag :: "string \<Rightarrow> bool" where
  "sessionTag = of_class run_char 1 256"

definition agent_char :: "char \<Rightarrow> bool" where
  "agent_char c \<longleftrightarrow> is_lower c \<or> is_digit c"

definition agentTag :: "string \<Rightarrow> bool" where
  "agentTag s \<longleftrightarrow> list_all (\<lambda>p. p \<noteq> [] \<and> list_all agent_char p) (split_at s (CHR ''-''))"

definition versionTag :: "string \<Rightarrow> bool" where
  "versionTag = of_class version_char 1 64"

definition model_tag_char :: "char \<Rightarrow> bool" where
  "model_tag_char c \<longleftrightarrow>
     is_alnum c \<or> c \<in> {CHR ''.'', CHR ''_'', CHR '':'', CHR ''/'', CHR ''@'', CHR ''-''}"

definition modelTag :: "string \<Rightarrow> bool" where
  "modelTag = of_class model_tag_char 1 128"

definition enforcementGrades :: "string list" where
  "enforcementGrades = [enforcementGateway, ''agent-flag'', ''wrapper-watchdog'', ''provider'', enforcementNone]"

definition classes :: "token_class list" where
  "classes =
     [InputUncached, CacheRead, CacheWrite5m, CacheWrite1h, CacheWrite30m, CacheWrite12h, Output, ReasoningOutput,
      CachedInputReported]"

record server_charge =
  sc_rowID :: string
  sc_provider :: string
  sc_model :: string
  sc_serviceTier :: string
  sc_region :: string
  sc_credential :: string
  sc_account :: string
  sc_context :: int
  sc_class :: token_class
  sc_tokens :: int
  sc_start :: instant
  sc_end :: instant
  sc_session :: string
  sc_agent :: string
  sc_agentVersion :: string
  sc_basis :: cost_basis
  sc_enforcement :: string
  sc_overshoot :: "decimal option"
  sc_source :: string
  sc_notes :: "string list"
  sc_assumedTTL :: string
  sc_repo :: string
  sc_pr :: string
  sc_sha :: string
  sc_run :: string
  sc_weakJoin :: bool
  sc_email :: string

section \<open>The join\<close>

record identity =
  id_Host :: string
  id_Owner :: string
  id_Repository :: string
  id_RunID :: string
  id_RunAttempt :: string
  id_CommitSHA :: string
  id_CommitIsHead :: bool
  id_Actor :: string
  id_Event :: string
  id_PullRequest :: string
  id_Environment :: string

record caller =
  cl_tenant :: string
  cl_identity :: "identity option"

record join_result =
  jr_repo :: string
  jr_pr :: string
  jr_sha :: string
  jr_run :: string
  jr_tokenSHA :: string
  jr_headBasis :: string
  jr_grade :: string
  jr_identity :: string
  jr_attempt :: string
  jr_actor :: string
  jr_event :: string
  jr_credentialBasis :: string

definition joinKeyRefusal :: "string \<Rightarrow> server_error" where
  "joinKeyRefusal key = Refused 403 codeJoinKey (''The row's '' @ key @ '' disagrees with the CI token.'')"

definition namesCredential :: "server_charge \<Rightarrow> bool" where
  "namesCredential c \<longleftrightarrow> sc_credential c \<noteq> [] \<and> sc_credential c \<noteq> sc_session c"

definition basisOf :: "server_charge \<Rightarrow> (string \<Rightarrow> bool) \<Rightarrow> string" where
  "basisOf c proven =
     (if sc_credential c = [] then []
      else if namesCredential c \<and> proven (sc_credential c) then CredentialMinted
      else CredentialStated)"

definition statedHead :: "string \<Rightarrow> server_error + (string \<times> string)" where
  "statedHead sha =
     (if sha = [] then Inr ([], [])
      else if \<not> shaTag sha then Inl (joinKeyRefusal ''commit'')
      else Inr (sha, HeadStated))"

definition headOf :: "server_charge \<Rightarrow> identity \<Rightarrow> server_error + (string \<times> string)" where
  "headOf c i =
     (if \<not> id_CommitIsHead i then statedHead (sc_sha c)
      else if sc_sha c \<noteq> [] \<and> sc_sha c \<noteq> id_CommitSHA i then Inl (joinKeyRefusal ''commit'')
      else Inr (id_CommitSHA i, HeadFromToken))"

definition joinUnverified :: "(string \<Rightarrow> string \<Rightarrow> string) \<Rightarrow> server_charge \<Rightarrow> caller \<Rightarrow> join_result" where
  "joinUnverified pseudonym c who =
     \<lparr>jr_repo = (if repoTag (sc_repo c) then sc_repo c else []),
      jr_pr = (if prTag (sc_pr c) then sc_pr c else []),
      jr_sha = (if shaTag (sc_sha c) then sc_sha c else []),
      jr_run = (if runTag (sc_run c) then sc_run c else []),
      jr_tokenSHA = [],
      jr_headBasis = (if shaTag (sc_sha c) then HeadStated else []),
      jr_grade = gradeNone, jr_identity = identityNone, jr_attempt = [],
      jr_actor = (if sc_email c \<noteq> [] then pseudonym (cl_tenant who) (sc_email c) else []),
      jr_event = [], jr_credentialBasis = []\<rparr>"

text \<open>A stated key that the token names differently.\<close>

definition stated_mismatch :: "server_charge \<Rightarrow> identity \<Rightarrow> string option" where
  "stated_mismatch c i =
     (if sc_repo c \<noteq> [] \<and> sc_repo c \<noteq> id_Repository i then Some ''repository''
      else if sc_run c \<noteq> [] \<and> sc_run c \<noteq> id_RunID i then Some ''run''
      else if sc_pr c \<noteq> [] \<and> id_PullRequest i \<noteq> [] \<and> sc_pr c \<noteq> id_PullRequest i then Some ''pull request''
      else None)"

definition join_charge :: "(string \<Rightarrow> string \<Rightarrow> string) \<Rightarrow> server_charge \<Rightarrow> caller \<Rightarrow> (string \<Rightarrow> bool) \<Rightarrow> server_error + join_result" where
  "join_charge pseudonym c who proven =
     (case cl_identity who of
        None \<Rightarrow> Inr ((joinUnverified pseudonym c who)\<lparr>jr_credentialBasis := basisOf c proven\<rparr>)
      | Some i \<Rightarrow>
          (case stated_mismatch c i of
             Some key \<Rightarrow> Inl (joinKeyRefusal key)
           | None \<Rightarrow>
               rmap (\<lambda>(head, basis).
                 let result =
                   \<lparr>jr_repo = id_Repository i, jr_pr = id_PullRequest i, jr_sha = head, jr_run = id_RunID i,
                    jr_tokenSHA = id_CommitSHA i, jr_headBasis = basis, jr_grade = gradeWindowed,
                    jr_identity = identityToken, jr_attempt = id_RunAttempt i, jr_actor = id_Actor i,
                    jr_event = id_Event i, jr_credentialBasis = basisOf c proven\<rparr>
                 in if id_PullRequest i \<noteq> [] \<and> head \<noteq> [] \<and> jr_credentialBasis result = CredentialMinted \<and> \<not> sc_weakJoin c
                    then result\<lparr>jr_grade := gradeExact\<rparr> else result)
                 (headOf c i)))"

section \<open>The row\<close>

definition enforcementOf :: "server_charge \<Rightarrow> join_result \<Rightarrow> string" where
  "enforcementOf c j =
     (if jr_identity j \<noteq> identityToken \<or> sc_enforcement c \<notin> set enforcementGrades then enforcementNone
      else if sc_enforcement c = enforcementGateway \<and> sc_overshoot c = None then enforcementNone
      else sc_enforcement c)"

definition overshootOf :: "server_charge \<Rightarrow> join_result \<Rightarrow> decimal option" where
  "overshootOf c j = (if enforcementOf c j = enforcementGateway then sc_overshoot c else None)"

definition set_stated :: "(string \<rightharpoonup> string) \<Rightarrow> string \<times> string \<Rightarrow> (string \<rightharpoonup> string)" where
  "set_stated tags kv = (if snd kv \<noteq> [] then tags(fst kv \<mapsto> snd kv) else tags)"

definition tagsOf :: "server_charge \<Rightarrow> join_result \<Rightarrow> (string \<rightharpoonup> string)" where
  "tagsOf c j =
     foldl set_stated
       [''costroid/agent'' \<mapsto> sc_agent c,
        ''costroid/model'' \<mapsto> sc_model c,
        ''costroid/cost_source'' \<mapsto> sc_source c,
        ''costroid/cost_basis'' \<mapsto> sc_basis c,
        ''costroid/attribution_grade'' \<mapsto> jr_grade j,
        ''costroid/enforcement_grade'' \<mapsto> enforcementOf c j,
        ''costroid/run_identity'' \<mapsto> jr_identity j]
       [(''costroid/repo'', jr_repo j), (''costroid/pr'', jr_pr j), (''costroid/commit_sha'', jr_sha j),
        (''costroid/workflow_run_id'', jr_run j), (''costroid/session_id'', sc_session c),
        (''costroid/agent_version'', sc_agentVersion c), (''costroid/assumed_ttl'', sc_assumedTTL c)]"

definition price_query :: "server_charge \<Rightarrow> query" where
  "price_query c =
     \<lparr>q_Provider = sc_provider c, q_Model = sc_model c, q_Class = sc_class c, q_ServiceTier = sc_serviceTier c,
      q_Region = (if sc_region c = [] then RegionGlobal else sc_region c), q_ContextInputTokens = sc_context c,
      q_At = fst (ChargePeriod (sc_start c) (sc_end c))\<rparr>"

text \<open>The price and the notes it adds.\<close>

definition applyPrice :: "catalog \<Rightarrow> server_charge \<Rightarrow> server_error + (price \<times> string list)" where
  "applyPrice cat c =
     (case Lookup cat (price_query c) of
        Inl _ \<Rightarrow> Inl (Refused 422 codeUnknownPrice ''The catalog has no price or fallback for this row.'')
      | Inr p \<Rightarrow>
          Inr (\<lparr>pr_SkuPriceID = cp_SkuPriceID p, pr_PricingUnit = cp_PricingUnit p, pr_ListUnitPrice = cp_ListUnitPrice p\<rparr>,
               (if cp_Fallback p then [NoteFallback] else []) @
               (case cp_ResidencyMultiplier p of None \<Rightarrow> [] | Some f \<Rightarrow> [ResidencyNote f (sc_region c)])))"

definition priced_charge :: "catalog \<Rightarrow> server_charge \<Rightarrow> join_result \<Rightarrow> string \<Rightarrow> price option \<times> string list \<Rightarrow> charge" where
  "priced_charge cat c j provider pn =
     \<lparr>ch_RowID = sc_rowID c, ch_Provider = sc_provider c, ch_ServiceProviderName = provider, ch_Model = sc_model c,
      ch_Class = sc_class c, ch_Tokens = sc_tokens c, ch_Start = sc_start c, ch_End = sc_end c,
      ch_Account = sc_account c, ch_Credential = sc_credential c, ch_Region = sc_region c,
      ch_ServiceTier = sc_serviceTier c, ch_CatalogVersion = cat_version cat, ch_Price = fst pn, ch_Basis = sc_basis c,
      ch_Tags = tagsOf c j, ch_Notes = sc_notes c @ snd pn, ch_OvershootBound = overshootOf c j\<rparr>"

definition price_charge :: "catalog \<Rightarrow> server_charge \<Rightarrow> join_result \<Rightarrow> server_error + store_record" where
  "price_charge cat c j =
     (case ServiceProviderNameOf cat (sc_provider c) of
        Inl _ \<Rightarrow> Inl (Refused 422 codeUnknownPrice ''The catalog has no sheet for this row's provider.'')
      | Inr provider \<Rightarrow>
          rbind (if Informational (sc_class c) then Inr (None, [NoteInformational])
                 else rmap (\<lambda>(p, notes). (Some p, notes)) (applyPrice cat c)) (\<lambda>pn.
            let row = NewRow (priced_charge cat c j provider pn)
            in case Check row of
                 Inl _ \<Rightarrow> Inl (Internal ''server: priced row'')
               | Inr _ \<Rightarrow>
                   Inr \<lparr>rd_Row = row, rd_RunAttempt = jr_attempt j, rd_Actor = jr_actor j, rd_Event = jr_event j,
                        rd_TokenCommitSHA = jr_tokenSHA j, rd_HeadBasis = jr_headBasis j,
                        rd_CredentialBasis = jr_credentialBasis j\<rparr>))"

section \<open>Proven credentials and the batch\<close>

definition gatewayKeyID :: "string \<Rightarrow> bool" where
  "gatewayKeyID = hex64"

text \<open>The keys the batch names, each once and in order.\<close>

fun stated_keys :: "string list \<Rightarrow> server_charge list \<Rightarrow> string list" where
  "stated_keys seen [] = []"
| "stated_keys seen (c # cs) =
     (if sc_credential c \<in> set seen \<or> \<not> namesCredential c \<or> \<not> gatewayKeyID (sc_credential c)
      then stated_keys seen cs
      else sc_credential c # stated_keys (sc_credential c # seen) cs)"

definition run_of :: "identity \<Rightarrow> minted_credential" where
  "run_of i =
     \<lparr>mc_KeySHA256 = [], mc_Repository = id_Repository i, mc_RunID = id_RunID i, mc_RunAttempt = id_RunAttempt i,
      mc_Environment = []\<rparr>"

definition provenCredentials :: "ledger \<Rightarrow> caller \<Rightarrow> server_charge list \<Rightarrow> string \<Rightarrow> bool" where
  "provenCredentials s who cs =
     (case cl_identity who of
        None \<Rightarrow> (\<lambda>_. False)
      | Some i \<Rightarrow>
          if id_PullRequest i = [] then (\<lambda>_. False)
          else (let keys = stated_keys [] cs
                in if keys = [] then (\<lambda>_. False)
                   else (\<lambda>key. case MintedCredentials s keys key of
                          None \<Rightarrow> False
                        | Some m \<Rightarrow> id_RunAttempt i \<noteq> [] \<and> SameRun m (run_of i))))"

definition charge_record :: "(string \<Rightarrow> string \<Rightarrow> string) \<Rightarrow> catalog \<Rightarrow> instant \<Rightarrow> caller \<Rightarrow> (string \<Rightarrow> bool) \<Rightarrow> server_charge \<Rightarrow>
    server_error + store_record" where
  "charge_record pseudonym cat now who proven c =
     (if sc_start c > now + futureSkew
      then Inl (Refused 422 codeInvalidRow ''A row's charge period starts in the future.'')
      else rbind (join_charge pseudonym c who proven) (price_charge cat c))"

definition store_failed :: "store_error + 'a \<Rightarrow> server_error + 'a" where
  "store_failed r = (case r of Inl _ \<Rightarrow> Inl (Internal ''store'') | Inr x \<Rightarrow> Inr x)"

definition write_charges :: "(string \<Rightarrow> string \<Rightarrow> string) \<Rightarrow> catalog \<Rightarrow> instant \<Rightarrow> ledger \<Rightarrow> caller \<Rightarrow> server_charge list \<Rightarrow>
    (string \<times> int) list \<Rightarrow> server_error + (ledger \<times> receipt)" where
  "write_charges pseudonym cat now s who cs drops =
     rbind (rtraverse (charge_record pseudonym cat now who (provenCredentials s who cs)) cs) (\<lambda>records.
       store_failed (Ingest s \<lparr>ba_Records = records, ba_Drops = drops, ba_Day = now\<rparr>))"

section \<open>Attesting a minted credential\<close>

record attestation =
  at_KeyID :: string
  at_Repository :: string
  at_RunID :: string
  at_RunAttempt :: string

definition run_mismatch :: "identity \<Rightarrow> string \<times> string \<times> string \<Rightarrow> string option" where
  "run_mismatch i stated =
     (let (repo, run, attempt) = stated
      in if id_Repository i = [] \<or> to_lower repo \<noteq> id_Repository i then Some ''repository''
         else if id_RunID i = [] \<or> run \<noteq> id_RunID i then Some ''run''
         else if id_RunAttempt i = [] \<or> attempt \<noteq> id_RunAttempt i then Some ''attempt''
         else None)"

definition attestation_mismatch :: "string \<Rightarrow> server_error" where
  "attestation_mismatch key = Refused 403 codeJoinKey (''The attestation's '' @ key @ '' disagrees with the CI token.'')"

text \<open>\<open>decode\<close> is the strict JSON decoding of the body: None when it is no attestation.\<close>

definition readAttestation :: "(string \<Rightarrow> attestation option) \<Rightarrow> string \<Rightarrow> caller \<Rightarrow> string \<Rightarrow> server_error + minted_credential" where
  "readAttestation decode environment who body =
     (case cl_identity who of
        None \<Rightarrow> Inl (Refused 403 codeAttestation ''An attestation needs a CI token.'')
      | Some i \<Rightarrow>
          if environment = [] \<or> id_Environment i \<noteq> environment
          then Inl (Refused 403 codeAttestation ''The token's job did not run in the gateway's environment.'')
          else (case decode body of
                  None \<Rightarrow> Inl (Refused 400 codeMalformed ''The body is not an attestation with a 64-character key_id.'')
                | Some a \<Rightarrow>
                    if \<not> gatewayKeyID (at_KeyID a)
                    then Inl (Refused 400 codeMalformed ''The body is not an attestation with a 64-character key_id.'')
                    else (case run_mismatch i (at_Repository a, at_RunID a, at_RunAttempt a) of
                            Some key \<Rightarrow> Inl (attestation_mismatch key)
                          | None \<Rightarrow>
                              Inr \<lparr>mc_KeySHA256 = at_KeyID a, mc_Repository = id_Repository i, mc_RunID = id_RunID i,
                                   mc_RunAttempt = id_RunAttempt i, mc_Environment = id_Environment i\<rparr>)))"

definition handleCredentials :: "(string \<Rightarrow> attestation option) \<Rightarrow> string \<Rightarrow> ledger \<Rightarrow> caller \<Rightarrow> string \<Rightarrow> server_error + ledger" where
  "handleCredentials decode environment s who body =
     rbind (readAttestation decode environment who body) (\<lambda>m.
       case Attest s m of
         Inl AttestedElsewhere \<Rightarrow> Inl (Refused 409 codeJoinKey ''The key is attested for another run.'')
       | Inl _ \<Rightarrow> Inl (Internal ''store'')
       | Inr s' \<Rightarrow> Inr s')"

section \<open>Lemmas\<close>

lemma set_stated_lookup [simp]:
  "set_stated tags kv k = (if k = fst kv \<and> snd kv \<noteq> [] then Some (snd kv) else tags k)"
  by (simp add: set_stated_def)

lemma tagsOf_lookup [simp]:
  "tagsOf c j ''costroid/cost_source'' = Some (sc_source c)"
  "tagsOf c j ''costroid/cost_basis'' = Some (sc_basis c)"
  "tagsOf c j ''costroid/attribution_grade'' = Some (jr_grade j)"
  "tagsOf c j ''costroid/enforcement_grade'' = Some (enforcementOf c j)"
  "tagsOf c j ''costroid/run_identity'' = Some (jr_identity j)"
  "tagsOf c j ''costroid/repo'' = optional (jr_repo j)"
  "tagsOf c j ''costroid/pr'' = optional (jr_pr j)"
  "tagsOf c j ''costroid/commit_sha'' = optional (jr_sha j)"
  "tagsOf c j ''costroid/workflow_run_id'' = optional (jr_run j)"
  by (simp_all add: tagsOf_def optional_def)

text \<open>What a join says, with and without a token.\<close>

lemma join_without_token:
  assumes "cl_identity who = None" "join_charge ps c who proven = Inr j"
  shows "jr_identity j = identityNone \<and> jr_grade j = gradeNone \<and> jr_credentialBasis j = basisOf c proven \<and>
    jr_attempt j = [] \<and> jr_tokenSHA j = []"
  using assms by (auto simp: join_charge_def joinUnverified_def)

lemma join_with_token:
  assumes "cl_identity who = Some i" "join_charge ps c who proven = Inr j"
  shows "stated_mismatch c i = None \<and> jr_identity j = identityToken \<and> jr_repo j = id_Repository i \<and>
    jr_pr j = id_PullRequest i \<and> jr_run j = id_RunID i \<and> jr_attempt j = id_RunAttempt i \<and>
    jr_tokenSHA j = id_CommitSHA i \<and> jr_actor j = id_Actor i \<and> jr_credentialBasis j = basisOf c proven \<and>
    headOf c i = Inr (jr_sha j, jr_headBasis j) \<and>
    jr_grade j = (if id_PullRequest i \<noteq> [] \<and> jr_sha j \<noteq> [] \<and> basisOf c proven = CredentialMinted \<and> \<not> sc_weakJoin c
                  then gradeExact else gradeWindowed)"
  using assms by (auto simp: join_charge_def result_eqs Let_def split: option.splits if_splits prod.splits)

lemma basisOf_minted:
  "basisOf c proven = CredentialMinted \<longleftrightarrow> namesCredential c \<and> proven (sc_credential c)"
  by (auto simp: basisOf_def namesCredential_def)

lemma in_stated_keys:
  "k \<in> set (stated_keys seen cs) \<longleftrightarrow>
     k \<notin> set seen \<and> (\<exists>c\<in>set cs. sc_credential c = k \<and> namesCredential c \<and> gatewayKeyID k)"
  by (induction seen cs rule: stated_keys.induct) auto

text \<open>A credential is proven exactly by an attestation of the token's own run.\<close>

lemma provenCredentials_iff:
  "provenCredentials s who cs key \<longleftrightarrow>
     (\<exists>i m. cl_identity who = Some i \<and> id_PullRequest i \<noteq> [] \<and> id_RunAttempt i \<noteq> [] \<and>
       (\<exists>c\<in>set cs. sc_credential c = key \<and> namesCredential c \<and> gatewayKeyID key) \<and>
       lg_minted s key = Some m \<and> SameRun m (run_of i))"
  (is "?l \<longleftrightarrow> ?r")
proof (cases "cl_identity who")
  case (Some i)
  have keys: "stated_keys [] cs = [] \<Longrightarrow> \<not> (\<exists>c\<in>set cs. sc_credential c = key \<and> namesCredential c \<and> gatewayKeyID key)"
    using in_stated_keys [of key "[]" cs] by simp
  show ?thesis using keys
    by (auto simp: provenCredentials_def Some Let_def MintedCredentials_def in_stated_keys split: option.splits)
qed (simp add: provenCredentials_def)

lemma if_checked:
  "(case r of Inl _ \<Rightarrow> Inl e | Inr _ \<Rightarrow> Inr x) = Inr y \<longleftrightarrow> r = Inr () \<and> y = x" for r :: "'e + unit"
  by (cases r) auto

lemma price_charge_row:
  assumes "price_charge cat c j = Inr rec"
  obtains provider pn where "rd_Row rec = NewRow (priced_charge cat c j provider pn)" "Check (rd_Row rec) = Inr ()"
    "rd_RunAttempt rec = jr_attempt j" "rd_CredentialBasis rec = jr_credentialBasis j"
    "rd_TokenCommitSHA rec = jr_tokenSHA j" "rd_HeadBasis rec = jr_headBasis j"
    "fst pn = None \<and> Informational (sc_class c) \<or> \<not> Informational (sc_class c) \<and>
      (\<exists>p q. fst pn = Some p \<and> Lookup cat (price_query c) = Inr q \<and> pr_ListUnitPrice p = cp_ListUnitPrice q)"
proof -
  obtain provider where provider: "ServiceProviderNameOf cat (sc_provider c) = Inr provider"
    using assms by (auto simp: price_charge_def split: sum.splits)
  obtain pn where pn: "(if Informational (sc_class c) then Inr (None, [NoteInformational])
        else rmap (\<lambda>(p, notes). (Some p, notes)) (applyPrice cat c)) = Inr pn"
    and row: "Check (NewRow (priced_charge cat c j provider pn)) = Inr ()"
    "rec = \<lparr>rd_Row = NewRow (priced_charge cat c j provider pn), rd_RunAttempt = jr_attempt j, rd_Actor = jr_actor j,
      rd_Event = jr_event j, rd_TokenCommitSHA = jr_tokenSHA j, rd_HeadBasis = jr_headBasis j,
      rd_CredentialBasis = jr_credentialBasis j\<rparr>"
    using assms by (auto simp: price_charge_def provider result_eqs Let_def if_checked)
  have "fst pn = None \<and> Informational (sc_class c) \<or> \<not> Informational (sc_class c) \<and>
      (\<exists>p q. fst pn = Some p \<and> Lookup cat (price_query c) = Inr q \<and> pr_ListUnitPrice p = cp_ListUnitPrice q)"
    using pn by (auto simp: applyPrice_def result_eqs split: if_splits sum.splits)
  then show thesis using row by (intro that [of provider pn]) simp_all
qed

lemma columns_add_fields:
  assumes "columns_add rec = Inr r"
  shows "sw_document r = rd_Row rec" "sw_id r = RowID (rd_Row rec)" "sw_currency r = BillingCurrency (rd_Row rec)"
    "sw_list_cost r = ListCost (rd_Row rec)" "sw_source r = tag_of (rd_Row rec) ''costroid/cost_source''"
    "sw_grade r = tag_of (rd_Row rec) ''costroid/attribution_grade''"
    "sw_enforcement r = tag_of (rd_Row rec) ''costroid/enforcement_grade''"
    "sw_identity r = tag_of (rd_Row rec) ''costroid/run_identity''"
    "sw_repo r = optional (tag_of (rd_Row rec) ''costroid/repo'')"
    "sw_pr r = optional (tag_of (rd_Row rec) ''costroid/pr'')"
    "sw_sha r = optional (tag_of (rd_Row rec) ''costroid/commit_sha'')"
    "sw_run r = optional (tag_of (rd_Row rec) ''costroid/workflow_run_id'')"
    "sw_attempt r = optional (rd_RunAttempt rec)" "sw_credential_basis r = optional (rd_CredentialBasis rec)"
  using assms by (auto simp: columns_add_def Let_def split: option.splits)

lemma optional_tag: "Tags row key = optional v \<Longrightarrow> optional (tag_of row key) = optional v"
  by (simp add: tag_of_def optional_def)

text \<open>A stored row says what the join said, at the price of the catalog.\<close>

lemma stored_charge:
  assumes "charge_record ps cat now who proven c = Inr rec" "columns_add rec = Inr r"
  obtains j where "join_charge ps c who proven = Inr j" "Check (sw_document r) = Inr ()"
    "sw_id r = sc_rowID c" "sw_currency r = ''USD''" "sw_source r = sc_source c" "sw_grade r = jr_grade j"
    "sw_identity r = jr_identity j" "sw_enforcement r = enforcementOf c j" "sw_repo r = optional (jr_repo j)"
    "sw_pr r = optional (jr_pr j)" "sw_sha r = optional (jr_sha j)" "sw_run r = optional (jr_run j)"
    "sw_attempt r = optional (jr_attempt j)" "sw_credential_basis r = optional (jr_credentialBasis j)"
    "SubAccountID (sw_document r) = optional (sc_credential c)" "OvershootBound (sw_document r) = overshootOf c j"
    "wf_decimal (sw_list_cost r)"
    "if Informational (sc_class c) then dval (sw_list_cost r) = 0
     else \<exists>p. Lookup cat (price_query c) = Inr p \<and>
       dval (sw_list_cost r) = dval (cp_ListUnitPrice p) * of_int (sc_tokens c) / 10 ^ 6"
    "0 \<le> dval (sw_list_cost r)"
proof -
  obtain j where j: "join_charge ps c who proven = Inr j" and rec: "price_charge cat c j = Inr rec"
    using assms(1) by (auto simp: charge_record_def result_eqs split: if_splits)
  obtain provider pn where row: "rd_Row rec = NewRow (priced_charge cat c j provider pn)" "Check (rd_Row rec) = Inr ()"
    and meta: "rd_RunAttempt rec = jr_attempt j" "rd_CredentialBasis rec = jr_credentialBasis j"
    and pn: "fst pn = None \<and> Informational (sc_class c) \<or> \<not> Informational (sc_class c) \<and>
      (\<exists>p q. fst pn = Some p \<and> Lookup cat (price_query c) = Inr q \<and> pr_ListUnitPrice p = cp_ListUnitPrice q)"
    using price_charge_row [OF rec] by metis
  note fields = columns_add_fields [OF assms(2)]
  have tags: "Tags (rd_Row rec) = tagsOf c j" by (simp add: row(1) priced_charge_def)
  have cost: "wf_decimal (sw_list_cost r) \<and>
      (if Informational (sc_class c) then dval (sw_list_cost r) = 0
       else \<exists>p. Lookup cat (price_query c) = Inr p \<and>
         dval (sw_list_cost r) = dval (cp_ListUnitPrice p) * of_int (sc_tokens c) / 10 ^ 6)"
    using pn cat.price_wf by (auto simp: fields row(1) priced_charge_def)
  have "Sign (ListCost (rd_Row rec)) \<ge> 0"
    using row(2) by (auto simp: Check_def amounts_def check_amount_def result_eqs split: if_splits)
  then have "0 \<le> dval (sw_list_cost r)" using cost by (simp add: fields)
  moreover have "OvershootBound (rd_Row rec) = overshootOf c j \<and> SubAccountID (rd_Row rec) = optional (sc_credential c) \<and>
      RowID (rd_Row rec) = sc_rowID c \<and> BillingCurrency (rd_Row rec) = ''USD''"
    by (simp add: row(1) priced_charge_def)
  moreover have "optional (tag_of (rd_Row rec) ''costroid/repo'') = optional (jr_repo j)"
    "optional (tag_of (rd_Row rec) ''costroid/pr'') = optional (jr_pr j)"
    "optional (tag_of (rd_Row rec) ''costroid/commit_sha'') = optional (jr_sha j)"
    "optional (tag_of (rd_Row rec) ''costroid/workflow_run_id'') = optional (jr_run j)"
    by (simp_all add: optional_tag tags)
  ultimately show thesis using j cost row(2)
    by (intro that [of j]) (simp_all only: fields meta, (fact | (elim conjE, assumption) | simp add: tag_of_def tags)+)
qed

end
