(* ===== verification/ServerAuth.thy ===== *)
theory ServerAuth
  imports ServerJoin
begin

text \<open>
  \<open>internal/server/auth.go\<close>: who a request proved to be. \<open>verify\<close> is the OIDC verifier, \<open>sha256\<close> and
  \<open>hmac\<close> the digests (hexadecimal) and \<open>hkdf\<close> the key derivation. \<open>serve_request\<close> is what every handler
  does first: it proves a caller and then reads and writes that caller's tenant only.
\<close>

abbreviation codeEgress :: string where "codeEgress \<equiv> ''EGRESS_REFUSED''"

text \<open>A token's verification fails because its issuer's host is off the allowlist, or for another reason.\<close>

datatype verify_error = OffAllowlist string | NotVerified string

definition invalidToken :: server_error where
  "invalidToken = Refused 401 codeAuth ''The token is absent, expired or not valid for this service.''"

definition offTheList :: "string \<Rightarrow> server_error" where
  "offTheList host =
     Refused 503 codeEgress
       (''The egress allowlist does not hold '' @ host @ '', where this token's issuer keeps its signing keys. The operator adds it with --egress-allow.'')"

definition authenticateKey :: "(string \<Rightarrow> string) \<Rightarrow> database \<Rightarrow> string \<Rightarrow> server_error + caller" where
  "authenticateKey sha256 db key =
     (case TenantForKey db (KeyDigest sha256 key) of
        Inl NotFound \<Rightarrow> Inl invalidToken
      | Inl _ \<Rightarrow> Inl (Internal ''store'')
      | Inr t \<Rightarrow> Inr \<lparr>cl_tenant = t, cl_identity = None\<rparr>)"

definition authenticateToken :: "(string \<Rightarrow> verify_error + identity) \<Rightarrow> database \<Rightarrow> string \<Rightarrow> server_error + caller" where
  "authenticateToken verify db token =
     (case verify token of
        Inl (OffAllowlist host) \<Rightarrow> Inl (offTheList host)
      | Inl (NotVerified _) \<Rightarrow> Inl invalidToken
      | Inr i \<Rightarrow>
          (case TenantForOwner db (id_Host i) (id_Owner i) of
             Inl NotFound \<Rightarrow> Inl (Refused 403 codeNoTenant ''No tenant holds this repository's owner.'')
           | Inl _ \<Rightarrow> Inl (Internal ''store'')
           | Inr t \<Rightarrow> Inr \<lparr>cl_tenant = t, cl_identity = Some i\<rparr>))"

text \<open>The header's scheme is compared without regard to case; the key is told by its prefix.\<close>

definition authenticate :: "(string \<Rightarrow> string) \<Rightarrow> (string \<Rightarrow> verify_error + identity) \<Rightarrow> database \<Rightarrow> string \<Rightarrow> server_error + caller" where
  "authenticate sha256 verify db authorization =
     (let (scheme, token, found) = cut_str authorization '' ''
      in if \<not> found \<or> to_lower scheme \<noteq> ''bearer'' \<or> token = [] then Inl invalidToken
         else if prefix KeyPrefix token then authenticateKey sha256 db token
         else authenticateToken verify db token)"

text \<open>\<open>pseudonym\<close>: the address under a key of the tenant's own.\<close>

abbreviation pseudonymInfo :: string where "pseudonymInfo \<equiv> ''costroid user pseudonym v1''"

definition pseudonym :: "(string \<Rightarrow> string \<Rightarrow> string \<Rightarrow> string) \<Rightarrow> (string \<Rightarrow> string \<Rightarrow> string) \<Rightarrow> string \<Rightarrow> string \<Rightarrow> string \<Rightarrow> string" where
  "pseudonym hkdf hmac master tenant email =
     ''hmac:'' @ hmac (hkdf master tenant pseudonymInfo) (to_lower (trim_space email))"

text \<open>A handler, run as the caller the header proves, over the tables of that caller's tenant.\<close>

definition serve_request :: "(string \<Rightarrow> string) \<Rightarrow> (string \<Rightarrow> verify_error + identity) \<Rightarrow> database \<Rightarrow> string \<Rightarrow>
    (ledger \<Rightarrow> caller \<Rightarrow> server_error + (ledger \<times> 'a)) \<Rightarrow> server_error + (database \<times> 'a)" where
  "serve_request sha256 verify db authorization handler =
     rbind (authenticate sha256 verify db authorization) (\<lambda>who.
       rmap (\<lambda>(l, x). (db\<lparr>db_tenants := (db_tenants db)(cl_tenant who \<mapsto> l)\<rparr>, x))
         (handler (tenant_tables db (cl_tenant who)) who))"

section \<open>Properties\<close>

lemma authenticateKey_eq:
  "authenticateKey sha256 db key = Inr who \<longleftrightarrow>
     (\<exists>t. db_keys db (sha256 key) = Some (t, False) \<and> uuidPattern t \<and> who = \<lparr>cl_tenant = t, cl_identity = None\<rparr>)"
  by (auto simp: authenticateKey_def TenantForKey_def KeyDigest_def resolveTenant_def ParseTenantID_def
      split: sum.splits store_error.splits option.splits if_splits prod.splits)

lemma authenticateToken_eq:
  "authenticateToken verify db token = Inr who \<longleftrightarrow>
     (\<exists>i t. verify token = Inr i \<and> db_owners db (ownerKey (id_Host i) (id_Owner i)) = Some t \<and> uuidPattern t \<and>
       who = \<lparr>cl_tenant = t, cl_identity = Some i\<rparr>)"
  by (auto simp: authenticateToken_def TenantForOwner_def resolveTenant_def ParseTenantID_def
      split: sum.splits store_error.splits verify_error.splits option.splits if_splits)


definition sample_tenant :: string where
  "sample_tenant = ''00000000-0000-4000-8000-000000000000''"

definition sample_database :: database where
  "sample_database =
     \<lparr>db_tenants = Map.empty, db_owners = [''github.com:acme'' \<mapsto> sample_tenant],
      db_keys = [''costroid_ik_x'' \<mapsto> (sample_tenant, False)]\<rparr>"

lemma sample_request_serves:
  "map_sum (\<lambda>_. ()) snd
     (serve_request id (\<lambda>_. Inl (NotVerified [])) sample_database ''bearer costroid_ik_x'' (\<lambda>l who. Inr (l, cl_tenant who))) =
   Inr sample_tenant"
  by code_simp


end
