(* ===== verification/Oidc.thy ===== *)
theory Oidc
  imports ServerAuth
begin

text \<open>
  \<open>internal/oidc\<close>: checking a CI token and reading the run it names. Base64, the JSON of the three segments and
  of a key set, SHA-256 with RSA and the HTTP exchange are parameters. What the code decides with them is the
  model: which tokens it accepts, which keys it uses and when it asks the issuer for a new set.
\<close>

section \<open>Issuers\<close>

datatype issuer_kind = GitHubActions | GitLabCI | OtherKind

record issuer =
  is_Kind :: issuer_kind
  is_URL :: string
  is_JWKSURL :: string
  is_Host :: string

definition GitHub_issuer :: issuer where
  "GitHub_issuer =
     \<lparr>is_Kind = GitHubActions, is_URL = ''https://token.actions.githubusercontent.com'',
      is_JWKSURL = ''https://token.actions.githubusercontent.com/.well-known/jwks'', is_Host = ''github.com''\<rparr>"

definition GitLab_issuer :: "string \<Rightarrow> issuer" where
  "GitLab_issuer host =
     \<lparr>is_Kind = GitLabCI, is_URL = ''https://'' @ host, is_JWKSURL = ''https://'' @ host @ ''/oauth/discovery/keys'',
      is_Host = host\<rparr>"

datatype oidc_error =
    Malformed
  | AlgorithmRefused string
  | UnknownIssuer string
  | KeyUnavailable
  | BadSignature
  | WrongAudience
  | TokenExpired
  | NotYetValid
  | BadClaims

section \<open>The keys of an issuer\<close>

abbreviation keySetLifetime :: int where "keySetLifetime \<equiv> 3600 * second_ns"

abbreviation refetchInterval :: int where "refetchInterval \<equiv> 60 * second_ns"

record rsa_key =
  rk_N :: nat
  rk_E :: nat

text \<open>\<open>big.Int.SetBytes\<close>.\<close>

definition big_endian :: "string \<Rightarrow> nat" where
  "big_endian s = foldl (\<lambda>n c. 256 * n + of_char c) 0 s"

definition rsaKey :: "(string \<Rightarrow> string option) \<Rightarrow> string \<Rightarrow> string \<Rightarrow> rsa_key option" where
  "rsaKey base64url modulus exponent =
     (case (base64url modulus, base64url exponent) of
        (Some n, Some e) \<Rightarrow>
          if big_endian n < 2 ^ 2047 then None
          else if big_endian e < 3 \<or> 2 ^ 31 - 1 < big_endian e then None
          else Some \<lparr>rk_N = big_endian n, rk_E = big_endian e\<rparr>
      | _ \<Rightarrow> None)"

record key_entry =
  ke_Type :: string
  ke_ID :: string
  ke_Modulus :: string
  ke_Exponent :: string

text \<open>The keys of a decoded set: entries of another type are left out, and a bad RSA key refuses the whole set.\<close>

fun keys_of_set :: "(string \<Rightarrow> string option) \<Rightarrow> (string \<rightharpoonup> rsa_key) \<Rightarrow> key_entry list \<Rightarrow> (string \<rightharpoonup> rsa_key) option" where
  "keys_of_set base64url keys [] = Some keys"
| "keys_of_set base64url keys (e # es) =
     (if ke_Type e \<noteq> ''RSA'' \<or> ke_ID e = [] then keys_of_set base64url keys es
      else case rsaKey base64url (ke_Modulus e) (ke_Exponent e) of
        None \<Rightarrow> None
      | Some k \<Rightarrow> keys_of_set base64url (keys(ke_ID e \<mapsto> k)) es)"

text \<open>The issuer's answer: no answer, or a status with the decoded key set where it decodes.\<close>

type_synonym jwks_answer = "(int \<times> key_entry list option) option"

definition fetch_keys :: "(string \<Rightarrow> string option) \<Rightarrow> jwks_answer \<Rightarrow> (string \<rightharpoonup> rsa_key) option" where
  "fetch_keys base64url answer =
     (case answer of
        None \<Rightarrow> None
      | Some (status, body) \<Rightarrow>
          if status \<noteq> 200 then None
          else (case body of None \<Rightarrow> None | Some entries \<Rightarrow> keys_of_set base64url Map.empty entries))"

record issuer_keys =
  ik_keys :: "string \<rightharpoonup> rsa_key"
  ik_fetched :: instant

definition no_keys :: issuer_keys where
  "no_keys = \<lparr>ik_keys = Map.empty, ik_fetched = zero_time\<rparr>"

text \<open>
  One request for a key at \<open>now\<close>; a fetch, where it makes one, is answered \<open>answer\<close> and ends at \<open>later\<close>. The
  middle component says whether the issuer was asked.
\<close>

definition issuer_key ::
    "(string \<Rightarrow> string option) \<Rightarrow> instant \<Rightarrow> instant \<Rightarrow> jwks_answer \<Rightarrow> issuer_keys \<Rightarrow> string \<Rightarrow>
     issuer_keys \<times> bool \<times> (oidc_error + rsa_key)" where
  "issuer_key base64url now later answer i kid =
     (let known = ik_keys i kid; age = now - ik_fetched i
      in if known \<noteq> None \<and> age < keySetLifetime then (i, False, Inr (the known))
         else if ik_fetched i \<noteq> zero_time \<and> age < refetchInterval then (i, False, Inl KeyUnavailable)
         else case fetch_keys base64url answer of
           None \<Rightarrow> (i, True, case known of Some k \<Rightarrow> Inr k | None \<Rightarrow> Inl KeyUnavailable)
         | Some keys \<Rightarrow>
             (i\<lparr>ik_keys := keys, ik_fetched := later\<rparr>, True,
              case keys kid of None \<Rightarrow> Inl KeyUnavailable | Some k \<Rightarrow> Inr k))"

section \<open>The token\<close>

definition maxTokenBytes :: nat where
  "maxTokenBytes = 16384"

abbreviation clockSkew :: int where "clockSkew \<equiv> 60 * second_ns"

definition split_token :: "string \<Rightarrow> oidc_error + (string \<times> string \<times> string)" where
  "split_token token =
     (if maxTokenBytes < length token then Inl Malformed
      else case split_at token (CHR ''.'') of [h, p, s] \<Rightarrow> Inr (h, p, s) | _ \<Rightarrow> Inl Malformed)"

definition decodeSegment :: "(string \<Rightarrow> string option) \<Rightarrow> (string \<Rightarrow> 'a option) \<Rightarrow> string \<Rightarrow> oidc_error + 'a" where
  "decodeSegment base64url decode segment =
     (case base64url segment of
        None \<Rightarrow> Inl Malformed
      | Some bytes \<Rightarrow> (case decode bytes of None \<Rightarrow> Inl Malformed | Some x \<Rightarrow> Inr x))"

record token_header =
  th_Algorithm :: string
  th_KeyID :: string

text \<open>A NumericDate's text: the part before a point.\<close>

definition numericDate :: "string \<Rightarrow> int option" where
  "numericDate s = parse_int64 (fst (cut_str s ''.''))"

text \<open>
  The registered claims as JSON has them: \<open>rc_Audience\<close> holds one string or a list of strings, and the two dates
  their numbers' text.
\<close>

datatype audience_claim = AudOne string | AudMany "string list"

record registered_json =
  rc_Issuer :: string
  rc_Audience :: audience_claim
  rc_Expires :: "string option"
  rc_NotBefore :: "string option"

record registered =
  rg_Issuer :: string
  rg_Audience :: "string list"
  rg_Expires :: "int option"
  rg_NotBefore :: "int option"

definition date_claim :: "string option \<Rightarrow> int option option" where
  "date_claim d = (case d of None \<Rightarrow> Some None | Some s \<Rightarrow> (case numericDate s of None \<Rightarrow> None | Some n \<Rightarrow> Some (Some n)))"

definition audience :: "audience_claim \<Rightarrow> string list" where
  "audience a = (case a of AudOne s \<Rightarrow> [s] | AudMany ss \<Rightarrow> ss)"

definition read_registered :: "registered_json \<Rightarrow> registered option" where
  "read_registered r =
     (case (date_claim (rc_Expires r), date_claim (rc_NotBefore r)) of
        (Some e, Some n) \<Rightarrow>
          Some \<lparr>rg_Issuer = rc_Issuer r, rg_Audience = audience (rc_Audience r), rg_Expires = e, rg_NotBefore = n\<rparr>
      | _ \<Rightarrow> None)"

text \<open>\<open>time.Unix(sec, 0)\<close>, whose seconds since year 1 are an \<open>int64\<close>.\<close>

definition unix_time :: "int \<Rightarrow> instant" where
  "unix_time sec = (wrap64 (sec + 62135596800) - 62135596800) * second_ns"

definition checkRegistered :: "string \<Rightarrow> instant \<Rightarrow> registered \<Rightarrow> oidc_error option" where
  "checkRegistered expected now r =
     (if expected \<notin> set (rg_Audience r) then Some WrongAudience
      else case rg_Expires r of
        None \<Rightarrow> Some TokenExpired
      | Some e \<Rightarrow>
          if \<not> now - clockSkew < unix_time e then Some TokenExpired
          else (case rg_NotBefore r of
                  None \<Rightarrow> None
                | Some n \<Rightarrow> if now + clockSkew < unix_time n then Some NotYetValid else None))"

section \<open>The identity\<close>

text \<open>\<open>^[A-Za-z0-9._~%-]+(/[A-Za-z0-9._~%-]+){1,7}$\<close>.\<close>

definition repo_char :: "char \<Rightarrow> bool" where
  "repo_char c \<longleftrightarrow> is_alnum c \<or> c \<in> {CHR ''.'', CHR ''_'', CHR ''~'', CHR ''%'', CHR ''-''}"

definition repoPath :: "string \<Rightarrow> bool" where
  "repoPath s =
     (let parts = split_at s (CHR ''/'')
      in 2 \<le> length parts \<and> length parts \<le> 8 \<and> list_all (\<lambda>p. p \<noteq> [] \<and> list_all repo_char p) parts)"

definition oidc_hostName :: "string \<Rightarrow> bool" where
  "oidc_hostName s \<longleftrightarrow> s \<noteq> [] \<and> list_all (\<lambda>c. is_alnum c \<or> c = CHR ''.'' \<or> c = CHR ''-'') s"

text \<open>\<open>^refs/pull/([1-9][0-9]{0,19})/merge$\<close>, and the number it captures.\<close>

definition githubPull :: "string \<Rightarrow> string option" where
  "githubPull ref =
     (let (rest, pull) = cut_prefix ref ''refs/pull/''; (number, merge) = cut_suffix rest ''/merge''
      in if pull \<and> merge \<and> pullRequestPattern number then Some number else None)"

record github_claims =
  gc_Repository :: string
  gc_RunID :: string
  gc_RunAttempt :: string
  gc_SHA :: string
  gc_Actor :: string
  gc_EventName :: string
  gc_Ref :: string
  gc_Environment :: string

record gitlab_claims =
  lc_ProjectPath :: string
  lc_PipelineID :: string
  lc_SHA :: string
  lc_UserLogin :: string
  lc_PipelineSource :: string

text \<open>The identity before its checks, and the path of its repository.\<close>

definition claimed_identity ::
    "(string \<Rightarrow> string option) \<Rightarrow> (string \<Rightarrow> github_claims option) \<Rightarrow> (string \<Rightarrow> gitlab_claims option) \<Rightarrow>
     issuer \<Rightarrow> string \<Rightarrow> oidc_error + (string \<times> identity)" where
  "claimed_identity base64url decode_github decode_gitlab iss payload =
     (let blank = \<lparr>id_Host = to_lower (is_Host iss), id_Owner = [], id_Repository = [], id_RunID = [], id_RunAttempt = [],
            id_CommitSHA = [], id_CommitIsHead = False, id_Actor = [], id_Event = [], id_PullRequest = [], id_Environment = []\<rparr>
      in case is_Kind iss of
           GitHubActions \<Rightarrow>
             rmap (\<lambda>c. (gc_Repository c,
                blank\<lparr>id_RunID := gc_RunID c, id_RunAttempt := gc_RunAttempt c, id_CommitSHA := gc_SHA c,
                  id_Actor := gc_Actor c, id_Event := gc_EventName c, id_Environment := gc_Environment c,
                  id_PullRequest := (case githubPull (gc_Ref c) of None \<Rightarrow> [] | Some n \<Rightarrow> n)\<rparr>))
               (decodeSegment base64url decode_github payload)
         | GitLabCI \<Rightarrow>
             rmap (\<lambda>c. (lc_ProjectPath c,
                blank\<lparr>id_RunID := lc_PipelineID c, id_CommitSHA := lc_SHA c, id_Actor := lc_UserLogin c,
                  id_Event := lc_PipelineSource c\<rparr>))
               (decodeSegment base64url decode_gitlab payload)
         | OtherKind \<Rightarrow> Inl (UnknownIssuer []))"

definition attempt_number :: "string \<Rightarrow> bool" where
  "attempt_number s \<longleftrightarrow> s \<noteq> [] \<and> list_all is_digit s \<and> digits_val s < 2 ^ 32"

definition readIdentity ::
    "(string \<Rightarrow> string option) \<Rightarrow> (string \<Rightarrow> github_claims option) \<Rightarrow> (string \<Rightarrow> gitlab_claims option) \<Rightarrow>
     issuer \<Rightarrow> string \<Rightarrow> oidc_error + identity" where
  "readIdentity base64url decode_github decode_gitlab iss payload =
     rbind (claimed_identity base64url decode_github decode_gitlab iss payload) (\<lambda>(path, i).
       let path = to_lower path
       in if \<not> repoPath path \<or> \<not> oidc_hostName (id_Host i) then Inl BadClaims
          else if \<not> runPattern (id_RunID i) then Inl BadClaims
          else if \<not> commitPattern (id_CommitSHA i) then Inl BadClaims
          else if id_RunAttempt i \<noteq> [] \<and> \<not> attempt_number (id_RunAttempt i) then Inl BadClaims
          else Inr (i\<lparr>id_Repository := id_Host i @ ''/'' @ path, id_CommitIsHead := (id_Event i = ''push''),
                      id_Owner := fst (cut_str path ''/'')\<rparr>))"

section \<open>The verifier\<close>

text \<open>
  \<open>signed key text signature\<close> is RSASSA-PKCS1-v1_5 over the text's SHA-256. The issuers are those the verifier was
  built with, under their URL, each with its keys.
\<close>

type_synonym verifier = "string \<rightharpoonup> issuer \<times> issuer_keys"

definition NewVerifier :: "issuer list \<Rightarrow> verifier" where
  "NewVerifier issuers = foldl (\<lambda>v i. v(is_URL i \<mapsto> (i, no_keys))) Map.empty issuers"

record token_codec =
  tc_base64url :: "string \<Rightarrow> string option"
  tc_header :: "string \<Rightarrow> token_header option"
  tc_registered :: "string \<Rightarrow> registered_json option"
  tc_github :: "string \<Rightarrow> github_claims option"
  tc_gitlab :: "string \<Rightarrow> gitlab_claims option"
  tc_signed :: "rsa_key \<Rightarrow> string \<Rightarrow> string \<Rightarrow> bool"

definition checkSignature :: "token_codec \<Rightarrow> rsa_key \<Rightarrow> string \<Rightarrow> string \<Rightarrow> string \<Rightarrow> oidc_error option" where
  "checkSignature c key h p s =
     (case tc_base64url c s of
        None \<Rightarrow> Some Malformed
      | Some signature \<Rightarrow> if tc_signed c key (h @ ''.'' @ p) signature then None else Some BadSignature)"

definition VerifyToken ::
    "token_codec \<Rightarrow> string \<Rightarrow> instant \<Rightarrow> instant \<Rightarrow> jwks_answer \<Rightarrow> verifier \<Rightarrow> string \<Rightarrow> verifier \<times> (oidc_error + identity)" where
  "VerifyToken c expected now later answer v token =
     (case split_token token of
        Inl e \<Rightarrow> (v, Inl e)
      | Inr (h, p, s) \<Rightarrow>
     (case decodeSegment (tc_base64url c) (tc_header c) h of
        Inl e \<Rightarrow> (v, Inl e)
      | Inr head \<Rightarrow>
          if th_Algorithm head \<noteq> ''RS256'' then (v, Inl (AlgorithmRefused (th_Algorithm head)))
          else
     (case decodeSegment (tc_base64url c) (\<lambda>b. Option.bind (tc_registered c b) read_registered) p of
        Inl e \<Rightarrow> (v, Inl e)
      | Inr claims \<Rightarrow>
     (case v (rg_Issuer claims) of
        None \<Rightarrow> (v, Inl (UnknownIssuer (rg_Issuer claims)))
      | Some (iss, keys) \<Rightarrow>
     (case issuer_key (tc_base64url c) now later answer keys (th_KeyID head) of
        (keys, _, Inl e) \<Rightarrow> (v(rg_Issuer claims \<mapsto> (iss, keys)), Inl e)
      | (keys, _, Inr key) \<Rightarrow>
          (v(rg_Issuer claims \<mapsto> (iss, keys)),
           case checkSignature c key h p s of
             Some e \<Rightarrow> Inl e
           | None \<Rightarrow>
               (case checkRegistered expected later claims of
                  Some e \<Rightarrow> Inl e
                | None \<Rightarrow> readIdentity (tc_base64url c) (tc_github c) (tc_gitlab c) iss p)))))))"

section \<open>Which keys are used\<close>

lemma rsaKey_bits:
  "rsaKey base64url m e = Some k \<Longrightarrow> 2 ^ 2047 \<le> rk_N k \<and> 3 \<le> rk_E k \<and> rk_E k \<le> 2147483647"
  by (auto simp: rsaKey_def split: option.splits if_splits)

definition strong_keys :: "(string \<rightharpoonup> rsa_key) \<Rightarrow> bool" where
  "strong_keys keys \<longleftrightarrow>
     (\<forall>kid k. keys kid = Some k \<longrightarrow> 2 ^ 2047 \<le> rk_N k \<and> 3 \<le> rk_E k \<and> rk_E k \<le> 2147483647)"

lemma keys_of_set_strong:
  "keys_of_set base64url keys es = Some keys' \<Longrightarrow> strong_keys keys \<Longrightarrow> strong_keys keys'"
proof (induction base64url keys es rule: keys_of_set.induct)
  case (2 base64url keys e es)
  show ?case
  proof (cases "ke_Type e \<noteq> ''RSA'' \<or> ke_ID e = []")
    case True
    then show ?thesis using 2 by simp
  next
    case False
    then obtain k where k: "rsaKey base64url (ke_Modulus e) (ke_Exponent e) = Some k"
      "keys_of_set base64url (keys(ke_ID e \<mapsto> k)) es = Some keys'"
      using 2(3) by (auto split: option.splits)
    have "strong_keys (keys(ke_ID e \<mapsto> k))"
      using 2(4) rsaKey_bits [OF k(1)] by (auto simp: strong_keys_def)
    then show ?thesis using 2(2) [OF False k(1) k(2)] by blast
  qed
qed simp

lemma fetch_keys_strong: "fetch_keys base64url answer = Some keys \<Longrightarrow> strong_keys keys"
proof -
  assume "fetch_keys base64url answer = Some keys"
  then obtain es where "keys_of_set base64url Map.empty es = Some keys"
    by (auto simp: fetch_keys_def split: option.splits if_splits)
  then show ?thesis by (rule keys_of_set_strong) (simp add: strong_keys_def)
qed

lemma issuer_key_cases:
  assumes "issuer_key base64url now later answer i kid = (i', asked, r)"
  obtains (held) k where "i' = i" "\<not> asked" "r = Inr k" "ik_keys i kid = Some k" "now - ik_fetched i < keySetLifetime"
    | (soon) "i' = i" "\<not> asked" "r = Inl KeyUnavailable" "ik_fetched i \<noteq> zero_time" "now - ik_fetched i < refetchInterval"
    | (failed) "i' = i" "asked" "fetch_keys base64url answer = None"
        "r = (case ik_keys i kid of Some k \<Rightarrow> Inr k | None \<Rightarrow> Inl KeyUnavailable)"
        "ik_fetched i = zero_time \<or> refetchInterval \<le> now - ik_fetched i"
    | (fetched) keys where "i' = i\<lparr>ik_keys := keys, ik_fetched := later\<rparr>" "asked" "fetch_keys base64url answer = Some keys"
        "r = (case keys kid of Some k \<Rightarrow> Inr k | None \<Rightarrow> Inl KeyUnavailable)"
        "ik_fetched i = zero_time \<or> refetchInterval \<le> now - ik_fetched i"
  using assms unfolding issuer_key_def Let_def
  by (auto split: if_splits option.splits)

text \<open>An issuer's keys in use: requests at instants that never step back, whatever the issuer answers.\<close>

inductive keys_run :: "issuer_keys \<Rightarrow> instant \<Rightarrow> instant list \<Rightarrow> bool" where
  new: "zero_time < t \<Longrightarrow> keys_run no_keys t []"
| request: "keys_run i t fetches \<Longrightarrow> t \<le> now \<Longrightarrow> now \<le> later \<Longrightarrow>
    issuer_key base64url now later answer i kid = (i', asked, r) \<Longrightarrow>
    keys_run i' later (if asked \<and> fetch_keys base64url answer \<noteq> None then fetches @ [later] else fetches)"

text \<open>Each set came at least a minute after the one before it.\<close>

definition spaced :: "instant list \<Rightarrow> bool" where
  "spaced fetches \<longleftrightarrow> (\<forall>j. Suc j < length fetches \<longrightarrow> fetches ! j + refetchInterval \<le> fetches ! Suc j)"

definition keys_ok :: "issuer_keys \<Rightarrow> instant \<Rightarrow> instant list \<Rightarrow> bool" where
  "keys_ok i t fetches \<longleftrightarrow> zero_time < t \<and> strong_keys (ik_keys i) \<and> spaced fetches \<and>
     (if fetches = [] then i = no_keys else ik_fetched i = last fetches \<and> zero_time < last fetches)"

lemma spaced_snoc:
  assumes "spaced fetches" "fetches \<noteq> [] \<Longrightarrow> last fetches + refetchInterval \<le> t"
  shows "spaced (fetches @ [t])"
  unfolding spaced_def
proof (intro allI impI)
  fix j assume j: "Suc j < length (fetches @ [t])"
  show "(fetches @ [t]) ! j + refetchInterval \<le> (fetches @ [t]) ! Suc j"
  proof (cases "Suc j = length fetches")
    case True
    then have "fetches \<noteq> []" "j = length fetches - 1" by auto
    then have "fetches \<noteq> []" "fetches ! j = last fetches" by (simp_all add: last_conv_nth)
    then show ?thesis using True assms(2) by (simp add: nth_append)
  next
    case False
    then show ?thesis using j assms(1) by (simp add: nth_append spaced_def)
  qed
qed

lemma keys_run_ok: "keys_run i t fetches \<Longrightarrow> keys_ok i t fetches"
proof (induction rule: keys_run.induct)
  case (new t)
  then show ?case by (simp add: keys_ok_def no_keys_def strong_keys_def spaced_def)
next
  case (request i t fetches now later base64url answer kid i' asked r)
  have ok: "zero_time < t" "strong_keys (ik_keys i)" "spaced fetches"
    "if fetches = [] then i = no_keys else ik_fetched i = last fetches \<and> zero_time < last fetches"
    using request.IH by (auto simp: keys_ok_def)
  show ?case
    using request(4)
  proof (cases rule: issuer_key_cases)
    case (fetched keys)
    have "fetches \<noteq> [] \<Longrightarrow> last fetches + refetchInterval \<le> later" using fetched(5) ok(4) request(3) by (auto split: if_splits)
    then have "spaced (fetches @ [later])" using ok(3) by (rule spaced_snoc [rotated])
    then show ?thesis using fetched ok(1) request(2,3) fetch_keys_strong by (auto simp: keys_ok_def)
  qed (use ok request(2,3) in \<open>auto simp: keys_ok_def\<close>)
qed

text \<open>
  C21. In any run the key sets an issuer answers are read at least a minute apart, every key held has at least
  2,048 bits and a public exponent from 3 to 2147483647, and a key is used only from a set less than an hour
  old, or past that hour where the issuer was just asked and gave no set. The minute does not hold back a fetch
  that fails: while the issuer answers no set, every request for a key asks it again.
\<close>

theorem key_sets_are_spaced:
  assumes "keys_run i t fetches"
  shows "spaced fetches \<and> strong_keys (ik_keys i) \<and>
    (case issuer_key base64url now later answer i kid of
       (i', asked, r) \<Rightarrow>
         (asked \<and> fetches \<noteq> [] \<longrightarrow> last fetches + refetchInterval \<le> now) \<and>
         (\<forall>k. r = Inr k \<longrightarrow>
            ik_keys i' kid = Some k \<and> (now - ik_fetched i' < keySetLifetime \<or> asked) \<and>
            (asked \<longrightarrow> ik_fetched i' = later \<or> fetch_keys base64url answer = None))) \<and>
    (fetch_keys base64url answer = None \<longrightarrow>
       issuer_key base64url now later answer no_keys kid = (no_keys, True, Inl KeyUnavailable))"
proof (intro conjI)
  have ok: "spaced fetches" "strong_keys (ik_keys i)"
    "if fetches = [] then i = no_keys else ik_fetched i = last fetches \<and> zero_time < last fetches"
    using keys_run_ok [OF assms] by (auto simp: keys_ok_def)
  show "spaced fetches" "strong_keys (ik_keys i)" by (rule ok)+
  obtain i' asked r where step: "issuer_key base64url now later answer i kid = (i', asked, r)" by (metis prod_cases3)
  have "(asked \<and> fetches \<noteq> [] \<longrightarrow> last fetches + refetchInterval \<le> now) \<and>
      (\<forall>k. r = Inr k \<longrightarrow>
         ik_keys i' kid = Some k \<and> (now - ik_fetched i' < keySetLifetime \<or> asked) \<and>
         (asked \<longrightarrow> ik_fetched i' = later \<or> fetch_keys base64url answer = None))"
    using step
  proof (cases rule: issuer_key_cases)
    case failed
    then show ?thesis using ok(3) by (auto split: option.splits if_splits)
  next
    case (fetched keys)
    then show ?thesis using ok(3) by (auto split: option.splits if_splits)
  qed auto
  then show "case issuer_key base64url now later answer i kid of
       (i', asked, r) \<Rightarrow>
         (asked \<and> fetches \<noteq> [] \<longrightarrow> last fetches + refetchInterval \<le> now) \<and>
         (\<forall>k. r = Inr k \<longrightarrow>
            ik_keys i' kid = Some k \<and> (now - ik_fetched i' < keySetLifetime \<or> asked) \<and>
            (asked \<longrightarrow> ik_fetched i' = later \<or> fetch_keys base64url answer = None))"
    using step by simp
  show "fetch_keys base64url answer = None \<longrightarrow>
       issuer_key base64url now later answer no_keys kid = (no_keys, True, Inl KeyUnavailable)"
    by (simp add: issuer_key_def no_keys_def)
qed

theorem key_sets_are_spaced_witness:
  "keys_run no_keys 5 [] \<and> issuer_key Some 6 7 None no_keys ''k'' = (no_keys, True, Inl KeyUnavailable)"
proof -
  have run: "keys_run no_keys 5 []" by (rule keys_run.new) (simp add: zero_time_def second_ns_def)
  have "fetch_keys Some None = None" by (simp add: fetch_keys_def)
  then show ?thesis using key_sets_are_spaced [OF run, where base64url = Some and now = 6 and later = 7 and answer = None and kid = "''k''"] run
    by blast
qed

section \<open>Which tokens are accepted\<close>

definition identity_checked :: "issuer \<Rightarrow> identity \<Rightarrow> bool" where
  "identity_checked iss i \<longleftrightarrow>
     id_Host i = to_lower (is_Host iss) \<and> oidc_hostName (id_Host i) \<and>
     (\<exists>path. repoPath path \<and> id_Repository i = id_Host i @ ''/'' @ path \<and> id_Owner i = fst (cut_str path ''/'')) \<and>
     runPattern (id_RunID i) \<and> commitPattern (id_CommitSHA i) \<and>
     (id_RunAttempt i = [] \<or> attempt_number (id_RunAttempt i)) \<and>
     (id_CommitIsHead i \<longleftrightarrow> id_Event i = ''push'') \<and>
     (id_PullRequest i = [] \<or> is_Kind iss = GitHubActions \<and> pullRequestPattern (id_PullRequest i))"

lemma readIdentity_checked:
  assumes "readIdentity b gh gl iss payload = Inr i"
  shows "identity_checked iss i"
proof -
  obtain path c where c: "claimed_identity b gh gl iss payload = Inr (path, c)"
    and i: "repoPath (to_lower path)" "oidc_hostName (id_Host c)" "runPattern (id_RunID c)" "commitPattern (id_CommitSHA c)"
      "id_RunAttempt c = [] \<or> attempt_number (id_RunAttempt c)"
      "i = c\<lparr>id_Repository := id_Host c @ ''/'' @ to_lower path, id_CommitIsHead := (id_Event c = ''push''),
             id_Owner := fst (cut_str (to_lower path) ''/'')\<rparr>"
    using assms by (auto simp: readIdentity_def result_eqs Let_def split: if_splits)
  have pull: "githubPull t = Some n \<Longrightarrow> pullRequestPattern n" for t n
    by (auto simp: githubPull_def Let_def split: prod.splits if_splits)
  have host: "id_Host c = to_lower (is_Host iss)"
    and pr: "id_PullRequest c = [] \<or> is_Kind iss = GitHubActions \<and> pullRequestPattern (id_PullRequest c)"
    using c pull by (auto simp: claimed_identity_def Let_def result_eqs split: issuer_kind.splits option.splits)
  show ?thesis unfolding identity_checked_def using i host pr by auto
qed

text \<open>
  C20. A token is accepted only where it has three segments in at most 16,384 bytes, names RS256 and an issuer the
  verifier was built with, its signature over the first two segments verifies under the key its header names, a
  key the verifier holds for that issuer after the call, its audience holds the deployment's, it expires after
  now less a minute and is valid by now plus a minute. The run it states is then checked: a repository path on
  the issuer's own host, its owner the path's first part, a commit, a run, an attempt of 32 bits, and a pull
  request only from GitHub's merge ref. Other issuers' keys are never touched.
\<close>

theorem only_signed_tokens_verify:
  assumes "VerifyToken c expected now later answer v token = (v', Inr i)"
  shows "\<exists>h p s head claims iss keys keys' key signature e.
    split_at token (CHR ''.'') = [h, p, s] \<and> length token \<le> 16384 \<and>
    decodeSegment (tc_base64url c) (tc_header c) h = Inr head \<and> th_Algorithm head = ''RS256'' \<and>
    decodeSegment (tc_base64url c) (\<lambda>b. Option.bind (tc_registered c b) read_registered) p = Inr claims \<and>
    v (rg_Issuer claims) = Some (iss, keys) \<and> v' = v(rg_Issuer claims \<mapsto> (iss, keys')) \<and>
    ik_keys keys' (th_KeyID head) = Some key \<and>
    tc_base64url c s = Some signature \<and> tc_signed c key (h @ ''.'' @ p) signature \<and>
    expected \<in> set (rg_Audience claims) \<and> rg_Expires claims = Some e \<and> later - clockSkew < unix_time e \<and>
    (\<forall>n. rg_NotBefore claims = Some n \<longrightarrow> unix_time n \<le> later + clockSkew) \<and> identity_checked iss i"
proof -
  obtain h p s where split: "split_token token = Inr (h, p, s)"
    using assms by (auto simp: VerifyToken_def split: sum.splits)
  obtain head where head: "decodeSegment (tc_base64url c) (tc_header c) h = Inr head" "th_Algorithm head = ''RS256''"
    using assms split by (auto simp: VerifyToken_def split: sum.splits if_splits)
  obtain claims where claims: "decodeSegment (tc_base64url c) (\<lambda>b. Option.bind (tc_registered c b) read_registered) p = Inr claims"
    using assms split head by (auto simp: VerifyToken_def split: sum.splits)
  obtain iss keys where iss: "v (rg_Issuer claims) = Some (iss, keys)"
    using assms split head claims by (auto simp: VerifyToken_def split: option.splits)
  obtain keys' asked r where step: "issuer_key (tc_base64url c) now later answer keys (th_KeyID head) = (keys', asked, r)"
    by (metis prod_cases3)
  have run: "(case r of Inl e \<Rightarrow> (v(rg_Issuer claims \<mapsto> (iss, keys')), Inl e)
      | Inr key \<Rightarrow> (v(rg_Issuer claims \<mapsto> (iss, keys')),
           case checkSignature c key h p s of
             Some e \<Rightarrow> Inl e
           | None \<Rightarrow> (case checkRegistered expected later claims of
                Some e \<Rightarrow> Inl e
              | None \<Rightarrow> readIdentity (tc_base64url c) (tc_github c) (tc_gitlab c) iss p))) = (v', Inr i)"
    using assms split head claims iss step by (simp add: VerifyToken_def split: sum.splits)
  then obtain key where key: "r = Inr key" "v' = v(rg_Issuer claims \<mapsto> (iss, keys'))" "checkSignature c key h p s = None"
    "checkRegistered expected later claims = None" "readIdentity (tc_base64url c) (tc_github c) (tc_gitlab c) iss p = Inr i"
    by (auto split: sum.splits option.splits)
  have held: "ik_keys keys' (th_KeyID head) = Some key"
    using step key(1) by (cases rule: issuer_key_cases) (auto split: option.splits)
  obtain signature where signed: "tc_base64url c s = Some signature" "tc_signed c key (h @ ''.'' @ p) signature"
    using key(3) by (auto simp: checkSignature_def split: option.splits if_splits)
  obtain e where times: "expected \<in> set (rg_Audience claims)" "rg_Expires claims = Some e" "later - clockSkew < unix_time e"
    "\<And>n. rg_NotBefore claims = Some n \<Longrightarrow> unix_time n \<le> later + clockSkew"
    using key(4) unfolding checkRegistered_def by (force split: if_splits option.splits)
  have "split_at token (CHR ''.'') = [h, p, s]" "length token \<le> 16384"
    using split by (auto simp: split_token_def maxTokenBytes_def split: if_splits list.splits)
  then show ?thesis
    using head claims iss key(2) held signed times readIdentity_checked [OF key(5)] by blast
qed

definition sample_codec :: token_codec where
  "sample_codec =
     \<lparr>tc_base64url = Some, tc_header = (\<lambda>b. Some \<lparr>th_Algorithm = ''RS256'', th_KeyID = ''k''\<rparr>),
      tc_registered = (\<lambda>b. Some \<lparr>rc_Issuer = is_URL GitHub_issuer, rc_Audience = AudOne ''aud'', rc_Expires = Some ''100.5'', rc_NotBefore = None\<rparr>),
      tc_github = (\<lambda>b. Some \<lparr>gc_Repository = ''Acme/Shop'', gc_RunID = ''7'', gc_RunAttempt = ''1'', gc_SHA = replicate 40 (CHR ''a''),
         gc_Actor = ''ada'', gc_EventName = ''pull_request'', gc_Ref = ''refs/pull/12/merge'', gc_Environment = []\<rparr>),
      tc_gitlab = (\<lambda>b. None), tc_signed = (\<lambda>k t s. t = ''h.p'' \<and> s = ''s'')\<rparr>"

definition sample_verifier :: verifier where
  "sample_verifier = [is_URL GitHub_issuer \<mapsto> (GitHub_issuer, \<lparr>ik_keys = [''k'' \<mapsto> \<lparr>rk_N = 1, rk_E = 3\<rparr>], ik_fetched = 0\<rparr>)]"

lemma sample_token_accepted:
  "\<exists>v' i. VerifyToken sample_codec ''aud'' 5 6 None sample_verifier ''h.p.s'' = (v', Inr i) \<and>
     id_Repository i = ''github.com/acme/shop'' \<and> id_PullRequest i = ''12''"
proof -
  have split: "split_token ''h.p.s'' = Inr (''h'', ''p'', ''s'')" by code_simp
  have dates: "date_claim (Some ''100.5'') = Some (Some 100)" by code_simp
  have claims: "checkRegistered ''aud'' 6 \<lparr>rg_Issuer = is_URL GitHub_issuer, rg_Audience = [''aud''], rg_Expires = Some 100, rg_NotBefore = None\<rparr> = None"
    by code_simp
  have read: "case readIdentity Some (tc_github sample_codec) (\<lambda>b. None) GitHub_issuer ''p'' of
      Inl _ \<Rightarrow> False | Inr i \<Rightarrow> id_Repository i = ''github.com/acme/shop'' \<and> id_PullRequest i = ''12''"
  proof -
    have lower: "to_lower ''Acme/Shop'' = ''acme/shop''" "to_lower ''github.com'' = ''github.com''" by code_simp+
    have pull: "githubPull ''refs/pull/12/merge'' = Some ''12''" by code_simp
    have formats: "repoPath ''acme/shop''" "oidc_hostName ''github.com''" "runPattern ''7''" "commitPattern (replicate 40 (CHR ''a''))"
      by code_simp+
    have attempt: "attempt_number ''1''" by (simp add: attempt_number_def is_digit_def digits_val_def digit_val_def)
    show ?thesis
      unfolding readIdentity_def claimed_identity_def decodeSegment_def sample_codec_def GitHub_issuer_def
      using formats attempt by (simp add: lower pull)
  qed
  then obtain i where i: "readIdentity Some (tc_github sample_codec) (\<lambda>b. None) GitHub_issuer ''p'' = Inr i"
    "id_Repository i = ''github.com/acme/shop''" "id_PullRequest i = ''12''"
    by (auto split: sum.splits)
  have none: "date_claim None = Some None" by (simp add: date_claim_def)
  let ?keys = "\<lparr>ik_keys = [''k'' \<mapsto> \<lparr>rk_N = 1, rk_E = 3\<rparr>], ik_fetched = 0\<rparr>"
  let ?claims = "\<lparr>rg_Issuer = is_URL GitHub_issuer, rg_Audience = [''aud''], rg_Expires = Some 100, rg_NotBefore = None\<rparr>"
  have head: "decodeSegment (tc_base64url sample_codec) (tc_header sample_codec) ''h'' = Inr \<lparr>th_Algorithm = ''RS256'', th_KeyID = ''k''\<rparr>"
    by (simp add: decodeSegment_def sample_codec_def)
  have reg: "decodeSegment (tc_base64url sample_codec) (\<lambda>b. Option.bind (tc_registered sample_codec b) read_registered) ''p'' = Inr ?claims"
    by (simp add: decodeSegment_def sample_codec_def read_registered_def dates none audience_def)
  have iss: "sample_verifier (rg_Issuer ?claims) = Some (GitHub_issuer, ?keys)" by (simp add: sample_verifier_def)
  have key: "issuer_key (tc_base64url sample_codec) 5 6 None ?keys ''k'' = (?keys, False, Inr \<lparr>rk_N = 1, rk_E = 3\<rparr>)"
    by (simp add: issuer_key_def second_ns_def)
  have sig: "checkSignature sample_codec k ''h'' ''p'' ''s'' = None" for k
    by (simp add: checkSignature_def sample_codec_def)
  have codec: "tc_base64url sample_codec = Some" "tc_gitlab sample_codec = (\<lambda>b. None)" by (simp_all add: sample_codec_def)
  have "\<exists>v'. VerifyToken sample_codec ''aud'' 5 6 None sample_verifier ''h.p.s'' = (v', Inr i)"
    unfolding VerifyToken_def split sum.case prod.case head token_header.select_convs reg iss option.case key sig claims
    using i(1) codec by simp
  then show ?thesis using i(2,3) by blast
qed

theorem only_signed_tokens_verify_witness:
  "\<exists>i. snd (VerifyToken sample_codec ''aud'' 5 6 None sample_verifier ''h.p.s'') = Inr i \<and>
     identity_checked GitHub_issuer i \<and> id_PullRequest i = ''12''"
proof -
  obtain v' i where run: "VerifyToken sample_codec ''aud'' 5 6 None sample_verifier ''h.p.s'' = (v', Inr i)" "id_PullRequest i = ''12''"
    using sample_token_accepted by blast
  have "\<exists>(claims :: registered) iss keys. sample_verifier (rg_Issuer claims) = Some (iss, keys) \<and> identity_checked iss i"
    using only_signed_tokens_verify [OF run(1)] by blast
  then have "identity_checked GitHub_issuer i" by (auto simp: sample_verifier_def split: if_splits)
  then show ?thesis using run by auto
qed

end
