(* ===== verification/ServerRows.thy ===== *)
theory ServerRows
  imports ServerJoin Otlp Fanout
begin

text \<open>
  \<open>internal/server/rows.go\<close>: reading the JSON lines \<open>costroid run\<close> sends. \<open>decode\<close> is \<open>encoding/json\<close>'s
  reading of a line into its columns (None when the line is no object), in the order the map yields
  them; a column's value is its JSON value. The lines are divided over the processors by
  \<open>fanout.Each\<close>, which the theory \<open>Fanout\<close> shows to be the sequential loop, so \<open>parseRows\<close> is a
  traversal; the workers' counters are added up in the end. White space is ASCII's.
\<close>

section \<open>Columns\<close>

definition ignoredColumns :: "string list" where
  "ignoredColumns =
     [''BillingAccountName'', ''BillingCurrency'', ''BillingPeriodEnd'', ''BillingPeriodStart'',
      ''ChargeCategory'', ''ChargeClass'', ''ChargeDescription'', ''ChargeFrequency'', ''ConsumedUnit'',
      ''HostProviderName'', ''InvoiceIssuerName'', ''PricingCategory'', ''PricingQuantity'', ''PricingUnit'',
      ''ServiceCategory'', ''ServiceName'', ''RegionName'', ''ServiceProviderName'', ''ServiceSubcategory'',
      ''SubAccountName'', ''x_CostroidCatalogVersion'']"

definition costColumns :: "string list" where
  "costColumns =
     [''BilledCost'', ''ContractedCost'', ''ContractedUnitPrice'', ''EffectiveCost'', ''ListCost'', ''ListUnitPrice'']"

definition readColumns :: "string list" where
  "readColumns =
     [''SkuId'', ''SkuPriceId'', ''SkuMeter'', ''ConsumedQuantity'', ''ChargePeriodStart'', ''ChargePeriodEnd'', ''Tags'',
      ''x_CostroidOvershootBound'', ''x_CostroidRowId'', ''RegionId'', ''x_CostroidServiceTier'', ''SubAccountId'',
      ''BillingAccountId'']"

type_synonym columns = "(string \<times> json) list"

definition count_left_behind :: "drop_counts \<Rightarrow> string \<Rightarrow> drop_counts" where
  "count_left_behind drops name =
     (if name \<in> set costColumns then drop_field drops DropClientCost
      else if name \<in> set ignoredColumns \<or> name \<in> set readColumns then drops
      else drop_field drops (DropLabel name))"

definition countLeftBehind :: "columns \<Rightarrow> drop_counts \<Rightarrow> drop_counts" where
  "countLeftBehind cols drops = foldl count_left_behind drops (map fst cols)"

definition invalidRow :: "nat \<Rightarrow> string \<Rightarrow> server_error" where
  "invalidRow line reason =
     Refused 422 codeInvalidRow (''Line '' @ nat_string line @ '': '' @ reason @ ''.'')"

definition field_text :: "columns \<Rightarrow> nat \<Rightarrow> string \<Rightarrow> server_error + string" where
  "field_text cols line column =
     (case map_of cols column of
        None \<Rightarrow> Inr []
      | Some JNull \<Rightarrow> Inr []
      | Some (JString s) \<Rightarrow> Inr s
      | Some _ \<Rightarrow> Inl (invalidRow line (column @ '' is not a string'')))"

definition matching_field :: "columns \<Rightarrow> nat \<Rightarrow> string \<Rightarrow> (string \<Rightarrow> bool) \<Rightarrow> server_error + string" where
  "matching_field cols line column pattern =
     rbind (field_text cols line column) (\<lambda>t.
       if pattern t then Inr t else Inl (invalidRow line (column @ '' is not valid'')))"

definition optional_field :: "columns \<Rightarrow> nat \<Rightarrow> string \<Rightarrow> (string \<Rightarrow> bool) \<Rightarrow> server_error + string" where
  "optional_field cols line column pattern =
     rbind (field_text cols line column) (\<lambda>t.
       if t = [] \<or> pattern t then Inr t else Inl (invalidRow line (column @ '' is not valid'')))"

definition maxTextColumn :: nat where
  "maxTextColumn = 512"

text \<open>\<open>utf8.RuneCountInString\<close> is the parameter \<open>runes\<close>.\<close>

definition limited_field :: "(string \<Rightarrow> nat) \<Rightarrow> columns \<Rightarrow> nat \<Rightarrow> string \<Rightarrow> server_error + string" where
  "limited_field runes cols line column =
     rbind (field_text cols line column) (\<lambda>t.
       if maxTextColumn < runes t then Inl (invalidRow line (column @ '' is past the contract's limit'')) else Inr t)"

section \<open>Usage facts\<close>

definition sku_part :: "char \<Rightarrow> bool" where
  "sku_part c \<longleftrightarrow> is_lower c \<or> is_digit c"

text \<open>
  \<open>^([a-z0-9-]+)/(.+)/([a-z0-9_]+)$\<close>: the provider has no slash, so it ends at the first; the class has
  none, so it starts after the last; the model is what is left, without a line feed.
\<close>

definition parse_sku :: "string \<Rightarrow> (string \<times> string \<times> string) option" where
  "parse_sku s =
     (case split_at s (CHR ''/'') of
        provider # rest \<Rightarrow>
          (if length rest < 2 then None
           else (let model = join (butlast rest) ''/''; class = last rest
                 in if provider \<noteq> [] \<and> list_all (\<lambda>c. sku_part c \<or> c = CHR ''-'') provider \<and>
                       model \<noteq> [] \<and> CHR 0x0A \<notin> set model \<and>
                       class \<noteq> [] \<and> list_all (\<lambda>c. sku_part c \<or> c = CHR ''_'') class
                    then Some (provider, model, class) else None))
      | [] \<Rightarrow> None)"

text \<open>\<open>^over-([0-9]{1,12})$\<close>.\<close>

definition over_tier :: "string \<Rightarrow> int option" where
  "over_tier s =
     (let (digits, found) = cut_prefix s ''over-''
      in if found \<and> of_class is_digit 1 12 digits then Some (int (digits_val digits)) else None)"

abbreviation TierStandard :: string where "TierStandard \<equiv> ''standard''"

definition tierOf :: "string \<Rightarrow> server_charge \<Rightarrow> string \<times> int" where
  "tierOf priceID c =
     (case split_at priceID (CHR '':'') of
        [provider, model, region, tier, context, class] \<Rightarrow>
          if provider = sc_provider c \<and> model = sc_model c \<and> class = sc_class c
          then (tier, case over_tier context of None \<Rightarrow> 0 | Some threshold \<Rightarrow> threshold + 1)
          else (TierStandard, 0)
      | _ \<Rightarrow> (TierStandard, 0))"

definition readSku :: "columns \<Rightarrow> nat \<Rightarrow> server_charge \<Rightarrow> server_error + server_charge" where
  "readSku cols line c =
     rbind (field_text cols line ''SkuId'') (\<lambda>sku.
       case parse_sku sku of
         None \<Rightarrow> Inl (invalidRow line ''SkuId is not provider/model/class'')
       | Some (provider, model, class) \<Rightarrow>
           (let c = c\<lparr>sc_provider := provider, sc_model := model, sc_class := class\<rparr>
            in rbind (field_text cols line ''SkuMeter'') (\<lambda>meter.
                 if meter \<noteq> class \<or> class \<notin> set classes
                 then Inl (invalidRow line ''SkuMeter is not a token class of this SkuId'')
                 else if \<not> modelTag model then Inl (invalidRow line ''the model is not valid'')
                 else rmap (\<lambda>priceID. let (tier, context) = tierOf priceID c
                                       in c\<lparr>sc_serviceTier := tier, sc_context := context\<rparr>)
                        (field_text cols line ''SkuPriceId''))))"

definition regionPattern :: "string \<Rightarrow> bool" where
  "regionPattern = of_class (\<lambda>c. sku_part c \<or> c = CHR ''-'') 1 64"

definition tierPattern :: "string \<Rightarrow> bool" where
  "tierPattern = of_class (\<lambda>c. sku_part c \<or> c = CHR ''_'' \<or> c = CHR ''-'') 1 64"

definition readRouting :: "(string \<Rightarrow> nat) \<Rightarrow> columns \<Rightarrow> nat \<Rightarrow> server_charge \<Rightarrow> server_error + server_charge" where
  "readRouting runes cols line c =
     rbind (optional_field cols line ''RegionId'' regionPattern) (\<lambda>region.
     rbind (optional_field cols line ''x_CostroidServiceTier'' tierPattern) (\<lambda>tier.
     rbind (limited_field runes cols line ''SubAccountId'') (\<lambda>credential.
     rbind (limited_field runes cols line ''BillingAccountId'') (\<lambda>account.
       Inr (c\<lparr>sc_region := region, sc_credential := credential, sc_account := account,
              sc_serviceTier := (if tier \<noteq> [] then tier else sc_serviceTier c)\<rparr>)))))"

definition readQuantity :: "columns \<Rightarrow> nat \<Rightarrow> server_charge \<Rightarrow> server_error + server_charge" where
  "readQuantity cols line c =
     rbind (field_text cols line ''ConsumedQuantity'') (\<lambda>t.
       case parse_int64 t of
         None \<Rightarrow> Inl (invalidRow line ''ConsumedQuantity is not a whole token count'')
       | Some n \<Rightarrow>
           if n < 0 \<or> MaxTokens < n then Inl (invalidRow line ''ConsumedQuantity is not a whole token count'')
           else Inr (c\<lparr>sc_tokens := n\<rparr>))"

text \<open>\<open>time.Parse\<close> with the layout \<open>2006-01-02T15:04:05Z\<close>, which also takes a fraction of a second.\<close>

definition parse_instant_layout :: "string \<Rightarrow> instant option" where
  "parse_instant_layout s =
     Option.bind (parse_date s) (\<lambda>(day, s).
     Option.bind (literal_char (CHR ''T'') s) (\<lambda>s.
     Option.bind (parse_clock s) (\<lambda>(clock, s).
     Option.bind (literal_char (CHR ''Z'') s) (\<lambda>s.
       if s = [] then Some (day + clock) else None))))"

definition read_instant :: "columns \<Rightarrow> nat \<Rightarrow> string \<Rightarrow> server_error + instant" where
  "read_instant cols line column =
     rbind (field_text cols line column) (\<lambda>t.
       case parse_instant_layout t of
         None \<Rightarrow> Inl (invalidRow line (column @ '' is not a UTC instant''))
       | Some i \<Rightarrow> Inr i)"

definition readPeriod :: "columns \<Rightarrow> nat \<Rightarrow> server_charge \<Rightarrow> server_error + server_charge" where
  "readPeriod cols line c =
     rbind (read_instant cols line ''ChargePeriodStart'') (\<lambda>start.
     rbind (read_instant cols line ''ChargePeriodEnd'') (\<lambda>stop.
       if \<not> start < stop then Inl (invalidRow line ''the charge period does not end after it starts'')
       else Inr (c\<lparr>sc_start := start, sc_end := stop\<rparr>)))"

section \<open>Tags\<close>

definition definedTags :: "string list" where
  "definedTags =
     [''costroid/repo'', ''costroid/pr'', ''costroid/commit_sha'', ''costroid/workflow_run_id'', ''costroid/session_id'',
      ''costroid/agent'', ''costroid/agent_version'', ''costroid/model'', ''costroid/cost_source'', ''costroid/cost_basis'',
      ''costroid/attribution_grade'', ''costroid/enforcement_grade'', ''costroid/run_identity'', ''costroid/assumed_ttl'']"

abbreviation dropInvalidTag :: string where "dropInvalidTag \<equiv> ''invalid_tag_value''"

text \<open>\<open>json.Unmarshal\<close> into a string: null leaves it empty.\<close>

definition json_text :: "json \<Rightarrow> string option" where
  "json_text v = (case v of JString s \<Rightarrow> Some s | JNull \<Rightarrow> Some [] | _ \<Rightarrow> None)"

definition userTag :: "string \<Rightarrow> json \<Rightarrow> server_charge \<times> drop_counts \<Rightarrow> server_charge \<times> drop_counts" where
  "userTag key v st =
     (let (c, drops) = st; drops = drop_field drops (DropLabel key)
      in if key \<noteq> ''user.email'' then (c, drops)
         else (case json_text v of None \<Rightarrow> (c, drops) | Some email \<Rightarrow> (c\<lparr>sc_email := email\<rparr>, drops)))"

text \<open>One tag: the charge and counters a user's tag leaves, and the tags read.\<close>

definition read_tag :: "nat \<Rightarrow> (server_charge \<times> drop_counts) \<times> (string \<rightharpoonup> string) \<Rightarrow> string \<times> json \<Rightarrow>
    server_error + ((server_charge \<times> drop_counts) \<times> (string \<rightharpoonup> string))" where
  "read_tag line st kv =
     (let (cd, read) = st; (key, v) = kv
      in if \<not> prefix ''costroid/'' key then Inr (userTag key v cd, read)
         else if key \<notin> set definedTags then Inl (invalidRow line ''a costroid/ tag this version does not define'')
         else (case json_text v of
                 None \<Rightarrow> Inl (invalidRow line ''a costroid/ tag is not a string'')
               | Some t \<Rightarrow> Inr (cd, read(key \<mapsto> t))))"

text \<open>\<open>^[a-z0-9]+([_-][a-z0-9]+)*$\<close>: words between separators.\<close>

definition sourcePattern :: "string \<Rightarrow> bool" where
  "sourcePattern s \<longleftrightarrow>
     list_all (\<lambda>w. w \<noteq> [] \<and> list_all sku_part w) (split_at (map (\<lambda>c. if c = CHR ''-'' then CHR ''_'' else c) s) (CHR ''_''))"

definition sourceOf :: "string \<Rightarrow> string" where
  "sourceOf stated =
     (if \<not> sourcePattern stated \<or> stated = sourceTelemetry \<or> stated = sourceProviderReport then sourceStream else stated)"

definition optionalTag :: "string \<Rightarrow> (string \<Rightarrow> bool) \<Rightarrow> drop_counts \<Rightarrow> string \<times> drop_counts" where
  "optionalTag t pattern drops =
     (if t = [] then ([], drops)
      else if \<not> pattern t then ([], drop_field drops dropInvalidTag)
      else (t, drops))"

definition applyTags :: "nat \<Rightarrow> server_charge \<Rightarrow> (string \<rightharpoonup> string) \<Rightarrow> drop_counts \<Rightarrow> server_error + (server_charge \<times> drop_counts)" where
  "applyTags line c tags drops =
     (let tag = (\<lambda>k. case tags k of None \<Rightarrow> [] | Some v \<Rightarrow> v)
      in if tag ''costroid/model'' \<noteq> sc_model c then Inl (invalidRow line ''costroid/model disagrees with SkuId'')
         else if tags ''costroid/assumed_ttl'' \<noteq> None \<and> tag ''costroid/assumed_ttl'' \<noteq> Lifetime (sc_class c)
           then Inl (invalidRow line ''costroid/assumed_ttl is not the lifetime of this row's class'')
         else if \<not> agentTag (tag ''costroid/agent'') \<or> 64 < length (tag ''costroid/agent'')
           then Inl (invalidRow line ''costroid/agent is not valid'')
         else if tag ''costroid/cost_basis'' \<noteq> Measured \<and> tag ''costroid/cost_basis'' \<noteq> ListEquivalent
           then Inl (invalidRow line ''costroid/cost_basis is not measured or list_equivalent'')
         else (let (session, drops) = optionalTag (tag ''costroid/session_id'') sessionTag drops;
                   (version, drops) = optionalTag (tag ''costroid/agent_version'') versionTag drops
               in Inr (c\<lparr>sc_assumedTTL := tag ''costroid/assumed_ttl'', sc_agent := tag ''costroid/agent'',
                         sc_basis := tag ''costroid/cost_basis'', sc_source := sourceOf (tag ''costroid/cost_source''),
                         sc_repo := to_lower (tag ''costroid/repo''), sc_pr := tag ''costroid/pr'',
                         sc_sha := tag ''costroid/commit_sha'', sc_run := tag ''costroid/workflow_run_id'',
                         sc_enforcement := tag ''costroid/enforcement_grade'',
                         sc_weakJoin := (tag ''costroid/attribution_grade'' = gradeWindowed),
                         sc_session := session, sc_agentVersion := version\<rparr>, drops)))"

definition readTags :: "columns \<Rightarrow> nat \<Rightarrow> server_charge \<Rightarrow> drop_counts \<Rightarrow> server_error + (server_charge \<times> drop_counts)" where
  "readTags cols line c drops =
     (case map_of cols ''Tags'' of
        None \<Rightarrow> Inl (invalidRow line ''Tags is absent'')
      | Some v \<Rightarrow>
          (case (case v of JObject kvs \<Rightarrow> Some kvs | JNull \<Rightarrow> Some [] | _ \<Rightarrow> None) of
             None \<Rightarrow> Inl (invalidRow line ''Tags is not an object'')
           | Some kvs \<Rightarrow>
               rbind (rfold (read_tag line) ((c, drops), Map.empty) kvs) (\<lambda>((c, drops), read).
                 applyTags line c read drops)))"

definition readOvershoot :: "columns \<Rightarrow> nat \<Rightarrow> server_charge \<Rightarrow> server_error + server_charge" where
  "readOvershoot cols line c =
     rbind (field_text cols line ''x_CostroidOvershootBound'') (\<lambda>t.
       if t = [] then Inr c
       else (case Parse t of
               Inl _ \<Rightarrow> Inl (invalidRow line ''x_CostroidOvershootBound is not a decimal'')
             | Inr bound \<Rightarrow>
                 if Scale bound > MaxScale then Inl (invalidRow line ''x_CostroidOvershootBound is not a decimal'')
                 else Inr (c\<lparr>sc_overshoot := Some bound\<rparr>)))"

section \<open>A row\<close>

definition blank_charge :: server_charge where
  "blank_charge =
     \<lparr>sc_rowID = [], sc_provider = [], sc_model = [], sc_serviceTier = [], sc_region = [], sc_credential = [],
      sc_account = [], sc_context = 0, sc_class = [], sc_tokens = 0, sc_start = zero_time, sc_end = zero_time,
      sc_session = [], sc_agent = [], sc_agentVersion = [], sc_basis = [], sc_enforcement = [], sc_overshoot = None,
      sc_source = sourceStream, sc_notes = [], sc_assumedTTL = [], sc_repo = [], sc_pr = [], sc_sha = [], sc_run = [],
      sc_weakJoin = False, sc_email = []\<rparr>"

definition parse_columns :: "(string \<Rightarrow> nat) \<Rightarrow> columns \<Rightarrow> nat \<Rightarrow> server_error + (server_charge \<times> drop_counts)" where
  "parse_columns runes cols line =
     rbind (matching_field cols line ''x_CostroidRowId'' hex64) (\<lambda>rowID.
     rbind (readSku cols line (blank_charge\<lparr>sc_rowID := rowID\<rparr>)) (\<lambda>c.
     rbind (readQuantity cols line c) (\<lambda>c.
     rbind (readPeriod cols line c) (\<lambda>c.
     rbind (readTags cols line c (countLeftBehind cols [])) (\<lambda>(c, drops).
     rbind (readRouting runes cols line c) (\<lambda>c.
     rmap (\<lambda>c. (c, drops)) (readOvershoot cols line c)))))))"

definition parseRow :: "(string \<Rightarrow> columns option) \<Rightarrow> (string \<Rightarrow> nat) \<Rightarrow> nat \<times> string \<Rightarrow> server_error + (server_charge \<times> drop_counts)" where
  "parseRow decode runes body_line =
     (case decode (snd body_line) of
        None \<Rightarrow> Inl (invalidRow (fst body_line) ''not a JSON object'')
      | Some cols \<Rightarrow> parse_columns runes cols (fst body_line))"

section \<open>A body\<close>

definition maxLineBytes :: nat where
  "maxLineBytes = 65536"

text \<open>
  \<open>splitLines\<close>: the trimmed lines that are not blank, numbered, and the refusal of the line that filled
  the scanner's buffer, if one did; the scan stops there.
\<close>

definition body_pieces :: "string \<Rightarrow> string list" where
  "body_pieces s = (let ls = split_at s (CHR 0x0A) in if last ls = [] then butlast ls else ls)"

fun scan_body :: "nat \<Rightarrow> string list \<Rightarrow> (nat \<times> string) list \<times> server_error option" where
  "scan_body n [] = ([], None)"
| "scan_body n (raw # ls) =
     (if maxLineBytes \<le> length raw then ([], Some (invalidRow n ''the row is over the size limit''))
      else (let (rest, e) = scan_body (n + 1) ls; t = trim_space raw
            in (if t = [] then rest else (n, t) # rest, e)))"

definition splitLines :: "string \<Rightarrow> (nat \<times> string) list \<times> server_error option" where
  "splitLines body = scan_body 1 (body_pieces body)"

definition merge_drops :: "drop_counts \<Rightarrow> drop_counts \<Rightarrow> drop_counts" where
  "merge_drops drops added = foldl (\<lambda>m d. upsert (fst d) 0 (\<lambda>n. n + snd d) m) drops added"

definition parseRows :: "(string \<Rightarrow> columns option) \<Rightarrow> (string \<Rightarrow> nat) \<Rightarrow> string \<Rightarrow>
    server_error + (server_charge list \<times> drop_counts)" where
  "parseRows decode runes body =
     (let (ls, scanErr) = splitLines body
      in rbind (rtraverse (parseRow decode runes) ls) (\<lambda>parsed.
           case scanErr of
             Some e \<Rightarrow> Inl e
           | None \<Rightarrow> Inr (map fst parsed, foldl merge_drops [] (map snd parsed))))"

definition handleRows :: "(string \<Rightarrow> columns option) \<Rightarrow> (string \<Rightarrow> nat) \<Rightarrow> (string \<Rightarrow> string \<Rightarrow> string) \<Rightarrow> catalog \<Rightarrow> instant \<Rightarrow>
    ledger \<Rightarrow> caller \<Rightarrow> string \<Rightarrow> server_error + (ledger \<times> receipt \<times> drop_counts)" where
  "handleRows decode runes pseudonym cat now s who body =
     rbind (parseRows decode runes body) (\<lambda>(charges, drops).
       rmap (\<lambda>(s', rc). (s', rc, drops)) (write_charges pseudonym cat now s who charges drops))"

section \<open>Lemmas\<close>

lemma rmap_rbind: "rmap f (rbind r g) = rbind r (\<lambda>x. rmap f (g x))"
  by (cases r) simp_all

lemma rbind_rmap: "rbind (rmap f r) g = rbind r (\<lambda>x. g (f x))"
  by (cases r) simp_all

lemma rmap_rmap: "rmap f (rmap g r) = rmap (\<lambda>x. f (g x)) r" "rmap (\<lambda>x. x) r = r"
  by (cases r; simp)+

lemma in_readColumns:
  "''x_CostroidRowId'' \<in> set readColumns"
  "''SkuId'' \<in> set readColumns"
  "''SkuMeter'' \<in> set readColumns"
  "''SkuPriceId'' \<in> set readColumns"
  "''ConsumedQuantity'' \<in> set readColumns"
  "''ChargePeriodStart'' \<in> set readColumns"
  "''ChargePeriodEnd'' \<in> set readColumns"
  "''RegionId'' \<in> set readColumns"
  "''x_CostroidServiceTier'' \<in> set readColumns"
  "''SubAccountId'' \<in> set readColumns"
  "''BillingAccountId'' \<in> set readColumns"
  "''x_CostroidOvershootBound'' \<in> set readColumns"
  "''Tags'' \<in> set readColumns"
  by (simp_all add: readColumns_def)

lemma map_of_kept: "P k \<Longrightarrow> map_of (filter (\<lambda>c. P (fst c)) cols) k = map_of cols k"
  by (induction cols) auto

text \<open>Reading a row's tags: the charge and the tags do not depend on the counters.\<close>

lemma userTag_charge:
  "fst (userTag k v (c, drops)) = fst (userTag k v (c, drops'))"
  "sc_tokens (fst (userTag k v cd)) = sc_tokens (fst cd)" "sc_credential (fst (userTag k v cd)) = sc_credential (fst cd)"
  by (simp_all add: userTag_def Let_def case_prod_beta split: option.split)

lemma read_tag_cases:
  "read_tag line ((c, drops), read) (k, v) =
     (if \<not> prefix ''costroid/'' k then Inr (userTag k v (c, drops), read)
      else if k \<notin> set definedTags then Inl (invalidRow line ''a costroid/ tag this version does not define'')
      else (case json_text v of
              None \<Rightarrow> Inl (invalidRow line ''a costroid/ tag is not a string'')
            | Some t \<Rightarrow> Inr ((c, drops), read(k \<mapsto> t))))"
  by (simp add: read_tag_def)

lemma read_tag_keeps:
  "read_tag line st kv = Inr st' \<Longrightarrow>
     sc_tokens (fst (fst st')) = sc_tokens (fst (fst st)) \<and> sc_credential (fst (fst st')) = sc_credential (fst (fst st))"
  by (cases st; cases "fst st"; cases kv)
    (auto simp: read_tag_cases userTag_charge split: if_splits option.splits)

lemma tags_read_drops:
  "rmap (\<lambda>st. (fst (fst st), snd st)) (rfold (read_tag line) ((c, drops), read) kvs) =
   rmap (\<lambda>st. (fst (fst st), snd st)) (rfold (read_tag line) ((c, drops'), read) kvs)"
proof (induction kvs arbitrary: c drops drops' read)
  case Nil
  show ?case by simp
next
  case (Cons kv kvs)
  obtain k v where kv: "kv = (k, v)" by (cases kv)
  show ?case
  proof (cases "prefix ''costroid/'' k")
    case True
    have "rmap (\<lambda>st. (fst (fst st), snd st)) (rfold (read_tag line) ((c, drops), read(k \<mapsto> t)) kvs) =
        rmap (\<lambda>st. (fst (fst st), snd st)) (rfold (read_tag line) ((c, drops'), read(k \<mapsto> t)) kvs)" for t
      by (rule Cons.IH)
    then show ?thesis using True unfolding kv rfold.simps read_tag_cases
      by (cases "json_text v") (simp_all del: fun_upd_apply)
  next
    case False
    obtain c1 d1 d2 where "userTag k v (c, drops) = (c1, d1)" "userTag k v (c, drops') = (c1, d2)"
      using userTag_charge(1) [of k v c drops drops'] by (metis prod.collapse)
    then show ?thesis using False Cons.IH [of c1 d1 read d2] unfolding kv rfold.simps read_tag_cases by simp
  qed
qed

lemma applyTags_drops: "rmap fst (applyTags line c tags drops) = rmap fst (applyTags line c tags drops')"
  by (simp add: applyTags_def optionalTag_def Let_def)

lemma readTags_drops: "rmap fst (readTags cols line c drops) = rmap fst (readTags cols line c drops')"
proof -
  have charge: "rmap fst (rbind (rfold (read_tag line) ((c, d), Map.empty) kvs) (\<lambda>((c, drops), read). applyTags line c read drops)) =
      rbind (rmap (\<lambda>st. (fst (fst st), snd st)) (rfold (read_tag line) ((c, d), Map.empty) kvs))
        (\<lambda>(c, read). rmap fst (applyTags line c read []))" for d kvs
    unfolding rmap_rbind rbind_rmap by (simp add: case_prod_beta, rule arg_cong [of _ _ "rbind _"], rule ext, rule applyTags_drops)
  then show ?thesis unfolding readTags_def using tags_read_drops [of line c drops Map.empty _ drops'] by (simp split: option.split)
qed

text \<open>What a parsed charge keeps.\<close>

lemma sourceOf_stream: "sourceOf t \<noteq> sourceProviderReport \<and> sourceOf t \<noteq> sourceTelemetry"
  by (simp add: sourceOf_def)

lemma readTags_fields:
  assumes "readTags cols line c drops = Inr (c', drops')"
  shows "sc_tokens c' = sc_tokens c \<and> sc_source c' \<noteq> sourceProviderReport \<and> sc_credential c' = sc_credential c"
proof -
  obtain kvs c1 d1 read where fold: "rfold (read_tag line) ((c, drops), Map.empty) kvs = Inr ((c1, d1), read)"
    and app: "applyTags line c1 read d1 = Inr (c', drops')"
    using assms by (auto simp: readTags_def result_eqs split: option.splits)
  have "sc_tokens (fst (fst ((c1, d1), read))) = sc_tokens c \<and> sc_credential (fst (fst ((c1, d1), read))) = sc_credential c"
    by (rule rfold_invariant [OF fold]) (auto dest: read_tag_keeps)
  moreover have "sc_tokens c' = sc_tokens c1 \<and> sc_source c' \<noteq> sourceProviderReport \<and> sc_credential c' = sc_credential c1"
    using app sourceOf_stream by (auto simp: applyTags_def Let_def split: if_splits prod.splits)
  ultimately show ?thesis by simp
qed

lemma readQuantity_tokens: "readQuantity cols line c = Inr c' \<Longrightarrow> 0 \<le> sc_tokens c' \<and> sc_tokens c' \<le> MaxTokens"
  by (auto simp: readQuantity_def result_eqs split: option.splits if_splits)

lemma readPeriod_tokens: "readPeriod cols line c = Inr c' \<Longrightarrow> sc_tokens c' = sc_tokens c"
  by (auto simp: readPeriod_def result_eqs split: if_splits)

lemma readRouting_fields: "readRouting runes cols line c = Inr c' \<Longrightarrow> sc_tokens c' = sc_tokens c \<and> sc_source c' = sc_source c"
  by (auto simp: readRouting_def result_eqs)

lemma readOvershoot_fields: "readOvershoot cols line c = Inr c' \<Longrightarrow> sc_tokens c' = sc_tokens c \<and> sc_source c' = sc_source c"
  by (auto simp: readOvershoot_def result_eqs split: if_splits sum.splits)

lemma parse_columns_fields:
  assumes "parse_columns runes cols line = Inr (c, drops)"
  shows "0 \<le> sc_tokens c \<and> sc_tokens c \<le> MaxTokens \<and> sc_source c \<noteq> sourceProviderReport"
proof -
  obtain c1 c2 c3 c4 d4 c5 where "readQuantity cols line c1 = Inr c2" "readPeriod cols line c2 = Inr c3"
    "readTags cols line c3 (countLeftBehind cols []) = Inr (c4, d4)" "readRouting runes cols line c4 = Inr c5"
    "readOvershoot cols line c5 = Inr c"
    using assms by (auto simp: parse_columns_def result_eqs)
  then show ?thesis
    using readQuantity_tokens readPeriod_tokens readTags_fields readRouting_fields readOvershoot_fields by metis
qed

lemma parseRows_fields:
  assumes "parseRows decode runes body = Inr (cs, drops)" "c \<in> set cs"
  shows "0 \<le> sc_tokens c \<and> sc_tokens c \<le> MaxTokens \<and> sc_source c \<noteq> sourceProviderReport"
proof -
  obtain ls parsed where parsed: "rtraverse (parseRow decode runes) ls = Inr parsed" and cs: "cs = map fst parsed"
    using assms(1) by (auto simp: parseRows_def result_eqs Let_def split: prod.splits option.splits)
  obtain p where p: "p \<in> set parsed" "c = fst p" using assms(2) cs by auto
  then obtain l where "parseRow decode runes l = Inr p" using rtraverse_in [OF parsed] by blast
  then show ?thesis using p(2) parse_columns_fields
    by (cases p) (auto simp: parseRow_def split: option.splits)
qed

section \<open>Properties\<close>

text \<open>
  C19. A sender's figures are never read. Whether a line is a row, why it is refused and the charge it
  gives depend only on the thirteen columns the service reads, none of which is a cost or a price:
  adding, changing or removing any other column changes the counters of what was left behind and
  nothing else.
\<close>

theorem sender_figures_never_read:
  "rmap fst (parse_columns runes cols line) =
     rmap fst (parse_columns runes (filter (\<lambda>c. fst c \<in> set readColumns) cols) line) \<and>
   set readColumns \<inter> set (costColumns @ ignoredColumns) = {}"
proof
  let ?kept = "filter (\<lambda>c. fst c \<in> set readColumns) cols"
  have col: "map_of ?kept k = map_of cols k" if "k \<in> set readColumns" for k
    using map_of_kept [where P = "\<lambda>k. k \<in> set readColumns", OF that] .
  have field: "field_text ?kept line k = field_text cols line k" if "k \<in> set readColumns" for k
    by (simp add: field_text_def col [OF that])
  note texts = in_readColumns [THEN field]
  have tags: "readTags ?kept line c drops = readTags cols line c drops" for c drops
    by (simp add: readTags_def col [OF in_readColumns(13)])
  have readers: "matching_field ?kept line ''x_CostroidRowId'' hex64 = matching_field cols line ''x_CostroidRowId'' hex64"
    "readSku ?kept line c = readSku cols line c" "readQuantity ?kept line c = readQuantity cols line c"
    "readPeriod ?kept line c = readPeriod cols line c" "readRouting runes ?kept line c = readRouting runes cols line c"
    "readOvershoot ?kept line c = readOvershoot cols line c" for c
    unfolding matching_field_def readSku_def readQuantity_def readPeriod_def read_instant_def readRouting_def
      optional_field_def limited_field_def readOvershoot_def texts by (rule refl)+
  have charge: "rmap fst (parse_columns runes cs line) =
      rbind (matching_field cs line ''x_CostroidRowId'' hex64) (\<lambda>rowID.
      rbind (readSku cs line (blank_charge\<lparr>sc_rowID := rowID\<rparr>)) (\<lambda>c. rbind (readQuantity cs line c) (\<lambda>c.
      rbind (readPeriod cs line c) (\<lambda>c. rbind (rmap fst (readTags cs line c drops)) (\<lambda>c.
      rbind (readRouting runes cs line c) (readOvershoot cs line))))))" for cs drops
  proof -
    have "rmap fst (readTags cs line c drops) = rmap fst (readTags cs line c (countLeftBehind cs []))" for c
      by (rule readTags_drops)
    then show ?thesis by (simp add: parse_columns_def rmap_rbind rbind_rmap case_prod_beta rmap_rmap)
  qed
  show "rmap fst (parse_columns runes cols line) = rmap fst (parse_columns runes ?kept line)"
    unfolding charge [of _ "[]"] readers tags ..
  show "set readColumns \<inter> set (costColumns @ ignoredColumns) = {}"
    by (simp add: readColumns_def costColumns_def ignoredColumns_def)
qed

end
