(* ===== verification/ServerTelemetry.thy ===== *)
theory ServerTelemetry
  imports ServerRows
begin

text \<open>
  \<open>internal/server/telemetry.go\<close>: the charges of a telemetry export. \<open>parse\<close> is \<open>otlp.Parse\<close> of the body
  and \<open>sha256\<close> the digest a row's identity is made with; \<open>now\<close> is the server's clock, read once.
\<close>

abbreviation invalidUsage :: string where "invalidUsage \<equiv> ''invalid_usage''"

abbreviation DropMetrics :: string where "DropMetrics \<equiv> ''metrics_export''"

definition scheme_char :: "char \<Rightarrow> bool" where
  "scheme_char c \<longleftrightarrow> is_lower c \<or> is_digit c \<or> c \<in> {CHR ''+'', CHR ''.'', CHR ''-''}"

text \<open>\<open>^[a-z][a-z0-9+.-]*://\<close> is cut off: no character of a scheme is a colon, so it ends at the first.\<close>

definition without_scheme :: "string \<Rightarrow> string" where
  "without_scheme url =
     (let (scheme, rest, found) = cut_str url ''://''
      in if found \<and> scheme \<noteq> [] \<and> is_lower (hd scheme) \<and> list_all scheme_char scheme then rest else url)"

definition repoOf :: "string \<Rightarrow> string" where
  "repoOf url =
     (let repo = without_scheme (to_lower url);
          (_, after, found) = cut_str repo ''@'';
          repo = (if found then after else repo)
      in fst (cut_suffix (fst (cut_suffix repo ''/'')) ''.git''))"

definition chargeOf :: "(string \<Rightarrow> string) \<Rightarrow> instant \<Rightarrow> otlp_usage \<Rightarrow> token_class \<times> int \<Rightarrow> drop_counts \<Rightarrow> server_charge \<times> drop_counts" where
  "chargeOf sha256 now u n drops =
     (let start = (if ou_Start u = zero_time then now else ou_Start u);
          stop = (if ou_End u < start then start else ou_End u);
          (session, drops) = optionalTag (ou_Session u) sessionTag drops;
          (version, drops) = optionalTag (ou_AgentVersion u) versionTag drops
      in (\<lparr>sc_rowID = RowIdentity sha256 (ou_ID u) (fst n), sc_provider = ou_Provider u, sc_model = ou_Model u,
           sc_serviceTier = ou_ServiceTier u, sc_region = [], sc_credential = [], sc_account = [],
           sc_context = ou_ContextInputTokens u, sc_class = fst n, sc_tokens = snd n, sc_start = start,
           sc_end = stop, sc_session = session, sc_agent = ou_Agent u, sc_agentVersion = version,
           sc_basis = ou_CostBasis u, sc_enforcement = ou_EnforcementGrade u, sc_overshoot = None,
           sc_source = sourceTelemetry, sc_notes = ou_Notes u,
           sc_assumedTTL = (if fst n = ou_AssumedWrite u then Lifetime (fst n) else []),
           sc_repo = repoOf (ou_Repo u), sc_pr = ou_PullRequest u, sc_sha = to_lower (ou_CommitSHA u),
           sc_run = ou_RunID u, sc_weakJoin = False, sc_email = ou_Email u\<rparr>, drops))"

fun usage_charges :: "(string \<Rightarrow> string) \<Rightarrow> instant \<Rightarrow> otlp_usage \<Rightarrow> (token_class \<times> int) list \<Rightarrow> drop_counts \<Rightarrow>
    server_charge list \<times> drop_counts" where
  "usage_charges sha256 now u [] drops = ([], drops)"
| "usage_charges sha256 now u (n # ns) drops =
     (let (c, drops) = chargeOf sha256 now u n drops; (cs, drops) = usage_charges sha256 now u ns drops
      in (c # cs, drops))"

text \<open>A usage whose model or agent misses its pattern is rejected.\<close>

fun chargesOf :: "(string \<Rightarrow> string) \<Rightarrow> instant \<Rightarrow> otlp_usage list \<Rightarrow> drop_counts \<Rightarrow> server_charge list \<times> int \<times> drop_counts" where
  "chargesOf sha256 now [] drops = ([], 0, drops)"
| "chargesOf sha256 now (u # us) drops =
     (if \<not> modelTag (ou_Model u) \<or> \<not> agentTag (ou_Agent u)
      then (let (cs, rejected, drops) = chargesOf sha256 now us drops in (cs, rejected + 1, drops))
      else (let (cs, drops) = usage_charges sha256 now u (ou_Counts u) drops;
                (cs', rejected, drops) = chargesOf sha256 now us drops
            in (cs @ cs', rejected, drops)))"

text \<open>The charges and counters of an export, and the records it rejected.\<close>

definition telemetry_charges :: "(string \<Rightarrow> string) \<Rightarrow> instant \<Rightarrow> otlp_batch \<Rightarrow> server_charge list \<times> drop_counts \<times> int" where
  "telemetry_charges sha256 now b =
     (let (cs, rejected, drops) = chargesOf sha256 now (ob_Usage b) (ob_Drops b)
      in (cs, if 0 < rejected then upsert invalidUsage 0 (\<lambda>n. n + rejected) drops else drops, ob_Rejected b + rejected))"

definition handleTelemetry :: "(string \<Rightarrow> otlp_batch option) \<Rightarrow> (string \<Rightarrow> string) \<Rightarrow> (string \<Rightarrow> string \<Rightarrow> string) \<Rightarrow> catalog \<Rightarrow>
    instant \<Rightarrow> ledger \<Rightarrow> caller \<Rightarrow> string \<Rightarrow> server_error + (ledger \<times> int)" where
  "handleTelemetry parse sha256 pseudonym cat now s who body =
     (case parse body of
        None \<Rightarrow> Inl (Refused 400 codeMalformed ''The body is not a valid OTLP request.'')
      | Some b \<Rightarrow>
          (let (cs, drops, rejected) = telemetry_charges sha256 now b
           in rmap (\<lambda>(s', _). (s', rejected)) (write_charges pseudonym cat now s who cs drops)))"

definition handleMetrics :: "(string \<Rightarrow> string \<Rightarrow> string) \<Rightarrow> catalog \<Rightarrow> instant \<Rightarrow> ledger \<Rightarrow> caller \<Rightarrow> server_error + ledger" where
  "handleMetrics pseudonym cat now s who =
     rmap fst (write_charges pseudonym cat now s who [] [(DropMetrics, 1)])"

text \<open>\<open>binary.AppendUvarint\<close> and the partial-success message it encodes.\<close>

function uvarint :: "nat \<Rightarrow> nat list" where
  "uvarint n = (if n < 128 then [n] else (n mod 128 + 128) # uvarint (n div 128))"
  by pat_completeness auto

termination
  by (relation "measure id") auto

declare uvarint.simps [simp del]

definition partialSuccess :: "nat \<Rightarrow> nat list" where
  "partialSuccess rejected =
     (let inner = uvarint (1 * 8 + 0) @ uvarint rejected
      in uvarint (1 * 8 + 2) @ uvarint (length inner) @ inner)"

end
