(* ===== verification/ServerVerdict.thy ===== *)
theory ServerVerdict
  imports ServerJoin Policy
begin

text \<open>
  \<open>internal/server/view.go\<close> and \<open>verdict.go\<close>: the gateway's attested spend, a pull request's lines and
  totals, its budget and what stands behind it, and the policy's verdict over them. A decoder of a
  JSON body is a parameter (None when the body is not what it should be), and so is base64. A service
  without a store for spend is \<open>keeps_spend = False\<close>.
\<close>

section \<open>Attesting spend\<close>

record spend_statement =
  sa_Repository :: string
  sa_RunID :: string
  sa_RunAttempt :: string
  sa_Currency :: string
  sa_Spend :: string

record stated_spend =
  ss_credential :: minted_credential
  ss_usd :: decimal

definition maxSpendLength :: nat where
  "maxSpendLength = 64"

definition attestationRefused :: "string \<Rightarrow> server_error" where
  "attestationRefused message = Refused 403 codeAttestation message"

definition not_a_spend :: server_error where
  "not_a_spend =
     Refused 400 codeMalformed ''spend is not a decimal of at most 12 fractional digits, zero or more.''"

definition read_amount :: "string \<Rightarrow> server_error + decimal" where
  "read_amount t =
     (case Parse t of
        Inl _ \<Rightarrow> Inl not_a_spend
      | Inr usd \<Rightarrow>
          if maxSpendLength < length t \<or> Sign usd < 0 \<or> Scale usd > MaxScale then Inl not_a_spend else Inr usd)"

definition readSpend :: "(string \<Rightarrow> spend_statement option) \<Rightarrow> string \<Rightarrow> bool \<Rightarrow> caller \<Rightarrow> string \<Rightarrow> string \<Rightarrow>
    server_error + stated_spend" where
  "readSpend decode environment keeps_spend who keyID body =
     (case cl_identity who of
        None \<Rightarrow> Inl (attestationRefused ''An attestation needs a CI token.'')
      | Some i \<Rightarrow>
          if environment = [] \<or> id_Environment i \<noteq> environment
          then Inl (attestationRefused ''The token's job did not run in the gateway's environment.'')
          else if \<not> keeps_spend
          then Inl (Refused 501 codeNoSpend ''This ledger does not keep the gateway's spend.'')
          else if \<not> gatewayKeyID keyID
          then Inl (Refused 400 codeBadQuery ''The key id is not 64 hexadecimal characters.'')
          else (case decode body of
                  None \<Rightarrow> Inl (Refused 400 codeMalformed ''The body is not a spend attestation in USD.'')
                | Some a \<Rightarrow>
                    if sa_Currency a \<noteq> ''USD''
                    then Inl (Refused 400 codeMalformed ''The body is not a spend attestation in USD.'')
                    else rbind (read_amount (sa_Spend a)) (\<lambda>usd.
                      case run_mismatch i (sa_Repository a, sa_RunID a, sa_RunAttempt a) of
                        Some key \<Rightarrow> Inl (attestation_mismatch key)
                      | None \<Rightarrow> Inr \<lparr>ss_credential = (run_of i)\<lparr>mc_KeySHA256 := keyID\<rparr>, ss_usd = usd\<rparr>)))"

text \<open>
  \<open>handleSpend\<close>: the attestation is read in one transaction and the spend kept in another, which reads it
  again.
\<close>

definition not_this_run :: server_error where
  "not_this_run = Refused 409 codeJoinKey ''The key is not attested as minted for this run.''"

definition handleSpend :: "(string \<Rightarrow> spend_statement option) \<Rightarrow> string \<Rightarrow> bool \<Rightarrow> ledger \<Rightarrow> caller \<Rightarrow> string \<Rightarrow> string \<Rightarrow>
    server_error + ledger" where
  "handleSpend decode environment keeps_spend s who keyID body =
     rbind (readSpend decode environment keeps_spend who keyID body) (\<lambda>key.
       case MintedCredentials s [mc_KeySHA256 (ss_credential key)] (mc_KeySHA256 (ss_credential key)) of
         None \<Rightarrow> Inl not_this_run
       | Some stored \<Rightarrow>
           if \<not> SameRun stored (ss_credential key) then Inl not_this_run
           else (case AttestSpend s stored (ss_usd key) of
                   Inl AttestedElsewhere \<Rightarrow> Inl not_this_run
                 | Inl NotMinted \<Rightarrow> Inl not_this_run
                 | Inl _ \<Rightarrow> Inl (Internal ''store'')
                 | Inr s' \<Rightarrow> Inr s'))"

section \<open>The view of a pull request\<close>

definition label_of :: "string \<Rightarrow> string" where
  "label_of basis =
     (if basis = Measured then ''Measured'' else if basis = ListEquivalent then ''List-equivalent'' else [])"

record view_line =
  vl_Currency :: string
  vl_BillingAccountID :: string
  vl_ServiceCategory :: string
  vl_Agent :: string
  vl_Model :: string
  vl_Meter :: string
  vl_Unit :: string
  vl_Label :: string
  vl_CostBasis :: string
  vl_CostSource :: string
  vl_AttributionGrade :: string
  vl_RunIdentity :: string
  vl_BudgetEligible :: bool
  vl_Rows :: int
  vl_Quantity :: string
  vl_ListCost :: string
  vl_EffectiveCost :: string
  vl_FirstCharge :: string
  vl_LastCharge :: string

definition viewLineOf :: "store_line \<Rightarrow> view_line" where
  "viewLineOf l =
     \<lparr>vl_Currency = li_Currency l, vl_BillingAccountID = li_BillingAccountID l,
      vl_ServiceCategory = li_ServiceCategory l, vl_Agent = li_Agent l, vl_Model = li_Model l,
      vl_Meter = li_SkuMeter l, vl_Unit = li_ConsumedUnit l, vl_Label = label_of (li_CostBasis l),
      vl_CostBasis = li_CostBasis l, vl_CostSource = li_CostSource l, vl_AttributionGrade = li_AttributionGrade l,
      vl_RunIdentity = li_RunIdentity l, vl_BudgetEligible = li_BudgetEligible l, vl_Rows = li_Rows l,
      vl_Quantity = String (li_ConsumedQuantity l), vl_ListCost = String (li_ListCost l),
      vl_EffectiveCost = String (li_EffectiveCost l), vl_FirstCharge = format_instant (li_FirstCharge l),
      vl_LastCharge = format_instant (li_LastCharge l)\<rparr>"

record basis_total =
  bt_Currency :: string
  bt_CostBasis :: string
  bt_Label :: string
  bt_ListCost :: string

text \<open>List cost by key, the keys in the order their first line comes.\<close>

definition line_sums :: "(store_line \<Rightarrow> 'k) \<Rightarrow> store_line list \<Rightarrow> ('k \<times> decimal) list" where
  "line_sums key ls = foldl (\<lambda>m l. upsert (key l) zero_decimal (\<lambda>d. Add d (li_ListCost l)) m) [] ls"

definition totalsOf :: "store_line list \<Rightarrow> basis_total list" where
  "totalsOf ls =
     map (\<lambda>((currency, basis), d).
       \<lparr>bt_Currency = currency, bt_CostBasis = basis, bt_Label = label_of basis, bt_ListCost = String d\<rparr>)
       (line_sums (\<lambda>l. (li_Currency l, li_CostBasis l)) ls)"

section \<open>The budget\<close>

abbreviation budgetBasisNone :: string where "budgetBasisNone \<equiv> ''none''"

abbreviation budgetBasisAgent :: string where "budgetBasisAgent \<equiv> ''agent_counts''"

abbreviation budgetBasisGateway :: string where "budgetBasisGateway \<equiv> ''gateway_measured''"

abbreviation budgetBasisReconciled :: string where "budgetBasisReconciled \<equiv> ''reconciled''"

record budget_view =
  bv_Evidence :: bool
  bv_Basis :: string
  bv_Spend :: "(string \<times> string) list"
  bv_GatewayUSD :: string

record measured_spend =
  ms_kept :: bool
  ms_rows :: int
  ms_usd :: decimal

definition measuredSpend :: "bool \<Rightarrow> ledger \<Rightarrow> string \<Rightarrow> string \<Rightarrow> measured_spend" where
  "measuredSpend keeps_spend s repo pr =
     (if \<not> keeps_spend then \<lparr>ms_kept = False, ms_rows = 0, ms_usd = zero_decimal\<rparr>
      else (let (rows, usd) = GatewaySpend s repo pr in \<lparr>ms_kept = True, ms_rows = rows, ms_usd = usd\<rparr>))"

definition budgetOf :: "store_line list \<Rightarrow> measured_spend \<Rightarrow> budget_view" where
  "budgetOf ls m =
     (let eligible = filter li_BudgetEligible ls;
          budget = \<lparr>bv_Evidence = False, bv_Basis = budgetBasisNone,
            bv_Spend = map (\<lambda>(code, d). (code, String d)) (line_sums li_Currency eligible), bv_GatewayUSD = []\<rparr>
      in if eligible = [] then budget
         else if list_all (\<lambda>l. li_CostSource l = sourceProviderReport) eligible
         then budget\<lparr>bv_Basis := budgetBasisReconciled, bv_Evidence := True\<rparr>
         else if ms_kept m \<and> list_all (\<lambda>l. li_Currency l = ''USD'') eligible \<and>
                 ms_rows m = sum_list (map li_Rows eligible) \<and> 0 \<le> Sign (ms_usd m)
         then budget\<lparr>bv_Basis := budgetBasisGateway, bv_Evidence := True, bv_GatewayUSD := String (ms_usd m)\<rparr>
         else budget\<lparr>bv_Basis := budgetBasisAgent\<rparr>)"

record pull_request_view =
  pv_Repository :: string
  pv_PullRequest :: string
  pv_Totals :: "basis_total list"
  pv_Budget :: budget_view
  pv_Lines :: "view_line list"

definition pullRequest :: "bool \<Rightarrow> ledger \<Rightarrow> string \<Rightarrow> string \<Rightarrow> pull_request_view" where
  "pullRequest keeps_spend s repo pr =
     (let ls = PullRequest s repo pr
      in \<lparr>pv_Repository = repo, pv_PullRequest = pr, pv_Totals = totalsOf ls,
          pv_Budget = budgetOf ls (measuredSpend keeps_spend s repo pr), pv_Lines = map viewLineOf ls\<rparr>)"

text \<open>What both reads of a pull request check first.\<close>

definition may_read :: "caller \<Rightarrow> string \<Rightarrow> string \<Rightarrow> server_error + unit" where
  "may_read who repo pr =
     (if \<not> repoTag repo \<or> \<not> prTag pr
      then Inl (Refused 400 codeBadQuery ''repo must be a lower-case host and path, and the pull request a number.'')
      else (case cl_identity who of
              None \<Rightarrow> Inr ()
            | Some i \<Rightarrow>
                if id_Repository i \<noteq> repo
                then Inl (Refused 403 codeWrongRepo ''This CI token reads its own repository only.'')
                else Inr ()))"

definition handlePullRequest :: "bool \<Rightarrow> ledger \<Rightarrow> caller \<Rightarrow> string \<Rightarrow> string \<Rightarrow> server_error + pull_request_view" where
  "handlePullRequest keeps_spend s who repo pr = rmap (\<lambda>_. pullRequest keeps_spend s repo pr) (may_read who repo pr)"

section \<open>The verdict\<close>

definition maxConfigBytes :: nat where
  "maxConfigBytes = 65536"

definition maxMeasuredPullRequests :: int where
  "maxMeasuredPullRequests = 1048576"

record verdict_request =
  vq_Config :: "string option"
  vq_ConfigRef :: string
  vq_WorkflowAdded :: string
  vq_WorkflowNotOnBase :: bool
  vq_MeasuredPullRequests :: int

definition malformedVerdict :: "string \<Rightarrow> server_error" where
  "malformedVerdict message = Refused 400 codeMalformed message"

definition stated_config :: "(string \<Rightarrow> string option) \<Rightarrow> verdict_request \<Rightarrow> server_error + config_file" where
  "stated_config base64 v =
     (let config = \<lparr>cf_Data = [], cf_Found = False, cf_Ref = vq_ConfigRef v, cf_FromBase = (vq_ConfigRef v \<noteq> []),
                    cf_Unread = None\<rparr>
      in if vq_ConfigRef v \<noteq> [] \<and> \<not> policyCommitPattern (vq_ConfigRef v)
         then Inl (malformedVerdict ''config_ref is not a commit.'')
         else (case vq_Config v of
                 None \<Rightarrow> Inr config
               | Some encoded \<Rightarrow>
                   (case base64 encoded of
                      None \<Rightarrow> Inl (malformedVerdict ''config is not costroid.yml in base64, at most 64 KiB.'')
                    | Some data \<Rightarrow>
                        if maxConfigBytes < length data
                        then Inl (malformedVerdict ''config is not costroid.yml in base64, at most 64 KiB.'')
                        else Inr (config\<lparr>cf_Data := data, cf_Found := True\<rparr>))))"

definition stated_start :: "verdict_request \<Rightarrow> server_error + period_start" where
  "stated_start v =
     (if vq_WorkflowAdded v = [] then Inr \<lparr>st_At = zero_time, st_NotOnBase = vq_WorkflowNotOnBase v\<rparr>
      else (case parse_rfc3339 (vq_WorkflowAdded v) of
              None \<Rightarrow> Inl (malformedVerdict ''workflow_added is not an RFC 3339 time.'')
            | Some t \<Rightarrow> Inr \<lparr>st_At = t, st_NotOnBase = vq_WorkflowNotOnBase v\<rparr>))"

definition readVerdictRequest :: "(string \<Rightarrow> verdict_request option) \<Rightarrow> (string \<Rightarrow> string option) \<Rightarrow> string \<Rightarrow>
    server_error + (verdict_request \<times> config_file \<times> period_start)" where
  "readVerdictRequest decode base64 body =
     (case decode body of
        None \<Rightarrow> Inl (malformedVerdict ''The body is not a verdict request.'')
      | Some v \<Rightarrow>
          rbind (stated_config base64 v) (\<lambda>config.
          rbind (stated_start v) (\<lambda>start.
            if vq_MeasuredPullRequests v < 0 \<or> maxMeasuredPullRequests < vq_MeasuredPullRequests v
            then Inl (malformedVerdict ''measured_pull_requests is not a count.'')
            else Inr (v, config, start))))"

definition evidenceOf :: "budget_view \<Rightarrow> evidence" where
  "evidenceOf b =
     (if bv_Basis b = budgetBasisGateway then GatewayMeasured
      else if bv_Basis b = budgetBasisReconciled then Reconciled else AgentCounts)"

definition ledger_line_of :: "store_line \<Rightarrow> ledger_line" where
  "ledger_line_of l =
     \<lparr>ll_Currency = li_Currency l, ll_ListCost = li_ListCost l, ll_Rows = li_Rows l, ll_Model = li_Model l,
      ll_Verified = (li_RunIdentity l = identityToken),
      ll_Attributed = (li_AttributionGrade l = gradeExact \<or> li_AttributionGrade l = gradeWindowed)\<rparr>"

definition ledgerLines :: "store_line list \<Rightarrow> ledger_line list" where
  "ledgerLines ls = map ledger_line_of ls"

definition verdict_input :: "store_line list \<Rightarrow> measured_spend \<Rightarrow> verdict_request \<times> config_file \<times> period_start \<Rightarrow> instant \<Rightarrow>
    ledger_request" where
  "verdict_input ls m q now =
     (let (stated, config, start) = q; budget = budgetOf ls m
      in \<lparr>lq_Lines = ledgerLines ls, lq_Evidence = evidenceOf budget,
          lq_MeasuredUSD = (if bv_Basis budget = budgetBasisGateway then ms_usd m else zero_decimal),
          lq_Config = config, lq_Start = start, lq_MeasuredPullRequests = vq_MeasuredPullRequests stated,
          lq_At = now\<rparr>)"

definition handleVerdict :: "policy_env \<Rightarrow> (string \<Rightarrow> verdict_request option) \<Rightarrow> (string \<Rightarrow> string option) \<Rightarrow> bool \<Rightarrow>
    instant \<Rightarrow> ledger \<Rightarrow> caller \<Rightarrow> string \<Rightarrow> string \<Rightarrow> string \<Rightarrow> server_error + (budget_view \<times> verdict)" where
  "handleVerdict env decode base64 keeps_spend now s who repo pr body =
     rbind (may_read who repo pr) (\<lambda>_.
     rbind (readVerdictRequest decode base64 body) (\<lambda>q.
       let ls = PullRequest s repo pr; m = measuredSpend keeps_spend s repo pr
       in case EvaluateLedger env (verdict_input ls m q now) of
            Inl _ \<Rightarrow> Inl (Internal ''policy'')
          | Inr v \<Rightarrow> Inr (budgetOf ls m, v)))"

end
