(* ===== verification/ServerLedger.thy ===== *)
theory ServerLedger
  imports ServerTelemetry ServerVerdict ServerAuth
begin

text \<open>
  The service over time: every ledger its endpoints can make. A request that writes rows reads the
  attestations in one transaction and inserts in a later one, so other requests may run in between;
  the step takes the attestations of any earlier ledger. Attestations are only ever added
  (\<open>step_keeps_mints\<close>), so an earlier ledger's are among the present one's.
\<close>

section \<open>Steps\<close>

record service =
  sv_catalog :: catalog
  sv_environment :: string
  sv_keeps_spend :: bool
  sv_pseudonym :: "string \<Rightarrow> string \<Rightarrow> string"

definition write_read_at :: "service \<Rightarrow> instant \<Rightarrow> ledger \<Rightarrow> ledger \<Rightarrow> caller \<Rightarrow> server_charge list \<Rightarrow> (string \<times> int) list \<Rightarrow>
    server_error + (ledger \<times> receipt)" where
  "write_read_at sv now earlier s who cs drops =
     rbind (rtraverse (charge_record (sv_pseudonym sv) (sv_catalog sv) now who (provenCredentials earlier who cs)) cs) (\<lambda>records.
       store_failed (Ingest s \<lparr>ba_Records = records, ba_Drops = drops, ba_Day = now\<rparr>))"

lemma write_charges_undisturbed:
  "write_charges (sv_pseudonym sv) (sv_catalog sv) now s who cs drops = write_read_at sv now s s who cs drops"
  by (simp add: write_charges_def write_read_at_def)

inductive server_step :: "service \<Rightarrow> ledger \<Rightarrow> ledger \<Rightarrow> bool" for sv where
  rows: "parseRows decode runes body = Inr (cs, drops) \<Longrightarrow> lg_minted earlier \<subseteq>\<^sub>m lg_minted s \<Longrightarrow>
    write_read_at sv now earlier s who cs drops = Inr (s', rc) \<Longrightarrow> server_step sv s s'"
| telemetry: "telemetry_charges sha256 now b = (cs, drops, rejected) \<Longrightarrow> lg_minted earlier \<subseteq>\<^sub>m lg_minted s \<Longrightarrow>
    write_read_at sv now earlier s who cs drops = Inr (s', rc) \<Longrightarrow> server_step sv s s'"
| metrics: "write_read_at sv now s s who [] [(DropMetrics, 1)] = Inr (s', rc) \<Longrightarrow> server_step sv s s'"
| credentials: "handleCredentials decode (sv_environment sv) s who body = Inr s' \<Longrightarrow> server_step sv s s'"
| spend: "handleSpend decode_spend (sv_environment sv) (sv_keeps_spend sv) s who key body = Inr s' \<Longrightarrow> server_step sv s s'"

inductive reachable :: "service \<Rightarrow> ledger \<Rightarrow> bool" for sv where
  start: "reachable sv empty_ledger"
| step: "reachable sv s \<Longrightarrow> server_step sv s s' \<Longrightarrow> reachable sv s'"

inductive_cases server_stepE: "server_step sv s s'"

text \<open>Every handler that writes is a step.\<close>

lemma handleRows_step:
  "handleRows decode runes (sv_pseudonym sv) (sv_catalog sv) now s who body = Inr (s', rc, drops) \<Longrightarrow> server_step sv s s'"
  by (auto simp: handleRows_def result_eqs write_charges_undisturbed intro!: server_step.rows [where earlier = s and s = s])

lemma handleTelemetry_step:
  "handleTelemetry parse sha256 (sv_pseudonym sv) (sv_catalog sv) now s who body = Inr (s', rejected) \<Longrightarrow> server_step sv s s'"
  by (auto simp: handleTelemetry_def result_eqs write_charges_undisturbed split: option.splits prod.splits
      intro!: server_step.telemetry [where earlier = s and s = s])

lemma handleMetrics_step:
  "handleMetrics (sv_pseudonym sv) (sv_catalog sv) now s who = Inr s' \<Longrightarrow> server_step sv s s'"
  by (auto simp: handleMetrics_def result_eqs write_charges_undisturbed intro: server_step.metrics)

section \<open>What a row may say\<close>

text \<open>An attested key: its own id, a whole run, and the gateway's environment.\<close>

definition sound_mint :: "string \<Rightarrow> string \<Rightarrow> minted_credential \<Rightarrow> bool" where
  "sound_mint environment key m \<longleftrightarrow>
     mc_KeySHA256 m = key \<and> gatewayKeyID key \<and> mc_Environment m = environment \<and> environment \<noteq> [] \<and>
     mc_Repository m \<noteq> [] \<and> mc_RunID m \<noteq> [] \<and> mc_RunAttempt m \<noteq> []"

text \<open>The row's credential is a key minted for the row's own repository, run and attempt.\<close>

definition minted_for :: "(string \<rightharpoonup> minted_credential) \<Rightarrow> stored_row \<Rightarrow> string \<Rightarrow> minted_credential \<Rightarrow> bool" where
  "minted_for minted r key m \<longleftrightarrow>
     SubAccountID (sw_document r) = Some key \<and> minted key = Some m \<and> sw_repo r = Some (mc_Repository m) \<and>
     sw_run r = Some (mc_RunID m) \<and> sw_attempt r = Some (mc_RunAttempt m)"

definition sound_row :: "(string \<rightharpoonup> minted_credential) \<Rightarrow> stored_row \<Rightarrow> bool" where
  "sound_row minted r \<longleftrightarrow>
     Check (sw_document r) = Inr () \<and> sw_currency r = ''USD'' \<and> plain_amount (sw_list_cost r) \<and>
     sw_source r \<noteq> sourceProviderReport \<and>
     (sw_identity r = identityToken \<and> sw_grade r \<in> {gradeExact, gradeWindowed} \<or>
      sw_identity r = identityNone \<and> sw_grade r = gradeNone \<and> sw_enforcement r = enforcementNone \<and>
        sw_credential_basis r \<noteq> Some CredentialMinted) \<and>
     (sw_grade r = gradeExact \<longrightarrow> sw_pr r \<noteq> None \<and> sw_sha r \<noteq> None \<and> sw_credential_basis r = Some CredentialMinted) \<and>
     (sw_credential_basis r = Some CredentialMinted \<longrightarrow> (\<exists>key m. minted_for minted r key m)) \<and>
     (sw_enforcement r = enforcementGateway \<longrightarrow> OvershootBound (sw_document r) \<noteq> None)"

definition sound_ledger :: "string \<Rightarrow> ledger \<Rightarrow> bool" where
  "sound_ledger environment s \<longleftrightarrow>
     distinct (ids (lg_rows s)) \<and> list_all (sound_row (lg_minted s)) (lg_rows s) \<and>
     (\<forall>k m. lg_minted s k = Some m \<longrightarrow> sound_mint environment k m) \<and>
     distinct (map fst (lg_spend s)) \<and>
     list_all (\<lambda>ku. lg_minted s (fst ku) \<noteq> None \<and> plain_amount (snd ku)) (lg_spend s)"

section \<open>Lemmas\<close>

lemma sound_row_mono: "sound_row minted r \<Longrightarrow> minted \<subseteq>\<^sub>m minted' \<Longrightarrow> sound_row minted' r"
  by (auto simp: sound_row_def minted_for_def map_le_def dom_def)

lemma store_failed_eq: "store_failed r = Inr x \<longleftrightarrow> r = Inr x"
  by (simp add: store_failed_def split: sum.split)

lemma Ingest_frame:
  assumes "Ingest s b = Inr (s', rc)"
  shows "lg_minted s' = lg_minted s \<and> lg_spend s' = lg_spend s \<and>
    (\<exists>rows. columnsOf (ba_Records b) = Inr rows \<and> lg_rows s' = insertRows (lg_rows s) rows)"
proof -
  obtain rows where "columnsOf (ba_Records b) = Inr rows" and w: "(s', rc) = writeBatch s b (insertRows (lg_rows s) rows)"
    using assms by (auto simp: Ingest_eq result_eqs)
  moreover have "s' = fst (writeBatch s b (insertRows (lg_rows s) rows))" using arg_cong [OF w, of fst] by simp
  ultimately show ?thesis by simp
qed

lemma in_insertRows: "r \<in> set (insertRows t rs) \<Longrightarrow> r \<in> set t \<or> r \<in> set rs"
  by (induction t rs rule: insertRows.induct) (auto split: if_splits)

lemma in_keepSpend:
  "(k, d) \<in> set (keepSpend m key usd) \<Longrightarrow> (k, d) \<in> set m \<or> k = key \<and> d = usd"
  by (induction m key usd rule: keepSpend.induct) (auto split: if_splits)

text \<open>A row the service writes is sound.\<close>

lemma written_row_sound:
  assumes rec: "charge_record ps cat now who (provenCredentials earlier who cs) c = Inr rec" "columns_add rec = Inr r"
    and earlier: "lg_minted earlier \<subseteq>\<^sub>m minted" and mints: "\<forall>k m. minted k = Some m \<longrightarrow> sound_mint environment k m"
    and source: "sc_source c \<noteq> sourceProviderReport"
  shows "sound_row minted r"
proof -
  let ?proven = "provenCredentials earlier who cs"
  obtain j where j: "join_charge ps c who ?proven = Inr j" "Check (sw_document r) = Inr ()"
    "sw_currency r = ''USD''" "sw_source r = sc_source c" "sw_grade r = jr_grade j"
    "sw_identity r = jr_identity j" "sw_enforcement r = enforcementOf c j" "sw_repo r = optional (jr_repo j)"
    "sw_pr r = optional (jr_pr j)" "sw_sha r = optional (jr_sha j)" "sw_run r = optional (jr_run j)"
    "sw_attempt r = optional (jr_attempt j)" "sw_credential_basis r = optional (jr_credentialBasis j)"
    "SubAccountID (sw_document r) = optional (sc_credential c)" "OvershootBound (sw_document r) = overshootOf c j"
    "wf_decimal (sw_list_cost r)" "0 \<le> dval (sw_list_cost r)"
    using stored_charge [OF rec] by metis
  have bound: "enforcementOf c j = enforcementGateway \<longrightarrow> overshootOf c j \<noteq> None"
    by (simp add: overshootOf_def enforcementOf_def)
  have opt: "optional x = Some y \<longleftrightarrow> x = y \<and> y \<noteq> []" for x y :: string by (auto simp: optional_def)
  show ?thesis
  proof (cases "cl_identity who")
    case None
    have "\<not> ?proven k" for k using provenCredentials_iff [of earlier who cs k] None by simp
    then show ?thesis
      using join_without_token [OF None j(1)] basisOf_minted [of c ?proven] j source bound
      by (auto simp: sound_row_def plain_amount_def opt enforcementOf_def)
  next
    case (Some i)
    note joined = join_with_token [OF Some j(1)]
    have mint: "\<exists>key m. minted_for minted r key m" if "basisOf c ?proven = CredentialMinted"
    proof -
      have names: "namesCredential c" "?proven (sc_credential c)" using that by (simp_all add: basisOf_minted)
      obtain m where m: "lg_minted earlier (sc_credential c) = Some m" "SameRun m (run_of i)"
        using names(2) Some unfolding provenCredentials_iff by auto
      have now: "minted (sc_credential c) = Some m"
        using earlier m(1) by (auto simp: map_le_def dom_def)
      then have "sound_mint environment (sc_credential c) m" using mints by blast
      then have "minted_for minted r (sc_credential c) m"
        using now m(2) names(1) joined j
        by (auto simp: minted_for_def sound_mint_def SameRun_def run_of_def opt namesCredential_def)
      then show ?thesis by blast
    qed
    then show ?thesis
      using joined j source bound
      by (auto simp: sound_row_def plain_amount_def optional_def)
  qed
qed

lemma written_rows_sound:
  assumes w: "write_read_at sv now earlier s who cs drops = Inr (s', rc)" and earlier: "lg_minted earlier \<subseteq>\<^sub>m lg_minted s"
    and source: "\<forall>c\<in>set cs. sc_source c \<noteq> sourceProviderReport" and sound: "sound_ledger (sv_environment sv) s"
  shows "sound_ledger (sv_environment sv) s' \<and> lg_minted s' = lg_minted s"
proof -
  obtain recs where recs: "rtraverse (charge_record (sv_pseudonym sv) (sv_catalog sv) now who (provenCredentials earlier who cs)) cs = Inr recs"
    and ingest: "Ingest s \<lparr>ba_Records = recs, ba_Drops = drops, ba_Day = now\<rparr> = Inr (s', rc)"
    using w by (auto simp: write_read_at_def result_eqs store_failed_eq)
  obtain rows where rows: "columnsOf recs = Inr rows" "lg_rows s' = insertRows (lg_rows s) rows"
    and frame: "lg_minted s' = lg_minted s" "lg_spend s' = lg_spend s"
    using Ingest_frame [OF ingest] by auto
  have "sound_row (lg_minted s) r" if r: "r \<in> set rows" for r
  proof -
    obtain rec where rec: "rec \<in> set recs" "columns_add rec = Inr r"
      using rtraverse_in [OF rows(1) [unfolded columnsOf_def] r] by blast
    obtain c where "c \<in> set cs" "charge_record (sv_pseudonym sv) (sv_catalog sv) now who (provenCredentials earlier who cs) c = Inr rec"
      using rtraverse_in [OF recs rec(1)] by blast
    then show ?thesis
      using written_row_sound [OF _ rec(2) earlier, of "sv_pseudonym sv" "sv_catalog sv" now who cs c "sv_environment sv"] source sound
      by (auto simp: sound_ledger_def)
  qed
  then have "\<forall>r\<in>set (lg_rows s'). sound_row (lg_minted s) r"
    using sound in_insertRows [of _ "lg_rows s" rows] unfolding rows(2) sound_ledger_def list_all_iff by blast
  then show ?thesis
    using sound frame insertRows_distinct [of "lg_rows s" rows] rows(2)
    by (simp add: sound_ledger_def list_all_iff)
qed


lemma telemetry_sources:
  assumes "telemetry_charges sha256 now b = (cs, drops, rejected)" "c \<in> set cs"
  shows "sc_source c = sourceTelemetry"
proof -
  have charge: "sc_source (fst (chargeOf sha256 now u n drops)) = sourceTelemetry" for u n drops
    by (simp add: chargeOf_def Let_def case_prod_beta)
  have usage: "\<forall>c\<in>set (fst (usage_charges sha256 now u ns drops)). sc_source c = sourceTelemetry" for u ns drops
    by (induction ns arbitrary: drops) (simp_all add: Let_def case_prod_beta charge)
  have all: "\<forall>c\<in>set (fst (chargesOf sha256 now us drops)). sc_source c = sourceTelemetry" for us drops
  proof (induction us arbitrary: drops)
    case Nil
    show ?case by simp
  next
    case (Cons u us)
    then show ?case using usage [of u "ou_Counts u" drops] by (simp add: Let_def case_prod_beta ball_Un)
  qed
  have "cs = fst (chargesOf sha256 now (ob_Usage b) (ob_Drops b))"
    using arg_cong [OF assms(1), of fst] by (simp add: telemetry_charges_def Let_def case_prod_beta)
  then show ?thesis using assms(2) all [of "ob_Usage b" "ob_Drops b"] by simp
qed

lemma attested_sound:
  assumes "handleCredentials decode environment s who body = Inr s'" "sound_ledger environment s"
  shows "sound_ledger environment s' \<and> lg_minted s \<subseteq>\<^sub>m lg_minted s'"
proof -
  obtain m where m: "readAttestation decode environment who body = Inr m"
    using assms(1) by (auto simp: handleCredentials_def rbind_eq_Inr)
  have a: "Attest s m = Inr s'"
    using assms(1) by (auto simp: handleCredentials_def m split: sum.splits store_error.splits)
  have mint: "sound_mint environment (mc_KeySHA256 m) m"
    using m by (auto simp: readAttestation_def sound_mint_def run_mismatch_def split: option.splits if_splits)
  have grows: "lg_minted s \<subseteq>\<^sub>m lg_minted s'" using attest_first_run_stays(2) [OF a] by (auto simp: map_le_def dom_def)
  have frame: "lg_rows s' = lg_rows s" "lg_spend s' = lg_spend s"
    and minted: "lg_minted s' k = Some x \<Longrightarrow> lg_minted s k = Some x \<or> k = mc_KeySHA256 m \<and> x = m" for k x
    using a by (auto simp: Attest_def split: option.splits if_splits)
  have "lg_minted s' k \<noteq> None" if "lg_minted s k \<noteq> None" for k using grows that by (auto simp: map_le_def dom_def)
  then show ?thesis
    using assms(2) mint minted grows sound_row_mono
    by (fastforce simp: sound_ledger_def frame list_all_iff)
qed

lemma spend_sound:
  assumes "handleSpend decode environment keeps_spend s who key body = Inr s'" "sound_ledger environment s"
  shows "sound_ledger environment s' \<and> lg_minted s' = lg_minted s"
proof -
  obtain st where st: "readSpend decode environment keeps_spend who key body = Inr st"
    using assms(1) by (auto simp: handleSpend_def rbind_eq_Inr)
  obtain stored where stored: "MintedCredentials s [mc_KeySHA256 (ss_credential st)] (mc_KeySHA256 (ss_credential st)) = Some stored"
    "SameRun stored (ss_credential st)"
    using assms(1) by (auto simp: handleSpend_def st split: option.splits if_splits)
  have a: "AttestSpend s stored (ss_usd st) = Inr s'"
    using assms(1) by (auto simp: handleSpend_def st stored split: sum.splits store_error.splits)
  have usd: "plain_amount (ss_usd st)"
    using st Parse_plain by (auto simp: readSpend_def read_amount_def result_eqs split: option.splits if_splits sum.splits)
  have s': "s' = s\<lparr>lg_spend := keepSpend (lg_spend s) (mc_KeySHA256 stored) (ss_usd st)\<rparr>"
    and known: "lg_minted s (mc_KeySHA256 stored) \<noteq> None"
    using a by (auto simp: AttestSpend_def split: option.splits if_splits)
  show ?thesis
    using assms(2) usd known in_keepSpend [of _ _ "lg_spend s" "mc_KeySHA256 stored" "ss_usd st"]
      keepSpend_keys [of "lg_spend s" "mc_KeySHA256 stored" "ss_usd st"]
    by (fastforce simp: sound_ledger_def s' list_all_iff)
qed

lemma step_sound:
  assumes "server_step sv s s'" "sound_ledger (sv_environment sv) s"
  shows "sound_ledger (sv_environment sv) s' \<and> lg_minted s \<subseteq>\<^sub>m lg_minted s'"
  using assms(1)
proof cases
  case (rows decode runes body cs drops earlier now who rc)
  then show ?thesis using written_rows_sound [OF rows(3,2) _ assms(2)] parseRows_fields [OF rows(1)] by auto
next
  case (telemetry sha256 now b cs drops rejected earlier who rc)
  then show ?thesis using written_rows_sound [OF telemetry(3,2) _ assms(2)] telemetry_sources [OF telemetry(1)] by auto
next
  case (metrics now who rc)
  then show ?thesis using written_rows_sound [OF metrics _ _ assms(2)] by auto
next
  case credentials
  then show ?thesis using attested_sound assms(2) by blast
next
  case spend
  then show ?thesis using spend_sound [OF _ assms(2)] by auto
qed

lemma reachable_sound: "reachable sv s \<Longrightarrow> sound_ledger (sv_environment sv) s"
proof (induction rule: reachable.induct)
  case start
  show ?case by (simp add: sound_ledger_def empty_ledger_def)
next
  case (step s s')
  then show ?case using step_sound by blast
qed

end
