(* ===== verification/ServerBudget.thy ===== *)
theory ServerBudget
  imports ServerLedger
begin

text \<open>
  What the service says of a pull request over a reachable ledger: the lines against the rows they
  group, the budget and its evidence, and the verdict. A run through the service (a key attested, a
  row sent, the key's spend attested) closes the theory as the instance its properties hold at.
\<close>

section \<open>Lines\<close>

lemma row_in_line:
  "r \<in> set rs \<Longrightarrow> \<exists>r' rows. line_of r' rows \<in> set (group_lines rs) \<and> group_of r' = group_of r"
proof (induction rs rule: group_lines.induct)
  case 1
  then show ?case by simp
next
  case (2 r0 rs)
  show ?case
  proof (cases "group_of r = group_of r0")
    case True
    then show ?thesis
      by (intro exI [of _ r0] exI [of _ "r0 # filter (\<lambda>x. group_of x = group_of r0) rs"]) simp
  next
    case False
    then have "r \<in> set (filter (\<lambda>x. group_of x \<noteq> group_of r0) rs)" using "2.prems" by auto
    from "2.IH" [OF this] show ?thesis by auto
  qed
qed

lemma same_group:
  "group_of x = group_of r \<Longrightarrow>
     budget_eligible x = budget_eligible r \<and> sw_currency x = sw_currency r \<and> sw_identity x = sw_identity r \<and>
     sw_source x = sw_source r"
  by (simp add: group_of_def)

lemma eligible_counted:
  "sum_list (map li_Rows (filter li_BudgetEligible (group_lines rs))) = int (length (filter budget_eligible rs))"
proof -
  have "sum_list (map li_Rows (filter li_BudgetEligible (group_lines rs))) = sum_list (map (\<lambda>_. 1) (filter budget_eligible rs))"
  proof (rule group_lines_total [where all = rs])
    show "\<forall>r rows. set rows \<subseteq> set rs \<longrightarrow> li_Rows (line_of r rows) = sum_list (map (\<lambda>_. 1) rows)"
      by (simp add: line_of_def sum_list_triv)
    show "\<forall>r rows. li_BudgetEligible (line_of r rows) = budget_eligible r" by (simp add: line_of_def)
    show "\<forall>r x. group_of x = group_of r \<longrightarrow> budget_eligible x = budget_eligible r" using same_group by blast
  qed simp
  then show ?thesis by (simp add: sum_list_triv)
qed

lemma eligible_cost:
  assumes "plain_rows rs" and "\<forall>r rows. P (line_of r rows) = Q r" "\<forall>r x. group_of x = group_of r \<longrightarrow> Q x = Q r"
  shows "sum_list (map (\<lambda>l. dval (li_ListCost l)) (filter (\<lambda>l. P l \<and> li_Currency l = code) (group_lines rs))) =
    sum_list (map (\<lambda>r. dval (sw_list_cost r)) (filter (\<lambda>r. Q r \<and> sw_currency r = code) rs))"
proof (rule group_lines_total [where all = rs])
  show "\<forall>r rows. set rows \<subseteq> set rs \<longrightarrow> dval (li_ListCost (line_of r rows)) = sum_list (map (\<lambda>r. dval (sw_list_cost r)) rows)"
    using line_cost plain_rows_subset [OF assms(1)] by blast
  show "\<forall>r rows. (P (line_of r rows) \<and> li_Currency (line_of r rows) = code) = (Q r \<and> sw_currency r = code)"
    using assms(2) by (simp add: line_of_def)
  show "\<forall>r x. group_of x = group_of r \<longrightarrow> (Q x \<and> sw_currency x = code) = (Q r \<and> sw_currency r = code)"
    using assms(3) same_group by metis
qed simp

lemma line_sums_total:
  assumes "\<forall>l\<in>set ls. wf_decimal (li_ListCost l)"
  shows "(case map_of (line_sums key ls) k of None \<Rightarrow> 0 | Some d \<Rightarrow> dval d) =
      sum_list (map (\<lambda>l. dval (li_ListCost l)) (filter (\<lambda>l. key l = k) ls))"
    and "distinct (map fst (line_sums key ls))" and "fst ` set (line_sums key ls) = key ` set ls"
  unfolding line_sums_def using dec.keyed_total [of ls li_ListCost "[]" key k] assms
    distinct_keyed_fold [of "[]" key "\<lambda>_. zero_decimal" "\<lambda>l d. Add d (li_ListCost l)" ls]
    keys_keyed_fold [of key "\<lambda>_. zero_decimal" "\<lambda>l d. Add d (li_ListCost l)" "[]" ls]
  by simp_all

text \<open>When every line is in one currency, its entry is the only one.\<close>

lemma line_sums_single:
  assumes "\<forall>l\<in>set ls. wf_decimal (li_ListCost l) \<and> key l = k"
  obtains d where "line_sums key ls = (if ls = [] then [] else [(k, d)])" "dval d = sum_list (map (\<lambda>l. dval (li_ListCost l)) ls)"
proof (cases "ls = []")
  case True
  then show ?thesis using that [of zero_decimal] by (simp add: line_sums_def)
next
  case False
  have wf: "\<forall>l\<in>set ls. wf_decimal (li_ListCost l)" using assms by blast
  note sums = line_sums_total [OF wf, of key]
  have keys: "fst ` set (line_sums key ls) = {k}" using sums(3) assms False by (cases ls) auto
  have "length (line_sums key ls) = 1"
    using distinct_card [OF sums(2)] keys by simp
  then obtain d where d: "line_sums key ls = [(k, d)]" using keys by (cases "line_sums key ls") auto
  have "filter (\<lambda>l. key l = k) ls = ls" using assms by (simp add: filter_id_conv)
  then show ?thesis using sums(1) [of k] d False that [of d] by simp
qed

section \<open>Measured rows\<close>

lemma all_chosen:
  assumes "length (filter P xs) = length (filter Q xs)" "\<forall>x. P x \<longrightarrow> Q x" "x \<in> set xs" "Q x"
  shows "P x"
proof (rule ccontr)
  assume "\<not> P x"
  have "filter P xs = filter P (filter Q xs)" using assms(2) by (auto simp: filter_filter intro: filter_cong)
  moreover have "length (filter P (filter Q xs)) < length (filter Q xs)"
    by (rule length_filter_less [of x]) (use assms \<open>\<not> P x\<close> in auto)
  ultimately show False using assms(1) by simp
qed

lemma keyed_sum:
  assumes "distinct (map fst m)"
  shows "sum_list (map (\<lambda>kv. f (snd kv)) (filter (\<lambda>kv. fst kv \<in> K) m)) =
    (\<Sum>k\<in>K \<inter> fst ` set m. (f (the (map_of m k)) :: 'v::comm_monoid_add))"
  using assms
proof (induction m)
  case Nil
  then show ?case by simp
next
  case (Cons kv m)
  have new: "fst kv \<notin> fst ` set m" and d: "distinct (map fst m)" using Cons.prems by auto
  have same: "(\<Sum>k\<in>K \<inter> fst ` set m. f (the (map_of (kv # m) k))) = (\<Sum>k\<in>K \<inter> fst ` set m. f (the (map_of m k)))"
    by (rule sum.cong) (use new in \<open>auto simp: image_iff\<close>)
  show ?case
  proof (cases "fst kv \<in> K")
    case True
    then have "K \<inter> fst ` set (kv # m) = insert (fst kv) (K \<inter> fst ` set m)" by auto
    then show ?thesis using True new Cons.IH [OF d] same by (cases kv) simp
  next
    case False
    then have "K \<inter> fst ` set (kv # m) = K \<inter> fst ` set m" by auto
    then show ?thesis using False Cons.IH [OF d] same by simp
  qed
qed

definition eligible_rows :: "ledger \<Rightarrow> string \<Rightarrow> string \<Rightarrow> stored_row list" where
  "eligible_rows s repo pr = filter budget_eligible (pull_request_rows s repo pr)"

lemma sound_pull_request:
  assumes "sound_ledger environment s" "r \<in> set (pull_request_rows s repo pr)"
  shows "sound_row (lg_minted s) r"
  using assms by (auto simp: sound_ledger_def list_all_iff pull_request_rows_def)

lemma sound_plain_rows: "sound_ledger environment s \<Longrightarrow> plain_rows (pull_request_rows s repo pr)"
  using sound_pull_request [of environment s _ repo pr] by (auto simp: plain_rows_def sound_row_def plain_amount_def)

text \<open>The lines of a sound ledger's pull request.\<close>

lemma sound_lines:
  assumes "sound_ledger environment s" "l \<in> set (PullRequest s repo pr)"
  shows "li_Currency l = ''USD'' \<and> li_CostSource l \<noteq> sourceProviderReport \<and> plain_amount (li_ListCost l)"
proof -
  obtain r rows where l: "l = line_of r rows" "r \<in> set (pull_request_rows s repo pr)"
      "set rows \<subseteq> set (pull_request_rows s repo pr)"
    using in_group_lines assms(2) unfolding PullRequest_def by blast
  have "sound_row (lg_minted s) r" using sound_pull_request [OF assms(1) l(2)] .
  moreover have "plain_amount (li_ListCost l)"
    using line_cost [where r = r, OF plain_rows_subset [OF sound_plain_rows [OF assms(1)] l(3)]] by (simp add: l(1) plain_amount_def)
  ultimately show ?thesis by (simp add: l(1) line_of_def sound_row_def)
qed

lemma no_eligible_line: "filter li_BudgetEligible (PullRequest s repo pr) = [] \<longleftrightarrow> eligible_rows s repo pr = []"
proof
  assume none: "filter li_BudgetEligible (PullRequest s repo pr) = []"
  have "\<not> budget_eligible r" if r: "r \<in> set (pull_request_rows s repo pr)" for r
  proof -
    obtain r' rows where l: "line_of r' rows \<in> set (PullRequest s repo pr)" "group_of r' = group_of r"
      using row_in_line [OF r] unfolding PullRequest_def by blast
    then have "\<not> budget_eligible r'" using none by (auto simp: filter_empty_conv line_of_def)
    then show ?thesis using same_group [OF l(2)] by simp
  qed
  then show "eligible_rows s repo pr = []" by (simp add: eligible_rows_def filter_empty_conv)
next
  assume none: "eligible_rows s repo pr = []"
  have "\<not> li_BudgetEligible l" if l: "l \<in> set (PullRequest s repo pr)" for l
  proof -
    obtain r rows where "l = line_of r rows" "r \<in> set (pull_request_rows s repo pr)"
      using in_group_lines l unfolding PullRequest_def by blast
    then show ?thesis using none by (simp add: line_of_def eligible_rows_def filter_empty_conv)
  qed
  then show "filter li_BudgetEligible (PullRequest s repo pr) = []" by (simp add: filter_empty_conv)
qed

lemma budget_spend:
  assumes "sound_ledger environment s"
  shows "\<exists>d. bv_Spend (budgetOf (PullRequest s repo pr) m) =
      (if eligible_rows s repo pr = [] then [] else [(''USD'', String d)]) \<and>
    dval d = sum_list (map (\<lambda>r. dval (sw_list_cost r)) (eligible_rows s repo pr))"
proof -
  let ?ls = "PullRequest s repo pr" and ?rs = "pull_request_rows s repo pr"
  let ?el = "filter li_BudgetEligible ?ls"
  have usd: "\<forall>l\<in>set ?el. wf_decimal (li_ListCost l) \<and> li_Currency l = ''USD''"
    using sound_lines [OF assms] by (auto simp: plain_amount_def)
  obtain d where d: "line_sums li_Currency ?el = (if ?el = [] then [] else [(''USD'', d)])"
    "dval d = sum_list (map (\<lambda>l. dval (li_ListCost l)) ?el)"
    using line_sums_single [OF usd] .
  have cost: "sum_list (map (\<lambda>l. dval (li_ListCost l)) ?el) =
      sum_list (map (\<lambda>r. dval (sw_list_cost r)) (eligible_rows s repo pr))"
    unfolding PullRequest_def eligible_rows_def
  proof (rule group_lines_total [where all = ?rs])
    show "\<forall>r rows. set rows \<subseteq> set ?rs \<longrightarrow> dval (li_ListCost (line_of r rows)) = sum_list (map (\<lambda>r. dval (sw_list_cost r)) rows)"
      using line_cost plain_rows_subset [OF sound_plain_rows [OF assms]] by blast
    show "\<forall>r rows. li_BudgetEligible (line_of r rows) = budget_eligible r" by (simp add: line_of_def)
    show "\<forall>r x. group_of x = group_of r \<longrightarrow> budget_eligible x = budget_eligible r" using same_group by blast
  qed simp
  have spend: "bv_Spend (budgetOf ?ls m) = map (\<lambda>(code, d). (code, String d)) (line_sums li_Currency ?el)"
    by (simp add: budgetOf_def Let_def)
  show ?thesis
    using d(2) cost no_eligible_line [of s repo pr] by (intro exI [of _ d]) (simp add: spend d(1))
qed

lemma gateway_counts_every_row:
  assumes "bv_Basis (budgetOf (PullRequest s repo pr) (measuredSpend keeps s repo pr)) = budgetBasisGateway"
    and "r \<in> set (eligible_rows s repo pr)"
  shows "spend_key s r \<noteq> None"
proof -
  let ?rs = "pull_request_rows s repo pr"
  have "ms_rows (measuredSpend keeps s repo pr) = sum_list (map li_Rows (filter li_BudgetEligible (PullRequest s repo pr)))"
    and keeps: "keeps"
    using assms(1) by (auto simp: budgetOf_def Let_def measuredSpend_def split: if_splits)
  then have "length (filter (\<lambda>r. spend_key s r \<noteq> None) ?rs) = length (filter budget_eligible ?rs)"
    using eligible_counted [of ?rs] counted_length [of s repo pr]
    by (simp add: measuredSpend_def GatewaySpend_def Let_def PullRequest_def)
  then show ?thesis
    by (rule all_chosen) (use assms(2) in \<open>auto simp: spend_key_iff eligible_rows_def\<close>)
qed

lemma set_map_filter: "set (List.map_filter f xs) = {y. \<exists>x\<in>set xs. f x = Some y}"
  by (induction xs) (auto simp: List.map_filter_simps split: option.split)

lemma counted_keys:
  assumes "\<forall>r\<in>set (eligible_rows s repo pr). spend_key s r \<noteq> None"
  shows "set (counted s repo pr) = {key. \<exists>r\<in>set (eligible_rows s repo pr). SubAccountID (sw_document r) = Some key}"
proof -
  have "spend_key s r = Some key \<longleftrightarrow> budget_eligible r \<and> SubAccountID (sw_document r) = Some key"
    if "r \<in> set (pull_request_rows s repo pr)" for r key
    using assms that by (auto simp: eligible_rows_def spend_key_iff)
  moreover have "set (counted s repo pr) = {key. \<exists>r\<in>set (pull_request_rows s repo pr). spend_key s r = Some key}"
    by (simp add: counted_def set_map_filter)
  ultimately show ?thesis by (auto simp: eligible_rows_def)
qed

lemma gateway_total:
  assumes "sound_ledger environment s" "\<forall>r\<in>set (eligible_rows s repo pr). spend_key s r \<noteq> None"
  shows "dval (snd (GatewaySpend s repo pr)) =
    (\<Sum>key\<in>{key. \<exists>r\<in>set (eligible_rows s repo pr). SubAccountID (sw_document r) = Some key}. dval (the (map_of (lg_spend s) key)))"
proof -
  let ?K = "set (counted s repo pr)"
  have "list_all wf_decimal (map snd (filter (\<lambda>ku. fst ku \<in> ?K) (lg_spend s)))"
    using assms(1) by (auto simp: sound_ledger_def list_all_iff plain_amount_def)
  then have "dval (snd (GatewaySpend s repo pr)) = sum_list (map (\<lambda>ku. dval (snd ku)) (filter (\<lambda>ku. fst ku \<in> ?K) (lg_spend s)))"
    using exact_sum_val by (simp add: GatewaySpend_def Let_def comp_def)
  also have "\<dots> = (\<Sum>k\<in>?K \<inter> fst ` set (lg_spend s). dval (the (map_of (lg_spend s) k)))"
    by (rule keyed_sum) (use assms(1) in \<open>simp add: sound_ledger_def\<close>)
  also have "?K \<inter> fst ` set (lg_spend s) = ?K"
  proof -
    have "k \<in> fst ` set (lg_spend s)" if k: "k \<in> ?K" for k
    proof -
      obtain r where "spend_key s r = Some k" using k by (auto simp: counted_def set_map_filter)
      then have "map_of (lg_spend s) k \<noteq> None" by (auto simp: spend_key_iff)
      then show ?thesis by (simp add: map_of_eq_None_iff)
    qed
    then show ?thesis by blast
  qed
  finally show ?thesis unfolding counted_keys [OF assms(2)] .
qed

lemma no_reports:
  assumes "sound_ledger environment s" and some: "filter li_BudgetEligible (PullRequest s repo pr) \<noteq> []"
  shows "\<not> list_all (\<lambda>l. li_CostSource l = sourceProviderReport) (filter li_BudgetEligible (PullRequest s repo pr))"
proof -
  obtain l where "l \<in> set (filter li_BudgetEligible (PullRequest s repo pr))" using some by (metis hd_in_set)
  moreover from this have "li_CostSource l \<noteq> sourceProviderReport" using sound_lines [OF assms(1), of l repo pr] by simp
  ultimately show ?thesis unfolding list_all_iff by blast
qed

lemma budget_evidence:
  assumes "sound_ledger environment s"
  shows "bv_Evidence (budgetOf (PullRequest s repo pr) m) \<longleftrightarrow> bv_Basis (budgetOf (PullRequest s repo pr) m) = budgetBasisGateway"
  using no_reports [OF assms] by (auto simp: budgetOf_def Let_def)

lemma mint_of_spend_key:
  assumes "sound_ledger environment s" "spend_key s r \<noteq> None"
  shows "\<exists>key m. minted_for (lg_minted s) r key m \<and> mc_Environment m = environment \<and> map_of (lg_spend s) key \<noteq> None"
proof -
  obtain key m where k: "minted_for (lg_minted s) r key m" "map_of (lg_spend s) key \<noteq> None"
    using assms(2) by (auto simp: spend_key_iff minted_for_def)
  then have "mc_Environment m = environment"
    using assms(1) by (auto simp: sound_ledger_def minted_for_def sound_mint_def)
  then show ?thesis using k by blast
qed

section \<open>Properties\<close>

text \<open>
  C17. What a row claims, it earned. In every ledger the service can reach, a row reads exact only when a
  CI token joined it, with its pull request and head commit, to a credential that a job in the
  gateway's environment attested as minted for the row's own repository, run and attempt. Without a
  token a row is unattributed, holds no enforcement and never counts toward a budget; a gateway
  pre-check always comes with its overshoot bound; every row passed the check; and no row claims to be
  a provider's report.
\<close>

theorem exact_rows_are_earned:
  assumes "reachable sv s" and "r \<in> set (lg_rows s)"
  shows "(sw_grade r = gradeExact \<longrightarrow> sw_identity r = identityToken \<and> sw_pr r \<noteq> None \<and> sw_sha r \<noteq> None \<and>
      (\<exists>key m. minted_for (lg_minted s) r key m \<and> mc_Environment m = sv_environment sv)) \<and>
    (sw_identity r \<noteq> identityToken \<longrightarrow> sw_grade r = gradeNone \<and> sw_enforcement r = enforcementNone \<and> \<not> budget_eligible r) \<and>
    (sw_enforcement r = enforcementGateway \<longrightarrow> OvershootBound (sw_document r) \<noteq> None) \<and>
    Check (sw_document r) = Inr () \<and> sw_source r \<noteq> sourceProviderReport"
proof -
  have s: "sound_ledger (sv_environment sv) s" using reachable_sound [OF assms(1)] .
  then have r: "sound_row (lg_minted s) r" using assms(2) by (simp add: sound_ledger_def list_all_iff)
  have "mc_Environment m = sv_environment sv" if "minted_for (lg_minted s) r key m" for key m
    using s that by (auto simp: sound_ledger_def minted_for_def sound_mint_def)
  then show ?thesis using r by (auto simp: sound_row_def budget_eligible_def)
qed


lemma GatewaySpend_wf: "sound_ledger environment s \<Longrightarrow> wf_decimal (snd (GatewaySpend s repo pr))"
  using exact_sum_val [of "map snd (filter (\<lambda>ku. fst ku \<in> set (counted s repo pr)) (lg_spend s))"]
  by (auto simp: GatewaySpend_def Let_def sound_ledger_def list_all_iff plain_amount_def)

lemma ledger_lines_cost:
  assumes "sound_ledger environment s"
  shows "rows_usd (ledgerLines (PullRequest s repo pr)) =
    sum_list (map (\<lambda>r. dval (sw_list_cost r)) (pull_request_rows s repo pr))"
proof -
  let ?rs = "pull_request_rows s repo pr"
  have usd: "filter (\<lambda>r. sw_currency r = ''USD'') ?rs = ?rs"
    by (rule filter_True) (use sound_pull_request [OF assms] in \<open>auto simp: sound_row_def\<close>)
  have "rows_usd (ledgerLines (PullRequest s repo pr)) =
      sum_list (map (\<lambda>l. dval (li_ListCost l)) (filter (\<lambda>l. li_Currency l = ''USD'') (group_lines ?rs)))"
    by (simp add: rows_usd_def ledgerLines_def ledger_line_of_def PullRequest_def filter_map comp_def)
  also have "\<dots> = sum_list (map (\<lambda>r. dval (sw_list_cost r)) (filter (\<lambda>r. sw_currency r = ''USD'') ?rs))"
  proof (rule group_lines_total [where all = ?rs])
    show "\<forall>r rows. set rows \<subseteq> set ?rs \<longrightarrow> dval (li_ListCost (line_of r rows)) = sum_list (map (\<lambda>r. dval (sw_list_cost r)) rows)"
      using line_cost plain_rows_subset [OF sound_plain_rows [OF assms]] by blast
    show "\<forall>r rows. (li_Currency (line_of r rows) = ''USD'') = (sw_currency r = ''USD'')" by (simp add: line_of_def)
    show "\<forall>r x. group_of x = group_of r \<longrightarrow> (sw_currency x = ''USD'') = (sw_currency r = ''USD'')" by (auto dest: same_group)
  qed simp
  finally show ?thesis unfolding usd .
qed

lemma verified_rows:
  assumes "sound_ledger environment s" "list_all ll_Verified (ledgerLines (PullRequest s repo pr))"
    and r: "r \<in> set (pull_request_rows s repo pr)"
  shows "sw_identity r = identityToken \<and> r \<in> set (eligible_rows s repo pr)"
proof -
  obtain r' rows where l: "line_of r' rows \<in> set (PullRequest s repo pr)" "group_of r' = group_of r"
    using row_in_line [OF r] unfolding PullRequest_def by blast
  have "li_RunIdentity (line_of r' rows) = identityToken"
    using assms(2) l(1) by (auto simp: ledgerLines_def ledger_line_of_def list_all_iff)
  then have token: "sw_identity r = identityToken" using same_group [OF l(2)] by (simp add: line_of_def)
  moreover have "sound_row (lg_minted s) r" using sound_pull_request [OF assms(1) r] .
  ultimately have "budget_eligible r" by (auto simp: sound_row_def budget_eligible_def)
  then show ?thesis using token r by (simp add: eligible_rows_def)
qed


section \<open>A run through the service\<close>

text \<open>A job in the gateway's environment attests a key, the run sends a row, and a closing job attests the key's spend.\<close>

definition sample_service :: service where
  "sample_service =
     \<lparr>sv_catalog = sample_catalog, sv_environment = ''gateway'', sv_keeps_spend = True, sv_pseudonym = (\<lambda>_ _. [])\<rparr>"

definition sample_key :: string where
  "sample_key = replicate 64 (CHR ''b'')"

definition sample_identity :: identity where
  "sample_identity =
     \<lparr>id_Host = ''github.com'', id_Owner = ''acme'', id_Repository = ''github.com/acme/app'', id_RunID = ''5'',
      id_RunAttempt = ''1'', id_CommitSHA = replicate 40 (CHR ''c''), id_CommitIsHead = True, id_Actor = ''ann'',
      id_Event = ''pull_request'', id_PullRequest = ''7'', id_Environment = ''gateway''\<rparr>"

definition sample_caller :: caller where
  "sample_caller = \<lparr>cl_tenant = sample_tenant, cl_identity = Some sample_identity\<rparr>"

definition sample_attestation :: attestation where
  "sample_attestation = \<lparr>at_KeyID = sample_key, at_Repository = ''github.com/Acme/App'', at_RunID = ''5'', at_RunAttempt = ''1''\<rparr>"

definition sample_columns :: columns where
  "sample_columns =
     [(''x_CostroidRowId'', JString (replicate 64 (CHR ''a''))), (''SkuId'', JString ''anthropic/m/output''),
      (''SkuMeter'', JString ''output''), (''ConsumedQuantity'', JString ''1500''), (''ListCost'', JString ''0''),
      (''ChargePeriodStart'', JString ''2026-08-01T00:00:00Z''), (''ChargePeriodEnd'', JString ''2026-08-01T00:00:09Z''),
      (''SubAccountId'', JString sample_key),
      (''Tags'', JObject [(''costroid/model'', JString ''m''), (''costroid/agent'', JString ''claude-code''),
        (''costroid/cost_basis'', JString ''measured'')])]"

definition sample_spend :: spend_statement where
  "sample_spend =
     \<lparr>sa_Repository = ''github.com/acme/app'', sa_RunID = ''5'', sa_RunAttempt = ''1'', sa_Currency = ''USD'', sa_Spend = ''0.04''\<rparr>"

definition sample_now :: instant where
  "sample_now = go_date 2026 8 2"

definition sample_mint :: minted_credential where
  "sample_mint =
     \<lparr>mc_KeySHA256 = sample_key, mc_Repository = ''github.com/acme/app'', mc_RunID = ''5'', mc_RunAttempt = ''1'',
      mc_Environment = ''gateway''\<rparr>"

definition sample_parsed :: server_charge where
  "sample_parsed =
     blank_charge\<lparr>sc_rowID := replicate 64 (CHR ''a''), sc_provider := ''anthropic'', sc_model := ''m'', sc_class := ''output'',
       sc_serviceTier := ''standard'', sc_tokens := 1500, sc_start := go_date 2026 8 1,
       sc_end := go_date 2026 8 1 + 9 * second_ns, sc_credential := sample_key, sc_agent := ''claude-code'',
       sc_basis := ''measured''\<rparr>"

lemma attestation_read:
  "readAttestation (\<lambda>_. Some sample_attestation) ''gateway'' sample_caller [] = Inr sample_mint"
  by code_simp

lemma sample_columns_parsed: "parse_columns length sample_columns 1 = Inr (sample_parsed, [(''client_cost'', 1)])"
  by code_simp

text \<open>The row the service stores: that it succeeds is evaluated, and \<open>stored_charge\<close> says what it holds.\<close>

lemma sample_priced:
  "applyPrice sample_catalog sample_parsed =
     Inr (\<lparr>pr_SkuPriceID = ''sku'', pr_PricingUnit = ''1M Tokens'', pr_ListUnitPrice = \<lparr>coefficient = Some 25, scale = 0\<rparr>\<rparr>, [])"
  "ServiceProviderNameOf sample_catalog (sc_provider sample_parsed) = Inr ''Anthropic''"
  "Informational (sc_class sample_parsed) = False" "sc_start sample_parsed > sample_now + futureSkew \<longleftrightarrow> False"
  by code_simp+

lemma sample_joined:
  "map_sum (\<lambda>_. ()) (\<lambda>j. (jr_grade j, jr_identity j, jr_repo j, jr_pr j, jr_run j, jr_attempt j, jr_credentialBasis j))
     (join_charge (\<lambda>_ _. []) sample_parsed sample_caller (\<lambda>k. k = sample_key)) =
   Inr (gradeExact, identityToken, ''github.com/acme/app'', ''7'', ''5'', ''1'', ''minted'')"
  by code_simp

lemma sample_period:
  "map_option (\<lambda>_. ()) (parse_rfc3339 (format_instant (fst (ChargePeriod (sc_start sample_parsed) (sc_end sample_parsed))))) = Some ()"
  "map_option (\<lambda>_. ()) (parse_rfc3339 (format_instant (snd (ChargePeriod (sc_start sample_parsed) (sc_end sample_parsed))))) = Some ()"
  by code_simp+

lemma sample_written:
  "\<exists>rec r. charge_record (\<lambda>_ _. []) sample_catalog sample_now sample_caller (\<lambda>k. k = sample_key) sample_parsed = Inr rec \<and>
     columns_add rec = Inr r \<and> sw_list_cost r = \<lparr>coefficient = Some 375, scale = 4\<rparr> \<and> sw_model r = Some ''m''"
proof -
  obtain j where j: "join_charge (\<lambda>_ _. []) sample_parsed sample_caller (\<lambda>k. k = sample_key) = Inr j"
    using sample_joined by (cases "join_charge (\<lambda>_ _. []) sample_parsed sample_caller (\<lambda>k. k = sample_key)") auto
  let ?ch = "priced_charge sample_catalog sample_parsed j ''Anthropic''
    (Some \<lparr>pr_SkuPriceID = ''sku'', pr_PricingUnit = ''1M Tokens'', pr_ListUnitPrice = \<lparr>coefficient = Some 25, scale = 0\<rparr>\<rparr>, [])"
  have digits: "Scale \<lparr>coefficient = Some 25, scale = 0\<rparr> \<le> 6" by code_simp
  have "Check (NewRow ?ch) = Inr ()"
    by (rule NewRow_checked) (use digits in \<open>simp_all add: priced_charge_def sample_parsed_def wf_decimal_def dval_def\<close>)
  then obtain rec where rec: "charge_record (\<lambda>_ _. []) sample_catalog sample_now sample_caller (\<lambda>k. k = sample_key) sample_parsed = Inr rec"
    and row: "rd_Row rec = NewRow ?ch"
    by (simp add: charge_record_def sample_priced j price_charge_def if_checked Let_def)
  obtain a b where "parse_rfc3339 (ChargePeriodStart (NewRow ?ch)) = Some a" "parse_rfc3339 (ChargePeriodEnd (NewRow ?ch)) = Some b"
    using sample_period by (auto simp: priced_charge_def)
  then obtain r where r: "columns_add rec = Inr r" "sw_list_cost r = ListCost (NewRow ?ch)"
      "sw_model r = optional (tag_of (NewRow ?ch) ''costroid/model'')"
    by (simp add: columns_add_def row Let_def)
  have "quantity_of ?ch = DivPow10 (FromInt 1500) tokensPerMillion"
    by (simp add: quantity_of_def priced_charge_def sample_parsed_def)
  moreover have "Mul \<lparr>coefficient = Some 25, scale = 0\<rparr> (DivPow10 (FromInt 1500) tokensPerMillion) = \<lparr>coefficient = Some 375, scale = 4\<rparr>"
    by code_simp
  ultimately have "ListCost (NewRow ?ch) = \<lparr>coefficient = Some 375, scale = 4\<rparr>" by (simp add: priced_charge_def)
  moreover have "tag_of (NewRow ?ch) ''costroid/model'' = ''m''"
    by (simp add: tag_of_def priced_charge_def tagsOf_def sample_parsed_def)
  ultimately show ?thesis using rec r by (auto simp: optional_def)
qed

lemma sample_stored:
  obtains rec r where "charge_record (\<lambda>_ _. []) sample_catalog sample_now sample_caller (\<lambda>k. k = sample_key) sample_parsed = Inr rec"
    "columns_add rec = Inr r" "sw_grade r = gradeExact" "sw_identity r = identityToken" "sw_currency r = ''USD''"
    "sw_repo r = Some ''github.com/acme/app''" "sw_pr r = Some ''7''" "sw_run r = Some ''5''" "sw_attempt r = Some ''1''"
    "sw_credential_basis r = Some CredentialMinted" "SubAccountID (sw_document r) = Some sample_key" "sw_source r = sourceStream"
    "sw_list_cost r = \<lparr>coefficient = Some 375, scale = 4\<rparr>" "sw_model r = Some ''m''"
proof -
  obtain rec r where w: "charge_record (\<lambda>_ _. []) sample_catalog sample_now sample_caller (\<lambda>k. k = sample_key) sample_parsed = Inr rec"
    "columns_add rec = Inr r" and row: "sw_list_cost r = \<lparr>coefficient = Some 375, scale = 4\<rparr>" "sw_model r = Some ''m''"
    using sample_written by blast
  have parsed: "sc_credential sample_parsed = sample_key" "sc_source sample_parsed = sourceStream"
    by (simp_all add: sample_parsed_def blank_charge_def)
  have opt: "x \<noteq> [] \<Longrightarrow> optional x = Some x" for x :: string by (simp add: optional_def)
  have key: "sample_key \<noteq> []" by (simp add: sample_key_def)
  show thesis
    by (rule stored_charge [OF w], rule that [OF w])
      (use sample_joined key row in \<open>auto simp: sample_priced(3) parsed opt\<close>)
qed

lemma spend_read:
  "readSpend (\<lambda>_. Some sample_spend) ''gateway'' True sample_caller sample_key [] =
     Inr \<lparr>ss_credential = sample_mint\<lparr>mc_Environment := []\<rparr>, ss_usd = \<lparr>coefficient = Some 4, scale = 2\<rparr>\<rparr>"
  by code_simp

lemma sample_ledger_rows:
  "parseRows (\<lambda>_. Some sample_columns) length ''x'' = Inr ([sample_parsed], [(''client_cost'', 1)])"
  by (simp add: parseRows_def splitLines_def body_pieces_def maxLineBytes_def trim_space_def is_space_def parseRow_def
      sample_columns_parsed [simplified] merge_drops_def)

lemma sample_run:
  obtains s r where "reachable sample_service s" "lg_rows s = [r]" "lg_minted s = [sample_key \<mapsto> sample_mint]"
    "lg_spend s = [(sample_key, \<lparr>coefficient = Some 4, scale = 2\<rparr>)]"
    "sw_grade r = gradeExact" "sw_identity r = identityToken" "sw_currency r = ''USD''"
    "sw_repo r = Some ''github.com/acme/app''" "sw_pr r = Some ''7''" "sw_run r = Some ''5''" "sw_attempt r = Some ''1''"
    "sw_credential_basis r = Some CredentialMinted" "SubAccountID (sw_document r) = Some sample_key" "sw_source r = sourceStream"
    "sw_list_cost r = \<lparr>coefficient = Some 375, scale = 4\<rparr>" "sw_model r = Some ''m''"
proof -
  obtain rec r where r: "charge_record (\<lambda>_ _. []) sample_catalog sample_now sample_caller (\<lambda>k. k = sample_key) sample_parsed = Inr rec"
    "columns_add rec = Inr r" "sw_grade r = gradeExact" "sw_identity r = identityToken" "sw_currency r = ''USD''"
    "sw_repo r = Some ''github.com/acme/app''" "sw_pr r = Some ''7''" "sw_run r = Some ''5''" "sw_attempt r = Some ''1''"
    "sw_credential_basis r = Some CredentialMinted" "SubAccountID (sw_document r) = Some sample_key" "sw_source r = sourceStream"
    "sw_list_cost r = \<lparr>coefficient = Some 375, scale = 4\<rparr>" "sw_model r = Some ''m''"
    by (rule sample_stored)
  define s1 where "s1 = empty_ledger\<lparr>lg_minted := [sample_key \<mapsto> sample_mint]\<rparr>"
  have service: "sv_catalog sample_service = sample_catalog" "sv_environment sample_service = ''gateway''"
    "sv_keeps_spend sample_service = True" "sv_pseudonym sample_service = (\<lambda>_ _. [])"
    by (simp_all add: sample_service_def)
  have mint: "mc_KeySHA256 sample_mint = sample_key" by (simp add: sample_mint_def)
  have "handleCredentials (\<lambda>_. Some sample_attestation) ''gateway'' empty_ledger sample_caller [] = Inr s1"
    by (simp add: handleCredentials_def attestation_read Attest_def mint empty_ledger_def s1_def)
  then have one: "server_step sample_service empty_ledger s1"
    using server_step.credentials [of "\<lambda>_. Some sample_attestation" sample_service empty_ledger sample_caller "[]" s1]
    by (simp add: service)
  have key: "gatewayKeyID sample_key" by code_simp
  have parsed: "sc_credential sample_parsed = sample_key" "namesCredential sample_parsed"
    by (simp_all add: sample_parsed_def blank_charge_def namesCredential_def sample_key_def)
  have same: "SameRun sample_mint (run_of sample_identity)" by code_simp
  have proven: "provenCredentials s1 sample_caller [sample_parsed] = (\<lambda>k. k = sample_key)"
    using key parsed same
    by (auto simp: provenCredentials_iff s1_def sample_caller_def fun_eq_iff, auto simp: sample_identity_def)
  define b where "b = \<lparr>ba_Records = [rec], ba_Drops = [(''client_cost'', 1)], ba_Day = sample_now\<rparr>"
  define s2 where "s2 = fst (writeBatch s1 b [r])"
  have s2: "lg_rows s2 = [r]" "lg_minted s2 = [sample_key \<mapsto> sample_mint]" "lg_spend s2 = []"
    by (simp_all add: s2_def s1_def empty_ledger_def)
  have "write_read_at sample_service sample_now s1 s1 sample_caller [sample_parsed] [(''client_cost'', 1)] =
      Inr (s2, snd (writeBatch s1 b [r]))"
    by (simp add: write_read_at_def service proven r(1,2) store_failed_eq Ingest_eq columnsOf_def s2_def b_def [symmetric])
      (simp add: b_def s1_def empty_ledger_def)
  then have two: "server_step sample_service s1 s2" by (rule server_step.rows [OF sample_ledger_rows map_le_refl])
  define s3 where "s3 = s2\<lparr>lg_spend := [(sample_key, \<lparr>coefficient = Some 4, scale = 2\<rparr>)]\<rparr>"
  have run: "SameRun sample_mint sample_mint" "SameRun sample_mint (sample_mint\<lparr>mc_Environment := []\<rparr>)"
    by (simp_all add: SameRun_def)
  have "handleSpend (\<lambda>_. Some sample_spend) ''gateway'' True s2 sample_caller sample_key [] = Inr s3"
    by (simp add: handleSpend_def spend_read MintedCredentials_def mint s2 run AttestSpend_def dval_def s3_def)
  then have three: "server_step sample_service s2 s3"
    using server_step.spend [of "\<lambda>_. Some sample_spend" sample_service s2 sample_caller sample_key "[]" s3]
    by (simp add: service)
  have "reachable sample_service s3"
    using reachable.start reachable.step one two three by metis
  then show thesis
    by (rule that [of s3 r]) (use s2 r in \<open>simp_all add: s3_def\<close>)
qed

text \<open>What the service says of that pull request.\<close>

lemma sample_view:
  assumes rows: "lg_rows s = [r]" and minted: "lg_minted s = [sample_key \<mapsto> sample_mint]"
    and spend: "lg_spend s = [(sample_key, \<lparr>coefficient = Some 4, scale = 2\<rparr>)]"
    and r: "sw_grade r = gradeExact" "sw_identity r = identityToken" "sw_currency r = ''USD''"
    "sw_repo r = Some ''github.com/acme/app''" "sw_pr r = Some ''7''" "sw_run r = Some ''5''" "sw_attempt r = Some ''1''"
    "sw_credential_basis r = Some CredentialMinted" "SubAccountID (sw_document r) = Some sample_key" "sw_source r = sourceStream"
  shows "PullRequest s ''github.com/acme/app'' ''7'' = [line_of r [r]]"
    and "measuredSpend True s ''github.com/acme/app'' ''7'' =
      \<lparr>ms_kept = True, ms_rows = 1, ms_usd = \<lparr>coefficient = Some 4, scale = 2\<rparr>\<rparr>"
    and "bv_Basis (budgetOf [line_of r [r]] \<lparr>ms_kept = True, ms_rows = 1, ms_usd = \<lparr>coefficient = Some 4, scale = 2\<rparr>\<rparr>) =
      budgetBasisGateway"
proof -
  have mint: "mc_Repository sample_mint = ''github.com/acme/app''" "mc_RunID sample_mint = ''5''" "mc_RunAttempt sample_mint = ''1''"
    by (simp_all add: sample_mint_def)
  have eligible: "budget_eligible r" by (simp add: budget_eligible_def r)
  have pr: "pull_request_rows s ''github.com/acme/app'' ''7'' = [r]" by (simp add: pull_request_rows_def rows r)
  show "PullRequest s ''github.com/acme/app'' ''7'' = [line_of r [r]]" by (simp add: PullRequest_def pr)
  have "spend_key s r = Some sample_key" unfolding spend_key_iff by (simp add: r minted spend mint eligible)
  then have "counted s ''github.com/acme/app'' ''7'' = [sample_key]" by (simp add: counted_def pr List.map_filter_simps)
  moreover have "exact_sum [\<lparr>coefficient = Some 4, scale = 2\<rparr>] = \<lparr>coefficient = Some 4, scale = 2\<rparr>" by code_simp
  ultimately show "measuredSpend True s ''github.com/acme/app'' ''7'' =
      \<lparr>ms_kept = True, ms_rows = 1, ms_usd = \<lparr>coefficient = Some 4, scale = 2\<rparr>\<rparr>"
    by (simp add: measuredSpend_def GatewaySpend_def spend)
  have "0 \<le> Sign \<lparr>coefficient = Some 4, scale = 2\<rparr>" by (simp add: dval_def wf_decimal_def)
  then show "bv_Basis (budgetOf [line_of r [r]] \<lparr>ms_kept = True, ms_rows = 1, ms_usd = \<lparr>coefficient = Some 4, scale = 2\<rparr>\<rparr>) =
      budgetBasisGateway"
    by (simp add: budgetOf_def line_of_def eligible r Let_def)
qed

theorem exact_rows_are_earned_witness:
  "\<exists>s r key m. reachable sample_service s \<and> r \<in> set (lg_rows s) \<and> sw_grade r = gradeExact \<and>
     minted_for (lg_minted s) r key m \<and> mc_Environment m = ''gateway''"
proof -
  obtain s r where s: "reachable sample_service s" "lg_rows s = [r]" "sw_grade r = gradeExact" by (rule sample_run)
  then have "r \<in> set (lg_rows s)" by simp
  moreover have "sv_environment sample_service = ''gateway''" by (simp add: sample_service_def)
  ultimately show ?thesis using exact_rows_are_earned [OF s(1), of r] s by metis
qed


definition verdict_lines :: ledger_request where
  "verdict_lines =
     \<lparr>lq_Lines = [\<lparr>ll_Currency = ''USD'', ll_ListCost = \<lparr>coefficient = Some 375, scale = 4\<rparr>, ll_Rows = 1, ll_Model = ''m'',
        ll_Verified = True, ll_Attributed = True\<rparr>],
      lq_Evidence = GatewayMeasured, lq_MeasuredUSD = \<lparr>coefficient = Some 4, scale = 2\<rparr>,
      lq_Config = \<lparr>cf_Data = [], cf_Found = True, cf_Ref = replicate 40 (CHR ''d''), cf_FromBase = True, cf_Unread = None\<rparr>,
      lq_Start = \<lparr>st_At = zero_time, st_NotOnBase = False\<rparr>, lq_MeasuredPullRequests = 0, lq_At = sample_now\<rparr>"

definition sample_verdict_request :: verdict_request where
  "sample_verdict_request =
     \<lparr>vq_Config = Some ''x'', vq_ConfigRef = replicate 40 (CHR ''d''), vq_WorkflowAdded = [],
      vq_WorkflowNotOnBase = False, vq_MeasuredPullRequests = 0\<rparr>"

lemma verdict_concludes: "concludes (EvaluateLedger pull_request_env verdict_lines) Success"
  by code_simp

lemma verdict_request_read:
  "readVerdictRequest (\<lambda>_. Some sample_verdict_request) (\<lambda>_. Some []) [] =
     Inr (sample_verdict_request, lq_Config verdict_lines, lq_Start verdict_lines)"
proof -
  have "policyCommitPattern (replicate 40 (CHR ''d''))" by code_simp
  then show ?thesis
    by (simp add: readVerdictRequest_def stated_config_def stated_start_def sample_verdict_request_def verdict_lines_def
        maxMeasuredPullRequests_def Let_def)
qed

lemma verdict_input_sample:
  assumes "sw_grade r = gradeExact" "sw_identity r = identityToken" "sw_currency r = ''USD''"
    and "sw_list_cost r = \<lparr>coefficient = Some 375, scale = 4\<rparr>" "sw_model r = Some ''m''"
    and "bv_Basis (budgetOf [line_of r [r]] m) = budgetBasisGateway" "ms_usd m = \<lparr>coefficient = Some 4, scale = 2\<rparr>"
  shows "verdict_input [line_of r [r]] m (sample_verdict_request, lq_Config verdict_lines, lq_Start verdict_lines) sample_now =
    verdict_lines"
proof -
  have sum: "exact_sum [\<lparr>coefficient = Some 375, scale = 4\<rparr>] = \<lparr>coefficient = Some 375, scale = 4\<rparr>" by code_simp
  have line: "ledgerLines [line_of r [r]] = lq_Lines verdict_lines"
    by (simp add: ledgerLines_def ledger_line_of_def line_of_def coalesce_def verdict_lines_def assms sum)
  show ?thesis
    using assms(6,7) unfolding verdict_input_def Let_def line
    by (simp add: evidenceOf_def sample_verdict_request_def verdict_lines_def)
qed


end
