(* ===== verification/Spec2Isabelle.thy ===== *)
theory Spec2Isabelle
  imports Prelude Totals Decimal Instant Focus Catalog Adapter CIContext Gateway Run PolicyUsage PolicyPack Policy Store
    Fanout Otlp ReconReport ReconLedger Reconcile ReconVerdict ReconStore ReconSaved ReconTable CommentRows CommentLedger CommentBlock CommentWords CommentSafety CommentCap CommentConfig History ScmLimiter ScmEvent ScmWebhook ScmApproval ScmGitHub ScmGitLab Egress ServerJoin ServerAuth Oidc ServerRows ServerTelemetry ServerVerdict ServerLedger ServerBudget
begin

text \<open>
  Costroid prices what an AI coding agent spends in CI and holds a pull request to its budget. A run of the
  command wraps an agent, prices its usage from pinned sheets, writes FOCUS rows, judges them under a policy
  and states the result in a check and a comment. The ledger service takes rows and telemetry from CI, joins
  them to a verified token, and reconciliation compares the ledger with the provider's own report. The theories
  below model these parts of the Go code under \<open>src/internal\<close>, each definition from the function or type the
  name of which it keeps where Isabelle allows it.

  \<^bold>\<open>The parts and how they meet.\<close>

  \<^item> \<open>Prelude\<close>: Go's strings, results, integers and maps, and the lemmas every part shares. \<open>rbind\<close>, \<open>rfold\<close> and
    \<open>rtraverse\<close> are a loop that returns at the first error; \<open>upsert\<close> is a Go map met in the order of its keys.
    \<open>Totals\<close>: the interface of a fold of exact additions (locales), interpreted by every part that adds figures up.
  \<^item> \<open>Decimal\<close> (\<open>decimal\<close>), \<open>Instant\<close> (Go's \<open>time\<close>), \<open>Focus\<close> (\<open>focus\<close>: row, charge, periods, check), \<open>Catalog\<close>
    (\<open>catalog\<close>: the lookup of one token class), \<open>Adapter\<close> (\<open>adapter\<close>: what an agent's report holds), \<open>CIContext\<close>
    (\<open>cicontext\<close>). A charge is the catalog's price times the counts; a row states it and is checked.
  \<^item> \<open>Gateway\<close> (\<open>gateway\<close>): one run's sealed key, its inspection, count, minting and settling. \<open>Run\<close> (\<open>run\<close>): the
    report becomes rows under a grade the gateway's facts earn; the stop at the budget and its overshoot bound.
  \<^item> \<open>PolicyUsage\<close>, \<open>PolicyPack\<close>, \<open>Policy\<close> (\<open>policy\<close>): settings, the usage an evaluation reads, the default pack (the
    Rego rules as functions), and the evaluations of a run and of the ledger.
  \<^item> \<open>CommentRows\<close>, \<open>CommentLedger\<close>, \<open>CommentBlock\<close>, \<open>CommentWords\<close>, \<open>CommentCap\<close>, \<open>CommentSafety\<close>, \<open>CommentConfig\<close>
    (\<open>comment\<close>): the rows file reduced to figures and traces, the result object, the check's conclusion and its
    approval, the cap, every sentence, and the settings. \<open>History\<close> (\<open>history\<close>) reads earlier result objects back
    and adds them up for the comment and for the policy's pull request budget.
  \<^item> \<open>ScmLimiter\<close>, \<open>ScmEvent\<close>, \<open>ScmWebhook\<close>, \<open>ScmApproval\<close>, \<open>ScmGitHub\<close>, \<open>ScmGitLab\<close> (\<open>scm\<close>): the limits of an
    installation, the deliveries of a webhook, who approves a head, and the two hosts' adapters. \<open>Egress\<close> (\<open>egress\<close>):
    the allowlist every outbound call of the service passes, and the counters of its calls.
  \<^item> \<open>Store\<close> (\<open>store\<close>), \<open>ServerJoin\<close>, \<open>ServerAuth\<close>, \<open>ServerRows\<close>, \<open>ServerTelemetry\<close>, \<open>ServerVerdict\<close>, \<open>ServerLedger\<close>,
    \<open>ServerBudget\<close> (\<open>server\<close>), \<open>Oidc\<close> (\<open>oidc\<close>: the check of a CI token and its issuer's keys), \<open>Otlp\<close> (\<open>otlp\<close>: the attribute allowlist) and \<open>Fanout\<close> (\<open>fanout\<close>): the ledger's tables,
    who a request proved to be, what it may write, and the verdict over a pull request. The store's tables are
    the state, and \<open>ServerLedger\<close>'s step relation is every request, with the interleaving of two transactions.
  \<^item> \<open>ReconReport\<close>, \<open>ReconLedger\<close>, \<open>Reconcile\<close>, \<open>ReconVerdict\<close>, \<open>ReconStore\<close>, \<open>ReconSaved\<close>, \<open>ReconTable\<close>
    (\<open>reconcile\<close>): a provider's report cut into windows and read page by page, the ledger's totals, one comparison
    with its tolerances and causes, the file of rows, saved reports and the table's words.

  \<^bold>\<open>What the lemmas show.\<close> Arithmetic is exact (\<open>Decimal\<close>), and every total of the program is the exact sum of its
  items (\<open>Totals\<close> and its instances): the run, the usage, the comment, the history, the ledger. A grade, a success
  and an approval are earned: each is characterised by the facts it stands on. The ledger refines a map that keeps
  the first write of an id, and its reachable states keep the invariants of \<open>ServerLedger\<close>. Loops end and read
  everything or refuse: windows, pages, chunks. Limits hold in every window, tolerances are exact and inclusive, and
  round trips return the canonical text.

  \<^bold>\<open>Conventions.\<close> A Go string is its list of bytes. \<open>strings.ToLower\<close>, \<open>ToUpper\<close> and \<open>EqualFold\<close> are modelled on ASCII
  text, which the patterns they are used beside require, and \<open>TrimSpace\<close> on ASCII except in \<open>CommentBlock\<close>. \<open>int64\<close>
  sums wrap where the code can overflow. An instant is nanoseconds since the epoch, and a duration does not
  saturate, which only a difference of 292 years shows. A mutex makes a call one step. A Go map is a list in the order
  its keys were met wherever the code sorts it afterwards.

  \<^bold>\<open>Bounds and fuel.\<close> Pages of a provider's report stop at 10,000 as the code's \<open>maxPages\<close> does; the hosts' lists stop
  at the code's page bounds, and \<open>pull_commits_from\<close> ends because each further page adds a hundred commits to a list
  that stops at 250. \<open>windows\<close> is a \<open>partial_function\<close>, proved to return for every positive limit and not for others.
  \<open>unread_walk\<close> has fuel 3, the depth of the known keys, and \<open>strip_front\<close> the length of its text.

  \<^bold>\<open>Parameters.\<close> JSON, YAML and base64 decoding, SHA-256, HMAC, sealing and signing, RSA, the clock, HTTP
  exchanges and the answers of hosts and providers are arguments of the definitions that use them.

  \<^bold>\<open>Not modelled.\<close> The Claude Code and Codex adapters (readers of the agents' own JSON streams), the decoders of
  OTLP's two encodings and their dialects, the Markdown templates and the column alignment, \<open>config\<close>
  (flags, environment and a file), the HTTP handling, start-up
  and key administration of the service, migrations and the connection of the store, starting and stopping the
  agent's process, the worker loop of the webhook queue, \<open>recipelint\<close>, the scripts and the command line. They are input
  and output, generated or tooling around the parts above.
\<close>

end
